(* ===== verification/Prelude.thy ===== *)
theory Prelude
  imports Main
begin

text \<open>
  Shared vocabulary of the development.

  \<^item> Exceptions of the TypeScript code as values of the datatype \<open>exn\<close>: Nest's
    \<open>HttpException\<close> with its status and message, Prisma's known request errors with their
    code, and any other thrown error.
  \<^item> Code that runs inside a database transaction as a function \<open>'s \<Rightarrow> (exn + 'a) \<times> 's\<close>:
    a thrown exception keeps the writes made before it, as it does in the code, where only the
    enclosing transaction undoes them. \<open>andThen\<close> sequences, \<open>raise\<close> throws, \<open>tryCatch\<close>
    is \<open>try/catch\<close>.
  \<^item> Database tables as lists of rows in insertion order, with the lemmas on
    lookup by key (locale \<open>keyed\<close>) that the components share.
\<close>

section \<open>Lemma collections\<close>

named_theorems op_simps \<open>rewriting of sequenced transaction code\<close>
named_theorems row_simps \<open>rewriting of table lookups and updates\<close>

section \<open>Exceptions\<close>

datatype exn =
    HttpException nat string
  | PrismaKnownError string "string option"
  | OtherError string

abbreviation BadRequest :: "string \<Rightarrow> exn" where
  "BadRequest \<equiv> HttpException 400"
abbreviation Unauthorized :: "string \<Rightarrow> exn" where
  "Unauthorized \<equiv> HttpException 401"
abbreviation NotFound :: "string \<Rightarrow> exn" where
  "NotFound \<equiv> HttpException 404"
abbreviation Conflict :: "string \<Rightarrow> exn" where
  "Conflict \<equiv> HttpException 409"
abbreviation InternalServerError :: "string \<Rightarrow> exn" where
  "InternalServerError \<equiv> HttpException 500"
abbreviation ServiceUnavailable :: "string \<Rightarrow> exn" where
  "ServiceUnavailable \<equiv> HttpException 503"

abbreviation P2002 :: exn where
  "P2002 \<equiv> PrismaKnownError ''P2002'' None"

text \<open>A database check constraint or trigger that raises (SQLSTATE 23514).\<close>

abbreviation CheckViolation :: exn where
  "CheckViolation \<equiv> OtherError ''23514''"

section \<open>Pure fallible code\<close>

definition ebind :: "exn + 'a \<Rightarrow> ('a \<Rightarrow> exn + 'b) \<Rightarrow> exn + 'b" where
  "ebind m f = (case m of Inl e \<Rightarrow> Inl e | Inr x \<Rightarrow> f x)"

definition ensure :: "bool \<Rightarrow> exn \<Rightarrow> exn + unit" where
  "ensure c e = (if c then Inr () else Inl e)"

lemma ebind_simps [simp]:
  "ebind (Inl e) f = Inl e"
  "ebind (Inr x) f = f x"
  by (simp_all add: ebind_def)

lemma ebind_eq_Inr: "ebind m f = Inr y \<longleftrightarrow> (\<exists>x. m = Inr x \<and> f x = Inr y)"
  by (cases m) auto

lemma ebind_eq_Inl: "ebind m f = Inl e \<longleftrightarrow> m = Inl e \<or> (\<exists>x. m = Inr x \<and> f x = Inl e)"
  by (cases m) auto

lemma ensure_eq_Inr [simp]: "ensure c e = Inr u \<longleftrightarrow> c"
  by (simp add: ensure_def)

lemma ensure_eq_Inl [simp]: "ensure c e = Inl e' \<longleftrightarrow> \<not> c \<and> e' = e"
  by (auto simp: ensure_def)

lemma ensure_True [simp]: "ensure True e = Inr ()"
  by (simp add: ensure_def)

lemma ensure_False [simp]: "ensure False e = Inl e"
  by (simp add: ensure_def)

section \<open>Code inside a transaction\<close>

type_synonym ('s, 'a) op = "'s \<Rightarrow> (exn + 'a) \<times> 's"

definition return :: "'a \<Rightarrow> ('s, 'a) op" where
  "return x = (\<lambda>s. (Inr x, s))"

definition raise :: "exn \<Rightarrow> ('s, 'a) op" where
  "raise e = (\<lambda>s. (Inl e, s))"

definition andThen :: "('s, 'a) op \<Rightarrow> ('a \<Rightarrow> ('s, 'b) op) \<Rightarrow> ('s, 'b) op" where
  "andThen m f = (\<lambda>s. case m s of (Inl e, s') \<Rightarrow> (Inl e, s') | (Inr x, s') \<Rightarrow> f x s')"

definition require :: "bool \<Rightarrow> exn \<Rightarrow> ('s, unit) op" where
  "require c e = (\<lambda>s. (ensure c e, s))"

text \<open>A pure computation that may throw, and a query that reads the state.\<close>

definition lift :: "exn + 'a \<Rightarrow> ('s, 'a) op" where
  "lift r = (\<lambda>s. (r, s))"

definition query :: "('s \<Rightarrow> 'a) \<Rightarrow> ('s, 'a) op" where
  "query f = (\<lambda>s. (Inr (f s), s))"

definition modify :: "('s \<Rightarrow> 's) \<Rightarrow> ('s, unit) op" where
  "modify f = (\<lambda>s. (Inr (), f s))"

definition tryCatch :: "('s, 'a) op \<Rightarrow> (exn \<Rightarrow> ('s, 'a) op) \<Rightarrow> ('s, 'a) op" where
  "tryCatch m h = (\<lambda>s. case m s of (Inl e, s') \<Rightarrow> h e s' | (Inr x, s') \<Rightarrow> (Inr x, s'))"

text \<open>A call that the database may refuse with an error of its own.\<close>

definition unlessError :: "exn option \<Rightarrow> ('s, 'a) op \<Rightarrow> ('s, 'a) op" where
  "unlessError err m = (case err of Some e \<Rightarrow> raise e | None \<Rightarrow> m)"

text \<open>\<open>for (const x of xs) await f(x)\<close>\<close>

fun forEach :: "('a \<Rightarrow> ('s, unit) op) \<Rightarrow> 'a list \<Rightarrow> ('s, unit) op" where
  "forEach f [] = return ()"
| "forEach f (x # xs) = andThen (f x) (\<lambda>_. forEach f xs)"

lemma op_apply [op_simps]:
  "return x s = (Inr x, s)"
  "raise e s = (Inl e, s)"
  "lift r s = (r, s)"
  "query g s = (Inr (g s), s)"
  "modify u s = (Inr (), u s)"
  by (simp_all add: return_def raise_def lift_def query_def modify_def)

lemma require_apply [op_simps]: "require c e s = (if c then (Inr (), s) else (Inl e, s))"
  by (simp add: require_def ensure_def)

lemma andThen_apply: "andThen m f s = (case m s of (Inl e, s') \<Rightarrow> (Inl e, s') | (Inr x, s') \<Rightarrow> f x s')"
  by (simp add: andThen_def)

lemma andThen_steps [op_simps]:
  "andThen (return x) f s = f x s"
  "andThen (raise e) g s = (Inl e, s)"
  "andThen (query q) h s = h (q s) s"
  "andThen (modify u) k s = k () (u s)"
  "andThen (require c e) k s = (if c then k () s else (Inl e, s))"
  "andThen (lift r) f s = (case r of Inl e \<Rightarrow> (Inl e, s) | Inr x \<Rightarrow> f x s)"
  by (auto simp: andThen_def op_simps split: sum.splits)

lemma andThen_Inr [op_simps]:
  "andThen m f s = (Inr y, s'') \<longleftrightarrow> (\<exists>x s'. m s = (Inr x, s') \<and> f x s' = (Inr y, s''))"
  by (auto simp: andThen_def split: prod.splits sum.splits)

lemma andThen_Inl:
  "andThen m f s = (Inl e, s'') \<longleftrightarrow>
     m s = (Inl e, s'') \<or> (\<exists>x s'. m s = (Inr x, s') \<and> f x s' = (Inl e, s''))"
  by (auto simp: andThen_def split: prod.splits sum.splits)

lemma andThen_InrI: "m s = (Inr x, s') \<Longrightarrow> andThen m f s = f x s'"
  by (simp add: andThen_def)

lemma andThen_InlI: "m s = (Inl e, s') \<Longrightarrow> andThen m f s = (Inl e, s')"
  by (simp add: andThen_def)

lemma andThen_assoc: "andThen (andThen m f) g = andThen m (\<lambda>x. andThen (f x) g)"
  by (auto simp: andThen_def fun_eq_iff split: prod.splits sum.splits)

lemma tryCatch_cases:
  "tryCatch m h s = (case m s of (Inl e, s') \<Rightarrow> h e s' | (Inr x, s') \<Rightarrow> (Inr x, s'))"
  by (simp add: tryCatch_def)

text \<open>An operation that only reads leaves the state alone, whether it throws or not.\<close>

definition readonly :: "('s, 'a) op \<Rightarrow> bool" where
  "readonly m \<longleftrightarrow> (\<forall>s. snd (m s) = s)"

lemma readonly_basic [simp, intro]:
  "readonly (return x)" "readonly (raise e)" "readonly (lift r)" "readonly (query g)"
  "readonly (require c e)"
  by (simp_all add: readonly_def op_simps)

lemma readonly_andThen [intro]:
  "readonly m \<Longrightarrow> (\<And>x. readonly (f x)) \<Longrightarrow> readonly (andThen m f)"
  by (auto simp: readonly_def andThen_def split: prod.splits sum.splits) (metis snd_conv)+

lemma readonly_state: "readonly m \<Longrightarrow> m s = (r, s') \<Longrightarrow> s' = s"
  by (metis readonly_def snd_conv)

section \<open>Tables\<close>

text \<open>
  \<open>findUnique\<close> and \<open>findFirst\<close> return the first row with a property; \<open>update\<close> with a unique
  filter rewrites the matching rows in place; \<open>create\<close> appends.
\<close>

definition findRow :: "('r \<Rightarrow> bool) \<Rightarrow> 'r list \<Rightarrow> 'r option" where
  "findRow p rs = find p rs"

definition updateRows :: "('r \<Rightarrow> bool) \<Rightarrow> ('r \<Rightarrow> 'r) \<Rightarrow> 'r list \<Rightarrow> 'r list" where
  "updateRows p f rs = map (\<lambda>r. if p r then f r else r) rs"

definition existsRow :: "('r \<Rightarrow> bool) \<Rightarrow> 'r list \<Rightarrow> bool" where
  "existsRow p rs = list_ex p rs"

lemma findRow_simps [simp]:
  "findRow p [] = None"
  "findRow p (r # rs) = (if p r then Some r else findRow p rs)"
  by (simp_all add: findRow_def)

lemma findRow_append [row_simps]:
  "findRow p (rs @ ss) = (case findRow p rs of None \<Rightarrow> findRow p ss | Some r \<Rightarrow> Some r)"
  by (induction rs) auto

lemma findRow_SomeD: "findRow p rs = Some r \<Longrightarrow> r \<in> set rs \<and> p r"
  by (induction rs) (auto split: if_splits)

lemma findRow_None [row_simps]: "findRow p rs = None \<longleftrightarrow> (\<forall>r \<in> set rs. \<not> p r)"
  by (induction rs) auto

lemma findRow_cong: "(\<And>r. r \<in> set rs \<Longrightarrow> p r = q r) \<Longrightarrow> findRow p rs = findRow q rs"
  by (induction rs) auto

lemma updateRows_simps [simp]:
  "updateRows p f [] = []"
  "updateRows p f (r # rs) = (if p r then f r else r) # updateRows p f rs"
  by (simp_all add: updateRows_def)

lemma length_updateRows [simp]: "length (updateRows p f rs) = length rs"
  by (simp add: updateRows_def)

lemma updateRows_append [simp]: "updateRows p f (rs @ ss) = updateRows p f rs @ updateRows p f ss"
  by (simp add: updateRows_def)

lemma set_updateRows: "set (updateRows p f rs) = (\<lambda>r. if p r then f r else r) ` set rs"
  by (simp add: updateRows_def)

lemma map_updateRows [row_simps]:
  "(\<And>r. p r \<Longrightarrow> g (f r) = g r) \<Longrightarrow> map g (updateRows p f rs) = map g rs"
  by (induction rs) auto

lemma updateRows_none: "(\<And>r. r \<in> set rs \<Longrightarrow> \<not> p r) \<Longrightarrow> updateRows p f rs = rs"
  by (induction rs) auto

lemma updateRows_cong:
  "(\<And>r. r \<in> set rs \<Longrightarrow> p r = q r) \<Longrightarrow> (\<And>r. r \<in> set rs \<Longrightarrow> p r \<Longrightarrow> f r = g r) \<Longrightarrow>
   updateRows p f rs = updateRows q g rs"
  by (induction rs) auto

lemma findRow_updateRows:
  "(\<And>r. p r \<Longrightarrow> q (f r) = q r) \<Longrightarrow>
   findRow q (updateRows p f rs) = map_option (\<lambda>r. if p r then f r else r) (findRow q rs)"
  by (induction rs) auto

lemma existsRow_iff [row_simps]: "existsRow p rs \<longleftrightarrow> (\<exists>r \<in> set rs. p r)"
  by (simp add: existsRow_def list_ex_iff)

lemma existsRow_code [simp]:
  "existsRow p [] = False"
  "existsRow p (r # rs) = (p r \<or> existsRow p rs)"
  by (simp_all add: existsRow_def)

subsection \<open>Tables with a key\<close>

text \<open>
  The contract every table with a primary key gives its clients: what a lookup by key
  returns after an append, an in-place update of one row, or an update elsewhere. The laws
  ask only that the update keeps the key, which Prisma's \<open>data\<close> objects always do here.
\<close>

locale keyed =
  fixes key :: "'r \<Rightarrow> 'k"
begin

definition lookup :: "'k \<Rightarrow> 'r list \<Rightarrow> 'r option" where
  "lookup k rs = findRow (\<lambda>r. key r = k) rs"

definition put :: "'k \<Rightarrow> ('r \<Rightarrow> 'r) \<Rightarrow> 'r list \<Rightarrow> 'r list" where
  "put k f rs = updateRows (\<lambda>r. key r = k) f rs"

definition unique :: "'r list \<Rightarrow> bool" where
  "unique rs \<longleftrightarrow> distinct (map key rs)"

lemma lookup_Some: "lookup k rs = Some r \<Longrightarrow> r \<in> set rs \<and> key r = k"
  unfolding lookup_def by (drule findRow_SomeD) simp

lemma lookup_unique: "unique rs \<Longrightarrow> lookup k rs = Some r \<longleftrightarrow> r \<in> set rs \<and> key r = k"
  by (induction rs) (auto simp: lookup_def unique_def)

lemma lookup_append_other: "key r \<noteq> k \<Longrightarrow> lookup k (rs @ [r]) = lookup k rs"
  by (simp add: lookup_def findRow_append split: option.splits)

lemma lookup_append_new: "lookup (key r) rs = None \<Longrightarrow> lookup (key r) (rs @ [r]) = Some r"
  by (simp add: lookup_def findRow_append)

lemma unique_append: "unique rs \<Longrightarrow> lookup (key r) rs = None \<Longrightarrow> unique (rs @ [r])"
  by (auto simp: unique_def lookup_def findRow_None)

lemma unique_put: "(\<And>r. key r = k \<Longrightarrow> key (f r) = k) \<Longrightarrow> unique (put k f rs) = unique rs"
proof -
  assume "\<And>r. key r = k \<Longrightarrow> key (f r) = k"
  then have "map key (put k f rs) = map key rs"
    unfolding put_def by (intro map_updateRows) auto
  then show ?thesis by (simp add: unique_def)
qed

lemma lookup_put:
  "(\<And>r. key r = k \<Longrightarrow> key (f r) = k) \<Longrightarrow>
   lookup j (put k f rs) = (if j = k then map_option f (lookup j rs) else lookup j rs)"
  unfolding lookup_def put_def
  by (induction rs) auto

lemma sum_put:
  fixes h :: "'r \<Rightarrow> int"
  assumes "unique rs" "lookup k rs = Some r"
  shows "(\<Sum>x \<leftarrow> put k f rs. h x) = (\<Sum>x \<leftarrow> rs. h x) - h r + h (f r)"
  using assms
proof (induction rs)
  case Nil
  then show ?case by (simp add: lookup_def)
next
  case (Cons a rs)
  show ?case
  proof (cases "key a = k")
    case True
    with Cons.prems have "a = r" and "key a \<notin> key ` set rs"
      by (auto simp: lookup_def unique_def)
    with True have "\<And>x. x \<in> set rs \<Longrightarrow> key x \<noteq> k"
      by (metis imageI)
    then have "put k f rs = rs"
      unfolding put_def by (auto intro: updateRows_none)
    with True \<open>a = r\<close> show ?thesis by (simp add: put_def)
  next
    case False
    with Cons show ?thesis by (simp add: put_def lookup_def unique_def)
  qed
qed

end

lemmas keyed_code [code] = keyed.lookup_def keyed.put_def keyed.unique_def

lemma existsRow_key: "existsRow (\<lambda>r. key r = k) rs \<longleftrightarrow> k \<in> key ` set rs"
  by (auto simp: existsRow_iff)

section \<open>Lists\<close>

lemma distinct_map_inj: "distinct (map f xs) \<Longrightarrow> x \<in> set xs \<Longrightarrow> y \<in> set xs \<Longrightarrow> f x = f y \<Longrightarrow> x = y"
  by (meson distinct_map inj_onD)

lemma sum_list_map_eq_0: "(\<And>x. x \<in> set xs \<Longrightarrow> h x = (0::int)) \<Longrightarrow> sum_list (map h xs) = 0"
  by (induction xs) auto

lemma sum_list_filter_map:
  "sum_list (map (\<lambda>x. if p x then h x else (0::int)) xs) = sum_list (map h (filter p xs))"
  by (induction xs) auto

lemma notin_image: "k \<notin> f ` S \<longleftrightarrow> (\<forall>r \<in> S. f r \<noteq> k)"
  by auto

text \<open>Summing by group is summing everything that belongs to a group.\<close>

lemma sum_list_group:
  fixes h :: "'p \<Rightarrow> int"
  assumes "distinct (map key rs)"
  shows "(\<Sum>r \<leftarrow> rs. \<Sum>p \<leftarrow> ps. if f p = key r then h p else 0) =
         (\<Sum>p \<leftarrow> ps. if f p \<in> key ` set rs then h p else 0)"
  using assms
proof (induction rs)
  case (Cons r rs)
  have "(\<Sum>p \<leftarrow> ps. if f p = key r then h p else 0) + (\<Sum>p \<leftarrow> ps. if f p \<in> key ` set rs then h p else 0) =
      (\<Sum>p \<leftarrow> ps. if f p \<in> key ` set (r # rs) then h p else 0)"
    using Cons.prems by (induction ps) auto
  with Cons show ?case by simp
qed simp

end
