(* ===== verification/JsRuntime.thy ===== *)
theory JsRuntime
  imports Prelude
begin

text \<open>
  The part of the JavaScript standard library the services use: \<open>String.prototype.trim\<close>,
  \<open>toLowerCase\<close>, \<open>slice\<close>, the conversion of a string to a \<open>bigint\<close> and back, and
  \<open>JSON.stringify\<close> on the values that are hashed or sent.

  A JavaScript string is its list of code units. The model has the code units below 256 (the
  characters of type \<open>char\<close>); \<open>length\<close> counts code units, as \<open>.length\<close> does. A \<open>bigint\<close> is
  an \<open>int\<close>: it has no width, and the code that needs one checks the range itself.
\<close>

section \<open>Strings\<close>

abbreviation code :: "char \<Rightarrow> nat" where
  "code c \<equiv> of_char c"

text \<open>The white space and line terminators that \<open>trim\<close> removes, below 256.\<close>

definition js_whitespace :: "char \<Rightarrow> bool" where
  "js_whitespace c \<longleftrightarrow> code c \<in> {9, 10, 11, 12, 13, 32, 160}"

definition js_trim :: "string \<Rightarrow> string" where
  "js_trim s = rev (dropWhile js_whitespace (rev (dropWhile js_whitespace s)))"

text \<open>\<open>toLowerCase\<close>: ASCII capitals and the Latin-1 capitals (all of C0..DE but D7).\<close>

definition js_lower :: "char \<Rightarrow> char" where
  "js_lower c = (if (65 \<le> code c \<and> code c \<le> 90) \<or>
                    (192 \<le> code c \<and> code c \<le> 222 \<and> code c \<noteq> 215)
                 then char_of (code c + 32) else c)"

definition js_toLowerCase :: "string \<Rightarrow> string" where
  "js_toLowerCase s = map js_lower s"

definition isDigit :: "char \<Rightarrow> bool" where
  "isDigit c \<longleftrightarrow> 48 \<le> code c \<and> code c \<le> 57"

definition isUpper :: "char \<Rightarrow> bool" where
  "isUpper c \<longleftrightarrow> 65 \<le> code c \<and> code c \<le> 90"

definition isLower :: "char \<Rightarrow> bool" where
  "isLower c \<longleftrightarrow> 97 \<le> code c \<and> code c \<le> 122"

definition isAlnum :: "char \<Rightarrow> bool" where
  "isAlnum c \<longleftrightarrow> isDigit c \<or> isUpper c \<or> isLower c"

lemma dropWhile_hd: "dropWhile p s = [] \<or> \<not> p (hd (dropWhile p s))"
  by (induction s) auto

lemma dropWhile_eq_self: "s = [] \<or> \<not> p (hd s) \<Longrightarrow> dropWhile p s = s"
  by (cases s) auto

lemma dropWhile_idem [simp]: "dropWhile p (dropWhile p s) = dropWhile p s"
  by (induction s) auto

lemma dropWhile_suffix: "\<exists>pre. s = pre @ dropWhile p s"
  by (metis takeWhile_dropWhile_id)

text \<open>A trimmed string neither begins nor ends with white space, and trimming it again
  changes nothing (the database's \<open>= btrim\<close> checks rely on this).\<close>

lemma js_trim_last: "js_trim s = [] \<or> \<not> js_whitespace (last (js_trim s))"
  using dropWhile_hd [of js_whitespace "rev (dropWhile js_whitespace s)"]
  by (auto simp: js_trim_def last_rev)

lemma js_trim_hd: "js_trim s = [] \<or> \<not> js_whitespace (hd (js_trim s))"
proof (cases "js_trim s = []")
  case False
  let ?d = "dropWhile js_whitespace s"
  obtain pre where "rev ?d = pre @ dropWhile js_whitespace (rev ?d)"
    using dropWhile_suffix by blast
  then have d: "?d = js_trim s @ rev pre"
    by (metis js_trim_def rev_append rev_rev_ident)
  with False have "hd ?d = hd (js_trim s)" and "?d \<noteq> []" by auto
  with dropWhile_hd [of js_whitespace s] show ?thesis by metis
qed simp

lemma js_trim_fixed:
  assumes "s = [] \<or> \<not> js_whitespace (hd s) \<and> \<not> js_whitespace (last s)"
  shows "js_trim s = s"
proof -
  from assms have "dropWhile js_whitespace s = s"
    by (intro dropWhile_eq_self) auto
  moreover from assms have "dropWhile js_whitespace (rev s) = rev s"
    by (intro dropWhile_eq_self) (auto simp: hd_rev)
  ultimately show ?thesis by (simp add: js_trim_def)
qed

lemma js_trim_idem [simp]: "js_trim (js_trim s) = js_trim s"
  using js_trim_hd [of s] js_trim_last [of s] by (intro js_trim_fixed) auto

lemma length_js_trim: "length (js_trim s) \<le> length s"
  unfolding js_trim_def
  by (metis length_dropWhile_le length_rev order_trans)

section \<open>Decimal numerals\<close>

definition digitChar :: "nat \<Rightarrow> char" where
  "digitChar d = char_of (48 + d)"

function showNat :: "nat \<Rightarrow> string" where
  "showNat n = (if n < 10 then [digitChar n] else showNat (n div 10) @ [digitChar (n mod 10)])"
  by pat_completeness auto
termination
  by (relation "measure id") auto

declare showNat.simps [simp del]

text \<open>\<open>String(n)\<close> and \<open>n.toString()\<close> on a \<open>bigint\<close> or an integral number.\<close>

definition js_showInt :: "int \<Rightarrow> string" where
  "js_showInt i = (if i < 0 then CHR ''-'' # showNat (nat (- i)) else showNat (nat i))"

definition digitVal :: "char \<Rightarrow> nat" where
  "digitVal c = (if isDigit c then code c - 48
                 else if 97 \<le> code c \<and> code c \<le> 102 then code c - 87
                 else if 65 \<le> code c \<and> code c \<le> 70 then code c - 55
                 else 255)"

text \<open>A non-empty run of digits of the given base; \<open>None\<close> is the \<open>SyntaxError\<close>.\<close>

definition parseDigits :: "nat \<Rightarrow> string \<Rightarrow> nat option" where
  "parseDigits b s =
     (if s \<noteq> [] \<and> (\<forall>c \<in> set s. digitVal c < b)
      then Some (foldl (\<lambda>acc c. acc * b + digitVal c) 0 s) else None)"

text \<open>\<open>BigInt(s)\<close> on a string: white space is trimmed, the empty string is 0, a sign is
  allowed before decimal digits only, and the prefixes 0x, 0o and 0b select a base.\<close>

definition js_BigInt :: "string \<Rightarrow> int option" where
  "js_BigInt s =
     (case js_trim s of
        [] \<Rightarrow> Some 0
      | c # cs \<Rightarrow>
          if c = CHR ''-'' then map_option (\<lambda>n. - int n) (parseDigits 10 cs)
          else if c = CHR ''+'' then map_option int (parseDigits 10 cs)
          else if c = CHR ''0'' \<and> cs \<noteq> [] \<and> hd cs \<in> {CHR ''x'', CHR ''X''}
            then map_option int (parseDigits 16 (tl cs))
          else if c = CHR ''0'' \<and> cs \<noteq> [] \<and> hd cs \<in> {CHR ''o'', CHR ''O''}
            then map_option int (parseDigits 8 (tl cs))
          else if c = CHR ''0'' \<and> cs \<noteq> [] \<and> hd cs \<in> {CHR ''b'', CHR ''B''}
            then map_option int (parseDigits 2 (tl cs))
          else map_option int (parseDigits 10 (c # cs)))"

lemma code_digitChar: "d < 10 \<Longrightarrow> code (digitChar d) = 48 + d"
  by (simp add: digitChar_def)

lemma isDigit_digitChar: "d < 10 \<Longrightarrow> isDigit (digitChar d)"
  by (simp add: isDigit_def code_digitChar)

lemma digitVal_digitChar [simp]: "d < 10 \<Longrightarrow> digitVal (digitChar d) = d"
  by (simp add: digitVal_def isDigit_digitChar code_digitChar)

lemma digitChar_digitVal: "isDigit c \<Longrightarrow> digitChar (digitVal c) = c"
  by (simp add: digitChar_def digitVal_def isDigit_def)

lemma showNat_digits: "\<forall>c \<in> set (showNat n). isDigit c"
proof (induction n rule: showNat.induct)
  case (1 n)
  then show ?case
    by (subst showNat.simps) (auto simp: isDigit_digitChar)
qed

lemma showNat_nonempty [simp]: "showNat n \<noteq> []"
  by (subst showNat.simps) simp

lemma parse_showNat_acc: "foldl (\<lambda>acc c. acc * 10 + digitVal c) 0 (showNat n) = n"
proof (induction n rule: showNat.induct)
  case (1 n)
  show ?case
  proof (cases "n < 10")
    case True
    then show ?thesis by (subst showNat.simps) simp
  next
    case False
    with 1 show ?thesis by (subst showNat.simps) simp
  qed
qed

lemma digit_val_lt: "isDigit c \<Longrightarrow> digitVal c < 10"
  by (auto simp: digitVal_def isDigit_def)

lemma parseDigits_showNat: "parseDigits 10 (showNat n) = Some n"
  using showNat_digits [of n]
  by (auto simp: parseDigits_def parse_showNat_acc digit_val_lt)

lemma showNat_inject: "showNat m = showNat n \<longleftrightarrow> m = n"
  by (metis parseDigits_showNat option.inject)

lemma digit_not_ws: "isDigit c \<Longrightarrow> \<not> js_whitespace c"
  by (auto simp: isDigit_def js_whitespace_def)

lemma showNat_trim: "js_trim (showNat n) = showNat n"
  using showNat_digits [of n] digit_not_ws
  by (intro js_trim_fixed) (auto intro: hd_in_set last_in_set)

text \<open>No leading zero but in the numeral 0 itself: a printed number is never read with a
  base prefix.\<close>

lemma showNat_hd: "n \<noteq> 0 \<Longrightarrow> hd (showNat n) \<noteq> CHR ''0''"
proof (induction n rule: showNat.induct)
  case (1 n)
  show ?case
  proof (cases "n < 10")
    case True
    then have "showNat n = [digitChar n]" by (subst showNat.simps) simp
    moreover have "digitChar n \<noteq> CHR ''0''"
    proof
      assume "digitChar n = CHR ''0''"
      then have "digitVal (digitChar n) = 0" by (simp add: digitVal_def isDigit_def)
      with True "1.prems" show False by simp
    qed
    ultimately show ?thesis by simp
  next
    case False
    then have "showNat n = showNat (n div 10) @ [digitChar (n mod 10)]"
      by (subst showNat.simps) simp
    with False "1.IH" show ?thesis by simp
  qed
qed

lemma showNat_zero: "showNat 0 = ''0''"
proof -
  have "digitChar 0 = CHR ''0''"
    by (rule of_char_eqI [where 'a = nat]) (simp add: code_digitChar)
  then show ?thesis by (subst showNat.simps) simp
qed

lemma js_BigInt_showNat: "js_BigInt (showNat n) = Some (int n)"
proof (cases "showNat n")
  case (Cons c cs)
  then have dig: "isDigit c" using showNat_digits [of n] by auto
  have "c = CHR ''0'' \<Longrightarrow> cs = []"
    using Cons showNat_hd [of n] showNat_zero by (cases "n = 0") auto
  moreover from dig have "c \<noteq> CHR ''-''" "c \<noteq> CHR ''+''"
    by (auto simp: isDigit_def)
  ultimately show ?thesis
    using Cons parseDigits_showNat [of n] showNat_trim [of n]
    by (auto simp: js_BigInt_def)
qed simp

text \<open>Printing a \<open>bigint\<close> and reading it back is the identity, negative numbers included.\<close>

lemma js_BigInt_showInt: "js_BigInt (js_showInt i) = Some i"
proof (cases "i < 0")
  case True
  let ?n = "nat (- i)"
  have ws: "\<not> js_whitespace CHR ''-''" by (simp add: js_whitespace_def)
  have "js_trim (CHR ''-'' # showNat ?n) = CHR ''-'' # showNat ?n"
    using showNat_digits [of ?n] ws digit_not_ws
    by (intro js_trim_fixed) (auto intro: last_in_set)
  with True show ?thesis
    by (simp add: js_showInt_def js_BigInt_def parseDigits_showNat)
qed (simp add: js_showInt_def js_BigInt_showNat)

lemma js_showInt_inject: "js_showInt i = js_showInt j \<longleftrightarrow> i = j"
  by (metis js_BigInt_showInt option.inject)

section \<open>JSON\<close>

datatype json =
    JNull
  | JBool bool
  | JInt int
  | JDecimal string
  | JStr string
  | JArr "json list"
  | JObj "(string \<times> json) list"

text \<open>\<open>QuoteJSONString\<close>: the seven characters with a short escape, the other control
  characters as \<open>\u00XX\<close>, everything else as it is.\<close>

definition hexDigit :: "nat \<Rightarrow> char" where
  "hexDigit d = (if d < 10 then char_of (48 + d) else char_of (87 + d))"

definition js_escape :: "char \<Rightarrow> string" where
  "js_escape c =
     (if c = CHR 0x22 then [CHR 0x5C, CHR 0x22]
      else if c = CHR 0x5C then [CHR 0x5C, CHR 0x5C]
      else if c = CHR 0x08 then CHR 0x5C # ''b''
      else if c = CHR 0x0C then CHR 0x5C # ''f''
      else if c = CHR 0x0A then CHR 0x5C # ''n''
      else if c = CHR 0x0D then CHR 0x5C # ''r''
      else if c = CHR 0x09 then CHR 0x5C # ''t''
      else if code c < 32 then
        CHR 0x5C # ''u00'' @ [hexDigit (code c div 16), hexDigit (code c mod 16)]
      else [c])"

abbreviation dquote :: char where
  "dquote \<equiv> CHR 0x22"

definition js_quote :: "string \<Rightarrow> string" where
  "js_quote s = dquote # concat (map js_escape s) @ [dquote]"

fun commaSep :: "string list \<Rightarrow> string" where
  "commaSep [] = []"
| "commaSep [x] = x"
| "commaSep (x # y # xs) = x @ '','' @ commaSep (y # xs)"

fun js_stringify :: "json \<Rightarrow> string" where
  "js_stringify JNull = ''null''"
| "js_stringify (JBool b) = (if b then ''true'' else ''false'')"
| "js_stringify (JInt i) = js_showInt i"
| "js_stringify (JDecimal s) = s"
| "js_stringify (JStr s) = js_quote s"
| "js_stringify (JArr xs) = ''['' @ commaSep (map js_stringify xs) @ '']''"
| "js_stringify (JObj kvs) =
     ''{'' @ commaSep (map (\<lambda>(k, v). js_quote k @ '':'' @ js_stringify v) kvs) @ ''}''"

text \<open>
  Quoting is injective and prefix-free: the characters of a string literal can be read back
  one escape at a time, so two objects with the same keys and the same text have the same
  values. This is what makes the request hash a function of the request and of nothing else.
\<close>

definition hexVal :: "char \<Rightarrow> nat" where
  "hexVal c = (if code c < 58 then code c - 48 else code c - 87)"

definition unescape :: "string \<Rightarrow> (char \<times> string) option" where
  "unescape s =
     (case s of [] \<Rightarrow> None
      | c # cs \<Rightarrow>
          if c \<noteq> CHR 0x5C then Some (c, cs)
          else case cs of [] \<Rightarrow> None
            | d # ds \<Rightarrow>
                if d = CHR ''b'' then Some (CHR 0x08, ds)
                else if d = CHR ''f'' then Some (CHR 0x0C, ds)
                else if d = CHR ''n'' then Some (CHR 0x0A, ds)
                else if d = CHR ''r'' then Some (CHR 0x0D, ds)
                else if d = CHR ''t'' then Some (CHR 0x09, ds)
                else if d = CHR ''u'' then
                  Some (char_of (16 * hexVal (ds ! 2) + hexVal (ds ! 3)), drop 4 ds)
                else Some (d, ds))"

lemma hexVal_hexDigit: "d < 16 \<Longrightarrow> hexVal (hexDigit d) = d"
  by (auto simp: hexVal_def hexDigit_def)

lemma unescape_escape: "unescape (js_escape c @ x) = Some (c, x)"
proof -
  have "code c < 256" by (rule nat_of_char_less_256)
  then have "code c div 16 < 16" by linarith
  then have "hexVal (hexDigit (code c div 16)) = code c div 16"
    "hexVal (hexDigit (code c mod 16)) = code c mod 16"
    by (auto intro!: hexVal_hexDigit)
  then show ?thesis by (simp add: unescape_def js_escape_def)
qed

lemma js_escape_hd: "js_escape c \<noteq> [] \<and> hd (js_escape c) \<noteq> dquote"
  by (simp add: js_escape_def)

lemma quoted_body_inject:
  "concat (map js_escape s) @ dquote # r = concat (map js_escape t) @ dquote # r' \<Longrightarrow>
   s = t \<and> r = r'"
proof (induction s arbitrary: t)
  case Nil
  then show ?case
    using js_escape_hd by (cases t) (auto simp: Cons_eq_append_conv, metis hd_Cons_tl list.sel(1))
next
  case (Cons c s)
  show ?case
  proof (cases t)
    case Nil
    with Cons.prems js_escape_hd [of c] show ?thesis
      by (cases "js_escape c") auto
  next
    case (Cons d t')
    with Cons.prems have
      "unescape (js_escape c @ concat (map js_escape s) @ dquote # r) =
       unescape (js_escape d @ concat (map js_escape t') @ dquote # r')"
      by simp
    then have "c = d" "concat (map js_escape s) @ dquote # r = concat (map js_escape t') @ dquote # r'"
      by (simp_all add: unescape_escape)
    with Cons.IH [of t'] Cons show ?thesis by simp
  qed
qed

lemma js_quote_inject: "js_quote s @ r = js_quote t @ r' \<longleftrightarrow> s = t \<and> r = r'"
proof
  assume "js_quote s @ r = js_quote t @ r'"
  then have "concat (map js_escape s) @ dquote # r = concat (map js_escape t) @ dquote # r'"
    by (simp add: js_quote_def)
  then show "s = t \<and> r = r'" by (rule quoted_body_inject)
qed simp

text \<open>\<open>value ?? null\<close> of an optional string.\<close>

definition orNull :: "string option \<Rightarrow> json" where
  "orNull v = (case v of None \<Rightarrow> JNull | Some s \<Rightarrow> JStr s)"

lemma orNull_inject:
  "js_stringify (orNull a) @ r = js_stringify (orNull b) @ r' \<Longrightarrow> a = b \<and> r = r'"
  by (cases a; cases b) (simp_all add: orNull_def js_quote_inject, simp_all add: js_quote_def)

section \<open>Splitting and joining\<close>

text \<open>\<open>split\<close> at a character, \<open>split(/\\s+/)\<close> at runs of white space, and \<open>join\<close>.\<close>

fun splitOn :: "char \<Rightarrow> string \<Rightarrow> string list" where
  "splitOn c [] = [[]]"
| "splitOn c (x # xs) =
     (if x = c then [] # splitOn c xs
      else case splitOn c xs of [] \<Rightarrow> [[x]] | s # ss \<Rightarrow> (x # s) # ss)"

lemma splitOn_nonempty: "splitOn c s \<noteq> []"
  by (induction s) (auto split: list.splits)

lemma splitOn_none: "c \<notin> set s \<Longrightarrow> splitOn c s = [s]"
  by (induction s) auto

lemma splitOn_append: "c \<notin> set s \<Longrightarrow> splitOn c (s @ c # t) = s # splitOn c t"
  by (induction s) auto

lemma splitOn_join: "splitOn c s = t # ts \<Longrightarrow> s = t @ concat (map (\<lambda>u. c # u) ts)"
proof (induction s arbitrary: t ts)
  case (Cons x s)
  obtain u us where u: "splitOn c s = u # us" using splitOn_nonempty [of c s] by (cases "splitOn c s") auto
  from Cons.IH [OF this] have s: "s = u @ concat (map (\<lambda>u. c # u) us)" .
  show ?case
  proof (cases "x = c")
    case True
    with Cons.prems u have "t = []" "ts = u # us" by simp_all
    with True show ?thesis by simp (rule s)
  next
    case False
    with Cons.prems u have "t = x # u" "ts = us" by simp_all
    then show ?thesis by simp (rule s)
  qed
qed simp

function splitSpaces :: "string \<Rightarrow> string list" where
  "splitSpaces s =
     (let word = takeWhile (\<lambda>c. \<not> js_whitespace c) s; rest = dropWhile (\<lambda>c. \<not> js_whitespace c) s
      in if rest = [] then [word] else word # splitSpaces (dropWhile js_whitespace rest))"
  by pat_completeness auto
termination
proof (relation "measure length")
  fix s word rest
  assume r: "rest = dropWhile (\<lambda>c. \<not> js_whitespace c) s" "rest \<noteq> []"
  then have "js_whitespace (hd rest)" using dropWhile_hd [of "\<lambda>c. \<not> js_whitespace c" s] by blast
  with r(2) have "length (dropWhile js_whitespace rest) < length rest"
    by (cases rest) (simp_all add: le_imp_less_Suc length_dropWhile_le)
  also have "length rest \<le> length s" using r(1) length_dropWhile_le by simp
  finally show "(dropWhile js_whitespace rest, s) \<in> measure length" by simp
qed simp

declare splitSpaces.simps [simp del]

fun js_join :: "string \<Rightarrow> string list \<Rightarrow> string" where
  "js_join sep [] = []"
| "js_join sep [s] = s"
| "js_join sep (s # t # r) = s @ sep @ js_join sep (t # r)"

lemma split_joined: "xs \<noteq> [] \<Longrightarrow> \<forall>x \<in> set xs. c \<notin> set x \<Longrightarrow> splitOn c (js_join [c] xs) = xs"
  by (induction "[c]" xs rule: js_join.induct) (simp_all add: splitOn_none splitOn_append)

lemma splitSpaces_word:
  assumes "s \<noteq> []" "\<forall>c \<in> set s. \<not> js_whitespace c"
  shows "splitSpaces s = [s]"
  using assms by (subst splitSpaces.simps) (simp add: takeWhile_eq_all_conv [THEN iffD2])

lemma splitSpaces_two:
  assumes "\<forall>c \<in> set s. \<not> js_whitespace c" "gap \<noteq> []" "\<forall>c \<in> set gap. js_whitespace c"
    and "t \<noteq> []" "\<forall>c \<in> set t. \<not> js_whitespace c"
  shows "splitSpaces (s @ gap @ t) = [s, t]"
proof -
  have g: "takeWhile (\<lambda>c. \<not> js_whitespace c) (gap @ t) = []" "dropWhile (\<lambda>c. \<not> js_whitespace c) (gap @ t) = gap @ t"
    using assms(2,3) by (cases gap; simp)+
  have "dropWhile js_whitespace (gap @ t) = t"
    using assms(3,4,5) by (cases t) (simp_all add: dropWhile_append2)
  with assms(1,2) g show ?thesis
    by (subst splitSpaces.simps) (simp add: Let_def takeWhile_append2 dropWhile_append2 splitSpaces_word [OF assms(4,5)])
qed

end
