(* ===== verification/Schema.thy ===== *)
theory Schema
  imports JsRuntime "HOL-Library.List_Lexorder" "HOL-Library.Char_ord" "HOL-Library.Product_Lexorder"
begin

text \<open>
  The data model of \<open>prisma/schema.prisma\<close>: its enums as datatypes, its models as records
  (the prefix of a field names the model, so that \<open>w_status\<close> is \<open>Wallet.status\<close>), and the
  database as a record of tables. A UUID column is a string; a \<open>BigInt\<close> column is an \<open>int\<close>
  whose range the writes check; a \<open>DateTime\<close> is the number of milliseconds since the epoch.
  Relation fields are not stored: they are the queries of the services. The field
  \<open>updatedAt\<close> is kept where a response exposes it (users and wallets).

  The field \<open>settings\<close> holds the transaction-local settings of
  \<open>set_config('app.x_write', 'on', true)\<close>; it is empty outside a transaction.
\<close>

type_synonym uuid = string
type_synonym time = int

datatype Currency = USD | NGN
datatype WalletStatus = ACTIVE | FROZEN | CLOSED
datatype LedgerAccountKind = WALLET | SYSTEM
datatype TransferStatus = T_PENDING | T_COMPLETED
datatype IdempotencyStatus = IN_PROGRESS | I_COMPLETED | I_FAILED
datatype AuditAction = TRANSFER_CREATED | AUDIT_TRANSFER_REVERSED
datatype OutboxEventType = PAYMENT_SUCCEEDED | PAYMENT_FAILED | TRANSFER_COMPLETED | TRANSFER_REVERSED
datatype OutboxStatus = O_PENDING | O_PROCESSING | O_PUBLISHED
datatype NotificationType =
  N_PAYMENT_SUCCEEDED | N_PAYMENT_FAILED | N_TRANSFER_COMPLETED | N_TRANSFER_REVERSED
datatype WebhookDeliveryStatus = D_PENDING | D_PROCESSING | D_DELIVERED | D_FAILED | D_CANCELLED
datatype WebhookAttemptStatus =
  A_QUEUED | A_SENDING | A_SUCCEEDED | A_FAILED | A_ABANDONED | A_CANCELLED
datatype PaymentProvider = PAYSTACK | MOCK
datatype PaymentStatus = P_PENDING | P_SUCCEEDED | P_FAILED

text \<open>PostgreSQL orders an enum by declaration; \<open>orderBy: { currency: 'asc' }\<close> uses it.\<close>

instantiation Currency :: linorder
begin

definition less_eq_Currency :: "Currency \<Rightarrow> Currency \<Rightarrow> bool" where
  "less_eq_Currency a b \<longleftrightarrow> a = USD \<or> b = NGN"

definition less_Currency :: "Currency \<Rightarrow> Currency \<Rightarrow> bool" where
  "less_Currency a b \<longleftrightarrow> a = USD \<and> b = NGN"

instance
proof
  fix a b c :: Currency
  show "(a < b) = (a \<le> b \<and> \<not> b \<le> a)"
    by (cases a; cases b) (simp_all add: less_eq_Currency_def less_Currency_def)
  show "a \<le> a" by (cases a) (simp_all add: less_eq_Currency_def)
  show "a \<le> b \<Longrightarrow> b \<le> c \<Longrightarrow> a \<le> c"
    by (cases a; cases b; cases c) (simp_all add: less_eq_Currency_def)
  show "a \<le> b \<Longrightarrow> b \<le> a \<Longrightarrow> a = b"
    by (cases a; cases b) (simp_all add: less_eq_Currency_def)
  show "a \<le> b \<or> b \<le> a" by (cases a) (simp_all add: less_eq_Currency_def)
qed

end

text \<open>The name of a currency in string templates and JSON.\<close>

fun currencyName :: "Currency \<Rightarrow> string" where
  "currencyName USD = ''USD''"
| "currencyName NGN = ''NGN''"

record user =
  u_id :: uuid
  u_email :: string
  u_passwordHash :: string
  u_firstName :: string
  u_lastName :: string
  u_createdAt :: time
  u_updatedAt :: time

record wallet =
  w_id :: uuid
  w_userId :: uuid
  w_ledgerAccountId :: uuid
  w_currency :: Currency
  w_status :: WalletStatus
  w_currentBalanceMinor :: int
  w_createdAt :: time
  w_updatedAt :: time

record ledger_account =
  la_id :: uuid
  la_kind :: LedgerAccountKind
  la_currency :: Currency
  la_allowNegative :: bool
  la_balanceMinor :: int
  la_systemKey :: "string option"

record ledger_transaction =
  lt_id :: uuid
  lt_reference :: string
  lt_currency :: Currency
  lt_description :: "string option"
  lt_createdAt :: time
  lt_sealedAt :: "time option"

record ledger_posting =
  lp_id :: uuid
  lp_ledgerTransactionId :: uuid
  lp_accountId :: uuid
  lp_amountMinor :: int

record transfer =
  t_id :: uuid
  t_reference :: string
  t_senderUserId :: uuid
  t_sourceWalletId :: uuid
  t_destinationWalletId :: uuid
  t_beneficiaryId :: "uuid option"
  t_ledgerTransactionId :: uuid
  t_currency :: Currency
  t_amountMinor :: int
  t_status :: TransferStatus
  t_createdAt :: time
  t_completedAt :: "time option"

record transfer_reversal =
  r_id :: uuid
  r_reference :: string
  r_transferId :: uuid
  r_actorUserId :: uuid
  r_ledgerTransactionId :: uuid
  r_currency :: Currency
  r_amountMinor :: int
  r_reason :: "string option"
  r_createdAt :: time

record beneficiary =
  b_id :: uuid
  b_ownerUserId :: uuid
  b_walletId :: uuid
  b_label :: string
  b_createdAt :: time
  b_deletedAt :: "time option"

record idempotency_record =
  i_id :: uuid
  i_userId :: uuid
  i_scope :: string
  i_key :: string
  i_requestHash :: string
  i_status :: IdempotencyStatus
  i_responseStatus :: "nat option"
  i_errorMessage :: "string option"
  i_transferId :: "uuid option"
  i_reversalId :: "uuid option"

record audit_log =
  al_id :: uuid
  al_actorUserId :: uuid
  al_action :: AuditAction
  al_transferId :: uuid
  al_reversalId :: "uuid option"
  al_createdAt :: time

record outbox_event =
  e_id :: uuid
  e_type :: OutboxEventType
  e_aggregateType :: string
  e_aggregateId :: uuid
  e_actorUserId :: uuid
  e_payload :: json
  e_status :: OutboxStatus
  e_attempts :: nat
  e_availableAt :: time
  e_lockedAt :: "time option"
  e_publishedAt :: "time option"
  e_lastError :: "string option"
  e_createdAt :: time

record notification =
  n_id :: uuid
  n_outboxEventId :: uuid
  n_userId :: uuid
  n_type :: NotificationType
  n_subject :: string
  n_body :: string
  n_createdAt :: time

record webhook_subscription =
  ws_id :: uuid
  ws_userId :: uuid
  ws_url :: string
  ws_encryptedSecret :: string
  ws_enabled :: bool
  ws_createdAt :: time

record webhook_delivery =
  wd_id :: uuid
  wd_subscriptionId :: uuid
  wd_outboxEventId :: uuid
  wd_status :: WebhookDeliveryStatus
  wd_attemptCount :: nat
  wd_availableAt :: time
  wd_leaseUntil :: "time option"
  wd_leaseToken :: "uuid option"
  wd_createdAt :: time

record webhook_attempt =
  wa_id :: uuid
  wa_deliveryId :: uuid
  wa_number :: nat
  wa_status :: WebhookAttemptStatus
  wa_httpStatus :: "nat option"
  wa_errorCode :: "string option"
  wa_createdAt :: time
  wa_completedAt :: "time option"

record payment =
  p_id :: uuid
  p_userId :: uuid
  p_walletId :: uuid
  p_provider :: PaymentProvider
  p_reference :: string
  p_idempotencyKey :: string
  p_requestHash :: string
  p_amountMinor :: int
  p_currency :: Currency
  p_status :: PaymentStatus
  p_ledgerTransactionId :: "uuid option"
  p_createdAt :: time
  p_completedAt :: "time option"

record provider_event =
  pe_id :: uuid
  pe_paymentId :: uuid
  pe_provider :: PaymentProvider
  pe_eventId :: string
  pe_payloadHash :: string
  pe_status :: PaymentStatus
  pe_createdAt :: time

record payment_checkout =
  pc_paymentId :: uuid
  pc_checkoutUrl :: "string option"
  pc_createdAt :: time

section \<open>The database\<close>

record db =
  users :: "user list"
  wallets :: "wallet list"
  accounts :: "ledger_account list"
  ledgerTransactions :: "ledger_transaction list"
  postings :: "ledger_posting list"
  transfers :: "transfer list"
  reversals :: "transfer_reversal list"
  beneficiaries :: "beneficiary list"
  idempotencyRecords :: "idempotency_record list"
  auditLogs :: "audit_log list"
  outboxEvents :: "outbox_event list"
  notifications :: "notification list"
  subscriptions :: "webhook_subscription list"
  deliveries :: "webhook_delivery list"
  attempts :: "webhook_attempt list"
  payments :: "payment list"
  providerEvents :: "provider_event list"
  checkouts :: "payment_checkout list"
  settings :: "string list"

text \<open>
  The environment of one call: what the code takes from outside the repository. The
  random identifiers (\<open>randomUUID()\<close> and the \<open>uuid()\<close> column defaults) are drawn in order
  from \<open>rt_uuid\<close>, \<open>rt_now\<close> is the clock, \<open>rt_isUUID\<close> is class-validator's
  \<open>isUUID(_, '4')\<close> and \<open>rt_sha256\<close> the hexadecimal SHA-256 digest of node:crypto.
\<close>

record runtime =
  rt_uuid :: "nat \<Rightarrow> uuid"
  rt_now :: time
  rt_isUUID :: "string \<Rightarrow> bool"
  rt_sha256 :: "string \<Rightarrow> string"

section \<open>Primary keys\<close>

interpretation user_pk: keyed u_id .
interpretation wallet_pk: keyed w_id .
interpretation wallet_account: keyed w_ledgerAccountId .
interpretation account_pk: keyed la_id .
interpretation ltx_pk: keyed lt_id .
interpretation transfer_pk: keyed t_id .
interpretation idem_pk: keyed i_id .
interpretation payment_pk: keyed p_id .

end
