(* ===== verification/Constraints.thy ===== *)
theory Constraints
  imports Schema
begin

text \<open>
  The database side of the program: the unique keys, foreign keys, check constraints and
  triggers of \<open>prisma/migrations\<close>, as the write operations the services call.

  Each \<open>create_\<close> or \<open>update_\<close> operation is one Prisma write with the constraints and
  \<open>BEFORE\<close>/\<open>AFTER ... FOR EACH ROW\<close> triggers that fire with it. A violated unique key is Prisma's
  error P2002, a violated foreign key P2003, a missing row of an \<open>update\<close> P2025, and a
  check constraint, a trigger that raises or a value outside its column type is another error.
  The deferred constraint triggers, which run at commit, are the predicates
  \<open>validate_\<close>; \<open>prisma_transaction\<close> runs them on the rows the transaction wrote.
\<close>

abbreviation P2003 :: exn where
  "P2003 \<equiv> PrismaKnownError ''P2003'' None"
abbreviation P2025 :: exn where
  "P2025 \<equiv> PrismaKnownError ''P2025'' None"
abbreviation OutOfRange :: exn where
  "OutOfRange \<equiv> OtherError ''22003''"

section \<open>Column types and SQL functions\<close>

definition bigint_ok :: "int \<Rightarrow> bool" where
  "bigint_ok i \<longleftrightarrow> - 9223372036854775808 \<le> i \<and> i \<le> 9223372036854775807"

text \<open>
  A text column takes at most its number of characters, and PostgreSQL refuses U+0000 in any text.
  Texts that cannot contain it (the name of an error class, a sentence made of literals and a uuid) are
  only measured.
\<close>

definition varchar_fits :: "nat \<Rightarrow> string \<Rightarrow> bool" where
  "varchar_fits n s \<longleftrightarrow> length s \<le> n"

definition no_nul :: "string \<Rightarrow> bool" where
  "no_nul s \<longleftrightarrow> CHR 0x00 \<notin> set s"

definition varchar_ok :: "nat \<Rightarrow> string \<Rightarrow> bool" where
  "varchar_ok n s \<longleftrightarrow> varchar_fits n s \<and> no_nul s"

text \<open>
  A uuid column compares and stores values, so the text of a request is read in any case: PostgreSQL
  turns it into a value, whose text is in lower case. The texts that get here passed \<open>ParseUUIDPipe\<close>
  or \<open>IsUUID\<close> (or are the subject of a token this service signed), so they differ from that text in case only.
\<close>

definition pgUuid :: "string \<Rightarrow> uuid" where
  "pgUuid s = js_toLowerCase s"

text \<open>\<open>btrim\<close> strips spaces only.\<close>

definition sql_btrim :: "string \<Rightarrow> string" where
  "sql_btrim s = rev (dropWhile (\<lambda>c. c = CHR '' '') (rev (dropWhile (\<lambda>c. c = CHR '' '') s)))"

text \<open>The pattern \<open>^[0-9a-f]{64}$\<close> of the hash columns.\<close>

definition hex64 :: "string \<Rightarrow> bool" where
  "hex64 s \<longleftrightarrow> length s = 64 \<and>
     list_all (\<lambda>c. isDigit c \<or> (97 \<le> code c \<and> code c \<le> 102)) s"

text \<open>The pattern \<open>^[A-Za-z0-9._:-]{1,128}$\<close>.\<close>

definition keyChar :: "char \<Rightarrow> bool" where
  "keyChar c \<longleftrightarrow> isAlnum c \<or> c \<in> {CHR ''.'', CHR ''_'', CHR '':'', CHR ''-''}"

definition keyPattern :: "string \<Rightarrow> bool" where
  "keyPattern s \<longleftrightarrow> 1 \<le> length s \<and> length s \<le> 128 \<and> list_all keyChar s"

definition setting_on :: "string \<Rightarrow> db \<Rightarrow> bool" where
  "setting_on name d \<longleftrightarrow> name \<in> set (settings d)"

text \<open>\<open>SELECT set_config(name, 'on', true)\<close>\<close>

definition set_config :: "string \<Rightarrow> (db, unit) op" where
  "set_config name = modify (\<lambda>d. d\<lparr>settings := name # settings d\<rparr>)"

section \<open>Users, ledger accounts and wallets\<close>

definition create_user :: "user \<Rightarrow> (db, user) op" where
  "create_user u =
     andThen (require (varchar_ok 320 (u_email u) \<and> varchar_ok 255 (u_passwordHash u) \<and>
                varchar_ok 80 (u_firstName u) \<and> varchar_ok 80 (u_lastName u)) OutOfRange) (\<lambda>_.
     andThen (require (u_email u = js_toLowerCase (sql_btrim (u_email u))) CheckViolation) (\<lambda>_.
     andThen (query (\<lambda>d. existsRow (\<lambda>v. u_id v = u_id u \<or> u_email v = u_email u) (users d))) (\<lambda>dup.
     andThen (require (\<not> dup) P2002) (\<lambda>_.
     andThen (modify (\<lambda>d. d\<lparr>users := users d @ [u]\<rparr>)) (\<lambda>_.
     return u)))))"

definition kind_policy :: "ledger_account \<Rightarrow> bool" where
  "kind_policy a \<longleftrightarrow>
     (la_kind a = SYSTEM \<and> la_systemKey a \<noteq> None) \<or>
     (la_kind a = WALLET \<and> la_systemKey a = None \<and> \<not> la_allowNegative a)"

definition balance_policy :: "ledger_account \<Rightarrow> bool" where
  "balance_policy a \<longleftrightarrow> la_allowNegative a \<or> 0 \<le> la_balanceMinor a"

definition create_ledgerAccount :: "ledger_account \<Rightarrow> (db, ledger_account) op" where
  "create_ledgerAccount a =
     andThen (require (la_balanceMinor a = 0 \<and> kind_policy a \<and> balance_policy a) CheckViolation) (\<lambda>_.
     andThen (query (\<lambda>d. existsRow (\<lambda>b. la_id b = la_id a \<or>
               (la_systemKey a \<noteq> None \<and> la_systemKey b = la_systemKey a)) (accounts d))) (\<lambda>dup.
     andThen (require (\<not> dup) P2002) (\<lambda>_.
     andThen (modify (\<lambda>d. d\<lparr>accounts := accounts d @ [a]\<rparr>)) (\<lambda>_.
     return a))))"

definition create_wallet :: "wallet \<Rightarrow> (db, wallet) op" where
  "create_wallet w =
     andThen (query (\<lambda>d. account_pk.lookup (w_ledgerAccountId w) (accounts d))) (\<lambda>acc.
     andThen (require (case acc of None \<Rightarrow> False
                | Some a \<Rightarrow> la_kind a = WALLET \<and> la_currency a = w_currency w \<and>
                            la_balanceMinor a = w_currentBalanceMinor w) CheckViolation) (\<lambda>_.
     andThen (require (0 \<le> w_currentBalanceMinor w) CheckViolation) (\<lambda>_.
     andThen (query (\<lambda>d. existsRow (\<lambda>v. w_id v = w_id w \<or> w_ledgerAccountId v = w_ledgerAccountId w \<or>
               (w_userId v = w_userId w \<and> w_currency v = w_currency w)) (wallets d))) (\<lambda>dup.
     andThen (require (\<not> dup) P2002) (\<lambda>_.
     andThen (query (\<lambda>d. existsRow (\<lambda>u. u_id u = w_userId w) (users d))) (\<lambda>owner.
     andThen (require owner P2003) (\<lambda>_.
     andThen (modify (\<lambda>d. d\<lparr>wallets := wallets d @ [w]\<rparr>)) (\<lambda>_.
     return w))))))))"

text \<open>\<open>wallet.update\<close> of the status: no trigger covers that column.\<close>

definition update_wallet_status :: "uuid \<Rightarrow> WalletStatus \<Rightarrow> time \<Rightarrow> (db, wallet) op" where
  "update_wallet_status wid st now =
     andThen (query (\<lambda>d. wallet_pk.lookup wid (wallets d))) (\<lambda>w.
     case w of None \<Rightarrow> raise P2025
     | Some w \<Rightarrow>
         andThen (modify (\<lambda>d. d\<lparr>wallets :=
           wallet_pk.put wid (\<lambda>v. v\<lparr>w_status := st, w_updatedAt := now\<rparr>) (wallets d)\<rparr>)) (\<lambda>_.
         return (w\<lparr>w_status := st, w_updatedAt := now\<rparr>)))"

text \<open>
  \<open>ledgerAccount.update\<close> of the balance, with the policy check, the trigger that accepts a
  changed balance only on the ledger write path, and the trigger that copies the new balance to
  the product wallet of a wallet account.
\<close>

definition sync_wallet_balance :: "uuid \<Rightarrow> int \<Rightarrow> time \<Rightarrow> (db, unit) op" where
  "sync_wallet_balance aid bal now =
     andThen (query (\<lambda>d. existsRow (\<lambda>w. w_ledgerAccountId w = aid) (wallets d))) (\<lambda>found.
     andThen (require found CheckViolation) (\<lambda>_.
     andThen (require (0 \<le> bal) CheckViolation) (\<lambda>_.
     modify (\<lambda>d. d\<lparr>wallets := wallet_account.put aid
       (\<lambda>w. w\<lparr>w_currentBalanceMinor := bal, w_updatedAt := now\<rparr>) (wallets d)\<rparr>))))"

definition update_ledgerAccount_balance :: "time \<Rightarrow> uuid \<Rightarrow> int \<Rightarrow> (db, unit) op" where
  "update_ledgerAccount_balance now aid bal =
     andThen (query (\<lambda>d. account_pk.lookup aid (accounts d))) (\<lambda>acc.
     case acc of None \<Rightarrow> raise P2025
     | Some a \<Rightarrow>
         andThen (require (bigint_ok bal) OutOfRange) (\<lambda>_.
         andThen (require (balance_policy (a\<lparr>la_balanceMinor := bal\<rparr>)) CheckViolation) (\<lambda>_.
         andThen (query (setting_on ''app.ledger_write'')) (\<lambda>on.
         andThen (require (la_balanceMinor a = bal \<or> on) CheckViolation) (\<lambda>_.
         andThen (modify (\<lambda>d. d\<lparr>accounts :=
           account_pk.put aid (\<lambda>b. b\<lparr>la_balanceMinor := bal\<rparr>) (accounts d)\<rparr>)) (\<lambda>_.
         if la_kind a = WALLET \<and> la_balanceMinor a \<noteq> bal
         then sync_wallet_balance aid bal now else return ()))))))"

section \<open>Ledger transactions and postings\<close>

definition create_ledgerTransaction :: "ledger_transaction \<Rightarrow> (db, ledger_transaction) op" where
  "create_ledgerTransaction t =
     andThen (query (setting_on ''app.ledger_write'')) (\<lambda>on.
     andThen (require (on \<and> lt_sealedAt t = None) CheckViolation) (\<lambda>_.
     andThen (require (varchar_ok 120 (lt_reference t) \<and>
       (case lt_description t of None \<Rightarrow> True | Some s \<Rightarrow> varchar_ok 255 s)) OutOfRange) (\<lambda>_.
     andThen (require (sql_btrim (lt_reference t) \<noteq> [] \<and>
       lt_reference t = sql_btrim (lt_reference t)) CheckViolation) (\<lambda>_.
     andThen (query (\<lambda>d. existsRow (\<lambda>u. lt_id u = lt_id t \<or> lt_reference u = lt_reference t)
       (ledgerTransactions d))) (\<lambda>dup.
     andThen (require (\<not> dup) P2002) (\<lambda>_.
     andThen (modify (\<lambda>d. d\<lparr>ledgerTransactions := ledgerTransactions d @ [t]\<rparr>)) (\<lambda>_.
     return t)))))))"

definition create_ledgerPosting :: "ledger_posting \<Rightarrow> (db, unit) op" where
  "create_ledgerPosting p =
     andThen (query (setting_on ''app.ledger_write'')) (\<lambda>on.
     andThen (require on CheckViolation) (\<lambda>_.
     andThen (query (\<lambda>d. ltx_pk.lookup (lp_ledgerTransactionId p) (ledgerTransactions d))) (\<lambda>t.
     andThen (require (t \<noteq> None) P2003) (\<lambda>_.
     andThen (require (lt_sealedAt (the t) = None) CheckViolation) (\<lambda>_.
     andThen (require (bigint_ok (lp_amountMinor p)) OutOfRange) (\<lambda>_.
     andThen (require (lp_amountMinor p \<noteq> 0) CheckViolation) (\<lambda>_.
     andThen (query (\<lambda>d. existsRow (\<lambda>q. lp_id q = lp_id p \<or>
       (lp_ledgerTransactionId q = lp_ledgerTransactionId p \<and> lp_accountId q = lp_accountId p))
       (postings d))) (\<lambda>dup.
     andThen (require (\<not> dup) P2002) (\<lambda>_.
     andThen (query (\<lambda>d. existsRow (\<lambda>a. la_id a = lp_accountId p) (accounts d))) (\<lambda>acc.
     andThen (require acc P2003) (\<lambda>_.
     modify (\<lambda>d. d\<lparr>postings := postings d @ [p]\<rparr>))))))))))))"

text \<open>\<open>ledgerTransaction.update\<close> of \<open>sealedAt\<close>: an open transaction may be sealed once.\<close>

definition seal_ledgerTransaction :: "uuid \<Rightarrow> time \<Rightarrow> (db, ledger_transaction) op" where
  "seal_ledgerTransaction tid at =
     andThen (query (\<lambda>d. ltx_pk.lookup tid (ledgerTransactions d))) (\<lambda>t.
     case t of None \<Rightarrow> raise P2025
     | Some t \<Rightarrow>
         andThen (query (setting_on ''app.ledger_write'')) (\<lambda>on.
         andThen (require (on \<and> lt_sealedAt t = None) CheckViolation) (\<lambda>_.
         andThen (require (lt_createdAt t \<le> at) CheckViolation) (\<lambda>_.
         andThen (modify (\<lambda>d. d\<lparr>ledgerTransactions :=
           ltx_pk.put tid (\<lambda>u. u\<lparr>lt_sealedAt := Some at\<rparr>) (ledgerTransactions d)\<rparr>)) (\<lambda>_.
         return (t\<lparr>lt_sealedAt := Some at\<rparr>))))))"

abbreviation postingsOf :: "db \<Rightarrow> uuid \<Rightarrow> ledger_posting list" where
  "postingsOf d tid \<equiv> filter (\<lambda>p. lp_ledgerTransactionId p = tid) (postings d)"

text \<open>\<open>validateLedgerTransactionAtCommit\<close>\<close>

definition validate_ledgerTransaction :: "db \<Rightarrow> ledger_transaction \<Rightarrow> bool" where
  "validate_ledgerTransaction d t \<longleftrightarrow>
     (let ps = filter (\<lambda>p. existsRow (\<lambda>a. la_id a = lp_accountId p) (accounts d))
                 (postingsOf d (lt_id t))
      in lt_sealedAt t \<noteq> None \<and> 2 \<le> length ps \<and> (\<Sum>p \<leftarrow> ps. lp_amountMinor p) = 0 \<and>
         list_all (\<lambda>p. list_all (\<lambda>a. la_id a = lp_accountId p \<longrightarrow> la_currency a = lt_currency t)
           (accounts d)) ps)"

text \<open>\<open>validateLedgerAccountPairAtCommit\<close>\<close>

definition validate_accountPair :: "db \<Rightarrow> ledger_account \<Rightarrow> bool" where
  "validate_accountPair d a \<longleftrightarrow>
     (let n = length (filter (\<lambda>w. w_ledgerAccountId w = la_id a) (wallets d))
      in (la_kind a = WALLET \<longrightarrow> n = 1) \<and> (la_kind a = SYSTEM \<longrightarrow> n = 0))"

end
