(* ===== verification/Records.thy ===== *)
theory Records
  imports Constraints
begin

text \<open>
  The database side of the product records: transfers, reversals, idempotency records, the
  audit log, the outbox with its webhook fan-out, notifications, beneficiaries, payments and
  provider evidence; the deferred integrity triggers; and the interactive transaction
  \<open>prisma_transaction\<close>, which commits, runs the deferred triggers on the rows it wrote, or
  rolls back.
\<close>

section \<open>Transfers and reversals\<close>

definition create_transfer :: "transfer \<Rightarrow> (db, transfer) op" where
  "create_transfer t =
     andThen (query (setting_on ''app.transfer_write'')) (\<lambda>on.
     andThen (require on CheckViolation) (\<lambda>_.
     andThen (require (varchar_ok 120 (t_reference t) \<and> bigint_ok (t_amountMinor t)) OutOfRange) (\<lambda>_.
     andThen (require (0 < t_amountMinor t \<and> t_sourceWalletId t \<noteq> t_destinationWalletId t \<and>
       (t_status t = T_COMPLETED \<longleftrightarrow> t_completedAt t \<noteq> None)) CheckViolation) (\<lambda>_.
     andThen (query (\<lambda>d. existsRow (\<lambda>u. t_id u = t_id t \<or> t_reference u = t_reference t \<or>
       t_ledgerTransactionId u = t_ledgerTransactionId t) (transfers d))) (\<lambda>dup.
     andThen (require (\<not> dup) P2002) (\<lambda>_.
     andThen (query (\<lambda>d.
       existsRow (\<lambda>u. u_id u = t_senderUserId t) (users d) \<and>
       existsRow (\<lambda>w. w_id w = t_sourceWalletId t) (wallets d) \<and>
       existsRow (\<lambda>w. w_id w = t_destinationWalletId t) (wallets d) \<and>
       (t_beneficiaryId t = None \<or>
        existsRow (\<lambda>b. Some (b_id b) = t_beneficiaryId t) (beneficiaries d)) \<and>
       existsRow (\<lambda>l. lt_id l = t_ledgerTransactionId t) (ledgerTransactions d))) (\<lambda>fk.
     andThen (require fk P2003) (\<lambda>_.
     andThen (modify (\<lambda>d. d\<lparr>transfers := transfers d @ [t]\<rparr>)) (\<lambda>_.
     return t)))))))))"

definition create_transferReversal :: "transfer_reversal \<Rightarrow> (db, transfer_reversal) op" where
  "create_transferReversal r =
     andThen (query (setting_on ''app.reversal_write'')) (\<lambda>on.
     andThen (require on CheckViolation) (\<lambda>_.
     andThen (require (varchar_ok 120 (r_reference r) \<and> bigint_ok (r_amountMinor r) \<and>
       (case r_reason r of None \<Rightarrow> True | Some s \<Rightarrow> varchar_ok 255 s)) OutOfRange) (\<lambda>_.
     andThen (require (0 < r_amountMinor r \<and>
       (case r_reason r of None \<Rightarrow> True | Some s \<Rightarrow> s \<noteq> [] \<and> s = sql_btrim s)) CheckViolation) (\<lambda>_.
     andThen (query (\<lambda>d. existsRow (\<lambda>u. r_id u = r_id r \<or> r_reference u = r_reference r \<or>
       r_transferId u = r_transferId r \<or> r_ledgerTransactionId u = r_ledgerTransactionId r)
       (reversals d))) (\<lambda>dup.
     andThen (require (\<not> dup) P2002) (\<lambda>_.
     andThen (query (\<lambda>d.
       existsRow (\<lambda>t. t_id t = r_transferId r) (transfers d) \<and>
       existsRow (\<lambda>u. u_id u = r_actorUserId r) (users d) \<and>
       existsRow (\<lambda>l. lt_id l = r_ledgerTransactionId r) (ledgerTransactions d))) (\<lambda>fk.
     andThen (require fk P2003) (\<lambda>_.
     andThen (modify (\<lambda>d. d\<lparr>reversals := reversals d @ [r]\<rparr>)) (\<lambda>_.
     return r)))))))))"

text \<open>The rows a transfer's trigger looks for: exactly one debit of one account and one credit
  of the other.\<close>

definition two_postings :: "db \<Rightarrow> uuid \<Rightarrow> uuid option \<Rightarrow> int \<Rightarrow> uuid option \<Rightarrow> int \<Rightarrow> bool" where
  "two_postings d tid acc1 amt1 acc2 amt2 \<longleftrightarrow>
     (let ps = postingsOf d tid
      in length ps = 2 \<and>
         length (filter (\<lambda>p. Some (lp_accountId p) = acc1 \<and> lp_amountMinor p = amt1) ps) = 1 \<and>
         length (filter (\<lambda>p. Some (lp_accountId p) = acc2 \<and> lp_amountMinor p = amt2) ps) = 1)"

definition matching_ledger :: "db \<Rightarrow> uuid \<Rightarrow> Currency \<Rightarrow> string \<Rightarrow> bool" where
  "matching_ledger d tid cur ref \<longleftrightarrow>
     (case ltx_pk.lookup tid (ledgerTransactions d) of
        None \<Rightarrow> False
      | Some l \<Rightarrow> lt_sealedAt l \<noteq> None \<and> lt_currency l = cur \<and> lt_reference l = ref)"

definition accountOf :: "db \<Rightarrow> uuid \<Rightarrow> uuid option" where
  "accountOf d wid = map_option w_ledgerAccountId (wallet_pk.lookup wid (wallets d))"

text \<open>\<open>validateTransferIntegrity\<close>\<close>

definition validate_transfer :: "db \<Rightarrow> transfer \<Rightarrow> bool" where
  "validate_transfer d t \<longleftrightarrow> t_status t \<noteq> T_COMPLETED \<or>
     (case wallet_pk.lookup (t_sourceWalletId t) (wallets d) of
        None \<Rightarrow> False
      | Some s \<Rightarrow> w_userId s = t_senderUserId t \<and> w_currency s = t_currency t) \<and>
     (case wallet_pk.lookup (t_destinationWalletId t) (wallets d) of
        None \<Rightarrow> True | Some w \<Rightarrow> w_currency w = t_currency t) \<and>
     (case t_beneficiaryId t of None \<Rightarrow> True
      | Some bid \<Rightarrow> (case findRow (\<lambda>b. b_id b = bid) (beneficiaries d) of
            None \<Rightarrow> False
          | Some b \<Rightarrow> b_ownerUserId b = t_senderUserId t \<and>
                      b_walletId b = t_destinationWalletId t)) \<and>
     matching_ledger d (t_ledgerTransactionId t) (t_currency t) (t_reference t) \<and>
     two_postings d (t_ledgerTransactionId t)
       (accountOf d (t_sourceWalletId t)) (- t_amountMinor t)
       (accountOf d (t_destinationWalletId t)) (t_amountMinor t)"

text \<open>\<open>validateTransferReversalIntegrity\<close>\<close>

definition validate_transferReversal :: "db \<Rightarrow> transfer_reversal \<Rightarrow> bool" where
  "validate_transferReversal d r \<longleftrightarrow>
     (case transfer_pk.lookup (r_transferId r) (transfers d) of
        None \<Rightarrow> False
      | Some t \<Rightarrow>
          t_senderUserId t = r_actorUserId r \<and> t_status t = T_COMPLETED \<and>
          t_currency t = r_currency r \<and> t_amountMinor t = r_amountMinor r \<and>
          matching_ledger d (r_ledgerTransactionId r) (r_currency r) (r_reference r) \<and>
          two_postings d (r_ledgerTransactionId r)
            (accountOf d (t_sourceWalletId t)) (r_amountMinor r)
            (accountOf d (t_destinationWalletId t)) (- r_amountMinor r) \<and>
          length (filter (\<lambda>a. al_reversalId a = Some (r_id r) \<and> al_transferId a = r_transferId r \<and>
            al_actorUserId a = r_actorUserId r \<and> al_action a = AUDIT_TRANSFER_REVERSED)
            (auditLogs d)) = 1)"

section \<open>Idempotency records\<close>

definition create_idempotencyRecord :: "idempotency_record \<Rightarrow> (db, idempotency_record) op" where
  "create_idempotencyRecord i =
     andThen (require (i_status i = IN_PROGRESS \<and> i_responseStatus i = None \<and>
       i_errorMessage i = None \<and> i_transferId i = None \<and> i_reversalId i = None) CheckViolation) (\<lambda>_.
     andThen (require (varchar_ok 64 (i_scope i) \<and> varchar_ok 128 (i_key i)) OutOfRange) (\<lambda>_.
     andThen (require (i_scope i \<noteq> [] \<and> i_scope i = sql_btrim (i_scope i) \<and>
       i_key i \<noteq> [] \<and> i_key i = sql_btrim (i_key i) \<and> hex64 (i_requestHash i)) CheckViolation) (\<lambda>_.
     andThen (query (\<lambda>d. existsRow (\<lambda>j. i_id j = i_id i \<or>
       (i_userId j = i_userId i \<and> i_scope j = i_scope i \<and> i_key j = i_key i))
       (idempotencyRecords d))) (\<lambda>dup.
     andThen (require (\<not> dup) P2002) (\<lambda>_.
     andThen (query (\<lambda>d. existsRow (\<lambda>u. u_id u = i_userId i) (users d))) (\<lambda>fk.
     andThen (require fk P2003) (\<lambda>_.
     andThen (modify (\<lambda>d. d\<lparr>idempotencyRecords := idempotencyRecords d @ [i]\<rparr>)) (\<lambda>_.
     return i))))))))"

definition idem_terminal :: "idempotency_record \<Rightarrow> bool" where
  "idem_terminal i \<longleftrightarrow> i_status i = I_COMPLETED \<or> i_status i = I_FAILED"

text \<open>The check constraint on the shape of the three states.\<close>

definition idem_shape :: "idempotency_record \<Rightarrow> bool" where
  "idem_shape i \<longleftrightarrow>
     (i_status i = IN_PROGRESS \<and> i_transferId i = None \<and> i_reversalId i = None \<and>
        i_responseStatus i = None \<and> i_errorMessage i = None) \<or>
     (i_status i = I_COMPLETED \<and> (i_transferId i = None) \<noteq> (i_reversalId i = None) \<and>
        (case i_responseStatus i of None \<Rightarrow> False | Some s \<Rightarrow> 200 \<le> s \<and> s \<le> 299) \<and>
        i_errorMessage i = None) \<or>
     (i_status i = I_FAILED \<and> i_transferId i = None \<and> i_reversalId i = None \<and>
        (case i_responseStatus i of None \<Rightarrow> False | Some s \<Rightarrow> 400 \<le> s \<and> s \<le> 499) \<and>
        i_errorMessage i \<noteq> None)"

definition update_idempotencyRecord ::
  "uuid \<Rightarrow> (idempotency_record \<Rightarrow> idempotency_record) \<Rightarrow> (db, unit) op" where
  "update_idempotencyRecord iid f =
     andThen (query (\<lambda>d. idem_pk.lookup iid (idempotencyRecords d))) (\<lambda>old.
     case old of None \<Rightarrow> raise P2025
     | Some i \<Rightarrow>
         andThen (require (\<not> idem_terminal i \<and> idem_terminal (f i) \<and> idem_shape (f i) \<and>
           i_id (f i) = i_id i \<and> i_userId (f i) = i_userId i \<and> i_scope (f i) = i_scope i \<and>
           i_key (f i) = i_key i \<and> i_requestHash (f i) = i_requestHash i) CheckViolation) (\<lambda>_.
         andThen (require (case i_errorMessage (f i) of None \<Rightarrow> True | Some m \<Rightarrow> varchar_ok 255 m)
           OutOfRange) (\<lambda>_.
         andThen (query (\<lambda>d. existsRow (\<lambda>j. i_id j \<noteq> iid \<and>
           ((i_transferId (f i) \<noteq> None \<and> i_transferId j = i_transferId (f i)) \<or>
            (i_reversalId (f i) \<noteq> None \<and> i_reversalId j = i_reversalId (f i))))
           (idempotencyRecords d))) (\<lambda>dup.
         andThen (require (\<not> dup) P2002) (\<lambda>_.
         modify (\<lambda>d. d\<lparr>idempotencyRecords :=
           idem_pk.put iid f (idempotencyRecords d)\<rparr>))))))"

text \<open>\<open>validateIdempotencyIntegrity\<close>\<close>

definition validate_idempotency :: "db \<Rightarrow> idempotency_record \<Rightarrow> bool" where
  "validate_idempotency d i \<longleftrightarrow> i_status i \<noteq> I_COMPLETED \<or>
     (case i_transferId i of
        Some tid \<Rightarrow> i_scope i = ''internal-transfer'' \<and>
          map_option t_senderUserId (transfer_pk.lookup tid (transfers d)) = Some (i_userId i)
      | None \<Rightarrow> i_scope i = ''transfer-reversal'' \<and>
          (case i_reversalId i of None \<Rightarrow> False
           | Some rid \<Rightarrow> map_option r_actorUserId
               (findRow (\<lambda>r. r_id r = rid) (reversals d)) = Some (i_userId i)))"

section \<open>Audit log\<close>

definition create_auditLog :: "audit_log \<Rightarrow> (db, unit) op" where
  "create_auditLog a =
     andThen (query (setting_on ''app.audit_write'')) (\<lambda>on.
     andThen (require on CheckViolation) (\<lambda>_.
     andThen (require ((al_action a = TRANSFER_CREATED) = (al_reversalId a = None)) CheckViolation) (\<lambda>_.
     andThen (query (\<lambda>d. existsRow (\<lambda>b. al_id b = al_id a \<or>
       (al_reversalId a \<noteq> None \<and> al_reversalId b = al_reversalId a) \<or>
       (al_action b = al_action a \<and> al_transferId b = al_transferId a)) (auditLogs d))) (\<lambda>dup.
     andThen (require (\<not> dup) P2002) (\<lambda>_.
     andThen (query (\<lambda>d.
       existsRow (\<lambda>u. u_id u = al_actorUserId a) (users d) \<and>
       existsRow (\<lambda>t. t_id t = al_transferId a) (transfers d) \<and>
       (al_reversalId a = None \<or> existsRow (\<lambda>r. Some (r_id r) = al_reversalId a) (reversals d)))) (\<lambda>fk.
     andThen (require fk P2003) (\<lambda>_.
     modify (\<lambda>d. d\<lparr>auditLogs := auditLogs d @ [a]\<rparr>))))))))"

text \<open>\<open>validateAuditLogIntegrity\<close>\<close>

definition validate_auditLog :: "db \<Rightarrow> audit_log \<Rightarrow> bool" where
  "validate_auditLog d a \<longleftrightarrow>
     map_option t_senderUserId (transfer_pk.lookup (al_transferId a) (transfers d))
       = Some (al_actorUserId a) \<and>
     (al_action a = AUDIT_TRANSFER_REVERSED \<longrightarrow>
        (case al_reversalId a of None \<Rightarrow> False
         | Some rid \<Rightarrow> (case findRow (\<lambda>r. r_id r = rid) (reversals d) of
               None \<Rightarrow> False
             | Some r \<Rightarrow> r_transferId r = al_transferId a \<and> r_actorUserId r = al_actorUserId a)))"

section \<open>Outbox, webhook fan-out, notifications\<close>

text \<open>
  \<open>fan_out_webhook_event\<close>: after an event is inserted, one pending delivery per enabled
  subscription of its actor; a pair that already has a delivery is skipped.
\<close>

definition fan_out_webhook_event :: "(nat \<Rightarrow> uuid) \<Rightarrow> time \<Rightarrow> outbox_event \<Rightarrow> db \<Rightarrow> db" where
  "fan_out_webhook_event gen now e d =
     (let subs = filter (\<lambda>s. ws_userId s = e_actorUserId e \<and> ws_enabled s \<and>
                   \<not> existsRow (\<lambda>v. wd_subscriptionId v = ws_id s \<and> wd_outboxEventId v = e_id e)
                       (deliveries d)) (subscriptions d);
          new = map (\<lambda>(k, s). \<lparr>wd_id = gen k, wd_subscriptionId = ws_id s,
                    wd_outboxEventId = e_id e, wd_status = D_PENDING, wd_attemptCount = 0,
                    wd_availableAt = now, wd_leaseUntil = None, wd_leaseToken = None,
                    wd_createdAt = now\<rparr>) (zip [0..<length subs] subs)
      in d\<lparr>deliveries := deliveries d @ new\<rparr>)"

definition create_outboxEvent :: "(nat \<Rightarrow> uuid) \<Rightarrow> time \<Rightarrow> outbox_event \<Rightarrow> (db, unit) op" where
  "create_outboxEvent gen now e =
     andThen (query (\<lambda>d. existsRow (\<lambda>f. e_id f = e_id e \<or>
       (e_type f = e_type e \<and> e_aggregateId f = e_aggregateId e)) (outboxEvents d))) (\<lambda>dup.
     andThen (require (\<not> dup) P2002) (\<lambda>_.
     andThen (query (\<lambda>d. existsRow (\<lambda>u. u_id u = e_actorUserId e) (users d))) (\<lambda>fk.
     andThen (require fk P2003) (\<lambda>_.
     andThen (modify (\<lambda>d. d\<lparr>outboxEvents := outboxEvents d @ [e]\<rparr>)) (\<lambda>_.
     modify (fan_out_webhook_event gen now e))))))"

text \<open>The columns a new event gets from its defaults.\<close>

definition new_outboxEvent ::
  "uuid \<Rightarrow> time \<Rightarrow> OutboxEventType \<Rightarrow> string \<Rightarrow> uuid \<Rightarrow> uuid \<Rightarrow> json \<Rightarrow> outbox_event" where
  "new_outboxEvent eid now ty aggType agg actor payload =
     \<lparr>e_id = eid, e_type = ty, e_aggregateType = aggType, e_aggregateId = agg,
      e_actorUserId = actor, e_payload = payload, e_status = O_PENDING, e_attempts = 0,
      e_availableAt = now, e_lockedAt = None, e_publishedAt = None, e_lastError = None,
      e_createdAt = now\<rparr>"

end
