(* ===== verification/Commit.thy ===== *)
theory Commit
  imports Records
begin

text \<open>
  The database side of payments (intents, provider evidence, checkout claims), and the
  interactive transaction \<open>$transaction(async (tx) => ...)\<close>: \<open>prisma_transaction\<close> rolls back
  when the body throws, else runs every deferred constraint trigger on the rows the body wrote
  and commits. Serializable isolation and row locks make a committed transaction atomic; a
  transaction that the database aborts instead is the argument \<open>abort\<close>.
\<close>

section \<open>Payments\<close>

text \<open>The check constraint on the three states of a payment.\<close>

definition payment_state_ok :: "payment \<Rightarrow> bool" where
  "payment_state_ok p \<longleftrightarrow>
     (case p_status p of
        P_PENDING \<Rightarrow> p_ledgerTransactionId p = None \<and> p_completedAt p = None
      | P_SUCCEEDED \<Rightarrow> p_ledgerTransactionId p \<noteq> None \<and> p_completedAt p \<noteq> None
      | P_FAILED \<Rightarrow> p_ledgerTransactionId p = None \<and> p_completedAt p \<noteq> None)"

definition create_payment :: "payment \<Rightarrow> (db, payment) op" where
  "create_payment p =
     andThen (query (setting_on ''app.payment_write'')) (\<lambda>on.
     andThen (require (on \<and> p_status p = P_PENDING) CheckViolation) (\<lambda>_.
     andThen (require (bigint_ok (p_amountMinor p) \<and> varchar_ok 120 (p_reference p)) OutOfRange) (\<lambda>_.
     andThen (require (0 < p_amountMinor p \<and> hex64 (p_requestHash p) \<and>
       keyPattern (p_idempotencyKey p) \<and> payment_state_ok p) CheckViolation) (\<lambda>_.
     andThen (query (\<lambda>d. existsRow (\<lambda>q. p_id q = p_id p \<or> p_reference q = p_reference p \<or>
       (p_userId q = p_userId p \<and> p_idempotencyKey q = p_idempotencyKey p)) (payments d))) (\<lambda>dup.
     andThen (require (\<not> dup) P2002) (\<lambda>_.
     andThen (query (\<lambda>d. existsRow (\<lambda>u. u_id u = p_userId p) (users d) \<and>
       existsRow (\<lambda>w. w_id w = p_walletId p) (wallets d))) (\<lambda>fk.
     andThen (require fk P2003) (\<lambda>_.
     andThen (modify (\<lambda>d. d\<lparr>payments := payments d @ [p]\<rparr>)) (\<lambda>_.
     return p)))))))))"

text \<open>\<open>payment.update\<close>: only a pending payment, only to a terminal state.\<close>

definition update_payment :: "uuid \<Rightarrow> (payment \<Rightarrow> payment) \<Rightarrow> (db, unit) op" where
  "update_payment pid f =
     andThen (query (\<lambda>d. payment_pk.lookup pid (payments d))) (\<lambda>old.
     case old of None \<Rightarrow> raise P2025
     | Some p \<Rightarrow>
         andThen (query (setting_on ''app.payment_write'')) (\<lambda>on.
         andThen (require (on \<and> p_status p = P_PENDING \<and> p_status (f p) \<noteq> P_PENDING \<and>
           p_id (f p) = p_id p \<and> p_userId (f p) = p_userId p \<and> p_walletId (f p) = p_walletId p \<and>
           p_provider (f p) = p_provider p \<and> p_reference (f p) = p_reference p \<and>
           p_idempotencyKey (f p) = p_idempotencyKey p \<and> p_requestHash (f p) = p_requestHash p \<and>
           p_amountMinor (f p) = p_amountMinor p \<and> p_currency (f p) = p_currency p \<and>
           p_createdAt (f p) = p_createdAt p \<and> payment_state_ok (f p)) CheckViolation) (\<lambda>_.
         andThen (query (\<lambda>d. existsRow (\<lambda>q. p_id q \<noteq> pid \<and> p_ledgerTransactionId (f p) \<noteq> None \<and>
           p_ledgerTransactionId q = p_ledgerTransactionId (f p)) (payments d))) (\<lambda>dup.
         andThen (require (\<not> dup) P2002) (\<lambda>_.
         andThen (query (\<lambda>d. p_ledgerTransactionId (f p) = None \<or>
           existsRow (\<lambda>l. Some (lt_id l) = p_ledgerTransactionId (f p)) (ledgerTransactions d))) (\<lambda>fk.
         andThen (require fk P2003) (\<lambda>_.
         modify (\<lambda>d. d\<lparr>payments := payment_pk.put pid f (payments d)\<rparr>))))))))"

definition create_providerEvent :: "provider_event \<Rightarrow> (db, unit) op" where
  "create_providerEvent e =
     andThen (query (setting_on ''app.payment_write'')) (\<lambda>on.
     andThen (require (on \<and> hex64 (pe_payloadHash e) \<and> pe_status e \<noteq> P_PENDING) CheckViolation) (\<lambda>_.
     andThen (require (varchar_ok 128 (pe_eventId e)) OutOfRange) (\<lambda>_.
     andThen (query (\<lambda>d. existsRow (\<lambda>f. pe_id f = pe_id e \<or>
       (pe_provider f = pe_provider e \<and> pe_eventId f = pe_eventId e)) (providerEvents d))) (\<lambda>dup.
     andThen (require (\<not> dup) P2002) (\<lambda>_.
     andThen (query (\<lambda>d. existsRow (\<lambda>p. p_id p = pe_paymentId e) (payments d))) (\<lambda>fk.
     andThen (require fk P2003) (\<lambda>_.
     modify (\<lambda>d. d\<lparr>providerEvents := providerEvents d @ [e]\<rparr>))))))))"

text \<open>\<open>validatePaymentIntegrity\<close> and \<open>validateProviderEventIntegrity\<close>\<close>

definition validate_payment :: "db \<Rightarrow> payment \<Rightarrow> bool" where
  "validate_payment d p \<longleftrightarrow>
     (case wallet_pk.lookup (p_walletId p) (wallets d) of
        None \<Rightarrow> False
      | Some w \<Rightarrow> w_userId w = p_userId p \<and> w_currency w = p_currency p \<and>
          (p_status p = P_PENDING \<or>
           existsRow (\<lambda>e. pe_paymentId e = p_id p \<and> pe_provider e = p_provider p \<and>
             pe_status e = p_status p) (providerEvents d) \<and>
           existsRow (\<lambda>e. e_aggregateId e = p_id p \<and> e_aggregateType e = ''Payment'' \<and>
             e_actorUserId e = p_userId p \<and>
             e_type e = (if p_status p = P_SUCCEEDED then PAYMENT_SUCCEEDED else PAYMENT_FAILED))
             (outboxEvents d) \<and>
           (p_status p = P_FAILED \<or>
            (case p_ledgerTransactionId p of None \<Rightarrow> False
             | Some tid \<Rightarrow>
                 matching_ledger d tid (p_currency p) (p_reference p) \<and>
                 two_postings d tid (Some (w_ledgerAccountId w)) (p_amountMinor p)
                   (map_option la_id (findRow (\<lambda>a. la_systemKey a =
                      Some (''external-clearing:'' @ currencyName (p_currency p))) (accounts d)))
                   (- p_amountMinor p)))))"

definition validate_providerEvent :: "db \<Rightarrow> provider_event \<Rightarrow> bool" where
  "validate_providerEvent d e \<longleftrightarrow>
     existsRow (\<lambda>p. p_id p = pe_paymentId e \<and> p_provider p = pe_provider e \<and>
       p_status p = pe_status e) (payments d)"

section \<open>Checkout claims\<close>

text \<open>\<open>paymentCheckout.createMany\<close> with \<open>skipDuplicates\<close>: the number of rows inserted.\<close>

definition claim_checkout :: "uuid \<Rightarrow> time \<Rightarrow> (db, nat) op" where
  "claim_checkout pid now =
     andThen (query (\<lambda>d. existsRow (\<lambda>c. pc_paymentId c = pid) (checkouts d))) (\<lambda>dup.
     if dup then return 0
     else
       andThen (query (\<lambda>d. existsRow (\<lambda>p. p_id p = pid \<and> p_provider p = PAYSTACK) (payments d))) (\<lambda>ok.
       andThen (require ok CheckViolation) (\<lambda>_.
       andThen (modify (\<lambda>d. d\<lparr>checkouts := checkouts d @
         [\<lparr>pc_paymentId = pid, pc_checkoutUrl = None, pc_createdAt = now\<rparr>]\<rparr>)) (\<lambda>_.
       return 1))))"

text \<open>\<open>^https://checkout.paystack.com/[A-Za-z0-9_-]+$\<close>, the pattern of both the column's check
  and the provider's response schema.\<close>

definition checkoutUrlPattern :: "string \<Rightarrow> bool" where
  "checkoutUrlPattern s \<longleftrightarrow>
     (let pre = ''https://checkout.paystack.com/'' in
      take (length pre) s = pre \<and> drop (length pre) s \<noteq> [] \<and>
      list_all (\<lambda>c. isAlnum c \<or> c \<in> {CHR ''_'', CHR ''-''}) (drop (length pre) s))"

text \<open>\<open>paymentCheckout.update\<close>: a claim acquires its URL once.\<close>

definition update_checkout :: "uuid \<Rightarrow> string \<Rightarrow> (db, unit) op" where
  "update_checkout pid url =
     andThen (query (\<lambda>d. findRow (\<lambda>c. pc_paymentId c = pid) (checkouts d))) (\<lambda>c.
     case c of None \<Rightarrow> raise P2025
     | Some c \<Rightarrow>
         andThen (require (pc_checkoutUrl c = None \<and> checkoutUrlPattern url) CheckViolation) (\<lambda>_.
         andThen (require (varchar_ok 512 url) OutOfRange) (\<lambda>_.
         modify (\<lambda>d. d\<lparr>checkouts := updateRows (\<lambda>c. pc_paymentId c = pid)
           (\<lambda>c. c\<lparr>pc_checkoutUrl := Some url\<rparr>) (checkouts d)\<rparr>))))"

section \<open>Commit\<close>

text \<open>A deferred trigger runs on the rows that were inserted or changed.\<close>

definition written :: "'r list \<Rightarrow> 'r list \<Rightarrow> 'r list" where
  "written old new = filter (\<lambda>r. \<not> List.member old r) new"

definition commit_checks :: "db \<Rightarrow> db \<Rightarrow> bool" where
  "commit_checks old new \<longleftrightarrow>
     list_all (validate_ledgerTransaction new)
       (written (ledgerTransactions old) (ledgerTransactions new)) \<and>
     list_all (\<lambda>a. existsRow (\<lambda>b. la_id b = la_id a) (accounts old) \<or> validate_accountPair new a)
       (accounts new) \<and>
     list_all (validate_transfer new) (written (transfers old) (transfers new)) \<and>
     list_all (validate_transferReversal new) (written (reversals old) (reversals new)) \<and>
     list_all (validate_idempotency new)
       (written (idempotencyRecords old) (idempotencyRecords new)) \<and>
     list_all (validate_auditLog new) (written (auditLogs old) (auditLogs new)) \<and>
     list_all (validate_payment new) (written (payments old) (payments new)) \<and>
     list_all (validate_providerEvent new) (written (providerEvents old) (providerEvents new))"

definition prisma_transaction :: "exn option \<Rightarrow> (db, 'a) op \<Rightarrow> (db, 'a) op" where
  "prisma_transaction abort body = (\<lambda>d.
     case abort of
       Some e \<Rightarrow> (Inl e, d)
     | None \<Rightarrow>
         (case body d of
            (Inl e, _) \<Rightarrow> (Inl e, d)
          | (Inr x, d') \<Rightarrow>
              if commit_checks d d' then (Inr x, d'\<lparr>settings := []\<rparr>) else (Inl CheckViolation, d)))"

text \<open>A write outside an interactive transaction is its own transaction.\<close>

lemma prisma_transaction_Inl:
  "prisma_transaction abort body d = (Inl e, d') \<Longrightarrow> d' = d"
  by (auto simp: prisma_transaction_def split: option.splits prod.splits sum.splits if_splits)

lemma prisma_transaction_Inr:
  "prisma_transaction abort body d = (Inr x, d') \<longleftrightarrow>
     abort = None \<and> (\<exists>m. body d = (Inr x, m) \<and> commit_checks d m \<and> d' = m\<lparr>settings := []\<rparr>)"
  by (auto simp: prisma_transaction_def split: option.splits prod.splits sum.splits if_splits)

lemma written_self [simp]: "written rs rs = []"
  by (auto simp: written_def filter_empty_conv)

lemma written_append [simp]: "written rs (rs @ ss) = filter (\<lambda>r. r \<notin> set rs) ss"
  by (auto simp: written_def filter_empty_conv)

end
