(* ===== verification/LedgerInvariants.thy ===== *)
theory LedgerInvariants
  imports Commit
begin

text \<open>
  \<open>src/ledger/ledger.invariants.ts\<close>: the limits of a minor-unit amount and the
  normalisation of a ledger transaction request, with the characterisation of what it accepts
  and of what it returns.
\<close>

record posting_input =
  pi_accountId :: uuid
  pi_amountMinor :: int

record ledger_input =
  li_reference :: string
  li_currency :: Currency
  li_description :: "string option"
  li_postings :: "posting_input list"

definition MAX_POSTINGS :: nat where
  "MAX_POSTINGS = 50"

definition MIN_MINOR_UNITS :: int where
  "MIN_MINOR_UNITS = - 9223372036854775808"

definition MAX_MINOR_UNITS :: int where
  "MAX_MINOR_UNITS = 9223372036854775807"

definition isSupportedMinorUnitValue :: "int \<Rightarrow> bool" where
  "isSupportedMinorUnitValue value \<longleftrightarrow> MIN_MINOR_UNITS \<le> value \<and> value \<le> MAX_MINOR_UNITS"

lemma isSupported_bigint: "isSupportedMinorUnitValue v = bigint_ok v"
  by (simp add: isSupportedMinorUnitValue_def bigint_ok_def MIN_MINOR_UNITS_def MAX_MINOR_UNITS_def)

text \<open>The callback of \<open>input.postings.map\<close>, with the set of account ids seen so far and
  the running total. (The type check on \<open>amountMinor\<close> is the type \<open>int\<close>.)\<close>

fun normalizePostings ::
  "(string \<Rightarrow> bool) \<Rightarrow> uuid list \<Rightarrow> int \<Rightarrow> posting_input list \<Rightarrow> exn + posting_input list \<times> int" where
  "normalizePostings isUUID accountIds tot [] = Inr ([], tot)"
| "normalizePostings isUUID accountIds tot (p # ps) =
     (if \<not> isUUID (pi_accountId p) then
        Inl (BadRequest ''Ledger posting account IDs must be UUID v4 values'')
      else if pi_amountMinor p = 0 then
        Inl (BadRequest ''Ledger postings cannot have a zero amount'')
      else if \<not> isSupportedMinorUnitValue (pi_amountMinor p) then
        Inl (BadRequest ''Ledger posting amount exceeds the supported BIGINT range'')
      else if pi_accountId p \<in> set accountIds then
        Inl (BadRequest ''A ledger transaction can post to an account only once'')
      else
        ebind (normalizePostings isUUID (pi_accountId p # accountIds)
                 (tot + pi_amountMinor p) ps) (\<lambda>(qs, t).
        Inr (p # qs, t)))"

definition normalizeLedgerTransactionInput ::
  "(string \<Rightarrow> bool) \<Rightarrow> ledger_input \<Rightarrow> exn + ledger_input" where
  "normalizeLedgerTransactionInput isUUID input =
     (let reference = js_trim (li_reference input);
          description = map_option js_trim (li_description input)
      in
      if length reference = 0 \<or> 120 < length reference then
        Inl (BadRequest ''Ledger reference must be between 1 and 120 characters'')
      else if (case description of None \<Rightarrow> False | Some s \<Rightarrow> 255 < length s) then
        Inl (BadRequest ''Ledger description cannot exceed 255 characters'')
      else if length (li_postings input) < 2 then
        Inl (BadRequest ''A ledger transaction requires at least two postings'')
      else if MAX_POSTINGS < length (li_postings input) then
        Inl (BadRequest ''A ledger transaction cannot exceed 50 postings'')
      else
        ebind (normalizePostings isUUID [] 0 (li_postings input)) (\<lambda>(postings, tot).
        if tot \<noteq> 0 then Inl (BadRequest ''Ledger postings must sum to zero'')
        else Inr \<lparr>li_reference = reference, li_currency = li_currency input,
                  li_description =
                    (case description of None \<Rightarrow> None | Some s \<Rightarrow> if s = [] then None else Some s),
                  li_postings = postings\<rparr>))"

abbreviation postingTotal :: "posting_input list \<Rightarrow> int" where
  "postingTotal ps \<equiv> \<Sum>p \<leftarrow> ps. pi_amountMinor p"

definition posting_valid :: "(string \<Rightarrow> bool) \<Rightarrow> posting_input \<Rightarrow> bool" where
  "posting_valid isUUID p \<longleftrightarrow>
     isUUID (pi_accountId p) \<and> pi_amountMinor p \<noteq> 0 \<and> bigint_ok (pi_amountMinor p)"

lemma normalizePostings_iff:
  "normalizePostings isUUID ids tot ps = Inr (qs, t) \<longleftrightarrow>
     qs = ps \<and> t = tot + postingTotal ps \<and> list_all (posting_valid isUUID) ps \<and>
     distinct (map pi_accountId ps) \<and> set (map pi_accountId ps) \<inter> set ids = {}"
proof (induction ps arbitrary: ids tot qs t)
  case Nil
  then show ?case by auto
next
  case (Cons p ps)
  show ?case
    by (auto simp: Cons.IH posting_valid_def isSupported_bigint ebind_eq_Inr)
qed

lemma normalizePostings_error:
  "normalizePostings isUUID ids tot ps = Inl e \<Longrightarrow> \<exists>m. e = BadRequest m"
  by (induction ps arbitrary: ids tot) (auto simp: ebind_eq_Inl split: if_splits)

text \<open>What a normalised request guarantees to the ledger service.\<close>

definition balanced_input :: "(string \<Rightarrow> bool) \<Rightarrow> ledger_input \<Rightarrow> bool" where
  "balanced_input isUUID n \<longleftrightarrow>
     0 < length (li_reference n) \<and> length (li_reference n) \<le> 120 \<and>
     js_trim (li_reference n) = li_reference n \<and>
     (case li_description n of None \<Rightarrow> True
      | Some s \<Rightarrow> s \<noteq> [] \<and> length s \<le> 255 \<and> js_trim s = s) \<and>
     2 \<le> length (li_postings n) \<and> length (li_postings n) \<le> 50 \<and>
     list_all (posting_valid isUUID) (li_postings n) \<and>
     distinct (map pi_accountId (li_postings n)) \<and> postingTotal (li_postings n) = 0"

lemma normalize_balanced:
  assumes "normalizeLedgerTransactionInput isUUID input = Inr n"
  shows "balanced_input isUUID n"
  using assms
  by (auto simp: normalizeLedgerTransactionInput_def balanced_input_def Let_def MAX_POSTINGS_def
        ebind_eq_Inr normalizePostings_iff split: if_splits option.splits)

lemma normalize_postings:
  "normalizeLedgerTransactionInput isUUID input = Inr n \<Longrightarrow>
   li_postings n = li_postings input \<and> li_currency n = li_currency input"
  by (auto simp: normalizeLedgerTransactionInput_def Let_def
        ebind_eq_Inr normalizePostings_iff split: if_splits option.splits)

lemma normalize_error:
  "normalizeLedgerTransactionInput isUUID input = Inl e \<Longrightarrow> \<exists>m. e = BadRequest m"
  by (auto simp: normalizeLedgerTransactionInput_def Let_def ebind_eq_Inl
        dest: normalizePostings_error split: if_splits option.splits)

text \<open>A request that is balanced already is returned unchanged: normalising is idempotent.\<close>

lemma normalize_fixed:
  assumes "balanced_input isUUID n"
  shows "normalizeLedgerTransactionInput isUUID n = Inr n"
proof -
  have "normalizePostings isUUID [] 0 (li_postings n) = Inr (li_postings n, 0)"
    using assms by (simp add: normalizePostings_iff balanced_input_def)
  then show ?thesis
    using assms
    by (cases n) (auto simp: normalizeLedgerTransactionInput_def balanced_input_def Let_def
        MAX_POSTINGS_def split: option.splits)
qed

end
