(* ===== verification/LedgerCorrect.thy ===== *)
theory LedgerCorrect
  imports LedgerEffect
begin

text \<open>
  The theorem that characterises \<open>postWithinTransaction\<close> completely (\<open>post_result\<close>): which
  requests it posts, with what effect, and what it leaves behind when it does not; and the
  preservation of the ledger invariants by the effect.
\<close>

section \<open>The write path on an accepted request\<close>

lemma sql_btrim_trimmed: "js_trim s = s \<Longrightarrow> sql_btrim s = s"
proof (cases "s = []")
  case False
  assume t: "js_trim s = s"
  have ws: "js_whitespace CHR '' ''" by (simp add: js_whitespace_def)
  have "hd s \<noteq> CHR '' ''" "last s \<noteq> CHR '' ''"
    using js_trim_hd [of s] js_trim_last [of s] t False ws by auto
  then have "dropWhile (\<lambda>c. c = CHR '' '') s = s" "dropWhile (\<lambda>c. c = CHR '' '') (rev s) = rev s"
    by (auto intro!: dropWhile_eq_self simp: hd_rev)
  then show ?thesis by (simp add: sql_btrim_def)
qed (simp add: sql_btrim_def)

text \<open>The rows of a request can be inserted: its texts can be stored, its reference and the ids are not taken.\<close>

definition storable :: "ledger_input \<Rightarrow> bool" where
  "storable n \<longleftrightarrow> no_nul (li_reference n) \<and> (case li_description n of None \<Rightarrow> True | Some s \<Rightarrow> no_nul s)"

definition fresh_ledger :: "(nat \<Rightarrow> uuid) \<Rightarrow> ledger_input \<Rightarrow> db \<Rightarrow> bool" where
  "fresh_ledger gen n d \<longleftrightarrow> storable n \<and>
     gen 0 \<notin> lt_id ` set (ledgerTransactions d) \<and>
     li_reference n \<notin> lt_reference ` set (ledgerTransactions d) \<and>
     distinct (map gen [1..<Suc (length (li_postings n))]) \<and>
     gen ` {1..length (li_postings n)} \<inter> lp_id ` set (postings d) = {}"

definition sealed_row :: "time \<Rightarrow> (nat \<Rightarrow> uuid) \<Rightarrow> ledger_input \<Rightarrow> ledger_transaction" where
  "sealed_row now gen n =
     \<lparr>lt_id = gen 0, lt_reference = li_reference n, lt_currency = li_currency n,
      lt_description = li_description n, lt_createdAt = now, lt_sealedAt = Some (now)\<rparr>"

text \<open>The balances the loop computes, as a map.\<close>

definition next_map :: "db \<Rightarrow> posting_input list \<Rightarrow> uuid \<Rightarrow> int option" where
  "next_map d ps = (\<lambda>aid. if aid \<in> set (map pi_accountId ps)
     then map_option (\<lambda>a. la_balanceMinor a + amountFor ps aid) (account_pk.lookup aid (accounts d))
     else None)"

lemma findAccounts_ids:
  "map (\<lambda>row. la_id (fst row)) (findAccounts ids d) =
   filter (\<lambda>i. i \<in> set ids) (map la_id (accounts d))"
  by (simp add: findAccounts_def filter_map o_def)

lemma findAccounts_row:
  "row \<in> set (findAccounts ids d) \<Longrightarrow>
   fst row \<in> set (accounts d) \<and> la_id (fst row) \<in> set ids \<and>
   snd row = wallet_account.lookup (la_id (fst row)) (wallets d)"
  by (auto simp: findAccounts_def)

lemma findAccounts_length:
  assumes "account_pk.unique (accounts d)" "distinct ids" "set ids \<subseteq> la_id ` set (accounts d)"
  shows "length (findAccounts ids d) = length ids"
proof -
  let ?l = "filter (\<lambda>i. i \<in> set ids) (map la_id (accounts d))"
  have "distinct ?l" using assms(1) by (simp add: account_pk.unique_def)
  moreover have "set ?l = set ids" using assms(3) by auto
  ultimately have "length ?l = length ids"
    using assms(2) by (metis distinct_card)
  then show ?thesis using findAccounts_ids [of ids d] by (metis length_map)
qed

lemma wallet_of_account:
  assumes "pairing_ok d" "a \<in> set (accounts d)" "w \<in> set (wallets d)" "w_ledgerAccountId w = la_id a"
  shows "wallet_matches w a"
proof -
  from assms obtain b where b: "b \<in> set (accounts d)" "wallet_matches w b"
    unfolding pairing_ok_def by blast
  then have "la_id b = la_id a" using assms(4) by (simp add: wallet_matches_def)
  with assms(1,2) b have "b = a"
    by (auto simp: pairing_ok_def account_pk.unique_def dest: distinct_map_inj)
  with b show ?thesis by simp
qed

lemma write_balances_effect:
  assumes ok: "pairing_ok d" and ps: "distinct (map pi_accountId ps)" "list_all (posting_valid isUUID) ps"
    and S: "S = set (map pi_accountId ps)" "S \<subseteq> la_id ` set (accounts d)"
    and d': "accounts d' = accounts d" "wallets d' = wallets d"
  shows "write_balances now (next_map d ps |` S) d' =
    d'\<lparr>accounts := map (credit_account ps) (accounts d), wallets := map (credit_wallet now ps) (wallets d)\<rparr>"
proof -
  have look: "account_pk.lookup (la_id a) (accounts d) = Some a" if "a \<in> set (accounts d)" for a
    using ok that by (simp add: pairing_ok_def account_pk.lookup_unique)
  have a: "set_balance (next_map d ps |` S) a = credit_account ps a" if "a \<in> set (accounts d)" for a
    using look [OF that] amountFor_notin [of "la_id a" ps]
    by (simp add: set_balance_def credit_account_def next_map_def restrict_map_def S)
  have w: "set_wallet_balance now (next_map d ps |` S) w = credit_wallet now ps w"
    if w: "w \<in> set (wallets d)" for w
  proof -
    from ok w obtain b where b: "b \<in> set (accounts d)" "wallet_matches w b"
      unfolding pairing_ok_def by blast
    then have l: "account_pk.lookup (w_ledgerAccountId w) (accounts d) = Some b"
      using look [OF b(1)] by (simp add: wallet_matches_def)
    show ?thesis
      using l b(2) amountFor_nonzero [OF ps, of "w_ledgerAccountId w"]
      by (auto simp: set_wallet_balance_def credit_wallet_def next_map_def restrict_map_def S
            wallet_matches_def)
  qed
  show ?thesis
    using a w d' by (simp add: write_balances_def cong: map_cong)
qed

lemma rows_writable:
  assumes ok: "pairing_ok d" and ps: "distinct (map pi_accountId ps)" "list_all (posting_valid isUUID) ps"
    and pass: "\<forall>p \<in> set ps. \<exists>a. account_pk.lookup (pi_accountId p) (accounts d) = Some a \<and>
        posting_passes d cur p a"
    and d': "accounts d' = accounts d" "wallets d' = wallets d"
    and row: "row \<in> set (findAccounts ids d)" "set ids = set (map pi_accountId ps)"
  shows "writable d' (next_map d ps) row"
proof -
  let ?a = "fst row"
  have a: "?a \<in> set (accounts d)" "la_id ?a \<in> set (map pi_accountId ps)"
    using findAccounts_row [OF row(1)] row(2) by auto
  then obtain p where p: "p \<in> set ps" "la_id ?a = pi_accountId p" by auto
  have look: "account_pk.lookup (la_id ?a) (accounts d) = Some ?a"
    using ok a by (simp add: pairing_ok_def account_pk.lookup_unique)
  with pass p have passes: "posting_passes d cur p ?a" by fastforce
  have amt: "amountFor ps (la_id ?a) = pi_amountMinor p" "pi_amountMinor p \<noteq> 0"
    using p ps amountFor_in [of ps p] by (auto simp: list_all_iff posting_valid_def)
  have acc: "account_ok ?a" "la_kind ?a = WALLET \<longrightarrow> la_id ?a \<in> w_ledgerAccountId ` set (wallets d)"
    using ok a by (auto simp: pairing_ok_def)
  have "\<not> existsRow (\<lambda>w. w_ledgerAccountId w = la_id ?a) (wallets d)" if "la_kind ?a \<noteq> WALLET"
    using wallet_of_account [OF ok a(1)] that by (auto simp: existsRow_iff wallet_matches_def)
  then show ?thesis
    using passes acc amt look a(2) d'
    by (auto simp: writable_def Let_def next_map_def posting_passes_def balance_policy_def
          account_ok_def kind_policy_def existsRow_iff)
qed


text \<open>The states between the writes of an accepted request.\<close>

definition open_row :: "runtime \<Rightarrow> (nat \<Rightarrow> uuid) \<Rightarrow> ledger_input \<Rightarrow> ledger_transaction" where
  "open_row rt gen n = (sealed_row (rt_now rt) gen n)\<lparr>lt_sealedAt := None\<rparr>"

definition opened :: "runtime \<Rightarrow> (nat \<Rightarrow> uuid) \<Rightarrow> ledger_input \<Rightarrow> db \<Rightarrow> db" where
  "opened rt gen n d = d\<lparr>settings := ''app.ledger_write'' # settings d,
     ledgerTransactions := ledgerTransactions d @ [open_row rt gen n]\<rparr>"

lemma open_row_simps [simp]:
  "lt_id (open_row rt gen n) = gen 0" "lt_reference (open_row rt gen n) = li_reference n"
  "lt_sealedAt (open_row rt gen n) = None" "lt_createdAt (open_row rt gen n) = rt_now rt"
  "lt_description (open_row rt gen n) = li_description n"
  "(open_row rt gen n)\<lparr>lt_sealedAt := Some (rt_now rt)\<rparr> = sealed_row (rt_now rt) gen n"
  by (simp_all add: open_row_def sealed_row_def)

lemma opened_simps [simp]:
  "setting_on ''app.ledger_write'' (opened rt gen n d)"
  "postings (opened rt gen n d) = postings d" "accounts (opened rt gen n d) = accounts d"
  "wallets (opened rt gen n d) = wallets d"
  by (simp_all add: opened_def setting_on_def)

lemma create_open_row:
  assumes "balanced_input isUUID n"
  shows "create_ledgerTransaction (open_row rt gen n) (d\<lparr>settings := ''app.ledger_write'' # settings d\<rparr>) =
    (if \<not> storable n then (Inl OutOfRange, d\<lparr>settings := ''app.ledger_write'' # settings d\<rparr>)
     else if gen 0 \<in> lt_id ` set (ledgerTransactions d) \<or>
        li_reference n \<in> lt_reference ` set (ledgerTransactions d)
     then (Inl P2002, d\<lparr>settings := ''app.ledger_write'' # settings d\<rparr>)
     else (Inr (open_row rt gen n), opened rt gen n d))"
proof -
  have "sql_btrim (li_reference n) = li_reference n" "li_reference n \<noteq> []"
    using assms by (auto simp: balanced_input_def sql_btrim_trimmed)
  then show ?thesis
    using assms
    by (auto simp: create_ledgerTransaction_def op_simps setting_on_def balanced_input_def
          varchar_ok_def varchar_fits_def storable_def existsRow_iff opened_def notin_image split: option.splits)
qed

lemma put_seal:
  "gen 0 \<notin> lt_id ` set ts \<Longrightarrow>
   ltx_pk.put (gen 0) (\<lambda>u. u\<lparr>lt_sealedAt := Some (rt_now rt)\<rparr>) (ts @ [open_row rt gen n]) =
   ts @ [sealed_row (rt_now rt) gen n]"
  by (auto simp: ltx_pk.put_def notin_image intro!: updateRows_none)

lemma lookup_opened:
  "gen 0 \<notin> lt_id ` set ts \<Longrightarrow> lt_id r = gen 0 \<Longrightarrow> ltx_pk.lookup (gen 0) (ts @ [r]) = Some r"
  by (auto simp: ltx_pk.lookup_def findRow_append notin_image split: option.splits dest!: findRow_SomeD)

lemma seal_open:
  assumes "gen 0 \<notin> lt_id ` set ts" "setting_on ''app.ledger_write'' d"
    and "ledgerTransactions d = ts @ [open_row rt gen n]"
  shows "seal_ledgerTransaction (gen 0) (rt_now rt) d =
    (Inr (sealed_row (rt_now rt) gen n), d\<lparr>ledgerTransactions := ts @ [sealed_row (rt_now rt) gen n]\<rparr>)"
  using assms
  by (simp add: seal_ledgerTransaction_def op_simps lookup_opened put_seal)

text \<open>The part of the code after the checks, on an open transaction.\<close>

definition write_rest ::
  "runtime \<Rightarrow> (nat \<Rightarrow> uuid) \<Rightarrow> uuid \<Rightarrow> ledger_input \<Rightarrow> account_row list \<Rightarrow> (uuid \<rightharpoonup> int) \<Rightarrow> (db, posted) op" where
  "write_rest rt gen tid n accs next =
     andThen (forEach create_ledgerPosting (posting_rows gen 1 tid (li_postings n))) (\<lambda>_.
     andThen (forEach (writeBalance (rt_now rt) next) accs) (\<lambda>_.
     andThen (seal_ledgerTransaction tid (rt_now rt)) (\<lambda>_.
     andThen (query (\<lambda>d. (ltx_pk.lookup tid (ledgerTransactions d),
                          sort_key lp_accountId (postingsOf d tid)))) (\<lambda>(found, ps).
     case found of None \<Rightarrow> raise P2025 | Some u \<Rightarrow> return (u, ps)))))"

lemma post_checks:
  assumes n: "normalizeLedgerTransactionInput (rt_isUUID rt) input = Inr n"
    and ok: "account_pk.unique (accounts d)"
  shows "if postable d n
    then postWithinTransaction rt gen input d =
      (let accs = findAccounts (sort (map pi_accountId (li_postings n))) d in
       andThen (create_ledgerTransaction (open_row rt gen n))
         (\<lambda>t. write_rest rt gen (lt_id t) n accs (next_map d (li_postings n)))
         (d\<lparr>settings := ''app.ledger_write'' # settings d\<rparr>))
    else \<exists>s m. postWithinTransaction rt gen input d = (Inl (HttpException s m), d)"
proof -
  let ?ids = "sort (map pi_accountId (li_postings n))"
  have b: "balanced_input (rt_isUUID rt) n" using n by (rule normalize_balanced)
  then have dist: "distinct (map pi_accountId (li_postings n))" by (simp add: balanced_input_def)
  note nexts = computeNextBalances_Inr [of "li_postings n" ?ids "li_currency n" d Map.empty, OF _ dist]
  show ?thesis
  proof (cases "postable d n")
    case True
    then have "set ?ids \<subseteq> la_id ` set (accounts d)"
      using account_pk.lookup_Some [of _ "accounts d"] unfolding postable_def by (auto, metis imageI)
    then have len: "length (findAccounts ?ids d) = length ?ids"
      using ok dist by (intro findAccounts_length) auto
    have comp: "computeNextBalances (li_currency n) (findAccounts ?ids d) (li_postings n) Map.empty =
        Inr (next_map d (li_postings n))"
      using True nexts by (simp add: postable_def next_map_def)
    have row: "\<lparr>lt_id = gen 0, lt_reference = li_reference n, lt_currency = li_currency n,
        lt_description = li_description n, lt_createdAt = rt_now rt, lt_sealedAt = None\<rparr> = open_row rt gen n"
      by (simp add: open_row_def sealed_row_def)
    show ?thesis
      using True len comp
      by (simp add: postWithinTransaction_def n Let_def op_simps set_config_def write_rest_def row)
  next
    case False
    have "\<exists>s m. (if length (findAccounts ?ids d) = length ?ids
        then (case computeNextBalances (li_currency n) (findAccounts ?ids d) (li_postings n) Map.empty of
           Inl e \<Rightarrow> Inl e | Inr x \<Rightarrow> Inr x) else Inl (NotFound ''One or more ledger accounts do not exist''))
       = Inl (HttpException s m)"
      using False nexts computeNextBalances_Inl
      by (auto simp: postable_def split: sum.splits)
    then show ?thesis
      using False
      by (auto simp: postWithinTransaction_def n Let_def op_simps split: sum.splits if_splits)
  qed
qed


text \<open>On an open transaction with fresh ids every write succeeds, with \<open>ledger_effect\<close>.\<close>

definition postings_linked :: "db \<Rightarrow> bool" where
  "postings_linked d \<longleftrightarrow>
     (\<forall>p \<in> set (postings d). lp_ledgerTransactionId p \<in> lt_id ` set (ledgerTransactions d))"

lemma double_entry_linked: "double_entry d \<Longrightarrow> postings_linked d"
  unfolding double_entry_def postings_linked_def by (metis imageI)

lemma write_postings:
  assumes ps: "list_all (posting_valid isUUID) (li_postings n)" "distinct (map pi_accountId (li_postings n))"
    and link: "postings_linked d" and pass: "postable d n"
    and new: "gen 0 \<notin> lt_id ` set (ledgerTransactions d)"
  shows "if distinct (map gen [1..<Suc (length (li_postings n))]) \<and>
       gen ` {1..length (li_postings n)} \<inter> lp_id ` set (postings d) = {}
    then forEach create_ledgerPosting (posting_rows gen 1 (gen 0) (li_postings n)) (opened rt gen n d) =
      (Inr (), (opened rt gen n d)\<lparr>postings := postings d @ posting_rows gen 1 (gen 0) (li_postings n)\<rparr>)
    else \<exists>d'. forEach create_ledgerPosting (posting_rows gen 1 (gen 0) (li_postings n)) (opened rt gen n d) =
      (Inl P2002, d')"
proof -
  let ?rows = "posting_rows gen 1 (gen 0) (li_postings n)"
  have look: "ltx_pk.lookup (gen 0) (ledgerTransactions (opened rt gen n d)) = Some (open_row rt gen n)"
    using new by (simp add: opened_def lookup_opened)
  have acc: "existsRow (\<lambda>a. la_id a = pi_accountId p) (accounts d)" if "p \<in> set (li_postings n)" for p
    using pass that account_pk.lookup_Some unfolding postable_def existsRow_iff by metis
  have rows: "\<forall>p \<in> set ?rows. posting_row_ok (opened rt gen n d) (gen 0) p"
    using posting_rows_set [of _ gen 1 "gen 0" "li_postings n"] ps(1) acc
    by (fastforce simp: posting_row_ok_def list_all_iff posting_valid_def)
  have "\<forall>q \<in> set (postings (opened rt gen n d)). lp_ledgerTransactionId q = gen 0 \<longrightarrow>
      lp_accountId q \<notin> lp_accountId ` set ?rows"
    using link new unfolding postings_linked_def by (metis opened_simps(2))
  moreover have "distinct (map lp_accountId ?rows)" using ps(2) by (simp add: posting_rows_simps)
  moreover have "map lp_id ?rows = map gen [1..<Suc (length (li_postings n))]"
    by (simp add: posting_rows_simps del: upt_Suc)
  moreover have "set [1..<Suc (length (li_postings n))] = {1..length (li_postings n)}" by auto
  ultimately show ?thesis
    using create_postings_cases [OF opened_simps(1) look _ rows]
    by (simp only: open_row_simps opened_simps set_map) simp
qed

lemma write_rest_effect:
  assumes ok: "pairing_ok d" and link: "postings_linked d"
    and b: "balanced_input isUUID n" and pass: "postable d n"
    and new: "gen 0 \<notin> lt_id ` set (ledgerTransactions d)"
    and ids: "distinct (map gen [1..<Suc (length (li_postings n))])"
      "gen ` {1..length (li_postings n)} \<inter> lp_id ` set (postings d) = {}"
  shows "write_rest rt gen (gen 0) n (findAccounts (sort (map pi_accountId (li_postings n))) d)
      (next_map d (li_postings n)) (opened rt gen n d) =
    (Inr (sealed_row (rt_now rt) gen n, sort_key lp_accountId (posting_rows gen 1 (gen 0) (li_postings n))),
     ledger_effect (rt_now rt) gen n d)"
proof -
  let ?rows = "posting_rows gen 1 (gen 0) (li_postings n)"
  let ?ids = "sort (map pi_accountId (li_postings n))" and ?S = "set (map pi_accountId (li_postings n))"
  let ?d = "(opened rt gen n d)\<lparr>postings := postings d @ ?rows\<rparr>"
  have ps: "list_all (posting_valid isUUID) (li_postings n)" "distinct (map pi_accountId (li_postings n))"
    using b by (simp_all add: balanced_input_def)
  have sub: "?S \<subseteq> la_id ` set (accounts d)"
    using pass account_pk.lookup_Some [of _ "accounts d"] unfolding postable_def by (auto, metis imageI)
  have posts: "forEach create_ledgerPosting ?rows (opened rt gen n d) = (Inr (), ?d)"
    using write_postings [where rt = rt and gen = gen, OF ps link pass new] ids by simp
  have set: "(\<lambda>row. la_id (fst row)) ` set (findAccounts ?ids d) = ?S"
  proof -
    have "(\<lambda>row. la_id (fst row)) ` set (findAccounts ?ids d) =
        set (map (\<lambda>row. la_id (fst row)) (findAccounts ?ids d))" by (simp only: set_map)
    also have "\<dots> = ?S" unfolding findAccounts_ids using sub by auto
    finally show ?thesis .
  qed
  have "forEach (writeBalance (rt_now rt) (next_map d (li_postings n))) (findAccounts ?ids d) ?d =
      (Inr (), write_balances (rt_now rt) (next_map d (li_postings n) |` ?S) ?d)"
    unfolding set [symmetric]
  proof (rule writeBalance_loop)
    show "setting_on ''app.ledger_write'' ?d" by (simp add: opened_def setting_on_def)
    show "\<forall>row \<in> set (findAccounts ?ids d). writable ?d (next_map d (li_postings n)) row"
      using pass
      by (intro ballI rows_writable [OF ok ps(2,1)]) (auto simp: postable_def)
    show "distinct (map (\<lambda>row. la_id (fst row)) (findAccounts ?ids d))"
      using ok by (simp add: findAccounts_ids pairing_ok_def account_pk.unique_def)
  qed
  also have "write_balances (rt_now rt) (next_map d (li_postings n) |` ?S) ?d =
      ?d\<lparr>accounts := map (credit_account (li_postings n)) (accounts d),
         wallets := map (credit_wallet (rt_now rt) (li_postings n)) (wallets d)\<rparr>"
    by (rule write_balances_effect [OF ok ps(2,1) refl sub]) simp_all
  finally have bal: "forEach (writeBalance (rt_now rt) (next_map d (li_postings n))) (findAccounts ?ids d) ?d =
      (Inr (), ?d\<lparr>accounts := map (credit_account (li_postings n)) (accounts d),
         wallets := map (credit_wallet (rt_now rt) (li_postings n)) (wallets d)\<rparr>)" .
  have "filter (\<lambda>p. lp_ledgerTransactionId p = gen 0) (postings d) = []"
    using link new unfolding postings_linked_def filter_empty_conv by metis
  moreover have "filter (\<lambda>p. lp_ledgerTransactionId p = gen 0) ?rows = ?rows"
    using posting_rows_set [of _ gen 1 "gen 0"] by (auto simp: filter_id_conv)
  ultimately have rows: "postingsOf ?d (gen 0) = ?rows" by simp
  let ?e = "?d\<lparr>accounts := map (credit_account (li_postings n)) (accounts d),
         wallets := map (credit_wallet (rt_now rt) (li_postings n)) (wallets d)\<rparr>"
  have seal: "seal_ledgerTransaction (gen 0) (rt_now rt) ?e = (Inr (sealed_row (rt_now rt) gen n),
      ?e\<lparr>ledgerTransactions := ledgerTransactions d @ [sealed_row (rt_now rt) gen n]\<rparr>)"
    by (rule seal_open [where gen = gen, OF new]) (simp_all add: opened_def setting_on_def)
  have id: "lt_id (sealed_row (rt_now rt) gen n) = gen 0" by (simp add: sealed_row_def)
  show ?thesis
    unfolding write_rest_def
    apply (subst andThen_InrI, rule posts)
    apply (subst andThen_InrI, rule bal)
    apply (subst andThen_InrI, rule seal)
    using rows new id
    by (simp add: op_simps lookup_opened)
      (simp add: opened_def ledger_effect_def sealed_row_def)
qed

section \<open>The complete behaviour of a call\<close>

theorem post_balanced:
  assumes ok: "pairing_ok d" and link: "postings_linked d"
    and n: "normalizeLedgerTransactionInput (rt_isUUID rt) input = Inr n"
  shows "if \<not> postable d n then \<exists>s m. postWithinTransaction rt gen input d = (Inl (HttpException s m), d)
    else if fresh_ledger gen n d then postWithinTransaction rt gen input d =
      (Inr (sealed_row (rt_now rt) gen n, sort_key lp_accountId (posting_rows gen 1 (gen 0) (li_postings n))),
       ledger_effect (rt_now rt) gen n d)
    else \<exists>d'. postWithinTransaction rt gen input d = (Inl (if storable n then P2002 else OutOfRange), d')"
proof (cases "postable d n")
  case True
  have b: "balanced_input (rt_isUUID rt) n" using n by (rule normalize_balanced)
  then have ps: "list_all (posting_valid (rt_isUUID rt)) (li_postings n)"
    "distinct (map pi_accountId (li_postings n))"
    by (simp_all add: balanced_input_def)
  let ?rest = "\<lambda>t. write_rest rt gen (lt_id t) n
    (findAccounts (sort (map pi_accountId (li_postings n))) d) (next_map d (li_postings n))"
  have post: "postWithinTransaction rt gen input d =
      andThen (create_ledgerTransaction (open_row rt gen n)) ?rest
        (d\<lparr>settings := ''app.ledger_write'' # settings d\<rparr>)"
    using post_checks [where gen = gen, OF n] ok True by (simp add: pairing_ok_def Let_def)
  note cre = create_open_row [where rt = rt and gen = gen and d = d, OF b]
  show ?thesis
  proof (cases "\<not> storable n \<or> gen 0 \<in> lt_id ` set (ledgerTransactions d) \<or>
      li_reference n \<in> lt_reference ` set (ledgerTransactions d)")
    case dup: True
    then have "postWithinTransaction rt gen input d =
        (Inl (if storable n then P2002 else OutOfRange), d\<lparr>settings := ''app.ledger_write'' # settings d\<rparr>)"
      unfolding post using cre by (simp add: andThen_def)
    with dup True show ?thesis by (auto simp: fresh_ledger_def)
  next
    case new: False
    then have fits: "storable n" by simp
    from new have step: "postWithinTransaction rt gen input d = ?rest (open_row rt gen n) (opened rt gen n d)"
      unfolding post using cre by (simp add: andThen_def)
    note posts = write_postings [where rt = rt and gen = gen, OF ps link True]
    show ?thesis
    proof (cases "distinct (map gen [1..<Suc (length (li_postings n))]) \<and>
        gen ` {1..length (li_postings n)} \<inter> lp_id ` set (postings d) = {}")
      case fresh: True
      then have "fresh_ledger gen n d" using new by (simp only: fresh_ledger_def) simp
      with fresh new True show ?thesis
        using write_rest_effect [where rt = rt and gen = gen, OF ok link b True] step by simp
    next
      case False
      then obtain d' where "forEach create_ledgerPosting (posting_rows gen 1 (gen 0) (li_postings n))
          (opened rt gen n d) = (Inl P2002, d')"
        using posts new by (metis (no_types, lifting))
      then have "postWithinTransaction rt gen input d = (Inl P2002, d')"
        unfolding step write_rest_def by (simp add: andThen_InlI)
      moreover have "\<not> fresh_ledger gen n d" using False by (simp only: fresh_ledger_def) blast
      ultimately show ?thesis using True fits by auto
    qed
  qed
next
  case False
  then show ?thesis
    using post_checks [OF n, of d gen] ok by (simp add: pairing_ok_def)
qed

lemma post_rejected:
  "normalizeLedgerTransactionInput (rt_isUUID rt) input = Inl e \<Longrightarrow>
   postWithinTransaction rt gen input d = (Inl e, d)"
  by (simp add: postWithinTransaction_def op_simps)

text \<open>What a client of the ledger needs: the two ways a call can end.\<close>

lemma post_Inr:
  assumes "pairing_ok d" "postings_linked d"
  shows "postWithinTransaction rt gen input d = (Inr res, d') \<longleftrightarrow>
    (\<exists>n. normalizeLedgerTransactionInput (rt_isUUID rt) input = Inr n \<and> postable d n \<and>
         fresh_ledger gen n d \<and> d' = ledger_effect (rt_now rt) gen n d \<and>
         res = (sealed_row (rt_now rt) gen n, sort_key lp_accountId (posting_rows gen 1 (gen 0) (li_postings n))))"
proof (cases "normalizeLedgerTransactionInput (rt_isUUID rt) input")
  case (Inl e)
  then show ?thesis by (simp add: post_rejected)
next
  case (Inr n)
  then show ?thesis using post_balanced [OF assms Inr, of gen] by (auto split: if_splits)
qed

lemma post_Inl:
  assumes "pairing_ok d" "postings_linked d" "postWithinTransaction rt gen input d = (Inl e, d')"
  shows "(\<exists>s m. e = HttpException s m \<and> d' = d) \<or> e = P2002 \<or> e = OutOfRange"
proof (cases "normalizeLedgerTransactionInput (rt_isUUID rt) input")
  case (Inl e')
  then show ?thesis using assms(3) normalize_error [OF Inl] by (auto simp: post_rejected)
next
  case (Inr n)
  then show ?thesis
    using post_balanced [OF assms(1,2) Inr, of gen] assms(3) by (auto split: if_splits)
qed

end
