(* ===== verification/LedgerSafety.thy ===== *)
theory LedgerSafety
  imports LedgerCorrect
begin

text \<open>
  Safety of the ledger: a posted transaction keeps the two ledger invariants, passes the
  database's own check at commit, and creates no money. In a database with the invariants
  the books balance: the balances of all accounts of one currency sum to zero.
\<close>

section \<open>The effect on the tables\<close>

lemma ledger_effect_simps [simp]:
  "ledgerTransactions (ledger_effect now gen n d) = ledgerTransactions d @ [sealed_row now gen n]"
  "postings (ledger_effect now gen n d) = postings d @ posting_rows gen 1 (gen 0) (li_postings n)"
  "accounts (ledger_effect now gen n d) = map (credit_account (li_postings n)) (accounts d)"
  "wallets (ledger_effect now gen n d) = map (credit_wallet now (li_postings n)) (wallets d)"
  "users (ledger_effect now gen n d) = users d"
  "transfers (ledger_effect now gen n d) = transfers d"
  "reversals (ledger_effect now gen n d) = reversals d"
  "beneficiaries (ledger_effect now gen n d) = beneficiaries d"
  "idempotencyRecords (ledger_effect now gen n d) = idempotencyRecords d"
  "auditLogs (ledger_effect now gen n d) = auditLogs d"
  "outboxEvents (ledger_effect now gen n d) = outboxEvents d"
  "notifications (ledger_effect now gen n d) = notifications d"
  "subscriptions (ledger_effect now gen n d) = subscriptions d"
  "deliveries (ledger_effect now gen n d) = deliveries d"
  "attempts (ledger_effect now gen n d) = attempts d"
  "payments (ledger_effect now gen n d) = payments d"
  "providerEvents (ledger_effect now gen n d) = providerEvents d"
  "checkouts (ledger_effect now gen n d) = checkouts d"
  "settings (ledger_effect now gen n d) = ''app.ledger_write'' # settings d"
  by (simp_all add: ledger_effect_def sealed_row_def)

lemma sealed_row_simps [simp]:
  "lt_id (sealed_row now gen n) = gen 0" "lt_reference (sealed_row now gen n) = li_reference n"
  "lt_currency (sealed_row now gen n) = li_currency n"
  "lt_sealedAt (sealed_row now gen n) = Some now"
  "lt_description (sealed_row now gen n) = li_description n"
  by (simp_all add: sealed_row_def)

lemma credit_account_simps [simp]:
  "la_id (credit_account ps a) = la_id a" "la_kind (credit_account ps a) = la_kind a"
  "la_currency (credit_account ps a) = la_currency a"
  "la_allowNegative (credit_account ps a) = la_allowNegative a"
  "la_systemKey (credit_account ps a) = la_systemKey a"
  "la_balanceMinor (credit_account ps a) = la_balanceMinor a + amountFor ps (la_id a)"
  by (simp_all add: credit_account_def)

lemma credit_wallet_simps [simp]:
  "w_id (credit_wallet now ps w) = w_id w" "w_userId (credit_wallet now ps w) = w_userId w"
  "w_ledgerAccountId (credit_wallet now ps w) = w_ledgerAccountId w"
  "w_currency (credit_wallet now ps w) = w_currency w"
  "w_status (credit_wallet now ps w) = w_status w"
  "w_createdAt (credit_wallet now ps w) = w_createdAt w"
  "w_currentBalanceMinor (credit_wallet now ps w) =
     w_currentBalanceMinor w + amountFor ps (w_ledgerAccountId w)"
  by (simp_all add: credit_wallet_def)

section \<open>Invariants\<close>

lemma effect_account_ok:
  assumes ok: "pairing_ok d" and b: "balanced_input isUUID n" and pass: "postable d n"
    and a: "a \<in> set (accounts d)"
  shows "account_ok (credit_account (li_postings n) a)"
proof (cases "la_id a \<in> set (map pi_accountId (li_postings n))")
  case True
  then obtain p where p: "p \<in> set (li_postings n)" "la_id a = pi_accountId p" by auto
  have "account_pk.lookup (pi_accountId p) (accounts d) = Some a"
    using ok a p by (simp add: pairing_ok_def account_pk.lookup_unique)
  with pass p have "posting_passes d (li_currency n) p a" unfolding postable_def by fastforce
  moreover have "amountFor (li_postings n) (la_id a) = pi_amountMinor p"
    using b p by (simp add: balanced_input_def amountFor_in)
  ultimately show ?thesis
    using ok a by (auto simp: pairing_ok_def account_ok_def posting_passes_def kind_policy_def
        balance_policy_def)
next
  case False
  then have "credit_account (li_postings n) a = a"
    by (simp add: credit_account_def amountFor_notin)
  then show ?thesis using ok a by (simp add: pairing_ok_def)
qed

lemma effect_pairing:
  assumes ok: "pairing_ok d" and b: "balanced_input isUUID n" and pass: "postable d n"
  shows "pairing_ok (ledger_effect now gen n d)"
proof -
  have ids: "map la_id (map (credit_account ps) as) = map la_id as"
    "map w_id (map (credit_wallet now ps) ws) = map w_id ws"
    "map w_ledgerAccountId (map (credit_wallet now ps) ws) = map w_ledgerAccountId ws" for ps as ws
    by simp_all
  have match: "wallet_matches (credit_wallet now ps w) (credit_account ps a)"
    if "wallet_matches w a" for ps w a
    using that by (simp add: wallet_matches_def)
  show ?thesis
    using ok match effect_account_ok [OF ok b pass]
    unfolding pairing_ok_def ledger_effect_simps account_pk.unique_def wallet_pk.unique_def
      wallet_account.unique_def ids
    by (auto simp: image_image) blast
qed

lemma rows_total: "(\<Sum>p \<leftarrow> posting_rows gen k tid ps. lp_amountMinor p) = postingTotal ps"
  by (simp add: posting_rows_simps(2))

lemma rows_postedTo:
  "(\<Sum>p \<leftarrow> posting_rows gen k tid ps. if lp_accountId p = aid then lp_amountMinor p else 0) =
   amountFor ps aid"
  by (induction ps arbitrary: k) (auto simp: amountFor_def)

lemma rows_own: "filter (\<lambda>p. lp_ledgerTransactionId p = tid) (posting_rows gen k tid ps) = posting_rows gen k tid ps"
  by (auto simp: filter_id_conv dest: posting_rows_set)

lemma rows_other:
  "t \<noteq> tid \<Longrightarrow> filter (\<lambda>p. lp_ledgerTransactionId p = t) (posting_rows gen k tid ps) = []"
  by (auto simp: filter_empty_conv dest: posting_rows_set)

lemma no_postings:
  "postings_linked d \<Longrightarrow> tid \<notin> lt_id ` set (ledgerTransactions d) \<Longrightarrow> postingsOf d tid = []"
  unfolding postings_linked_def filter_empty_conv by metis

text \<open>The postings of a transaction before and after.\<close>

lemma effect_postingsOf:
  assumes "postings_linked d" "fresh_ledger gen n d"
  shows "postingsOf (ledger_effect now gen n d) t =
    (if t = gen 0 then posting_rows gen 1 (gen 0) (li_postings n) else postingsOf d t)"
  using no_postings [OF assms(1)] assms(2)
  by (simp add: rows_own rows_other fresh_ledger_def)

lemma effect_linked:
  "postings_linked d \<Longrightarrow> postings_linked (ledger_effect now gen n d)"
  unfolding postings_linked_def ledger_effect_simps
  by (auto dest: posting_rows_set)

lemma postable_currency:
  assumes "postable d n" "p \<in> set (li_postings n)"
  shows "\<exists>a \<in> set (accounts d). la_id a = pi_accountId p \<and> la_currency a = li_currency n"
proof -
  from assms obtain a where a: "account_pk.lookup (pi_accountId p) (accounts d) = Some a"
    "posting_passes d (li_currency n) p a" unfolding postable_def by blast
  with account_pk.lookup_Some [OF a(1)] show ?thesis
    by (auto simp: posting_passes_def checkAccount_Inr)
qed

lemma effect_double_entry:
  assumes de: "double_entry d" and b: "balanced_input isUUID n" and pass: "postable d n"
    and fresh: "fresh_ledger gen n d"
  shows "double_entry (ledger_effect now gen n d)"
proof -
  let ?d = "ledger_effect now gen n d" and ?rows = "posting_rows gen 1 (gen 0) (li_postings n)"
  have link: "postings_linked d" using de by (rule double_entry_linked)
  have rows: "2 \<le> length ?rows" "(\<Sum>p \<leftarrow> ?rows. lp_amountMinor p) = 0"
    using b by (simp_all add: rows_total posting_rows_simps(5) balanced_input_def)
  have "ltx_pk.unique (ledgerTransactions ?d)" "distinct (map lt_reference (ledgerTransactions ?d))"
    using de fresh by (auto simp: double_entry_def fresh_ledger_def ltx_pk.unique_def notin_image)
  moreover have "distinct (map lp_id (postings ?d))"
  proof -
    have "map lp_id ?rows = map gen [1..<Suc (length (li_postings n))]"
      by (simp add: posting_rows_simps del: upt_Suc)
    moreover have "set (map gen [1..<Suc (length (li_postings n))]) = gen ` {1..length (li_postings n)}"
      by (simp add: atLeastLessThanSuc_atLeastAtMost del: upt_Suc)
    ultimately show ?thesis
      using de fresh
      unfolding double_entry_def fresh_ledger_def ledger_effect_simps map_append distinct_append
      by (metis Int_commute set_map)
  qed
  moreover have "\<forall>t \<in> set (ledgerTransactions ?d). lt_sealedAt t \<noteq> None \<and>
      2 \<le> length (postingsOf ?d (lt_id t)) \<and> (\<Sum>p \<leftarrow> postingsOf ?d (lt_id t). lp_amountMinor p) = 0"
    using de rows fresh unfolding effect_postingsOf [OF link fresh]
    by (auto simp: double_entry_def fresh_ledger_def)
  moreover have "\<forall>p \<in> set (postings ?d). \<exists>t \<in> set (ledgerTransactions ?d). \<exists>a \<in> set (accounts ?d).
      lt_id t = lp_ledgerTransactionId p \<and> la_id a = lp_accountId p \<and> la_currency a = lt_currency t"
  proof
    fix p assume "p \<in> set (postings ?d)"
    then consider "p \<in> set (postings d)" | "p \<in> set ?rows" by auto
    then show "\<exists>t \<in> set (ledgerTransactions ?d). \<exists>a \<in> set (accounts ?d).
      lt_id t = lp_ledgerTransactionId p \<and> la_id a = lp_accountId p \<and> la_currency a = lt_currency t"
    proof cases
      case 1
      with de have "\<exists>t \<in> set (ledgerTransactions d). \<exists>a \<in> set (accounts d).
          lt_id t = lp_ledgerTransactionId p \<and> la_id a = lp_accountId p \<and> la_currency a = lt_currency t"
        by (simp add: double_entry_def)
      then show ?thesis by auto
    next
      case 2
      then obtain q where q: "q \<in> set (li_postings n)" "lp_accountId p = pi_accountId q"
        "lp_ledgerTransactionId p = gen 0" by (blast dest: posting_rows_set)
      from postable_currency [OF pass q(1)] obtain a where
        "a \<in> set (accounts d)" "la_id a = pi_accountId q" "la_currency a = li_currency n" by blast
      with q show ?thesis by auto
    qed
  qed
  moreover have "\<forall>a \<in> set (accounts ?d). la_balanceMinor a = postedTo ?d (la_id a)"
    using de by (auto simp: double_entry_def rows_postedTo)
  ultimately show ?thesis unfolding double_entry_def by blast
qed

lemma effect_ledger_ok:
  assumes "ledger_ok d" "balanced_input isUUID n" "postable d n" "fresh_ledger gen n d"
  shows "ledger_ok (ledger_effect now gen n d)"
  using assms effect_pairing effect_double_entry unfolding ledger_ok_def by blast

section \<open>The check at commit\<close>

lemma effect_validates:
  assumes ok: "pairing_ok d" and link: "postings_linked d" and b: "balanced_input isUUID n"
    and pass: "postable d n" and fresh: "fresh_ledger gen n d"
    and e: "postings e = postings (ledger_effect now gen n d)"
      "accounts e = accounts (ledger_effect now gen n d)"
  shows "validate_ledgerTransaction e (sealed_row now gen n)"
proof -
  let ?rows = "posting_rows gen 1 (gen 0) (li_postings n)"
  have own: "postingsOf e (gen 0) = ?rows"
    using effect_postingsOf [OF link fresh, of "gen 0" now] e by simp
  have acc: "\<exists>a \<in> set (accounts e). la_id a = lp_accountId p" "\<forall>a \<in> set (accounts e). la_id a = lp_accountId p \<longrightarrow> la_currency a = li_currency n"
    if "p \<in> set ?rows" for p
  proof -
    from that obtain q where q: "q \<in> set (li_postings n)" "lp_accountId p = pi_accountId q"
      by (blast dest: posting_rows_set)
    from postable_currency [OF pass q(1)] obtain a where
      a: "a \<in> set (accounts d)" "la_id a = pi_accountId q" "la_currency a = li_currency n" by blast
    with q e show "\<exists>a \<in> set (accounts e). la_id a = lp_accountId p" by auto
    show "\<forall>a \<in> set (accounts e). la_id a = lp_accountId p \<longrightarrow> la_currency a = li_currency n"
    proof (intro ballI impI)
      fix c assume c: "c \<in> set (accounts e)" "la_id c = lp_accountId p"
      then obtain c' where c': "c' \<in> set (accounts d)" "c = credit_account (li_postings n) c'"
        using e by auto
      with c q a ok have "c' = a"
        by (auto simp: pairing_ok_def account_pk.unique_def dest: distinct_map_inj)
      with c' a show "la_currency c = li_currency n" by simp
    qed
  qed
  then have "filter (\<lambda>p. existsRow (\<lambda>a. la_id a = lp_accountId p) (accounts e)) ?rows = ?rows"
    by (simp add: filter_id_conv existsRow_iff)
  then show ?thesis
    using b acc(2)
    by (simp add: validate_ledgerTransaction_def own Let_def rows_total posting_rows_simps(5)
        balanced_input_def list_all_iff)
qed

section \<open>Conservation of money\<close>

definition balanceOf :: "Currency \<Rightarrow> db \<Rightarrow> int" where
  "balanceOf c d = (\<Sum>a \<leftarrow> filter (\<lambda>a. la_currency a = c) (accounts d). la_balanceMinor a)"

lemma books_balance:
  assumes "pairing_ok d" and de: "double_entry d"
  shows "balanceOf c d = 0"
proof -
  let ?as = "filter (\<lambda>a. la_currency a = c) (accounts d)"
  let ?ts = "filter (\<lambda>t. lt_currency t = c) (ledgerTransactions d)"
  have "distinct (map la_id ?as)"
    using assms(1) by (simp add: pairing_ok_def account_pk.unique_def distinct_map_filter)
  moreover have "distinct (map lt_id ?ts)"
    using de by (simp add: double_entry_def ltx_pk.unique_def distinct_map_filter)
  ultimately have groups:
    "(\<Sum>a \<leftarrow> ?as. postedTo d (la_id a)) =
     (\<Sum>p \<leftarrow> postings d. if lp_accountId p \<in> la_id ` set ?as then lp_amountMinor p else 0)"
    "(\<Sum>t \<leftarrow> ?ts. \<Sum>p \<leftarrow> postings d. if lp_ledgerTransactionId p = lt_id t then lp_amountMinor p else 0) =
     (\<Sum>p \<leftarrow> postings d. if lp_ledgerTransactionId p \<in> lt_id ` set ?ts then lp_amountMinor p else 0)"
    by (simp_all only: sum_list_group)
  have same: "lp_accountId p \<in> la_id ` set ?as \<longleftrightarrow> lp_ledgerTransactionId p \<in> lt_id ` set ?ts"
    if p: "p \<in> set (postings d)" for p
  proof -
    from de p obtain t a where t: "t \<in> set (ledgerTransactions d)" "lt_id t = lp_ledgerTransactionId p"
      and a: "a \<in> set (accounts d)" "la_id a = lp_accountId p" and cur: "la_currency a = lt_currency t"
      unfolding double_entry_def by blast
    have "la_currency a' = la_currency a" if "a' \<in> set (accounts d)" "la_id a' = lp_accountId p" for a'
      using assms(1) a that by (auto simp: pairing_ok_def account_pk.unique_def dest: distinct_map_inj)
    then have "lp_accountId p \<in> la_id ` set ?as \<longleftrightarrow> la_currency a = c"
      using a unfolding image_iff by (metis (mono_tags, lifting) mem_Collect_eq set_filter)
    moreover have "lt_currency t' = lt_currency t"
      if "t' \<in> set (ledgerTransactions d)" "lt_id t' = lp_ledgerTransactionId p" for t'
      using de t that by (auto simp: double_entry_def ltx_pk.unique_def dest: distinct_map_inj)
    then have "lp_ledgerTransactionId p \<in> lt_id ` set ?ts \<longleftrightarrow> lt_currency t = c"
      using t unfolding image_iff by (metis (mono_tags, lifting) mem_Collect_eq set_filter)
    ultimately show ?thesis using cur by simp
  qed
  have zero: "(\<Sum>p \<leftarrow> postings d. if lp_ledgerTransactionId p = lt_id t then lp_amountMinor p else 0) = 0"
    if "t \<in> set ?ts" for t
    using de that by (simp add: sum_list_filter_map double_entry_def)
  have "balanceOf c d = (\<Sum>a \<leftarrow> ?as. postedTo d (la_id a))"
    using de by (auto simp: balanceOf_def double_entry_def intro!: arg_cong [where f = sum_list])
  also have "\<dots> = (\<Sum>p \<leftarrow> postings d. if lp_ledgerTransactionId p \<in> lt_id ` set ?ts then lp_amountMinor p else 0)"
    unfolding groups(1) using same by (intro arg_cong [where f = sum_list] map_cong) auto
  also have "\<dots> = (\<Sum>t \<leftarrow> ?ts. \<Sum>p \<leftarrow> postings d.
      if lp_ledgerTransactionId p = lt_id t then lp_amountMinor p else 0)"
    by (rule groups(2) [symmetric])
  also have "\<dots> = 0" using zero by (rule sum_list_map_eq_0)
  finally show ?thesis .
qed

end
