(* ===== verification/Samples.thy ===== *)
theory Samples
  imports Commit
begin

text \<open>
  One small database and one runtime on which the witnesses evaluate the properties: two
  users with an active USD wallet each, and the external clearing account that funded the
  first wallet with 1000 minor units through one sealed transaction.
\<close>

definition rt0 :: runtime where
  "rt0 = \<lparr>rt_uuid = (\<lambda>k. [CHR ''g'', char_of (97 + k mod 26)]), rt_now = 1000,
     rt_isUUID = (\<lambda>s. s \<noteq> []), rt_sha256 = (\<lambda>s. replicate 64 CHR ''a'')\<rparr>"

definition user1 :: user where
  "user1 = \<lparr>u_id = ''u1'', u_email = ''a@b.c'', u_passwordHash = ''h'', u_firstName = ''Ada'',
     u_lastName = ''L'', u_createdAt = 1, u_updatedAt = 1\<rparr>"

definition user2 :: user where
  "user2 = \<lparr>u_id = ''u2'', u_email = ''d@b.c'', u_passwordHash = ''h'', u_firstName = ''Dan'',
     u_lastName = ''M'', u_createdAt = 1, u_updatedAt = 1\<rparr>"

definition wallet1 :: wallet where
  "wallet1 = \<lparr>w_id = ''w1'', w_userId = ''u1'', w_ledgerAccountId = ''a1'', w_currency = USD,
     w_status = ACTIVE, w_currentBalanceMinor = 1000, w_createdAt = 1, w_updatedAt = 2\<rparr>"

definition wallet2 :: wallet where
  "wallet2 = \<lparr>w_id = ''w2'', w_userId = ''u2'', w_ledgerAccountId = ''a2'', w_currency = USD,
     w_status = ACTIVE, w_currentBalanceMinor = 0, w_createdAt = 1, w_updatedAt = 1\<rparr>"

definition clearing :: ledger_account where
  "clearing = \<lparr>la_id = ''ax'', la_kind = SYSTEM, la_currency = USD, la_allowNegative = True,
     la_balanceMinor = -1000, la_systemKey = Some ''external-clearing:USD''\<rparr>"

definition account1 :: ledger_account where
  "account1 = \<lparr>la_id = ''a1'', la_kind = WALLET, la_currency = USD, la_allowNegative = False,
     la_balanceMinor = 1000, la_systemKey = None\<rparr>"

definition account2 :: ledger_account where
  "account2 = \<lparr>la_id = ''a2'', la_kind = WALLET, la_currency = USD, la_allowNegative = False,
     la_balanceMinor = 0, la_systemKey = None\<rparr>"

definition funding :: ledger_transaction where
  "funding = \<lparr>lt_id = ''l0'', lt_reference = ''funding'', lt_currency = USD, lt_description = None,
     lt_createdAt = 2, lt_sealedAt = Some 2\<rparr>"

definition funding_postings :: "ledger_posting list" where
  "funding_postings =
     [\<lparr>lp_id = ''p0'', lp_ledgerTransactionId = ''l0'', lp_accountId = ''ax'', lp_amountMinor = -1000\<rparr>,
      \<lparr>lp_id = ''p1'', lp_ledgerTransactionId = ''l0'', lp_accountId = ''a1'', lp_amountMinor = 1000\<rparr>]"

definition db0 :: db where
  "db0 = \<lparr>users = [user1, user2], wallets = [wallet1, wallet2],
     accounts = [clearing, account1, account2], ledgerTransactions = [funding],
     postings = funding_postings, transfers = [], reversals = [], beneficiaries = [],
     idempotencyRecords = [], auditLogs = [], outboxEvents = [], notifications = [],
     subscriptions = [], deliveries = [], attempts = [], payments = [], providerEvents = [],
     checkouts = [], settings = []\<rparr>"

lemmas sample_defs = rt0_def user1_def user2_def wallet1_def wallet2_def clearing_def
  account1_def account2_def funding_def funding_postings_def db0_def

lemma rt0_ids:
  "rt_uuid rt0 0 = ''ga''" "rt_uuid rt0 1 = ''gb''" "rt_uuid rt0 (Suc 0) = ''gb''" "rt_uuid rt0 2 = ''gc''"
  by code_simp+

end
