(* ===== verification/LedgerClaims.thy ===== *)
theory LedgerClaims
  imports LedgerSafety Samples
begin

text \<open>
  The properties of the ledger service: the complete behaviour of \<open>post\<close>, the invariants and
  the conservation of money, what normalisation accepts, and the balance loop.
\<close>

section \<open>The service's own transaction\<close>

lemma effect_commits:
  assumes ok: "pairing_ok d" and link: "postings_linked d" and b: "balanced_input isUUID n"
    and pass: "postable d n" and fresh: "fresh_ledger gen n d"
  shows "commit_checks d (ledger_effect now gen n d)"
proof -
  have accs: "existsRow (\<lambda>b. la_id b = la_id (credit_account ps a)) (accounts d)"
    if "a \<in> set (accounts d)" for a ps
    using that by (auto simp: existsRow_iff)
  have new: "sealed_row now gen n \<notin> set (ledgerTransactions d)"
    using fresh by (auto simp: fresh_ledger_def notin_image)
  have "validate_ledgerTransaction (ledger_effect now gen n d) (sealed_row now gen n)"
    by (rule effect_validates [OF ok link b pass fresh refl refl])
  with new accs show ?thesis
    by (auto simp: commit_checks_def list_all_iff)
qed

lemma HttpException_pass:
  "isUniqueViolation (HttpException s m) = False" "isSerializationConflict (HttpException s m) = False"
  "isUniqueViolation P2002 = True" "isUniqueViolation OutOfRange = False" "isSerializationConflict OutOfRange = False"
  by (simp_all add: isUniqueViolation_def isSerializationConflict_def)

text \<open>The outcome of a request, as a function of the database.\<close>

definition post_spec :: "runtime \<Rightarrow> ledger_input \<Rightarrow> db \<Rightarrow> (exn + posted) \<times> db \<Rightarrow> bool" where
  "post_spec rt input d out \<longleftrightarrow>
     (case normalizeLedgerTransactionInput (rt_isUUID rt) input of
        Inl e \<Rightarrow> out = (Inl e, d)
      | Inr n \<Rightarrow>
          if \<not> postable d n then (\<exists>s m. out = (Inl (HttpException s m), d))
          else if \<not> storable n then out = (Inl OutOfRange, d)
          else if \<not> fresh_ledger (rt_uuid rt) n d then
            out = (Inl (Conflict ''Ledger reference already exists''), d)
          else out =
            (Inr (sealed_row (rt_now rt) (rt_uuid rt) n,
                  sort_key lp_accountId (posting_rows (rt_uuid rt) 1 (rt_uuid rt 0) (li_postings n))),
             (ledger_effect (rt_now rt) (rt_uuid rt) n d)\<lparr>settings := []\<rparr>))"

lemma post_complete:
  assumes "pairing_ok d" "postings_linked d"
  shows "post_spec rt input d (post rt None input d)"
proof (cases "normalizeLedgerTransactionInput (rt_isUUID rt) input")
  case (Inl e)
  then have "postWithinTransaction rt (rt_uuid rt) input d = (Inl e, d)" by (rule post_rejected)
  with Inl normalize_error [OF Inl] show ?thesis
    by (auto simp: post_spec_def post_def tryCatch_def prisma_transaction_def op_simps HttpException_pass)
next
  case (Inr n)
  note cases = post_balanced [where gen = "rt_uuid rt", OF assms Inr]
  show ?thesis
  proof (cases "postable d n \<and> fresh_ledger (rt_uuid rt) n d")
    case True
    then have "storable n" by (simp add: fresh_ledger_def)
    moreover from True have "commit_checks d (ledger_effect (rt_now rt) (rt_uuid rt) n d)"
      using effect_commits [OF assms normalize_balanced [OF Inr]] by blast
    ultimately show ?thesis
      using cases True Inr
      by (simp add: post_spec_def post_def tryCatch_def prisma_transaction_def)
  next
    case False
    then show ?thesis
      using cases Inr
      by (auto simp: post_spec_def post_def tryCatch_def prisma_transaction_def op_simps
          HttpException_pass split: if_splits)
  qed
qed

lemma post_unchanged: "post rt abort input d = (Inl e, d') \<Longrightarrow> d' = d"
  by (auto simp: post_def tryCatch_def op_simps split: prod.splits sum.splits if_splits
      dest: prisma_transaction_Inl)

lemma settings_irrelevant [simp]:
  "pairing_ok (d\<lparr>settings := s\<rparr>) = pairing_ok d" "double_entry (d\<lparr>settings := s\<rparr>) = double_entry d"
  "ledger_ok (d\<lparr>settings := s\<rparr>) = ledger_ok d" "postings_linked (d\<lparr>settings := s\<rparr>) = postings_linked d"
  by (simp_all add: pairing_ok_def double_entry_def ledger_ok_def postings_linked_def)

section \<open>Properties\<close>

definition input0 :: ledger_input where
  "input0 = \<lparr>li_reference = '' pay-1 '', li_currency = USD, li_description = Some '' '',
     li_postings = [\<lparr>pi_accountId = ''a2'', pi_amountMinor = 300\<rparr>,
                    \<lparr>pi_accountId = ''a1'', pi_amountMinor = -300\<rparr>]\<rparr>"

lemma db0_ok: "ledger_ok db0"
  by (simp add: sample_defs ledger_ok_def pairing_ok_def double_entry_def account_pk.unique_def
      wallet_pk.unique_def wallet_account.unique_def ltx_pk.unique_def wallet_matches_def
      account_ok_def kind_policy_def balance_policy_def bigint_ok_def)

text \<open>
  C8. In a database with the ledger invariants, \<open>LedgerService.post\<close> does exactly one of five
  things: an invalid request is refused by normalisation; a request that fails an account
  check is refused with an HTTP error; a text with U+0000 is refused by the database; a taken
  reference or id is reported as a conflict;
  and every other request is committed, with a sealed transaction, its postings and all
  balances and wallet snapshots moved at once. The first four leave the database unchanged.
\<close>

theorem post_functional:
  assumes "ledger_ok d"
  shows "post_spec rt input d (post rt None input d)"
  using assms post_complete double_entry_linked unfolding ledger_ok_def by blast

theorem post_functional_witness:
  "post_spec rt0 input0 db0 (post rt0 None input0 db0)"
  using post_functional [OF db0_ok] .

text \<open>
  The ledger keeps its invariants whatever is posted, and whether or not the transaction
  commits: wallets and accounts agree, no balance that must not be negative is, every
  transaction is sealed and balanced, every balance is the sum of its postings; hence the
  balances of all accounts of a currency always add up to zero.
\<close>

theorem post_invariant:
  assumes "ledger_ok d"
  shows "ledger_ok (snd (post rt abort input d)) \<and> balanceOf c (snd (post rt abort input d)) = 0"
proof -
  have ok: "pairing_ok d" "postings_linked d" "double_entry d"
    using assms double_entry_linked by (auto simp: ledger_ok_def)
  have "ledger_ok (snd (post rt abort input d))"
  proof (cases "fst (post rt abort input d)")
    case (Inl e)
    then show ?thesis using assms post_unchanged by (metis prod.collapse)
  next
    case (Inr x)
    then obtain m where m: "postWithinTransaction rt (rt_uuid rt) input d = (Inr x, m)"
      "snd (post rt abort input d) = m\<lparr>settings := []\<rparr>"
      by (auto simp: post_def tryCatch_def op_simps prisma_transaction_Inr split: prod.splits sum.splits if_splits)
    then show ?thesis
      using post_Inr [OF ok(1,2)] assms effect_ledger_ok normalize_balanced
      by (metis settings_irrelevant(3))
  qed
  then show ?thesis using books_balance by (simp add: ledger_ok_def)
qed

theorem post_invariant_witness:
  "ledger_ok (snd (post rt0 None input0 db0)) \<and> balanceOf USD (snd (post rt0 None input0 db0)) = 0"
  using post_invariant [OF db0_ok] .

text \<open>
  Normalisation accepts a ledger request exactly when its trimmed reference has 1 to 120
  characters, its trimmed description at most 255, and its 2 to 50 postings have valid
  account ids, each used once, and non-zero 64-bit amounts that sum to zero; it then returns
  the trimmed request, and an empty description as none.
\<close>

theorem normalize_iff:
  "normalizeLedgerTransactionInput isUUID input = Inr n \<longleftrightarrow>
     balanced_input isUUID n \<and> li_reference n = js_trim (li_reference input) \<and>
     li_currency n = li_currency input \<and> li_postings n = li_postings input \<and>
     (case li_description input of None \<Rightarrow> li_description n = None
      | Some s \<Rightarrow> li_description n = (if js_trim s = [] then None else Some (js_trim s)))"
  by (cases n)
    (auto simp: normalizeLedgerTransactionInput_def balanced_input_def Let_def MAX_POSTINGS_def
      ebind_eq_Inr normalizePostings_iff split: if_splits option.splits)

text \<open>
  C38. The loop that writes the accounts one by one, while a trigger copies each balance to
  the account's wallet, is one simultaneous update of both tables: no interleaving of the
  individual writes is visible, whatever order the accounts are written in.
\<close>

theorem balance_loop_simultaneous:
  assumes "setting_on ''app.ledger_write'' d" "\<forall>row \<in> set rows. writable d nexts row"
    and "distinct (map (\<lambda>row. la_id (fst row)) rows)"
  shows "forEach (writeBalance now nexts) rows d =
    (Inr (), write_balances now (nexts |` ((\<lambda>row. la_id (fst row)) ` set rows)) d)"
  using assms by (rule writeBalance_loop)

theorem balance_loop_simultaneous_witness:
  "forEach (writeBalance 9 [''a1'' \<mapsto> 7, ''a2'' \<mapsto> 993])
     [(account1, Some wallet1), (account2, Some wallet2)] (db0\<lparr>settings := [''app.ledger_write'']\<rparr>) =
   (Inr (), write_balances 9 ([''a1'' \<mapsto> 7, ''a2'' \<mapsto> 993] |` {''a1'', ''a2''})
     (db0\<lparr>settings := [''app.ledger_write'']\<rparr>))"
  using balance_loop_simultaneous [of "db0\<lparr>settings := [''app.ledger_write'']\<rparr>"
      "[(account1, Some wallet1), (account2, Some wallet2)]" "[''a1'' \<mapsto> 7, ''a2'' \<mapsto> 993]" 9]
  by (simp add: sample_defs setting_on_def writable_def account_pk.lookup_def bigint_ok_def
      balance_policy_def)

end
