(* ===== verification/Wallets.thy ===== *)
theory Wallets
  imports LedgerClaims
begin

text \<open>
  \<open>src/wallets/wallets.service.ts\<close> with its mapper and \<open>src/users/users.service.ts\<close>:
  opening a wallet (a wallet row paired with a fresh ledger account), registering a user with
  the first wallet, listing, and closing. The lemmas characterise each operation and show
  that it keeps the ledger invariants.

  \<open>close\<close> reads the wallet twice, before and after it takes the row locks; the argument
  \<open>seen\<close> is the database as the first statement read it, the state the database under the
  locks.
\<close>

section \<open>Responses\<close>

record wallet_response =
  wr_id :: uuid
  wr_currency :: Currency
  wr_status :: WalletStatus
  wr_currentBalanceMinor :: string
  wr_createdAt :: time
  wr_updatedAt :: time

definition toWalletResponse :: "wallet \<Rightarrow> wallet_response" where
  "toWalletResponse w =
     \<lparr>wr_id = w_id w, wr_currency = w_currency w, wr_status = w_status w,
      wr_currentBalanceMinor = js_showInt (w_currentBalanceMinor w),
      wr_createdAt = w_createdAt w, wr_updatedAt = w_updatedAt w\<rparr>"

record safe_user =
  su_id :: uuid
  su_email :: string
  su_firstName :: string
  su_lastName :: string
  su_createdAt :: time
  su_updatedAt :: time

definition toSafeUser :: "user \<Rightarrow> safe_user" where
  "toSafeUser u =
     \<lparr>su_id = u_id u, su_email = u_email u, su_firstName = u_firstName u,
      su_lastName = u_lastName u, su_createdAt = u_createdAt u, su_updatedAt = u_updatedAt u\<rparr>"

section \<open>Opening a wallet\<close>

text \<open>The two \<open>create\<close> calls with their column defaults, on drawn ids.\<close>

definition new_account :: "uuid \<Rightarrow> Currency \<Rightarrow> ledger_account" where
  "new_account aid currency =
     \<lparr>la_id = aid, la_kind = WALLET, la_currency = currency, la_allowNegative = False,
      la_balanceMinor = 0, la_systemKey = None\<rparr>"

definition new_wallet :: "uuid \<Rightarrow> uuid \<Rightarrow> uuid \<Rightarrow> Currency \<Rightarrow> time \<Rightarrow> wallet" where
  "new_wallet wid userId aid currency now =
     \<lparr>w_id = wid, w_userId = userId, w_ledgerAccountId = aid, w_currency = currency,
      w_status = ACTIVE, w_currentBalanceMinor = 0, w_createdAt = now, w_updatedAt = now\<rparr>"

definition open_wallet :: "runtime \<Rightarrow> nat \<Rightarrow> uuid \<Rightarrow> Currency \<Rightarrow> (db, wallet) op" where
  "open_wallet rt k userId currency =
     andThen (create_ledgerAccount (new_account (rt_uuid rt k) currency)) (\<lambda>ledgerAccount.
     create_wallet (new_wallet (rt_uuid rt (Suc k)) userId (la_id ledgerAccount) currency (rt_now rt)))"

definition walletsCreate :: "runtime \<Rightarrow> exn option \<Rightarrow> uuid \<Rightarrow> Currency \<Rightarrow> (db, wallet_response) op" where
  "walletsCreate rt abort userId currency =
     tryCatch
       (andThen (prisma_transaction abort (open_wallet rt 0 userId currency)) (\<lambda>w.
        return (toWalletResponse w)))
       (\<lambda>e. if isUniqueViolation e
            then raise (Conflict (''A '' @ currencyName currency @ '' wallet already exists for this account''))
            else raise e)"

definition walletsFindAllForUser :: "uuid \<Rightarrow> (db, wallet_response list) op" where
  "walletsFindAllForUser userId = query (\<lambda>d.
     map toWalletResponse
       (sort_key (\<lambda>w. (w_createdAt w, w_currency w)) (filter (\<lambda>w. w_userId w = userId) (wallets d))))"

definition walletsFindOneForUser :: "uuid \<Rightarrow> uuid \<Rightarrow> (db, wallet_response) op" where
  "walletsFindOneForUser userId walletId =
     andThen (query (\<lambda>d. findRow (\<lambda>w. w_id w = pgUuid walletId \<and> w_userId w = userId) (wallets d))) (\<lambda>w.
     case w of None \<Rightarrow> raise (NotFound ''Wallet not found'')
     | Some w \<Rightarrow> return (toWalletResponse w))"

definition close_locked :: "runtime \<Rightarrow> uuid \<Rightarrow> (db, wallet) op" where
  "close_locked rt targetId =
     andThen (query (\<lambda>d. wallet_pk.lookup targetId (wallets d))) (\<lambda>current.
     case current of None \<Rightarrow> raise P2025
     | Some current \<Rightarrow>
         if w_status current = CLOSED then return current
         else if w_status current = FROZEN then raise (Conflict ''A frozen wallet cannot be closed'')
         else if w_currentBalanceMinor current \<noteq> 0 then
           raise (Conflict ''Wallet balance must be zero before it can be closed'')
         else update_wallet_status (w_id current) CLOSED (rt_now rt))"

definition walletsClose :: "runtime \<Rightarrow> exn option \<Rightarrow> db \<Rightarrow> uuid \<Rightarrow> uuid \<Rightarrow> (db, wallet_response) op" where
  "walletsClose rt abort seen userId walletId =
     andThen (prisma_transaction abort
       (case findRow (\<lambda>w. w_id w = pgUuid walletId \<and> w_userId w = userId) (wallets seen) of
          None \<Rightarrow> raise (NotFound ''Wallet not found'')
        | Some target \<Rightarrow> close_locked rt (w_id target))) (\<lambda>w.
     return (toWalletResponse w))"

section \<open>Users\<close>

record create_user_input =
  cu_email :: string
  cu_passwordHash :: string
  cu_firstName :: string
  cu_lastName :: string
  cu_currency :: "Currency option"

definition normalizeEmail :: "string \<Rightarrow> string" where
  "normalizeEmail email = js_toLowerCase (js_trim email)"

definition findByEmailWithPassword :: "string \<Rightarrow> (db, user option) op" where
  "findByEmailWithPassword email = query (\<lambda>d. findRow (\<lambda>u. u_email u = normalizeEmail email) (users d))"

definition findSafeById :: "uuid \<Rightarrow> (db, safe_user option) op" where
  "findSafeById uid = query (\<lambda>d. map_option toSafeUser (user_pk.lookup (pgUuid uid) (users d)))"

definition createWithInitialWallet ::
  "runtime \<Rightarrow> exn option \<Rightarrow> create_user_input \<Rightarrow> (db, safe_user \<times> wallet) op" where
  "createWithInitialWallet rt abort input =
     prisma_transaction abort
       (let currency = (case cu_currency input of None \<Rightarrow> USD | Some c \<Rightarrow> c) in
        andThen (create_user
          \<lparr>u_id = rt_uuid rt 0, u_email = normalizeEmail (cu_email input),
           u_passwordHash = cu_passwordHash input, u_firstName = js_trim (cu_firstName input),
           u_lastName = js_trim (cu_lastName input), u_createdAt = rt_now rt,
           u_updatedAt = rt_now rt\<rparr>) (\<lambda>created.
        andThen (open_wallet rt 1 (u_id created) currency) (\<lambda>w.
        return (toSafeUser created, w))))"

section \<open>What opening a wallet does\<close>

text \<open>The identity invariant: unique users with canonical addresses, at most one wallet per
  user and currency, and no wallet without its owner.\<close>

definition identity_ok :: "db \<Rightarrow> bool" where
  "identity_ok d \<longleftrightarrow> user_pk.unique (users d) \<and> distinct (map u_email (users d)) \<and>
     (\<forall>u \<in> set (users d). normalizeEmail (u_email u) = u_email u) \<and>
     distinct (map (\<lambda>w. (w_userId w, w_currency w)) (wallets d)) \<and>
     (\<forall>w \<in> set (wallets d). w_userId w \<in> u_id ` set (users d))"

definition opened_wallet :: "runtime \<Rightarrow> nat \<Rightarrow> uuid \<Rightarrow> Currency \<Rightarrow> db \<Rightarrow> db" where
  "opened_wallet rt k userId currency d =
     d\<lparr>accounts := accounts d @ [new_account (rt_uuid rt k) currency],
       wallets := wallets d @ [new_wallet (rt_uuid rt (Suc k)) userId (rt_uuid rt k) currency (rt_now rt)]\<rparr>"

lemma open_wallet_cases:
  assumes "pairing_ok d"
  shows "open_wallet rt k userId currency d =
    (if rt_uuid rt k \<in> la_id ` set (accounts d) then (Inl P2002, d)
     else if rt_uuid rt (Suc k) \<in> w_id ` set (wallets d) \<or>
        (userId, currency) \<in> (\<lambda>w. (w_userId w, w_currency w)) ` set (wallets d) then
       (Inl P2002, d\<lparr>accounts := accounts d @ [new_account (rt_uuid rt k) currency]\<rparr>)
     else if userId \<notin> u_id ` set (users d) then
       (Inl P2003, d\<lparr>accounts := accounts d @ [new_account (rt_uuid rt k) currency]\<rparr>)
     else (Inr (new_wallet (rt_uuid rt (Suc k)) userId (rt_uuid rt k) currency (rt_now rt)),
           opened_wallet rt k userId currency d))"
proof -
  let ?a = "new_account (rt_uuid rt k) currency"
  have acc: "create_ledgerAccount ?a d =
      (if rt_uuid rt k \<in> la_id ` set (accounts d) then (Inl P2002, d)
       else (Inr ?a, d\<lparr>accounts := accounts d @ [?a]\<rparr>))"
    by (auto simp: create_ledgerAccount_def op_simps new_account_def kind_policy_def
        balance_policy_def existsRow_iff notin_image)
  have unlinked: "rt_uuid rt k \<notin> w_ledgerAccountId ` set (wallets d)"
    if "rt_uuid rt k \<notin> la_id ` set (accounts d)"
    using assms that by (auto simp: pairing_ok_def wallet_matches_def notin_image)
  have look: "account_pk.lookup (rt_uuid rt k) (accounts d @ [?a]) = Some ?a"
    if "rt_uuid rt k \<notin> la_id ` set (accounts d)"
    using that by (auto simp: account_pk.lookup_def findRow_append new_account_def notin_image
        dest!: findRow_SomeD split: option.splits)
  let ?w = "new_wallet (rt_uuid rt (Suc k)) userId (rt_uuid rt k) currency (rt_now rt)"
  let ?d = "d\<lparr>accounts := accounts d @ [?a]\<rparr>"
  have wal: "create_wallet ?w ?d =
     (if rt_uuid rt (Suc k) \<in> w_id ` set (wallets d) \<or>
        (userId, currency) \<in> (\<lambda>w. (w_userId w, w_currency w)) ` set (wallets d) then (Inl P2002, ?d)
      else if userId \<notin> u_id ` set (users d) then (Inl P2003, ?d)
      else (Inr ?w, ?d\<lparr>wallets := wallets d @ [?w]\<rparr>))"
    if new: "rt_uuid rt k \<notin> la_id ` set (accounts d)"
  proof -
    have dup: "existsRow (\<lambda>v. w_id v = rt_uuid rt (Suc k) \<or> w_ledgerAccountId v = rt_uuid rt k \<or>
        (w_userId v = userId \<and> w_currency v = currency)) (wallets d) \<longleftrightarrow>
      rt_uuid rt (Suc k) \<in> w_id ` set (wallets d) \<or>
        (userId, currency) \<in> (\<lambda>w. (w_userId w, w_currency w)) ` set (wallets d)"
      using unlinked [OF new] unfolding existsRow_iff image_iff by fastforce
    show ?thesis
      using look [OF new] dup
      by (simp add: create_wallet_def op_simps new_wallet_def existsRow_key)
        (simp add: new_account_def)
  qed
  show ?thesis
    unfolding open_wallet_def andThen_apply [where m = "create_ledgerAccount ?a"] acc
    using wal by (simp add: opened_wallet_def) (simp add: new_account_def)
qed

lemma opened_wallet_pairing:
  assumes ok: "pairing_ok d" and new: "rt_uuid rt k \<notin> la_id ` set (accounts d)"
    "rt_uuid rt (Suc k) \<notin> w_id ` set (wallets d)"
  shows "pairing_ok (opened_wallet rt k userId currency d)"
proof -
  have "rt_uuid rt k \<notin> w_ledgerAccountId ` set (wallets d)"
    using ok new by (auto simp: pairing_ok_def wallet_matches_def notin_image)
  then show ?thesis
    using ok new
    by (auto simp: pairing_ok_def opened_wallet_def account_pk.unique_def wallet_pk.unique_def
        wallet_account.unique_def wallet_matches_def account_ok_def kind_policy_def
        balance_policy_def bigint_ok_def new_account_def new_wallet_def)
qed

lemma opened_wallet_double_entry:
  assumes "double_entry d" and "rt_uuid rt k \<notin> la_id ` set (accounts d)"
  shows "double_entry (opened_wallet rt k userId currency d)"
proof -
  have "postedTo d (rt_uuid rt k) = 0"
  proof (intro sum_list_map_eq_0)
    fix p assume "p \<in> set (postings d)"
    with assms have "lp_accountId p \<noteq> rt_uuid rt k"
      unfolding double_entry_def by (metis imageI)
    then show "(if lp_accountId p = rt_uuid rt k then lp_amountMinor p else 0) = 0" by simp
  qed
  then show ?thesis
    using assms(1) by (auto simp: double_entry_def opened_wallet_def new_account_def) blast
qed

lemma opened_wallet_commits:
  assumes ok: "pairing_ok d" and new: "rt_uuid rt k \<notin> la_id ` set (accounts d)"
  shows "commit_checks d (opened_wallet rt k userId currency d)"
proof -
  have "filter (\<lambda>w. w_ledgerAccountId w = rt_uuid rt k) (wallets d) = []"
    using ok new by (auto simp: pairing_ok_def wallet_matches_def notin_image filter_empty_conv)
  then show ?thesis
    by (auto simp: commit_checks_def opened_wallet_def list_all_iff existsRow_iff
        validate_accountPair_def new_account_def new_wallet_def)
qed

text \<open>A committed opening, and a failed one.\<close>

definition can_open :: "runtime \<Rightarrow> nat \<Rightarrow> uuid \<Rightarrow> Currency \<Rightarrow> db \<Rightarrow> bool" where
  "can_open rt k userId currency d \<longleftrightarrow>
     rt_uuid rt k \<notin> la_id ` set (accounts d) \<and> rt_uuid rt (Suc k) \<notin> w_id ` set (wallets d) \<and>
     (userId, currency) \<notin> (\<lambda>w. (w_userId w, w_currency w)) ` set (wallets d) \<and>
     userId \<in> u_id ` set (users d)"

lemma walletsCreate_result:
  assumes "pairing_ok d"
  shows "walletsCreate rt None userId currency d =
    (if can_open rt 0 userId currency d then
       (Inr (toWalletResponse (new_wallet (rt_uuid rt 1) userId (rt_uuid rt 0) currency (rt_now rt))),
        (opened_wallet rt 0 userId currency d)\<lparr>settings := []\<rparr>)
     else (Inl (if rt_uuid rt 0 \<in> la_id ` set (accounts d) \<or> rt_uuid rt 1 \<in> w_id ` set (wallets d) \<or>
          (userId, currency) \<in> (\<lambda>w. (w_userId w, w_currency w)) ` set (wallets d)
        then Conflict (''A '' @ currencyName currency @ '' wallet already exists for this account'')
        else P2003), d))"
  using open_wallet_cases [OF assms, of rt 0 userId currency] opened_wallet_commits [OF assms, of rt 0]
  by (auto simp: walletsCreate_def tryCatch_def andThen_def prisma_transaction_def can_open_def
      op_simps isUniqueViolation_def)

section \<open>Registration\<close>

lemma js_lower_idem [simp]: "js_lower (js_lower c) = js_lower c"
  by (auto simp: js_lower_def)

lemma js_lower_whitespace [simp]: "js_whitespace (js_lower c) = js_whitespace c"
  by (auto simp: js_lower_def js_whitespace_def)

lemma lower_trimmed: "js_trim s = s \<Longrightarrow> js_trim (js_toLowerCase s) = js_toLowerCase s"
proof (cases "s = []")
  case False
  assume t: "js_trim s = s"
  with False have "\<not> js_whitespace (hd s)" "\<not> js_whitespace (last s)"
    using js_trim_hd [of s] js_trim_last [of s] by auto
  with False show ?thesis
    by (intro js_trim_fixed) (auto simp: js_toLowerCase_def hd_map last_map)
qed (simp add: js_toLowerCase_def js_trim_def)

lemma normalizeEmail_idem: "normalizeEmail (normalizeEmail e) = normalizeEmail e"
  by (simp add: normalizeEmail_def lower_trimmed) (simp add: js_toLowerCase_def)

lemma normalizeEmail_canonical:
  "normalizeEmail e = js_toLowerCase (sql_btrim (normalizeEmail e))"
proof -
  have "sql_btrim (normalizeEmail e) = normalizeEmail e"
    by (simp add: normalizeEmail_def lower_trimmed sql_btrim_trimmed)
  then show ?thesis by (simp add: normalizeEmail_def) (simp add: js_toLowerCase_def)
qed

definition registered_user :: "runtime \<Rightarrow> create_user_input \<Rightarrow> user" where
  "registered_user rt input =
     \<lparr>u_id = rt_uuid rt 0, u_email = normalizeEmail (cu_email input),
      u_passwordHash = cu_passwordHash input, u_firstName = js_trim (cu_firstName input),
      u_lastName = js_trim (cu_lastName input), u_createdAt = rt_now rt, u_updatedAt = rt_now rt\<rparr>"

lemma create_user_Inr:
  "create_user u d = (r, d') \<Longrightarrow> r = Inr v \<Longrightarrow>
   v = u \<and> d' = d\<lparr>users := users d @ [u]\<rparr> \<and> u_id u \<notin> u_id ` set (users d) \<and>
   u_email u \<notin> u_email ` set (users d) \<and> u_email u = js_toLowerCase (sql_btrim (u_email u))"
  by (auto simp: create_user_def op_simps existsRow_iff notin_image split: if_splits)

lemma users_irrelevant [simp]:
  "pairing_ok (d\<lparr>users := us\<rparr>) = pairing_ok d" "double_entry (d\<lparr>users := us\<rparr>) = double_entry d"
  by (simp_all add: pairing_ok_def double_entry_def)

lemma register_Inr:
  assumes ok: "ledger_ok d"
    and run: "createWithInitialWallet rt abort input d = (Inr (su, w), d')"
  defines "c \<equiv> (case cu_currency input of None \<Rightarrow> USD | Some c \<Rightarrow> c)"
  shows "d' = (opened_wallet rt 1 (rt_uuid rt 0) c (d\<lparr>users := users d @ [registered_user rt input]\<rparr>))\<lparr>settings := []\<rparr> \<and>
    can_open rt 1 (rt_uuid rt 0) c (d\<lparr>users := users d @ [registered_user rt input]\<rparr>) \<and>
    su = toSafeUser (registered_user rt input) \<and>
    w = new_wallet (rt_uuid rt 2) (rt_uuid rt 0) (rt_uuid rt 1) c (rt_now rt) \<and>
    rt_uuid rt 0 \<notin> u_id ` set (users d) \<and>
    normalizeEmail (cu_email input) \<notin> u_email ` set (users d)"
proof -
  let ?e = "d\<lparr>users := users d @ [registered_user rt input]\<rparr>"
  from run obtain u e m where u: "create_user (registered_user rt input) d = (Inr u, e)"
    and m: "open_wallet rt 1 (u_id u) c e = (Inr w, m)" "d' = m\<lparr>settings := []\<rparr>" "su = toSafeUser u"
    unfolding createWithInitialWallet_def prisma_transaction_Inr c_def registered_user_def Let_def
    by (auto simp: op_simps)
  have "u = registered_user rt input" "e = ?e" "rt_uuid rt 0 \<notin> u_id ` set (users d)"
    "normalizeEmail (cu_email input) \<notin> u_email ` set (users d)"
    using create_user_Inr [OF u refl] by (simp_all add: registered_user_def)
  moreover have "pairing_ok ?e" using ok by (simp add: ledger_ok_def)
  note open_wallet_cases [OF this, of rt 1 "rt_uuid rt 0" c]
  ultimately show ?thesis
    using m by (auto simp: can_open_def registered_user_def numeral_2_eq_2 split: if_splits)
qed

section \<open>Closing\<close>

lemma close_locked_cases:
  "close_locked rt wid d =
    (case wallet_pk.lookup wid (wallets d) of None \<Rightarrow> (Inl P2025, d)
     | Some w \<Rightarrow>
         if w_status w = CLOSED then (Inr w, d)
         else if w_status w = FROZEN then (Inl (Conflict ''A frozen wallet cannot be closed''), d)
         else if w_currentBalanceMinor w \<noteq> 0 then
           (Inl (Conflict ''Wallet balance must be zero before it can be closed''), d)
         else (Inr (w\<lparr>w_status := CLOSED, w_updatedAt := rt_now rt\<rparr>),
               d\<lparr>wallets := wallet_pk.put wid (\<lambda>v. v\<lparr>w_status := CLOSED, w_updatedAt := rt_now rt\<rparr>) (wallets d)\<rparr>))"
  using wallet_pk.lookup_Some [of wid "wallets d"]
  by (auto simp: close_locked_def op_simps update_wallet_status_def split: option.splits)

text \<open>A rewriting of wallet rows that keeps identity, account, currency and balance.\<close>

lemma pairing_map:
  assumes "\<And>w. w_id (f w) = w_id w" "\<And>w. w_ledgerAccountId (f w) = w_ledgerAccountId w"
    "\<And>w. w_currency (f w) = w_currency w" "\<And>w. w_currentBalanceMinor (f w) = w_currentBalanceMinor w"
  shows "pairing_ok (d\<lparr>wallets := map f (wallets d)\<rparr>) = pairing_ok d"
proof -
  have "map w_id (map f ws) = map w_id ws" "map w_ledgerAccountId (map f ws) = map w_ledgerAccountId ws" for ws
    using assms by simp_all
  moreover have "wallet_matches (f w) a = wallet_matches w a" for w a
    using assms by (simp add: wallet_matches_def)
  moreover have "w_ledgerAccountId ` set (map f ws) = w_ledgerAccountId ` set ws" for ws
    using assms by (simp add: image_image)
  ultimately show ?thesis
    unfolding pairing_ok_def account_pk.unique_def wallet_pk.unique_def wallet_account.unique_def
    by (simp del: map_map)
qed

lemma identity_map:
  assumes "\<And>w. w_userId (f w) = w_userId w" "\<And>w. w_currency (f w) = w_currency w"
  shows "identity_ok (d\<lparr>wallets := map f (wallets d)\<rparr>) = identity_ok d"
proof -
  have "map (\<lambda>w. (w_userId w, w_currency w)) (map f ws) = map (\<lambda>w. (w_userId w, w_currency w)) ws" for ws
    using assms by simp
  moreover have "(\<forall>w \<in> set (map f ws). P (w_userId w)) = (\<forall>w \<in> set ws. P (w_userId w))" for ws P
    using assms by simp
  ultimately show ?thesis
    unfolding identity_ok_def using assms by (simp del: map_map)
qed

lemma status_update_pairing:
  "pairing_ok (d\<lparr>wallets := wallet_pk.put wid (\<lambda>v. v\<lparr>w_status := st, w_updatedAt := now\<rparr>) (wallets d)\<rparr>) =
   pairing_ok d"
  unfolding wallet_pk.put_def updateRows_def by (rule pairing_map) simp_all

section \<open>The invariants across the operations\<close>

lemma settings_identity [simp]: "identity_ok (d\<lparr>settings := s\<rparr>) = identity_ok d"
  by (simp add: identity_ok_def)

lemma opened_wallet_identity:
  assumes "identity_ok d" "can_open rt k userId c d"
  shows "identity_ok (opened_wallet rt k userId c d)"
  using assms by (auto simp: identity_ok_def can_open_def opened_wallet_def new_wallet_def)

lemma opened_wallet_ok:
  assumes "ledger_ok d" "can_open rt k userId c d"
  shows "ledger_ok (opened_wallet rt k userId c d)"
  using assms opened_wallet_pairing opened_wallet_double_entry
  by (simp add: ledger_ok_def can_open_def)

lemma registered_identity:
  assumes "identity_ok d" "u_id u \<notin> u_id ` set (users d)" "u_email u \<notin> u_email ` set (users d)"
    "normalizeEmail (u_email u) = u_email u"
  shows "identity_ok (d\<lparr>users := users d @ [u]\<rparr>)"
  using assms by (auto simp: identity_ok_def user_pk.unique_def)

lemma register_invariant:
  assumes "ledger_ok d" "identity_ok d" "createWithInitialWallet rt abort input d = (r, d')"
  shows "ledger_ok d' \<and> identity_ok d'"
proof (cases r)
  case (Inl e)
  then show ?thesis
    using assms unfolding createWithInitialWallet_def by (auto dest: prisma_transaction_Inl)
next
  case (Inr res)
  obtain su w where "res = (su, w)" by (cases res)
  let ?e = "d\<lparr>users := users d @ [registered_user rt input]\<rparr>"
  note reg = register_Inr [OF assms(1) assms(3) [unfolded Inr \<open>res = (su, w)\<close>]]
  have "identity_ok ?e"
    using reg assms(2)
    by (intro registered_identity) (auto simp: registered_user_def normalizeEmail_idem)
  moreover have "ledger_ok ?e" using assms(1) by (simp add: ledger_ok_def)
  ultimately show ?thesis
    using reg opened_wallet_identity opened_wallet_ok by (metis settings_identity settings_irrelevant(3))
qed

lemma create_wallet_invariant:
  assumes "ledger_ok d" "identity_ok d" "walletsCreate rt abort userId c d = (r, d')"
  shows "ledger_ok d' \<and> identity_ok d'"
proof (cases abort)
  case None
  then show ?thesis
    using walletsCreate_result [of d rt userId c] assms opened_wallet_identity opened_wallet_ok
    by (auto simp: ledger_ok_def split: if_splits)
next
  case (Some e)
  then show ?thesis
    using assms by (auto simp: walletsCreate_def tryCatch_def andThen_def prisma_transaction_def op_simps
        split: if_splits)
qed

lemma close_cases:
  assumes "walletsClose rt abort seen userId wid d = (r, d')"
  shows "d' = d \<or> d' = d\<lparr>settings := []\<rparr> \<or>
    (\<exists>w t. wallet_pk.lookup (pgUuid wid) (wallets d) = Some w \<and> w_status w = ACTIVE \<and>
       w_currentBalanceMinor w = 0 \<and> t \<in> set (wallets seen) \<and> w_id t = pgUuid wid \<and> w_userId t = userId \<and>
       d' = d\<lparr>wallets := wallet_pk.put (pgUuid wid) (\<lambda>v. v\<lparr>w_status := CLOSED, w_updatedAt := rt_now rt\<rparr>) (wallets d),
              settings := []\<rparr>)"
proof (cases "findRow (\<lambda>w. w_id w = pgUuid wid \<and> w_userId w = userId) (wallets seen)")
  case None
  then show ?thesis
    using assms by (auto simp: walletsClose_def andThen_def prisma_transaction_def op_simps split: option.splits)
next
  case (Some t)
  then have t: "t \<in> set (wallets seen)" "w_id t = pgUuid wid" "w_userId t = userId"
    by (auto dest: findRow_SomeD)
  have "w_status w = ACTIVE" if "w_status w \<noteq> CLOSED" "w_status w \<noteq> FROZEN" for w
    using that by (cases "w_status w") auto
  with t show ?thesis
    using assms Some
    by (auto simp: walletsClose_def andThen_def prisma_transaction_def op_simps close_locked_cases
        split: option.splits prod.splits sum.splits if_splits)
qed

lemma close_invariant:
  assumes "ledger_ok d" "identity_ok d" "walletsClose rt abort seen userId wid d = (r, d')"
  shows "ledger_ok d' \<and> identity_ok d'"
proof -
  let ?f = "\<lambda>v. if w_id v = pgUuid wid then v\<lparr>w_status := CLOSED, w_updatedAt := rt_now rt\<rparr> else v"
  have put: "wallet_pk.put (pgUuid wid) (\<lambda>v. v\<lparr>w_status := CLOSED, w_updatedAt := rt_now rt\<rparr>) ws = map ?f ws" for ws
    by (simp add: wallet_pk.put_def updateRows_def)
  have "identity_ok (d\<lparr>wallets := map ?f (wallets d), settings := []\<rparr>) = identity_ok d"
    using identity_map [of ?f d] by simp
  moreover have "double_entry (d\<lparr>wallets := map ?f (wallets d), settings := []\<rparr>) = double_entry d"
    by (simp add: double_entry_def)
  ultimately show ?thesis
    using close_cases [OF assms(3)] assms(1,2) status_update_pairing [where d = d and wid = "pgUuid wid" and st = CLOSED and now = "rt_now rt"]
    unfolding put by (auto simp: ledger_ok_def)
qed

section \<open>Properties\<close>

lemma db0_identity: "identity_ok db0"
  by (simp add: sample_defs identity_ok_def user_pk.unique_def normalizeEmail_def js_trim_def
      js_toLowerCase_def js_lower_def js_whitespace_def)

definition register0 :: create_user_input where
  "register0 = \<lparr>cu_email = '' New@B.c '', cu_passwordHash = ''h'', cu_firstName = ''N'',
     cu_lastName = ''U'', cu_currency = Some NGN\<rparr>"

text \<open>
  Opening a wallet either commits both rows, a zero wallet paired with a fresh zero ledger
  account, or leaves the database as it was; it fails exactly when an id collides, the user
  already has a wallet in the currency (both reported as a conflict), or the user does not exist.
\<close>

theorem walletsCreate_functional:
  assumes "ledger_ok d"
  shows "walletsCreate rt None userId currency d =
    (if can_open rt 0 userId currency d then
       (Inr (toWalletResponse (new_wallet (rt_uuid rt 1) userId (rt_uuid rt 0) currency (rt_now rt))),
        (opened_wallet rt 0 userId currency d)\<lparr>settings := []\<rparr>)
     else (Inl (if rt_uuid rt 0 \<in> la_id ` set (accounts d) \<or> rt_uuid rt 1 \<in> w_id ` set (wallets d) \<or>
          (userId, currency) \<in> (\<lambda>w. (w_userId w, w_currency w)) ` set (wallets d)
        then Conflict (''A '' @ currencyName currency @ '' wallet already exists for this account'')
        else P2003), d))"
  using assms by (intro walletsCreate_result) (simp add: ledger_ok_def)

theorem walletsCreate_functional_witness:
  "walletsCreate rt0 None ''u1'' NGN db0 =
    (Inr (toWalletResponse (new_wallet ''gb'' ''u1'' ''ga'' NGN 1000)),
     (opened_wallet rt0 0 ''u1'' NGN db0)\<lparr>settings := []\<rparr>) \<and>
   walletsCreate rt0 None ''u1'' USD db0 =
    (Inl (Conflict ''A USD wallet already exists for this account''), db0)"
proof -
  have facts: "can_open rt0 0 ''u1'' NGN db0" "\<not> can_open rt0 0 ''u1'' USD db0"
    "(''u1'', USD) \<in> (\<lambda>w. (w_userId w, w_currency w)) ` set (wallets db0)" "rt_now rt0 = 1000"
    by (code_simp, code_simp, simp add: sample_defs, simp add: rt0_def)
  then show ?thesis
    using walletsCreate_functional [OF db0_ok, of rt0 "''u1''" NGN]
      walletsCreate_functional [OF db0_ok, of rt0 "''u1''" USD]
    by (simp add: rt0_ids)
qed

text \<open>
  Registering a user, opening a wallet and closing one keep the ledger invariants and the
  identity invariant (unique users with canonical addresses, one wallet per user and currency,
  no wallet without an owner), whether the operation commits, is refused or is aborted.
\<close>

theorem wallet_operations_invariant:
  assumes "ledger_ok d" "identity_ok d"
  shows "\<forall>d' \<in> {snd (createWithInitialWallet rt abort input d),
      snd (walletsCreate rt abort userId currency d),
      snd (walletsClose rt abort seen userId wid d)}. ledger_ok d' \<and> identity_ok d'"
  using register_invariant [OF assms(1,2) prod.collapse [symmetric]]
    create_wallet_invariant [OF assms(1,2) prod.collapse [symmetric]]
    close_invariant [OF assms(1,2) prod.collapse [symmetric]]
  by simp

theorem wallet_operations_invariant_witness:
  "ledger_ok (snd (createWithInitialWallet rt0 None register0 db0)) \<and>
   identity_ok (snd (createWithInitialWallet rt0 None register0 db0))"
  using wallet_operations_invariant [OF db0_ok db0_identity, of rt0 None register0] by simp

text \<open>
  A registration that succeeds can be looked up by the address it was made with in any
  spelling that normalises alike, returns the stored user with exactly the hash given, and
  creates exactly one wallet for the user, empty and active, in the requested currency (US dollars
  when none was given).
\<close>

theorem registration_found:
  assumes "ledger_ok d" "createWithInitialWallet rt abort input d = (Inr (su, w), d')"
    and "normalizeEmail email = normalizeEmail (cu_email input)"
  shows "findByEmailWithPassword email d' = (Inr (Some (registered_user rt input)), d') \<and>
    w_currency w = (case cu_currency input of None \<Rightarrow> USD | Some c \<Rightarrow> c) \<and>
    w_currentBalanceMinor w = 0 \<and> w_status w = ACTIVE \<and> w_userId w = u_id (registered_user rt input) \<and>
    wallets d' = wallets d @ [w]"
proof -
  have "findRow (\<lambda>u. u_email u = normalizeEmail (cu_email input)) (users d) = None"
    using register_Inr [OF assms(1,2)] by (auto simp: findRow_None notin_image)
  then show ?thesis
    using register_Inr [OF assms(1,2)] assms(3)
    by (simp add: findByEmailWithPassword_def op_simps opened_wallet_def findRow_append
        registered_user_def new_wallet_def numeral_2_eq_2)
qed

theorem registration_found_witness:
  "findByEmailWithPassword ''NEW@b.C'' (snd (createWithInitialWallet rt0 None register0 db0)) =
     (Inr (Some (registered_user rt0 register0)), snd (createWithInitialWallet rt0 None register0 db0))"
proof -
  have run: "createWithInitialWallet rt0 None register0 db0 =
      (Inr (toSafeUser (registered_user rt0 register0), new_wallet ''gc'' ''ga'' ''gb'' NGN 1000),
       snd (createWithInitialWallet rt0 None register0 db0))"
    by code_simp
  have "normalizeEmail ''NEW@b.C'' = normalizeEmail (cu_email register0)" by code_simp
  from registration_found [OF db0_ok run this] show ?thesis by blast
qed

text \<open>
  C36. Closing changes at most one row: the wallet asked for (by its id in any case), which was the caller's, active and
  empty, becomes closed; nothing else of the database changes, and a closed or frozen wallet,
  one with money or another user's wallet stays as it is.
\<close>

theorem close_safe:
  assumes "walletsClose rt abort seen userId wid d = (r, d')"
  shows "d' = d \<or> d' = d\<lparr>settings := []\<rparr> \<or>
    (\<exists>w t. wallet_pk.lookup (pgUuid wid) (wallets d) = Some w \<and> w_status w = ACTIVE \<and>
       w_currentBalanceMinor w = 0 \<and> t \<in> set (wallets seen) \<and> w_id t = pgUuid wid \<and> w_userId t = userId \<and>
       d' = d\<lparr>wallets := wallet_pk.put (pgUuid wid) (\<lambda>v. v\<lparr>w_status := CLOSED, w_updatedAt := rt_now rt\<rparr>) (wallets d),
              settings := []\<rparr>)"
  using assms by (rule close_cases)

lemma close_example:
  "walletsClose rt0 None db0 ''u2'' ''W2'' db0 =
      (Inr (toWalletResponse (wallet2\<lparr>w_status := CLOSED, w_updatedAt := 1000\<rparr>)),
       db0\<lparr>wallets := [wallet1, wallet2\<lparr>w_status := CLOSED, w_updatedAt := 1000\<rparr>]\<rparr>)"
  by code_simp

theorem close_safe_witness:
  "\<exists>w t. wallet_pk.lookup ''w2'' (wallets db0) = Some w \<and> w_status w = ACTIVE \<and>
     w_currentBalanceMinor w = 0 \<and> t \<in> set (wallets db0) \<and> w_id t = ''w2'' \<and> w_userId t = ''u2''"
proof -
  have "pgUuid ''W2'' = ''w2''" by code_simp
  with close_safe [OF close_example] show ?thesis by (auto simp: sample_defs)
qed

end
