(* ===== verification/Base64.thy ===== *)
theory Base64
  imports JsRuntime
begin

text \<open>
  \<open>Buffer.toString('base64url')\<close> and \<open>Buffer.from(s, 'base64url')\<close>: bytes are the characters of a string.
  The decoder reads both alphabets, skips characters outside them and stops at a padding character.
\<close>

definition sextetChar :: "nat \<Rightarrow> char" where
  "sextetChar n = char_of (if n < 26 then 65 + n else if n < 52 then 71 + n else if n < 62 then n - 4
     else if n = 62 then 45 else 95)"

definition charSextet :: "char \<Rightarrow> nat option" where
  "charSextet c =
     (if isUpper c then Some (code c - 65)
      else if isLower c then Some (code c - 71)
      else if isDigit c then Some (code c + 4)
      else if c \<in> {CHR ''-'', CHR ''+''} then Some 62
      else if c \<in> {CHR ''_'', CHR ''/''} then Some 63
      else None)"

text \<open>Three bytes are four sextets; one and two bytes that are left are two and three.\<close>

fun sextets :: "nat list \<Rightarrow> nat list" where
  "sextets (a # b # c # r) = a div 4 # ((a mod 4) * 16 + b div 16) # ((b mod 16) * 4 + c div 64) # c mod 64 # sextets r"
| "sextets [a, b] = [a div 4, (a mod 4) * 16 + b div 16, (b mod 16) * 4]"
| "sextets [a] = [a div 4, (a mod 4) * 16]"
| "sextets [] = []"

fun octets :: "nat list \<Rightarrow> nat list" where
  "octets (w # x # y # z # r) = (w * 4 + x div 16) # ((x mod 16) * 16 + y div 4) # ((y mod 4) * 64 + z) # octets r"
| "octets [w, x, y] = [w * 4 + x div 16, (x mod 16) * 16 + y div 4]"
| "octets [w, x] = [w * 4 + x div 16]"
| "octets _ = []"

definition toBase64url :: "string \<Rightarrow> string" where
  "toBase64url bytes = map sextetChar (sextets (map of_char bytes))"

definition fromBase64url :: "string \<Rightarrow> string" where
  "fromBase64url s = map char_of (octets (List.map_filter charSextet (takeWhile (\<lambda>c. c \<noteq> CHR ''='') s)))"

lemma char_of_is: "n < 256 \<Longrightarrow> char_of n = c \<longleftrightarrow> n = code c"
  by (metis char_of_char of_char_of mod_less)

lemma sextetChar_char:
  assumes "n < 64"
  shows "charSextet (sextetChar n) = Some n \<and> sextetChar n \<noteq> CHR ''=''"
proof -
  consider "n < 26" | "26 \<le> n" "n < 52" | "52 \<le> n" "n < 62" | "n = 62" | "n = 63" using assms by linarith
  then show ?thesis
    by cases (auto simp: sextetChar_def charSextet_def isUpper_def isLower_def isDigit_def char_of_is)
qed

lemma octet_parts:
  "b < 256 \<Longrightarrow> b div 16 div 16 = (0::nat)" "b < 256 \<Longrightarrow> b div 16 mod 16 = b div (16::nat)"
  "b < 256 \<Longrightarrow> b div 64 div 4 = (0::nat)" "b < 256 \<Longrightarrow> b div 64 mod 4 = b div (64::nat)"
  by (simp_all add: div_mult2_eq [symmetric])

lemma sextets_bound: "\<forall>x \<in> set bs. x < 256 \<Longrightarrow> \<forall>x \<in> set (sextets bs). x < 64"
  by (induction bs rule: sextets.induct) auto

lemma octets_sextets: "\<forall>x \<in> set bs. x < 256 \<Longrightarrow> octets (sextets bs) = bs"
  by (induction bs rule: sextets.induct) (simp_all add: octet_parts)

lemma map_filter_inverse: "\<forall>x \<in> set xs. f (g x) = Some x \<Longrightarrow> List.map_filter f (map g xs) = xs"
  by (induction xs) (simp_all add: map_filter_simps)

text \<open>Reading back what was written; the text has no separator and is empty for no bytes only.\<close>

lemma from_to_base64url: "fromBase64url (toBase64url bytes) = bytes"
proof -
  let ?s = "sextets (map of_char bytes :: nat list)"
  have bound: "\<forall>x \<in> set ?s. x < 64" by (rule sextets_bound) auto
  then have all: "takeWhile (\<lambda>c. c \<noteq> CHR ''='') (map sextetChar ?s) = map sextetChar ?s"
    using sextetChar_char by (subst takeWhile_eq_all_conv) auto
  have read: "List.map_filter charSextet (map sextetChar ?s) = ?s"
    using bound sextetChar_char by (intro map_filter_inverse) blast
  have "octets ?s = map of_char bytes" by (rule octets_sextets) auto
  then show ?thesis unfolding fromBase64url_def toBase64url_def all read by (simp add: comp_def)
qed

lemma sextetChar_alphabet: "n < 64 \<Longrightarrow> isAlnum (sextetChar n) \<or> sextetChar n \<in> {CHR ''-'', CHR ''_''}"
  by (auto simp: sextetChar_def isAlnum_def isUpper_def isLower_def isDigit_def char_of_is)

lemma base64url_alphabet: "c \<in> set (toBase64url bytes) \<Longrightarrow> isAlnum c \<or> c \<in> {CHR ''-'', CHR ''_''}"
  using sextetChar_alphabet sextets_bound [of "map of_char bytes"] unfolding toBase64url_def by force

lemma base64url_no_dollar: "CHR ''$'' \<notin> set (toBase64url bytes)"
  using base64url_alphabet [of "CHR ''$''"] by (auto simp: isAlnum_def isUpper_def isLower_def isDigit_def)

lemma base64url_no_dot: "CHR ''.'' \<notin> set (toBase64url bytes)"
  using base64url_alphabet [of "CHR ''.''"] by (auto simp: isAlnum_def isUpper_def isLower_def isDigit_def)

lemma base64url_no_nul: "CHR 0x00 \<notin> set (toBase64url bytes)"
  using base64url_alphabet [of "CHR 0x00"] by (auto simp: isAlnum_def isUpper_def isLower_def isDigit_def)

lemma base64url_no_space: "c \<in> set (toBase64url bytes) \<Longrightarrow> \<not> js_whitespace c"
  by (drule base64url_alphabet) (auto simp: isAlnum_def isUpper_def isLower_def isDigit_def js_whitespace_def)

lemma length_base64url: "length (toBase64url bytes) = (4 * length bytes + 2) div 3"
proof -
  have "length (sextets bs) = (4 * length bs + 2) div 3" for bs by (induction bs rule: sextets.induct) simp_all
  then show ?thesis by (simp add: toBase64url_def)
qed

lemma sextets_nonempty: "sextets bs = [] \<longleftrightarrow> bs = []"
  by (induction bs rule: sextets.induct) simp_all

lemma base64url_nonempty: "toBase64url bytes = [] \<longleftrightarrow> bytes = []"
  by (simp add: toBase64url_def sextets_nonempty)

lemma base64url_samples:
  "toBase64url ''fint'' = ''ZmludA''" "fromBase64url ''ZmludA=='' = ''fint''" "fromBase64url ''Zm lu-_'' = map char_of [102, 105, 110, 251 :: nat]"
  by code_simp+

end
