(* ===== verification/JsNumber.thy ===== *)
theory JsNumber
  imports JsRuntime
begin

text \<open>
  \<open>Number(s)\<close> on a string: the StringNumericLiteral grammar of ECMAScript and the rounding of the
  literal's exact value to a double. A finite double is \<open>num / 2 ^ k\<close> in lowest terms (both zeros are
  0, as \<open>===\<close> has them), so the \<open>===\<close> of two numbers that are not \<open>NaN\<close> is the equality of their
  values here.
\<close>

datatype js_number = NaN | Infinite bool | Dyadic int nat

section \<open>Doubles\<close>

function bitLength :: "int \<Rightarrow> int" where
  "bitLength n = (if n \<le> 0 then 0 else 1 + bitLength (n div 2))"
  by pat_completeness auto
termination
  by (relation "measure nat") auto

declare bitLength.simps [simp del]

text \<open>Lowest terms of \<open>n / 2 ^ k\<close>.\<close>

fun reduceDyadic :: "int \<Rightarrow> nat \<Rightarrow> int \<times> nat" where
  "reduceDyadic n 0 = (n, 0)"
| "reduceDyadic n (Suc k) = (if n mod 2 = 0 then reduceDyadic (n div 2) k else (n, Suc k))"

text \<open>The nearest integer of \<open>n / d\<close>, ties to even.\<close>

definition roundHalfEven :: "int \<Rightarrow> int \<Rightarrow> int" where
  "roundHalfEven n d =
     (let q = n div d; r = n mod d
      in if 2 * r < d then q else if d < 2 * r then q + 1 else if q mod 2 = 0 then q else q + 1)"

text \<open>The exponent of the significand of \<open>n / d\<close>: 53 bits, no exponent below -1074.\<close>

definition binaryExponent :: "int \<Rightarrow> int \<Rightarrow> int" where
  "binaryExponent n d =
     (let e = bitLength n - bitLength d;
          below = (if 0 \<le> e then n < d * 2 ^ nat e else n * 2 ^ nat (- e) < d)
      in max ((if below then e - 1 else e) - 52) (- 1074))"

definition toDouble :: "bool \<Rightarrow> int \<Rightarrow> int \<Rightarrow> js_number" where
  "toDouble negative n d =
     (let e = binaryExponent n d;
          m = (if 0 \<le> e then roundHalfEven n (d * 2 ^ nat e) else roundHalfEven (n * 2 ^ nat (- e)) d);
          signed = (\<lambda>x. if negative then - x else x)
      in if n = 0 then Dyadic 0 0
         else if 0 \<le> e then (if 2 ^ 1024 \<le> m * 2 ^ nat e then Infinite negative else Dyadic (signed (m * 2 ^ nat e)) 0)
         else case reduceDyadic m (nat (- e)) of (x, k) \<Rightarrow> Dyadic (signed x) k)"

section \<open>Literals\<close>

text \<open>A non-empty run of digits of the given base.\<close>

definition readDigits :: "nat \<Rightarrow> string \<Rightarrow> int option" where
  "readDigits b s =
     (if s \<noteq> [] \<and> list_all (\<lambda>c. digitVal c < b) s
      then Some (foldl (\<lambda>acc c. acc * int b + int (digitVal c)) 0 s) else None)"

text \<open>The exponent part: nothing, or \<open>e\<close>, an optional sign and digits.\<close>

definition parseExponent :: "string \<Rightarrow> int option" where
  "parseExponent s =
     (case s of
        [] \<Rightarrow> Some 0
      | c # cs \<Rightarrow>
          if c \<notin> {CHR ''e'', CHR ''E''} then None
          else if cs \<noteq> [] \<and> hd cs = CHR ''-'' then map_option uminus (readDigits 10 (tl cs))
          else if cs \<noteq> [] \<and> hd cs = CHR ''+'' then readDigits 10 (tl cs)
          else readDigits 10 cs)"

text \<open>Digits with at most one dot, and the exponent part.\<close>

definition parseDecimal :: "bool \<Rightarrow> string \<Rightarrow> js_number" where
  "parseDecimal negative s =
     (let whole = takeWhile isDigit s; rest = dropWhile isDigit s;
          dot = (rest \<noteq> [] \<and> hd rest = CHR ''.'');
          fraction = (if dot then takeWhile isDigit (tl rest) else []);
          rest' = (if dot then dropWhile isDigit (tl rest) else rest)
      in case (readDigits 10 (whole @ fraction), parseExponent rest') of
           (Some digits, Some e) \<Rightarrow>
             let e' = e - int (length fraction)
             in if 0 \<le> e' then toDouble negative (digits * 10 ^ nat e') 1
                else toDouble negative digits (10 ^ nat (- e'))
         | _ \<Rightarrow> NaN)"

definition parseSigned :: "bool \<Rightarrow> string \<Rightarrow> js_number" where
  "parseSigned negative s = (if s = ''Infinity'' then Infinite negative else parseDecimal negative s)"

definition parseRadix :: "nat \<Rightarrow> string \<Rightarrow> js_number" where
  "parseRadix b s = (case readDigits b s of None \<Rightarrow> NaN | Some n \<Rightarrow> toDouble False n 1)"

definition js_Number :: "string \<Rightarrow> js_number" where
  "js_Number s =
     (case js_trim s of
        [] \<Rightarrow> Dyadic 0 0
      | c # cs \<Rightarrow>
          if c = CHR ''-'' then parseSigned True cs
          else if c = CHR ''+'' then parseSigned False cs
          else if c = CHR ''0'' \<and> cs \<noteq> [] \<and> hd cs \<in> {CHR ''x'', CHR ''X''} then parseRadix 16 (tl cs)
          else if c = CHR ''0'' \<and> cs \<noteq> [] \<and> hd cs \<in> {CHR ''o'', CHR ''O''} then parseRadix 8 (tl cs)
          else if c = CHR ''0'' \<and> cs \<noteq> [] \<and> hd cs \<in> {CHR ''b'', CHR ''B''} then parseRadix 2 (tl cs)
          else parseSigned False (c # cs))"

text \<open>\<open>Number.isInteger\<close>, and the value of an integer.\<close>

fun integerValue :: "js_number \<Rightarrow> int option" where
  "integerValue (Dyadic n 0) = Some n"
| "integerValue _ = None"

lemma js_Number_samples:
  "js_Number ''32768'' = Dyadic 32768 0" "js_Number ''8'' = Dyadic 8 0" "js_Number ''3'' = Dyadic 3 0"
  "js_Number '' 0x10 '' = Dyadic 16 0" "js_Number ''2.50'' = Dyadic 5 1" "js_Number ''1e3'' = Dyadic 1000 0"
  "js_Number ''-.5'' = Dyadic (- 1) 1" "js_Number ''8a'' = NaN" "js_Number ''.'' = NaN" "js_Number '''' = Dyadic 0 0"
  "js_Number ''8.00000000000000000001'' = Dyadic 8 0"
  by code_simp+

end
