(* ===== verification/Auth.thy ===== *)
theory Auth
  imports Wallets Base64 JsNumber
begin

text \<open>
  \<open>src/auth/password.service.ts\<close>, \<open>auth.service.ts\<close> and \<open>jwt-auth.guard.ts\<close>: password hashes,
  registration and login, access tokens, and the guard in front of the other services.

  \<open>scrypt\<close>, the signing and verification of JSON Web Tokens, the random salt and the clock are
  arguments. Other requests may change the database between the two transactions of a registration.
\<close>

section \<open>Passwords\<close>

definition KEY_LENGTH :: nat where "KEY_LENGTH = 64"
definition SCRYPT_N :: nat where "SCRYPT_N = 32768"
definition SCRYPT_R :: nat where "SCRYPT_R = 8"
definition SCRYPT_P :: nat where "SCRYPT_P = 3"
definition MAX_MEMORY :: nat where "MAX_MEMORY = 64 * 1024 * 1024"

definition DUMMY_SALT :: string where
  "DUMMY_SALT = replicate 16 (char_of (90 :: nat))"

text \<open>Node's \<open>scrypt\<close>: password, salt, key length, the cost parameters and the memory limit.\<close>

type_synonym scrypt = "string \<Rightarrow> string \<Rightarrow> nat \<Rightarrow> nat \<times> nat \<times> nat \<Rightarrow> nat \<Rightarrow> exn + string"

definition derive :: "scrypt \<Rightarrow> string \<Rightarrow> string \<Rightarrow> exn + string" where
  "derive scrypt password salt = scrypt password salt KEY_LENGTH (SCRYPT_N, SCRYPT_R, SCRYPT_P) MAX_MEMORY"

definition encodeHash :: "string \<Rightarrow> string \<Rightarrow> string" where
  "encodeHash salt key = js_join ''$''
     [''scrypt'', showNat SCRYPT_N, showNat SCRYPT_R, showNat SCRYPT_P, toBase64url salt, toBase64url key]"

definition hashPassword :: "scrypt \<Rightarrow> string \<Rightarrow> string \<Rightarrow> exn + string" where
  "hashPassword scrypt salt password = ebind (derive scrypt password salt) (\<lambda>key. Inr (encodeHash salt key))"

text \<open>\<open>timingSafeEqual\<close> throws on different lengths, which is \<open>false\<close> here as well.\<close>

definition verifyPassword :: "scrypt \<Rightarrow> string \<Rightarrow> string \<Rightarrow> bool" where
  "verifyPassword scrypt password encodedHash =
     (case splitOn (CHR ''$'') encodedHash of
        algorithm # n # r # p # encodedSalt # encodedKey # extra \<Rightarrow>
          if algorithm \<noteq> ''scrypt'' \<or> js_Number n \<noteq> Dyadic (int SCRYPT_N) 0 \<or>
             js_Number r \<noteq> Dyadic (int SCRYPT_R) 0 \<or> js_Number p \<noteq> Dyadic (int SCRYPT_P) 0 \<or>
             encodedSalt = [] \<or> encodedKey = [] \<or> extra \<noteq> []
          then False
          else (let salt = fromBase64url encodedSalt; expectedKey = fromBase64url encodedKey
                in if length salt \<noteq> 16 \<or> length expectedKey \<noteq> KEY_LENGTH then False
                   else case derive scrypt password salt of
                          Inl _ \<Rightarrow> False
                        | Inr actualKey \<Rightarrow> actualKey = expectedKey)
      | _ \<Rightarrow> False)"

definition verifyOrBurn :: "scrypt \<Rightarrow> string \<Rightarrow> string option \<Rightarrow> exn + bool" where
  "verifyOrBurn scrypt password encodedHash =
     (if encodedHash = None \<or> encodedHash = Some []
      then ebind (derive scrypt password DUMMY_SALT) (\<lambda>_. Inr False)
      else Inr (verifyPassword scrypt password (the encodedHash)))"

section \<open>Tokens\<close>

record access_token_payload =
  at_sub :: uuid
  at_email :: string
  at_type :: string

text \<open>What a verified token carries: claims may be missing.\<close>

record verified_payload =
  vp_sub :: "string option"
  vp_type :: "string option"

text \<open>The token service: its secret and lifetime come from the configuration.\<close>

record jwt =
  jwt_secret :: string
  jwt_ttlSeconds :: int
  jwt_sign :: "access_token_payload \<Rightarrow> string \<Rightarrow> string \<Rightarrow> int \<Rightarrow> string \<Rightarrow> string \<Rightarrow> time \<Rightarrow> exn + string"
  jwt_verify :: "string \<Rightarrow> string \<Rightarrow> string list \<Rightarrow> string \<Rightarrow> string \<Rightarrow> time \<Rightarrow> exn + verified_payload"

definition JWT_ISSUER :: string where "JWT_ISSUER = ''fintech-transaction-platform''"
definition JWT_AUDIENCE :: string where "JWT_AUDIENCE = ''fintech-api''"

record access_token_response =
  tr_accessToken :: string
  tr_tokenType :: string
  tr_expiresIn :: int

definition tokenPayload :: "safe_user \<Rightarrow> access_token_payload" where
  "tokenPayload u = \<lparr>at_sub = su_id u, at_email = su_email u, at_type = ''access''\<rparr>"

definition issueAccessToken :: "jwt \<Rightarrow> time \<Rightarrow> safe_user \<Rightarrow> exn + access_token_response" where
  "issueAccessToken jwt now u =
     ebind (jwt_sign jwt (tokenPayload u) (jwt_secret jwt) ''HS256'' (jwt_ttlSeconds jwt) JWT_ISSUER JWT_AUDIENCE now)
       (\<lambda>accessToken. Inr \<lparr>tr_accessToken = accessToken, tr_tokenType = ''Bearer'', tr_expiresIn = jwt_ttlSeconds jwt\<rparr>)"

section \<open>Registration and login\<close>

record register_input =
  ri_email :: string
  ri_password :: string
  ri_firstName :: string
  ri_lastName :: string
  ri_currency :: "Currency option"

record auth_response =
  ar_token :: access_token_response
  ar_user :: safe_user

record register_response = auth_response +
  rr_initialWallet :: wallet_response

definition accountExists :: exn where
  "accountExists = Conflict ''An account with this email already exists''"

definition newAccount :: "register_input \<Rightarrow> string \<Rightarrow> create_user_input" where
  "newAccount input hash = \<lparr>cu_email = normalizeEmail (ri_email input), cu_passwordHash = hash,
     cu_firstName = ri_firstName input, cu_lastName = ri_lastName input, cu_currency = ri_currency input\<rparr>"

definition createAccount ::
  "jwt \<Rightarrow> runtime \<Rightarrow> exn option \<Rightarrow> register_input \<Rightarrow> string \<Rightarrow> (db, register_response) op" where
  "createAccount jwt rt abort input hash =
     tryCatch
       (andThen (createWithInitialWallet rt abort (newAccount input hash)) (\<lambda>(u, w).
        andThen (lift (issueAccessToken jwt (rt_now rt) u)) (\<lambda>token.
        return \<lparr>ar_token = token, ar_user = u, rr_initialWallet = toWalletResponse w\<rparr>)))
       (\<lambda>e. if isUniqueViolation e then raise accountExists else raise e)"

definition register ::
  "scrypt \<Rightarrow> jwt \<Rightarrow> runtime \<Rightarrow> string \<Rightarrow> (db \<Rightarrow> db) \<Rightarrow> exn option \<Rightarrow> register_input \<Rightarrow> (db, register_response) op" where
  "register scrypt jwt rt salt others abort input =
     andThen (findByEmailWithPassword (normalizeEmail (ri_email input))) (\<lambda>existing.
     andThen (require (existing = None) accountExists) (\<lambda>_.
     andThen (lift (hashPassword scrypt salt (ri_password input))) (\<lambda>hash.
     andThen (modify others) (\<lambda>_.
     createAccount jwt rt abort input hash))))"

record login_input =
  li_email :: string
  li_password :: string

definition login :: "scrypt \<Rightarrow> jwt \<Rightarrow> time \<Rightarrow> login_input \<Rightarrow> (db, auth_response) op" where
  "login scrypt jwt now input =
     andThen (findByEmailWithPassword (li_email input)) (\<lambda>found.
     andThen (lift (verifyOrBurn scrypt (li_password input) (map_option u_passwordHash found))) (\<lambda>validPassword.
     case found of
       None \<Rightarrow> raise (Unauthorized ''Invalid email or password'')
     | Some u \<Rightarrow>
         if \<not> validPassword then raise (Unauthorized ''Invalid email or password'')
         else andThen (lift (issueAccessToken jwt now (toSafeUser u))) (\<lambda>token.
              return \<lparr>ar_token = token, ar_user = toSafeUser u\<rparr>)))"

definition getProfile :: "uuid \<Rightarrow> (db, safe_user) op" where
  "getProfile userId =
     andThen (findSafeById userId) (\<lambda>found.
     case found of None \<Rightarrow> raise (Unauthorized ''Authenticated user no longer exists'') | Some u \<Rightarrow> return u)"

section \<open>The guard\<close>

record authenticated_user =
  au_id :: uuid
  au_email :: string

definition extractBearerToken :: "string option \<Rightarrow> exn + string" where
  "extractBearerToken authorization =
     (case authorization of
        None \<Rightarrow> Inl (Unauthorized ''Bearer access token is required'')
      | Some [] \<Rightarrow> Inl (Unauthorized ''Bearer access token is required'')
      | Some header \<Rightarrow>
          (case splitSpaces (js_trim header) of
             [scheme, token] \<Rightarrow>
               if js_toLowerCase scheme \<noteq> ''bearer'' \<or> token = []
               then Inl (Unauthorized ''Bearer access token is required'') else Inr token
           | _ \<Rightarrow> Inl (Unauthorized ''Bearer access token is required'')))"

definition authenticate :: "jwt \<Rightarrow> time \<Rightarrow> exn option \<Rightarrow> string \<Rightarrow> (db, authenticated_user) op" where
  "authenticate jwt now dbError token =
     andThen (lift (jwt_verify jwt token (jwt_secret jwt) [''HS256''] JWT_ISSUER JWT_AUDIENCE now)) (\<lambda>payload.
     case vp_sub payload of
       None \<Rightarrow> raise (Unauthorized ''Invalid access token'')
     | Some sub \<Rightarrow>
         if vp_type payload \<noteq> Some ''access'' \<or> sub = [] then raise (Unauthorized ''Invalid access token'')
         else andThen (unlessError dbError (findSafeById sub)) (\<lambda>found.
              case found of
                None \<Rightarrow> raise (Unauthorized ''Invalid access token'')
              | Some u \<Rightarrow> return \<lparr>au_id = su_id u, au_email = su_email u\<rparr>))"

fun guardError :: "exn \<Rightarrow> exn" where
  "guardError (HttpException s m) =
     (if s = 401 then HttpException s m else Unauthorized ''Invalid or expired access token'')"
| "guardError _ = Unauthorized ''Invalid or expired access token''"

definition canActivate :: "jwt \<Rightarrow> time \<Rightarrow> exn option \<Rightarrow> string option \<Rightarrow> (db, authenticated_user) op" where
  "canActivate jwt now dbError authorization =
     andThen (lift (extractBearerToken authorization)) (\<lambda>token.
     tryCatch (authenticate jwt now dbError token) (\<lambda>e. raise (guardError e)))"

end
