(* ===== verification/Idempotency.thy ===== *)
theory Idempotency
  imports Wallets
begin

text \<open>
  The idempotency protocol that \<open>src/transfers/transfers.service.ts\<close> and
  \<open>src/reversals/reversals.service.ts\<close> share: a key is claimed inside the transaction that
  does the work, the outcome (the created resource, or a client error) is stored with the
  claim and committed with it, and a repeated request returns the stored outcome.

  The two services have the same code up to the words of the messages, the record's
  link column and the work itself, so the definitions take these as arguments: \<open>noun\<close>
  (transfer or reversal), \<open>scope\<close>, \<open>resource\<close> (the included relation), \<open>link\<close> (the column that
  is set on success) and \<open>body\<close>. The locale \<open>idempotent_work\<close> is the contract between the
  protocol and the work; both services interpret it.
\<close>

section \<open>Definitions\<close>

datatype 'r outcome = Success 'r | Failure nat string

text \<open>The truth value of an optional string in a condition.\<close>

definition truthy :: "string option \<Rightarrow> bool" where
  "truthy v \<longleftrightarrow> (case v of None \<Rightarrow> False | Some s \<Rightarrow> s \<noteq> [])"

definition normalizeIdempotencyKey :: "string option \<Rightarrow> exn + string" where
  "normalizeIdempotencyKey value =
     (case value of
        None \<Rightarrow> Inl (BadRequest ''Idempotency-Key header is required'')
      | Some v \<Rightarrow>
          if v = [] then Inl (BadRequest ''Idempotency-Key header is required'')
          else if \<not> keyPattern (js_trim v) then
            Inl (BadRequest (''Idempotency-Key must be 1-128 characters using letters, numbers, '' @
              ''dot, underscore, colon, or hyphen''))
          else Inr (js_trim v))"

definition findClaim :: "string \<Rightarrow> uuid \<Rightarrow> string \<Rightarrow> db \<Rightarrow> idempotency_record option" where
  "findClaim scope userId key d =
     findRow (\<lambda>i. i_userId i = userId \<and> i_scope i = scope \<and> i_key i = key) (idempotencyRecords d)"

definition resolveExisting ::
  "string \<Rightarrow> (db \<Rightarrow> idempotency_record \<Rightarrow> 'r option) \<Rightarrow> string \<Rightarrow> db \<Rightarrow> idempotency_record \<Rightarrow>
   exn + 'r outcome" where
  "resolveExisting noun resource requestHash d i =
     (if i_requestHash i \<noteq> requestHash then
        Inl (Conflict (''Idempotency-Key has already been used with a different '' @ noun @ '' request''))
      else if i_status i = I_COMPLETED then
        (case resource d i of
           None \<Rightarrow> Inl (InternalServerError (''Completed idempotency record is missing its '' @ noun))
         | Some r \<Rightarrow> Inr (Success r))
      else if i_status i = I_FAILED then
        (case (i_responseStatus i, i_errorMessage i) of
           (Some s, Some m) \<Rightarrow>
             if s = 0 \<or> m = [] then
               Inl (InternalServerError ''Failed idempotency record is missing its stored response'')
             else Inr (Failure s m)
         | _ \<Rightarrow> Inl (InternalServerError ''Failed idempotency record is missing its stored response''))
      else Inl (Conflict (''Idempotent '' @ noun @ '' request is still processing'')))"

text \<open>\<open>observed\<close> lists the database as each read of the retry loop sees it.\<close>

fun replayAfterRace ::
  "string \<Rightarrow> (db \<Rightarrow> idempotency_record \<Rightarrow> 'r option) \<Rightarrow> string \<Rightarrow> uuid \<Rightarrow> string \<Rightarrow> string \<Rightarrow>
   db list \<Rightarrow> exn + 'r outcome" where
  "replayAfterRace noun resource scope userId key requestHash [] =
     Inl (Conflict (''Concurrent '' @ noun @ '' update detected; retry using the same Idempotency-Key''))"
| "replayAfterRace noun resource scope userId key requestHash (d # observed) =
     (case findClaim scope userId key d of
        Some i \<Rightarrow> resolveExisting noun resource requestHash d i
      | None \<Rightarrow> replayAfterRace noun resource scope userId key requestHash observed)"

definition newClaim :: "uuid \<Rightarrow> string \<Rightarrow> uuid \<Rightarrow> string \<Rightarrow> string \<Rightarrow> idempotency_record" where
  "newClaim iid scope userId key requestHash =
     \<lparr>i_id = iid, i_userId = userId, i_scope = scope, i_key = key, i_requestHash = requestHash,
      i_status = IN_PROGRESS, i_responseStatus = None, i_errorMessage = None,
      i_transferId = None, i_reversalId = None\<rparr>"

definition completed ::
  "('r \<Rightarrow> idempotency_record \<Rightarrow> idempotency_record) \<Rightarrow> 'r \<Rightarrow> idempotency_record \<Rightarrow> idempotency_record" where
  "completed link r i = link r (i\<lparr>i_status := I_COMPLETED, i_responseStatus := Some 201\<rparr>)"

definition failed :: "nat \<Rightarrow> string \<Rightarrow> idempotency_record \<Rightarrow> idempotency_record" where
  "failed s m i = i\<lparr>i_status := I_FAILED, i_responseStatus := Some s, i_errorMessage := Some m\<rparr>"

text \<open>The \<open>catch\<close> inside the transaction: a client error is stored with the claim, anything else rolls back.\<close>

definition recordRefusal :: "uuid \<Rightarrow> exn \<Rightarrow> (db, 'r outcome) op" where
  "recordRefusal claimId e =
     (case e of
        HttpException s m \<Rightarrow>
          if 400 \<le> s \<and> s < 500 then
            let message = take 255 m in
            andThen (update_idempotencyRecord claimId (failed s message)) (\<lambda>_.
            return (Failure s message))
          else raise e
      | _ \<Rightarrow> raise e)"

text \<open>The interactive transaction of \<open>create\<close>.\<close>

definition attempt ::
  "string \<Rightarrow> (db \<Rightarrow> idempotency_record \<Rightarrow> 'r option) \<Rightarrow>
   ('r \<Rightarrow> idempotency_record \<Rightarrow> idempotency_record) \<Rightarrow> string \<Rightarrow> uuid \<Rightarrow> string \<Rightarrow> string \<Rightarrow>
   uuid \<Rightarrow> (db, 'r) op \<Rightarrow> (db, 'r outcome) op" where
  "attempt noun resource link scope userId key requestHash claimId body =
     andThen (query (\<lambda>d. (d, findClaim scope userId key d))) (\<lambda>(d, existing).
     case existing of
       Some i \<Rightarrow> lift (resolveExisting noun resource requestHash d i)
     | None \<Rightarrow>
         andThen (create_idempotencyRecord (newClaim claimId scope userId key requestHash)) (\<lambda>claim.
         tryCatch
           (andThen body (\<lambda>r.
            andThen (update_idempotencyRecord (i_id claim) (completed link r)) (\<lambda>_.
            return (Success r))))
           (recordRefusal (i_id claim))))"

text \<open>The \<open>catch\<close> around it: a lost race is answered from the record of the winner.\<close>

definition replayOrRethrow ::
  "string \<Rightarrow> (db \<Rightarrow> idempotency_record \<Rightarrow> 'r option) \<Rightarrow> string \<Rightarrow> (nat \<Rightarrow> db) \<Rightarrow>
   uuid \<Rightarrow> string \<Rightarrow> string \<Rightarrow> exn \<Rightarrow> (db, 'r outcome) op" where
  "replayOrRethrow noun resource scope observed userId key requestHash e =
     (if isUniqueViolation e then
        lift (replayAfterRace noun resource scope userId key requestHash (map observed [0..<5]))
      else if isSerializationConflict e then
        lift (replayAfterRace noun resource scope userId key requestHash (map observed [0..<5]))
      else raise e)"

definition attemptOrReplay ::
  "string \<Rightarrow> (db \<Rightarrow> idempotency_record \<Rightarrow> 'r option) \<Rightarrow>
   ('r \<Rightarrow> idempotency_record \<Rightarrow> idempotency_record) \<Rightarrow> string \<Rightarrow> exn option \<Rightarrow> (nat \<Rightarrow> db) \<Rightarrow>
   uuid \<Rightarrow> string \<Rightarrow> string \<Rightarrow> uuid \<Rightarrow> (db, 'r) op \<Rightarrow> (db, 'r outcome) op" where
  "attemptOrReplay noun resource link scope abort observed userId key requestHash claimId body =
     tryCatch
       (prisma_transaction abort
         (attempt noun resource link scope userId key requestHash claimId body))
       (replayOrRethrow noun resource scope observed userId key requestHash)"

definition unwrapOutcome :: "('r \<Rightarrow> 'a) \<Rightarrow> 'r outcome \<Rightarrow> (db, 'a) op" where
  "unwrapOutcome toResponse out =
     (case out of Failure s m \<Rightarrow> raise (HttpException s m) | Success r \<Rightarrow> return (toResponse r))"

section \<open>Keys\<close>

lemma normalizeKey_Inr:
  "normalizeIdempotencyKey v = Inr k \<Longrightarrow> keyPattern k \<and> (\<exists>s. v = Some s \<and> k = js_trim s)"
  by (auto simp: normalizeIdempotencyKey_def split: option.splits if_splits)

lemma keyChar_not_space: "keyChar c \<Longrightarrow> c \<noteq> CHR '' ''"
  by (auto simp: keyChar_def isAlnum_def isDigit_def isUpper_def isLower_def)

text \<open>An accepted key passes the check constraints of its column.\<close>

lemma keyPattern_varchar: "keyPattern k \<Longrightarrow> varchar_ok 128 k"
  by (auto simp: keyPattern_def list_all_iff keyChar_def isAlnum_def isUpper_def isLower_def isDigit_def
      varchar_ok_def varchar_fits_def no_nul_def)

lemma keyPattern_btrim:
  assumes "keyPattern k"
  shows "k \<noteq> [] \<and> k = sql_btrim k \<and> length k \<le> 128"
proof -
  from assms have k: "k \<noteq> []" "length k \<le> 128" "\<forall>c \<in> set k. keyChar c"
    by (auto simp: keyPattern_def list_all_iff)
  then have "\<forall>c \<in> set k. c \<noteq> CHR '' ''" using keyChar_not_space by blast
  with k have "hd k \<noteq> CHR '' ''" "hd (rev k) \<noteq> CHR '' ''" by (simp_all add: hd_rev)
  then have "dropWhile (\<lambda>c. c = CHR '' '') k = k" "dropWhile (\<lambda>c. c = CHR '' '') (rev k) = rev k"
    by (simp_all add: dropWhile_eq_self)
  then have "sql_btrim k = k" by (simp add: sql_btrim_def)
  with k show ?thesis by simp
qed

section \<open>One attempt\<close>

lemma findClaim_append:
  "findClaim scope userId key d = None \<Longrightarrow> i_userId i = userId \<Longrightarrow> i_scope i = scope \<Longrightarrow> i_key i = key \<Longrightarrow>
   idempotencyRecords e = idempotencyRecords d @ [i] \<Longrightarrow> findClaim scope userId key e = Some i"
  by (simp add: findClaim_def findRow_append)

definition claimable :: "db \<Rightarrow> string \<Rightarrow> uuid \<Rightarrow> string \<Rightarrow> string \<Rightarrow> uuid \<Rightarrow> bool" where
  "claimable d scope userId key requestHash claimId \<longleftrightarrow>
     varchar_ok 64 scope \<and> scope \<noteq> [] \<and> scope = sql_btrim scope \<and> keyPattern key \<and> hex64 requestHash \<and>
     claimId \<notin> i_id ` set (idempotencyRecords d) \<and> userId \<in> u_id ` set (users d)"

definition claimed :: "db \<Rightarrow> string \<Rightarrow> uuid \<Rightarrow> string \<Rightarrow> string \<Rightarrow> uuid \<Rightarrow> db" where
  "claimed d scope userId key requestHash claimId =
     d\<lparr>idempotencyRecords := idempotencyRecords d @ [newClaim claimId scope userId key requestHash]\<rparr>"

lemma newClaim_simps [simp]:
  "i_id (newClaim iid scope userId key h) = iid" "i_userId (newClaim iid scope userId key h) = userId"
  "i_scope (newClaim iid scope userId key h) = scope" "i_key (newClaim iid scope userId key h) = key"
  "i_requestHash (newClaim iid scope userId key h) = h"
  "i_status (newClaim iid scope userId key h) = IN_PROGRESS"
  "i_responseStatus (newClaim iid scope userId key h) = None"
  "i_errorMessage (newClaim iid scope userId key h) = None"
  "i_transferId (newClaim iid scope userId key h) = None"
  "i_reversalId (newClaim iid scope userId key h) = None"
  by (simp_all add: newClaim_def)

lemma create_claim:
  assumes "findClaim scope userId key d = None"
  shows "create_idempotencyRecord (newClaim claimId scope userId key h) d = (r, d') \<Longrightarrow>
    (case r of Inl e \<Rightarrow> (\<forall>s m. e \<noteq> HttpException s m) \<and> d' = d
     | Inr i \<Rightarrow> i = newClaim claimId scope userId key h \<and> d' = claimed d scope userId key h claimId \<and>
         claimId \<notin> i_id ` set (idempotencyRecords d))"
  by (auto simp: create_idempotencyRecord_def op_simps claimed_def existsRow_iff notin_image split: if_splits)

lemma create_claimable:
  assumes "findClaim scope userId key d = None" "claimable d scope userId key h claimId"
  shows "create_idempotencyRecord (newClaim claimId scope userId key h) d =
    (Inr (newClaim claimId scope userId key h), claimed d scope userId key h claimId)"
proof -
  have key: "key \<noteq> []" "key = sql_btrim key" "varchar_ok 128 key"
    using assms(2) keyPattern_btrim keyPattern_varchar by (auto simp: claimable_def)
  have "\<not> existsRow (\<lambda>j. i_id j = claimId \<or> (i_userId j = userId \<and> i_scope j = scope \<and> i_key j = key))
      (idempotencyRecords d)"
    using assms by (auto simp: existsRow_iff findClaim_def findRow_None claimable_def notin_image)
  moreover have "existsRow (\<lambda>u. u_id u = userId) (users d)"
    using assms(2) by (simp add: claimable_def existsRow_key)
  ultimately show ?thesis
    using assms(2) key
    by (simp add: create_idempotencyRecord_def op_simps claimed_def claimable_def)
qed

section \<open>The contract between the protocol and the work\<close>

text \<open>
  What the protocol relies on: the work does not touch the claim table, a client error
  has a message and leaves the database as the work found it, and the resource it returns is the one that the
  record's link column then leads to.
\<close>

locale idempotent_work =
  fixes noun :: string and scope :: string
    and resource :: "db \<Rightarrow> idempotency_record \<Rightarrow> 'r option"
    and link :: "'r \<Rightarrow> idempotency_record \<Rightarrow> idempotency_record"
    and body :: "(db, 'r) op"
    and sound :: "db \<Rightarrow> bool"
  assumes sound_records: "sound (d\<lparr>idempotencyRecords := ids\<rparr>) = sound d"
    and rejects: "sound d \<Longrightarrow> body d = (Inl (HttpException s m), d') \<Longrightarrow> d' = d"
    and message: "body d = (Inl (HttpException s m), d') \<Longrightarrow> m \<noteq> []"
    and records: "sound d \<Longrightarrow> body d = (Inr r, d') \<Longrightarrow> idempotencyRecords d' = idempotencyRecords d"
    and provides: "sound d \<Longrightarrow> body d = (Inr r, d') \<Longrightarrow> resource d' (link r i) = Some r"
    and resource_records: "resource (d\<lparr>idempotencyRecords := ids, settings := cs\<rparr>) i = resource d i"
    and link_keeps: "i_id (link r i) = i_id i" "i_userId (link r i) = i_userId i"
      "i_scope (link r i) = i_scope i" "i_key (link r i) = i_key i"
      "i_requestHash (link r i) = i_requestHash i" "i_status (link r i) = i_status i"
      "i_responseStatus (link r i) = i_responseStatus i"
begin

abbreviation run :: "uuid \<Rightarrow> string \<Rightarrow> string \<Rightarrow> uuid \<Rightarrow> (db, 'r outcome) op" where
  "run \<equiv> \<lambda>userId key h claimId. attempt noun resource link scope userId key h claimId body"

lemma run_existing:
  "findClaim scope userId key d = Some i \<Longrightarrow>
   run userId key h claimId d = (resolveExisting noun resource h d i, d)"
  by (simp add: attempt_def op_simps)

lemma update_claim:
  assumes m: "idempotencyRecords m = idempotencyRecords d @ [newClaim claimId scope userId key h]"
    and new: "claimId \<notin> i_id ` set (idempotencyRecords d)"
    and upd: "update_idempotencyRecord claimId f m = (r, m')"
  shows "(case r of Inl e \<Rightarrow> (\<forall>s msg. e \<noteq> HttpException s msg)
    | Inr _ \<Rightarrow> m' = m\<lparr>idempotencyRecords :=
        idempotencyRecords d @ [f (newClaim claimId scope userId key h)]\<rparr>)"
proof -
  let ?c = "newClaim claimId scope userId key h"
  have "idem_pk.lookup claimId (idempotencyRecords d) = None"
    using new by (auto simp: idem_pk.lookup_def findRow_None notin_image)
  then have "idem_pk.lookup claimId (idempotencyRecords m) = Some ?c"
    using idem_pk.lookup_append_new [of ?c] by (simp add: m)
  moreover have "idem_pk.put claimId f (idempotencyRecords m) = idempotencyRecords d @ [f ?c]"
    using new by (auto simp: m idem_pk.put_def notin_image intro!: updateRows_none)
  ultimately show ?thesis
    using upd by (auto simp: update_idempotencyRecord_def op_simps split: if_splits)
qed

lemma recordRefusal_Inr:
  "recordRefusal claimId e m = (Inr out, d') \<Longrightarrow>
   \<exists>s msg. e = HttpException s msg \<and> 400 \<le> s \<and> s < 500 \<and> out = Failure s (take 255 msg) \<and>
     update_idempotencyRecord claimId (failed s (take 255 msg)) m = (Inr (), d')"
  by (cases e) (auto simp: recordRefusal_def Let_def andThen_def op_simps split: if_splits prod.splits sum.splits)

lemma recordRefusal_pass: "\<forall>s msg. e \<noteq> HttpException s msg \<Longrightarrow> recordRefusal claimId e m = (Inl e, m)"
  by (cases e) (simp_all add: recordRefusal_def op_simps)

text \<open>A first request that is answered has claimed its key and run its work on the claim.\<close>

lemma run_fresh:
  assumes none: "findClaim scope userId key d = None" and run: "run userId key h claimId d = (Inr out, d')"
  shows "claimId \<notin> i_id ` set (idempotencyRecords d)"
    "tryCatch (andThen body (\<lambda>r. andThen (update_idempotencyRecord claimId (completed link r)) (\<lambda>_. return (Success r))))
       (recordRefusal claimId) (claimed d scope userId key h claimId) = (Inr out, d')"
proof -
  let ?c = "newClaim claimId scope userId key h"
  obtain r0 e where cr: "create_idempotencyRecord ?c d = (r0, e)" by (cases "create_idempotencyRecord ?c d")
  with run none have "\<exists>i. r0 = Inr i" by (cases r0) (auto simp: attempt_def op_simps andThen_def)
  with create_claim [OF none cr] have eq: "r0 = Inr ?c" "e = claimed d scope userId key h claimId"
    and new: "claimId \<notin> i_id ` set (idempotencyRecords d)" by auto
  show "claimId \<notin> i_id ` set (idempotencyRecords d)" by (rule new)
  show "tryCatch (andThen body (\<lambda>r. andThen (update_idempotencyRecord claimId (completed link r)) (\<lambda>_. return (Success r))))
       (recordRefusal claimId) (claimed d scope userId key h claimId) = (Inr out, d')"
    using run none cr [unfolded eq] by (simp add: attempt_def op_simps andThen_InrI)
qed

text \<open>A first request ends with the work done or refused, its record stored either way, or
  with an error that is not the client's, which rolls everything back.\<close>

lemma run_new:
  assumes none: "findClaim scope userId key d = None" and ok: "sound d"
    and run: "run userId key h claimId d = (Inr out, d')"
  defines "c \<equiv> newClaim claimId scope userId key h"
  shows "(\<exists>r m. out = Success r \<and> body (claimed d scope userId key h claimId) = (Inr r, m) \<and>
      d' = m\<lparr>idempotencyRecords := idempotencyRecords d @ [completed link r c]\<rparr>) \<or>
    (\<exists>s m. out = Failure s (take 255 m) \<and> 400 \<le> s \<and> s < 500 \<and>
      body (claimed d scope userId key h claimId) = (Inl (HttpException s m), claimed d scope userId key h claimId) \<and>
      d' = d\<lparr>idempotencyRecords := idempotencyRecords d @ [failed s (take 255 m) c]\<rparr>)"
proof -
  let ?d = "claimed d scope userId key h claimId"
  note new = run_fresh(1) [OF none run] and step = run_fresh(2) [OF none run]
  have sd: "sound ?d" and ids: "idempotencyRecords ?d = idempotencyRecords d @ [c]"
    using ok by (simp_all add: claimed_def sound_records c_def)
  obtain b m where b: "body ?d = (b, m)" by (cases "body ?d")
  show ?thesis
  proof (cases b)
    case (Inr r)
    with b have ids': "idempotencyRecords m = idempotencyRecords d @ [c]" using records [OF sd] ids by simp
    obtain u m' where u: "update_idempotencyRecord claimId (completed link r) m = (u, m')"
      by (cases "update_idempotencyRecord claimId (completed link r) m")
    note upd = update_claim [OF ids' [unfolded c_def] new u]
    have "u = Inr () \<and> out = Success r \<and> d' = m'"
      using step b Inr u upd by (cases u) (auto simp: tryCatch_def andThen_def op_simps recordRefusal_pass)
    with upd b Inr show ?thesis by (auto simp: c_def)
  next
    case (Inl e)
    with step b have "recordRefusal claimId e m = (Inr out, d')" by (simp add: tryCatch_def andThen_def)
    from recordRefusal_Inr [OF this] obtain s msg where e: "e = HttpException s msg" "400 \<le> s" "s < 500" "out = Failure s (take 255 msg)"
      and u: "update_idempotencyRecord claimId (failed s (take 255 msg)) m = (Inr (), d')" by blast
    from b Inl e(1) have "m = ?d" using rejects [OF sd] by simp
    with update_claim [OF ids [unfolded c_def] new, of "failed s (take 255 msg)"] u
    have "d' = d\<lparr>idempotencyRecords := idempotencyRecords d @ [failed s (take 255 msg) c]\<rparr>"
      by (fastforce simp: c_def claimed_def)
    with e b Inl \<open>m = ?d\<close> show ?thesis by blast
  qed
qed

text \<open>A repeated request returns the stored outcome and writes nothing.\<close>

lemma repeat_success:
  assumes "findClaim scope userId key e = Some (completed link r (newClaim claimId scope userId key h))"
    and "resource e (completed link r (newClaim claimId scope userId key h)) = Some r"
  shows "run userId key h claimId' e = (Inr (Success r), e)"
  using assms by (simp add: run_existing resolveExisting_def) (simp add: completed_def link_keeps)

lemma repeat_failure:
  assumes "findClaim scope userId key e = Some (failed s m (newClaim claimId scope userId key h))"
    and "0 < s" "m \<noteq> []"
  shows "run userId key h claimId' e = (Inr (Failure s m), e)"
  using assms by (simp add: run_existing resolveExisting_def) (simp add: failed_def)

lemma other_request:
  assumes "findClaim scope userId key e = Some i" "i_requestHash i \<noteq> h"
  shows "run userId key h claimId' e =
    (Inl (Conflict (''Idempotency-Key has already been used with a different '' @ noun @ '' request'')), e)"
  using assms by (simp add: run_existing resolveExisting_def)

end

section \<open>Retries\<close>

text \<open>The retry loop reads at most five times and answers from the first record it sees.\<close>

lemma replay_first:
  assumes "\<forall>d \<in> set ds. findClaim scope userId key d = None" "findClaim scope userId key d = Some i"
  shows "replayAfterRace noun resource scope userId key h (ds @ d # es) = resolveExisting noun resource h d i"
  using assms by (induction ds) simp_all

lemma replay_none:
  assumes "\<forall>d \<in> set ds. findClaim scope userId key d = None"
  shows "replayAfterRace noun resource scope userId key h ds =
    Inl (Conflict (''Concurrent '' @ noun @ '' update detected; retry using the same Idempotency-Key''))"
  using assms by (induction ds) simp_all

lemma attemptOrReplay_committed:
  assumes "attempt noun resource link scope userId key h claimId body d = (Inr out, m)"
    and "commit_checks d m" and "\<forall>e. abort \<noteq> Some e"
  shows "attemptOrReplay noun resource link scope abort observed userId key h claimId body d =
    (Inr out, m\<lparr>settings := []\<rparr>)"
  using assms
  by (cases abort) (simp_all add: attemptOrReplay_def tryCatch_def prisma_transaction_def)

text \<open>Either the transaction committed, or nothing changed.\<close>

lemma attemptOrReplay_cases:
  assumes "attemptOrReplay noun resource link scope abort observed userId key h claimId body d = (r, d')"
  shows "d' = d \<or> (\<exists>out m. r = Inr out \<and> abort = None \<and> commit_checks d m \<and> d' = m\<lparr>settings := []\<rparr> \<and>
     attempt noun resource link scope userId key h claimId body d = (Inr out, m))"
proof (cases "prisma_transaction abort (attempt noun resource link scope userId key h claimId body) d")
  case (Pair r0 d0)
  show ?thesis
  proof (cases r0)
    case (Inl e)
    with Pair have "d0 = d" by (auto dest: prisma_transaction_Inl)
    with assms Pair Inl show ?thesis
      by (auto simp: attemptOrReplay_def replayOrRethrow_def tryCatch_def op_simps split: if_splits)
  next
    case (Inr out)
    with assms Pair show ?thesis
      by (auto simp: attemptOrReplay_def tryCatch_def prisma_transaction_Inr)
  qed
qed

section \<open>The whole operation\<close>

text \<open>The database after a refusal: one failed record more.\<close>

definition after_refusal :: "idempotency_record \<Rightarrow> nat \<Rightarrow> string \<Rightarrow> db \<Rightarrow> db" where
  "after_refusal claim s m d = d\<lparr>idempotencyRecords := idempotencyRecords d @ [failed s m claim], settings := []\<rparr>"

lemma commit_checks_refl: "commit_checks d d"
  by (auto simp: commit_checks_def existsRow_iff list_all_iff)

context idempotent_work begin

abbreviation serve ::
  "('r \<Rightarrow> 'a) \<Rightarrow> exn option \<Rightarrow> (nat \<Rightarrow> db) \<Rightarrow> uuid \<Rightarrow> string \<Rightarrow> string \<Rightarrow> uuid \<Rightarrow> (db, 'a) op" where
  "serve toResponse abort observed userId key h claimId \<equiv>
     andThen (attemptOrReplay noun resource link scope abort observed userId key h claimId body)
       (unwrapOutcome toResponse)"

text \<open>Every way a call can end.\<close>

lemma serve_outcomes:
  assumes ok: "sound d" and run: "serve toResponse abort observed userId key h claimId d = (r, d')"
  defines "c \<equiv> newClaim claimId scope userId key h"
  shows "d' = d \<or> d' = d\<lparr>settings := []\<rparr> \<or>
    (findClaim scope userId key d = None \<and>
      ((\<exists>x m. body (claimed d scope userId key h claimId) = (Inr x, m) \<and> r = Inr (toResponse x) \<and>
         d' = m\<lparr>idempotencyRecords := idempotencyRecords d @ [completed link x c], settings := []\<rparr>) \<or>
       (\<exists>s msg. r = Inl (HttpException s msg) \<and> 400 \<le> s \<and> s < 500 \<and> msg \<noteq> [] \<and>
         d' = after_refusal c s msg d)))"
proof -
  let ?a = "attemptOrReplay noun resource link scope abort observed userId key h claimId body"
  obtain r0 m where a: "?a d = (r0, m)" by (cases "?a d")
  from run have res: "(r, d') = (case r0 of Inl e \<Rightarrow> (Inl e, m) | Inr out \<Rightarrow> unwrapOutcome toResponse out m)"
    by (simp add: andThen_apply a)
  then have d': "d' = m" by (auto simp: unwrapOutcome_def op_simps split: sum.splits outcome.splits)
  from attemptOrReplay_cases [OF a] show ?thesis
  proof (elim disjE exE conjE)
    assume "m = d" with d' show ?thesis by simp
  next
    fix out m0
    assume out: "r0 = Inr out" "m = m0\<lparr>settings := []\<rparr>" "run userId key h claimId d = (Inr out, m0)"
    show ?thesis
    proof (cases "findClaim scope userId key d")
      case (Some i)
      with out(3) have "m0 = d" by (simp add: run_existing)
      with out d' show ?thesis by simp
    next
      case None
      from run_new [OF None ok out(3)] show ?thesis
      proof (elim disjE exE conjE)
        fix x m1
        assume "out = Success x" "body (claimed d scope userId key h claimId) = (Inr x, m1)"
          "m0 = m1\<lparr>idempotencyRecords := idempotencyRecords d @ [completed link x (newClaim claimId scope userId key h)]\<rparr>"
        moreover from this have "r = Inr (toResponse x)"
          using res out by (simp add: unwrapOutcome_def op_simps)
        ultimately show ?thesis using out d' None by (simp add: c_def)
      next
        fix s msg
        assume o: "out = Failure s (take 255 msg)" "400 \<le> s" "s < 500"
          and work: "body (claimed d scope userId key h claimId) =
            (Inl (HttpException s msg), claimed d scope userId key h claimId)"
          and m0: "m0 = d\<lparr>idempotencyRecords := idempotencyRecords d @
             [failed s (take 255 msg) (newClaim claimId scope userId key h)]\<rparr>"
        have "r = Inl (HttpException s (take 255 msg))"
          using o res out by (simp add: unwrapOutcome_def op_simps)
        moreover have "take 255 msg \<noteq> []" using message [OF work] by simp
        moreover have "d' = after_refusal c s (take 255 msg) d"
          using out d' m0 by (simp add: after_refusal_def c_def)
        ultimately show ?thesis using o None by blast
      qed
    qed
  qed
qed

text \<open>A first request whose work succeeds is completed and committed.\<close>

lemma serve_success:
  assumes ok: "sound d" and none: "findClaim scope userId key d = None"
    and can: "claimable d scope userId key h claimId"
    and work: "body (claimed d scope userId key h claimId) = (Inr x, m)"
  defines "c \<equiv> completed link x (newClaim claimId scope userId key h)"
  assumes shape: "idem_shape c" "i_errorMessage c = None"
    and unlinked: "\<forall>j \<in> set (idempotencyRecords d).
      \<not> ((i_transferId c \<noteq> None \<and> i_transferId j = i_transferId c) \<or>
         (i_reversalId c \<noteq> None \<and> i_reversalId j = i_reversalId c))"
    and commit: "commit_checks d (m\<lparr>idempotencyRecords := idempotencyRecords d @ [c]\<rparr>)"
  shows "serve toResponse None observed userId key h claimId d =
    (Inr (toResponse x), m\<lparr>idempotencyRecords := idempotencyRecords d @ [c], settings := []\<rparr>)"
proof -
  let ?c = "newClaim claimId scope userId key h"
  have new: "claimId \<notin> i_id ` set (idempotencyRecords d)" using can by (simp add: claimable_def)
  have ids: "idempotencyRecords m = idempotencyRecords d @ [?c]"
    using records [OF _ work] ok by (simp add: claimed_def sound_records)
  have c: "i_id c = claimId" "i_userId c = userId" "i_scope c = scope" "i_key c = key"
    "i_requestHash c = h" "i_status c = I_COMPLETED"
    by (simp_all add: c_def completed_def link_keeps)
  have look: "idem_pk.lookup claimId (idempotencyRecords m) = Some ?c"
    using new idem_pk.lookup_append_new [of ?c "idempotencyRecords d"]
    by (auto simp: ids idem_pk.lookup_def findRow_None notin_image)
  have put: "idem_pk.put claimId f (idempotencyRecords m) = idempotencyRecords d @ [f ?c]" for f
    using new by (auto simp: ids idem_pk.put_def notin_image intro!: updateRows_none)
  have dup: "\<not> existsRow (\<lambda>j. i_id j \<noteq> claimId \<and>
      ((i_transferId c \<noteq> None \<and> i_transferId j = i_transferId c) \<or>
       (i_reversalId c \<noteq> None \<and> i_reversalId j = i_reversalId c))) (idempotencyRecords m)"
    using unlinked by (auto simp: ids existsRow_iff)
  have "update_idempotencyRecord claimId (completed link x) m =
      (Inr (), m\<lparr>idempotencyRecords := idempotencyRecords d @ [c]\<rparr>)"
    using shape c look put dup
    by (simp add: update_idempotencyRecord_def op_simps idem_terminal_def flip: c_def)
  then have "run userId key h claimId d = (Inr (Success x), m\<lparr>idempotencyRecords := idempotencyRecords d @ [c]\<rparr>)"
    unfolding attempt_def using none create_claimable [OF none can] work
    by (simp add: op_simps andThen_InrI tryCatch_def andThen_apply [of body]
        andThen_apply [of "update_idempotencyRecord _ _"])
  from attemptOrReplay_committed [OF this commit, of None observed] show ?thesis
    by (simp add: andThen_InrI unwrapOutcome_def op_simps)
qed

text \<open>Exactly once: a recorded outcome is returned by every repetition.\<close>

lemma serve_repeat:
  assumes "run userId key h claimId e = (Inr out, e)"
  shows "serve toResponse None observed userId key h claimId e =
    (case out of Failure s m \<Rightarrow> Inl (HttpException s m) | Success x \<Rightarrow> Inr (toResponse x), e\<lparr>settings := []\<rparr>)"
  using attemptOrReplay_committed [OF assms commit_checks_refl, of None observed]
  by (simp add: andThen_InrI unwrapOutcome_def op_simps split: outcome.split)

lemma serve_replay:
  assumes ok: "sound d" and none: "findClaim scope userId key d = None"
    and run: "serve toResponse abort observed userId key h claimId d = (r, d')"
    and stored: "findClaim scope userId key d' \<noteq> None"
    and later: "findClaim scope userId key e = findClaim scope userId key d'"
      "\<forall>i x. resource d' i = Some x \<longrightarrow> resource e i = Some x"
  shows "serve toResponse None observed' userId key h claimId' e = (r, e\<lparr>settings := []\<rparr>)"
proof -
  let ?c = "newClaim claimId scope userId key h"
  have app: "findClaim scope userId key m = Some i"
    if "idempotencyRecords m = idempotencyRecords d @ [i]" "i_userId i = userId" "i_scope i = scope" "i_key i = key" for m i
    using none that by (intro findClaim_append)
  from serve_outcomes [OF ok run] show ?thesis
  proof (elim disjE exE conjE)
    fix x m
    assume work: "body (claimed d scope userId key h claimId) = (Inr x, m)" and r: "r = Inr (toResponse x)"
      and d': "d' = m\<lparr>idempotencyRecords := idempotencyRecords d @ [completed link x ?c], settings := []\<rparr>"
    have "findClaim scope userId key d' = Some (completed link x ?c)"
      unfolding d' by (rule app) (simp_all add: completed_def link_keeps)
    moreover have "resource d' (completed link x ?c) = Some x"
      using provides [OF _ work] ok
      by (simp add: d' completed_def resource_records claimed_def sound_records)
    ultimately have "run userId key h claimId' e = (Inr (Success x), e)"
      using later by (intro repeat_success) auto
    from serve_repeat [OF this] show ?thesis by (simp add: r)
  next
    fix s msg
    assume r: "r = Inl (HttpException s msg)" "400 \<le> s" "s < 500" "msg \<noteq> []"
      and d': "d' = after_refusal ?c s msg d"
    have "findClaim scope userId key d' = Some (failed s msg ?c)"
      unfolding d' by (rule app) (simp_all add: after_refusal_def failed_def)
    then have "run userId key h claimId' e = (Inr (Failure s msg), e)"
      using later r by (intro repeat_failure) auto
    from serve_repeat [OF this] show ?thesis by (simp add: r)
  qed (use none stored in \<open>simp_all add: findClaim_def\<close>)
qed

lemma serve_conflict:
  assumes "findClaim scope userId key e = Some i" "i_requestHash i \<noteq> h"
  shows "serve toResponse None observed userId key h claimId' e =
    (Inl (Conflict (''Idempotency-Key has already been used with a different '' @ noun @ '' request'')), e)"
  using other_request [OF assms, of claimId']
  by (simp add: andThen_def attemptOrReplay_def replayOrRethrow_def tryCatch_def prisma_transaction_def HttpException_pass op_simps)

end

end
