(* ===== verification/Transfers.thy ===== *)
theory Transfers
  imports Idempotency
begin

text \<open>
  \<open>src/transfers/transfers.service.ts\<close> with its mapper: normalising and hashing a request,
  finding the two wallets, the work of one transfer (ledger postings, transfer row, audit
  entry, outbox event), and \<open>create\<close>, which runs the work under the idempotency protocol.

  The identifiers of one call are drawn in order: 0 the claim, 1 \<open>transferId\<close>, 2 the ledger
  transaction, 3 and 4 its postings, 5 the audit entry, 6 the event, 7 onwards the webhook
  deliveries the event fans out to.
\<close>

section \<open>Requests\<close>

record create_transfer_input =
  ct_sourceWalletId :: string
  ct_destinationWalletId :: "string option"
  ct_beneficiaryId :: "string option"
  ct_amountMinor :: string

record transfer_request =
  tr_sourceWalletId :: string
  tr_destinationWalletId :: "string option"
  tr_beneficiaryId :: "string option"
  tr_amountMinor :: int
  tr_amountMinorText :: string

definition TRANSFER_SCOPE :: string where
  "TRANSFER_SCOPE = ''internal-transfer''"

text \<open>The spread \<open>...(x ? { x: x.toLowerCase() } : {})\<close>.\<close>

definition lowerIfGiven :: "string option \<Rightarrow> string option" where
  "lowerIfGiven v = (if truthy v then map_option js_toLowerCase v else None)"

definition normalizeTransferRequest :: "create_transfer_input \<Rightarrow> exn + transfer_request" where
  "normalizeTransferRequest input =
     (let hasDestination = truthy (ct_destinationWalletId input);
          hasBeneficiary = truthy (ct_beneficiaryId input)
      in
      if hasDestination = hasBeneficiary then
        Inl (BadRequest ''Provide exactly one of destinationWalletId or beneficiaryId'')
      else
        (case js_BigInt (ct_amountMinor input) of
           None \<Rightarrow> Inl (BadRequest ''amountMinor must be a positive integer string in minor units'')
         | Some amountMinor \<Rightarrow>
             if amountMinor \<le> 0 \<or> MAX_MINOR_UNITS < amountMinor then
               Inl (BadRequest ''amountMinor exceeds the supported BIGINT range'')
             else Inr
               \<lparr>tr_sourceWalletId = js_toLowerCase (ct_sourceWalletId input),
                tr_destinationWalletId = lowerIfGiven (ct_destinationWalletId input),
                tr_beneficiaryId = lowerIfGiven (ct_beneficiaryId input),
                tr_amountMinor = amountMinor,
                tr_amountMinorText = js_showInt amountMinor\<rparr>))"

definition transferDigestInput :: "transfer_request \<Rightarrow> string" where
  "transferDigestInput req = js_stringify (JObj
     [(''sourceWalletId'', JStr (tr_sourceWalletId req)),
      (''destinationWalletId'', orNull (tr_destinationWalletId req)),
      (''beneficiaryId'', orNull (tr_beneficiaryId req)),
      (''amountMinor'', JStr (tr_amountMinorText req))])"

definition hashTransferRequest :: "runtime \<Rightarrow> transfer_request \<Rightarrow> string" where
  "hashTransferRequest rt req = rt_sha256 rt (transferDigestInput req)"

section \<open>The work\<close>

record route =
  ro_source :: wallet
  ro_destination :: wallet
  ro_beneficiaryId :: "uuid option"

text \<open>A beneficiary row always has its wallet (a foreign key); Prisma reports an
  inconsistent relation otherwise.\<close>

definition resolveDestination :: "uuid \<Rightarrow> transfer_request \<Rightarrow> (db, wallet \<times> uuid option) op" where
  "resolveDestination senderUserId req =
     (if truthy (tr_beneficiaryId req) then
        andThen (query (\<lambda>d. findRow (\<lambda>b. Some (b_id b) = tr_beneficiaryId req \<and>
          b_ownerUserId b = senderUserId \<and> b_deletedAt b = None) (beneficiaries d))) (\<lambda>beneficiary.
        case beneficiary of
          None \<Rightarrow> raise (NotFound ''Beneficiary not found'')
        | Some b \<Rightarrow>
            andThen (query (\<lambda>d. wallet_pk.lookup (b_walletId b) (wallets d))) (\<lambda>w.
            case w of None \<Rightarrow> raise (OtherError ''Inconsistent query result'')
            | Some w \<Rightarrow> return (w, Some (b_id b))))
      else
        (if \<not> truthy (tr_destinationWalletId req) then
           raise (InternalServerError ''Transfer destination was not resolved'')
         else
           andThen (query (\<lambda>d. wallet_pk.lookup (the (tr_destinationWalletId req)) (wallets d))) (\<lambda>w.
           case w of None \<Rightarrow> raise (NotFound ''Destination wallet is unavailable'')
           | Some w \<Rightarrow> return (w, None))))"

definition resolveRoute :: "uuid \<Rightarrow> transfer_request \<Rightarrow> (db, route) op" where
  "resolveRoute senderUserId req =
     andThen (query (\<lambda>d. findRow (\<lambda>w. w_id w = tr_sourceWalletId req \<and> w_userId w = senderUserId)
       (wallets d))) (\<lambda>source.
     case source of
       None \<Rightarrow> raise (NotFound ''Source wallet not found'')
     | Some sourceWallet \<Rightarrow>
         andThen (require (w_status sourceWallet = ACTIVE)
           (Conflict ''Source wallet must be active'')) (\<lambda>_.
         andThen (resolveDestination senderUserId req) (\<lambda>(destinationWallet, beneficiaryId).
         andThen (require (w_status destinationWallet = ACTIVE)
           (Conflict ''Destination wallet must be active'')) (\<lambda>_.
         andThen (require (w_id sourceWallet \<noteq> w_id destinationWallet)
           (BadRequest ''Source and destination wallets must be different'')) (\<lambda>_.
         andThen (require (w_currency sourceWallet = w_currency destinationWallet)
           (BadRequest ''Internal transfers must use the same currency'')) (\<lambda>_.
         return \<lparr>ro_source = sourceWallet, ro_destination = destinationWallet,
                 ro_beneficiaryId = beneficiaryId\<rparr>))))))"

definition transferReference :: "runtime \<Rightarrow> string" where
  "transferReference rt = ''transfer:'' @ rt_uuid rt 1"

definition transferPostings :: "route \<Rightarrow> transfer_request \<Rightarrow> posting_input list" where
  "transferPostings ro req =
     [\<lparr>pi_accountId = w_ledgerAccountId (ro_source ro), pi_amountMinor = - tr_amountMinor req\<rparr>,
      \<lparr>pi_accountId = w_ledgerAccountId (ro_destination ro), pi_amountMinor = tr_amountMinor req\<rparr>]"

definition transferLedgerInput :: "runtime \<Rightarrow> route \<Rightarrow> transfer_request \<Rightarrow> ledger_input" where
  "transferLedgerInput rt ro req =
     \<lparr>li_reference = transferReference rt, li_currency = w_currency (ro_source ro),
      li_description = Some ''Internal wallet transfer'', li_postings = transferPostings ro req\<rparr>"

definition newTransfer :: "runtime \<Rightarrow> uuid \<Rightarrow> transfer_request \<Rightarrow> route \<Rightarrow> uuid \<Rightarrow> transfer" where
  "newTransfer rt senderUserId req ro ledgerTransactionId =
     \<lparr>t_id = rt_uuid rt 1, t_reference = transferReference rt, t_senderUserId = senderUserId,
      t_sourceWalletId = w_id (ro_source ro), t_destinationWalletId = w_id (ro_destination ro),
      t_beneficiaryId = ro_beneficiaryId ro, t_ledgerTransactionId = ledgerTransactionId,
      t_currency = w_currency (ro_source ro), t_amountMinor = tr_amountMinor req,
      t_status = T_COMPLETED, t_createdAt = rt_now rt, t_completedAt = Some (rt_now rt)\<rparr>"

definition transferAudit :: "runtime \<Rightarrow> uuid \<Rightarrow> transfer \<Rightarrow> audit_log" where
  "transferAudit rt senderUserId t =
     \<lparr>al_id = rt_uuid rt 5, al_actorUserId = senderUserId, al_action = TRANSFER_CREATED,
      al_transferId = t_id t, al_reversalId = None, al_createdAt = rt_now rt\<rparr>"

definition transferEvent :: "runtime \<Rightarrow> uuid \<Rightarrow> transfer \<Rightarrow> outbox_event" where
  "transferEvent rt senderUserId t =
     new_outboxEvent (rt_uuid rt 6) (rt_now rt) TRANSFER_COMPLETED ''Transfer'' (t_id t) senderUserId
       (JObj [(''transferId'', JStr (t_id t)),
              (''amountMinor'', JStr (js_showInt (t_amountMinor t))),
              (''currency'', JStr (currencyName (t_currency t)))])"

definition executeTransfer :: "runtime \<Rightarrow> uuid \<Rightarrow> transfer_request \<Rightarrow> route \<Rightarrow> (db, transfer) op" where
  "executeTransfer rt senderUserId req ro =
     andThen (postWithinTransaction rt (\<lambda>k. rt_uuid rt (2 + k)) (transferLedgerInput rt ro req))
       (\<lambda>(ledgerTransaction, _).
     andThen (set_config ''app.transfer_write'') (\<lambda>_.
     andThen (create_transfer (newTransfer rt senderUserId req ro (lt_id ledgerTransaction))) (\<lambda>transfer.
     andThen (set_config ''app.audit_write'') (\<lambda>_.
     andThen (create_auditLog (transferAudit rt senderUserId transfer)) (\<lambda>_.
     andThen (create_outboxEvent (\<lambda>k. rt_uuid rt (7 + k)) (rt_now rt)
       (transferEvent rt senderUserId transfer)) (\<lambda>_.
     return transfer))))))"

definition transferWork :: "runtime \<Rightarrow> uuid \<Rightarrow> transfer_request \<Rightarrow> (db, transfer) op" where
  "transferWork rt senderUserId req =
     andThen (resolveRoute senderUserId req) (executeTransfer rt senderUserId req)"

section \<open>The service\<close>

record transfer_response =
  xr_id :: uuid
  xr_reference :: string
  xr_sourceWalletId :: uuid
  xr_destinationWalletId :: uuid
  xr_beneficiaryId :: "uuid option"
  xr_currency :: Currency
  xr_amountMinor :: string
  xr_status :: TransferStatus
  xr_createdAt :: time
  xr_completedAt :: "time option"

definition toTransferResponse :: "transfer \<Rightarrow> transfer_response" where
  "toTransferResponse t =
     \<lparr>xr_id = t_id t, xr_reference = t_reference t, xr_sourceWalletId = t_sourceWalletId t,
      xr_destinationWalletId = t_destinationWalletId t, xr_beneficiaryId = t_beneficiaryId t,
      xr_currency = t_currency t, xr_amountMinor = js_showInt (t_amountMinor t),
      xr_status = t_status t, xr_createdAt = t_createdAt t, xr_completedAt = t_completedAt t\<rparr>"

text \<open>\<open>include: { transfer: true }\<close> and the column set on completion.\<close>

definition includedTransfer :: "db \<Rightarrow> idempotency_record \<Rightarrow> transfer option" where
  "includedTransfer d i =
     (case i_transferId i of None \<Rightarrow> None | Some tid \<Rightarrow> transfer_pk.lookup tid (transfers d))"

definition linkTransfer :: "transfer \<Rightarrow> idempotency_record \<Rightarrow> idempotency_record" where
  "linkTransfer t i = i\<lparr>i_transferId := Some (t_id t)\<rparr>"

definition transfersCreate ::
  "runtime \<Rightarrow> exn option \<Rightarrow> (nat \<Rightarrow> db) \<Rightarrow> uuid \<Rightarrow> string option \<Rightarrow> create_transfer_input \<Rightarrow>
   (db, transfer_response) op" where
  "transfersCreate rt abort observed senderUserId idempotencyKeyHeader input =
     andThen (lift (normalizeIdempotencyKey idempotencyKeyHeader)) (\<lambda>idempotencyKey.
     andThen (lift (normalizeTransferRequest input)) (\<lambda>request.
     andThen (attemptOrReplay ''transfer'' includedTransfer linkTransfer TRANSFER_SCOPE abort observed
       senderUserId idempotencyKey (hashTransferRequest rt request) (rt_uuid rt 0)
       (transferWork rt senderUserId request)) (\<lambda>outcome.
     unwrapOutcome toTransferResponse outcome)))"

definition transfersFindAllForUser :: "uuid \<Rightarrow> (db, transfer_response list) op" where
  "transfersFindAllForUser senderUserId = query (\<lambda>d.
     map toTransferResponse (take 100
       (rev (sort_key (\<lambda>t. (t_createdAt t, t_id t))
         (filter (\<lambda>t. t_senderUserId t = senderUserId) (transfers d))))))"

definition transfersFindOneForUser :: "uuid \<Rightarrow> uuid \<Rightarrow> (db, transfer_response) op" where
  "transfersFindOneForUser senderUserId transferId =
     andThen (query (\<lambda>d. findRow (\<lambda>t. t_id t = pgUuid transferId \<and> t_senderUserId t = senderUserId)
       (transfers d))) (\<lambda>t.
     case t of None \<Rightarrow> raise (NotFound ''Transfer not found'')
     | Some t \<Rightarrow> return (toTransferResponse t))"

end
