(* ===== verification/TransferCorrect.thy ===== *)
theory TransferCorrect
  imports Transfers
begin

text \<open>
  Correctness of a transfer's work: which requests find their wallets, what the work writes
  when it succeeds (\<open>transfer_effect\<close>), and that a client error leaves the database as it was.
\<close>

section \<open>Writes that succeed\<close>

lemma create_transfer_Inr:
  "create_transfer t d = (Inr v, d') \<longleftrightarrow>
     v = t \<and> d' = d\<lparr>transfers := transfers d @ [t]\<rparr> \<and> setting_on ''app.transfer_write'' d \<and>
     varchar_ok 120 (t_reference t) \<and> bigint_ok (t_amountMinor t) \<and> 0 < t_amountMinor t \<and>
     t_sourceWalletId t \<noteq> t_destinationWalletId t \<and>
     (t_status t = T_COMPLETED \<longleftrightarrow> t_completedAt t \<noteq> None) \<and>
     t_id t \<notin> t_id ` set (transfers d) \<and> t_reference t \<notin> t_reference ` set (transfers d) \<and>
     t_ledgerTransactionId t \<notin> t_ledgerTransactionId ` set (transfers d) \<and>
     t_senderUserId t \<in> u_id ` set (users d) \<and> t_sourceWalletId t \<in> w_id ` set (wallets d) \<and>
     t_destinationWalletId t \<in> w_id ` set (wallets d) \<and>
     (t_beneficiaryId t = None \<or> t_beneficiaryId t \<in> (\<lambda>b. Some (b_id b)) ` set (beneficiaries d)) \<and>
     t_ledgerTransactionId t \<in> lt_id ` set (ledgerTransactions d)"
  by (auto simp: create_transfer_def op_simps existsRow_key existsRow_iff [of "\<lambda>u. _ u \<or> _ u"] notin_image)

lemma create_transfer_Inl [simp]: "create_transfer t d \<noteq> (Inl (HttpException s m), d')"
  by (simp add: create_transfer_def op_simps)

lemma create_auditLog_Inr:
  "create_auditLog a d = (Inr v, d') \<longleftrightarrow>
     d' = d\<lparr>auditLogs := auditLogs d @ [a]\<rparr> \<and> setting_on ''app.audit_write'' d \<and>
     (al_action a = TRANSFER_CREATED) = (al_reversalId a = None) \<and>
     \<not> existsRow (\<lambda>b. al_id b = al_id a \<or>
       (al_reversalId a \<noteq> None \<and> al_reversalId b = al_reversalId a) \<or>
       (al_action b = al_action a \<and> al_transferId b = al_transferId a)) (auditLogs d) \<and>
     al_actorUserId a \<in> u_id ` set (users d) \<and> al_transferId a \<in> t_id ` set (transfers d) \<and>
     (al_reversalId a = None \<or> al_reversalId a \<in> (\<lambda>r. Some (r_id r)) ` set (reversals d))"
  by (auto simp: create_auditLog_def op_simps existsRow_key)

lemma create_auditLog_Inl [simp]: "create_auditLog a d \<noteq> (Inl (HttpException s m), d')"
  by (simp add: create_auditLog_def op_simps)

lemma create_outboxEvent_Inr:
  "create_outboxEvent gen now e d = (Inr v, d') \<longleftrightarrow>
     d' = fan_out_webhook_event gen now e (d\<lparr>outboxEvents := outboxEvents d @ [e]\<rparr>) \<and>
     \<not> existsRow (\<lambda>f. e_id f = e_id e \<or> (e_type f = e_type e \<and> e_aggregateId f = e_aggregateId e))
         (outboxEvents d) \<and>
     e_actorUserId e \<in> u_id ` set (users d)"
  by (auto simp: create_outboxEvent_def op_simps existsRow_key)

lemma create_outboxEvent_Inl [simp]: "create_outboxEvent gen now e d \<noteq> (Inl (HttpException s m), d')"
  by (simp add: create_outboxEvent_def op_simps)

text \<open>The fan-out only adds deliveries.\<close>

lemma fan_out_simps [simp]:
  "users (fan_out_webhook_event gen now e d) = users d"
  "wallets (fan_out_webhook_event gen now e d) = wallets d"
  "accounts (fan_out_webhook_event gen now e d) = accounts d"
  "ledgerTransactions (fan_out_webhook_event gen now e d) = ledgerTransactions d"
  "postings (fan_out_webhook_event gen now e d) = postings d"
  "transfers (fan_out_webhook_event gen now e d) = transfers d"
  "reversals (fan_out_webhook_event gen now e d) = reversals d"
  "beneficiaries (fan_out_webhook_event gen now e d) = beneficiaries d"
  "idempotencyRecords (fan_out_webhook_event gen now e d) = idempotencyRecords d"
  "auditLogs (fan_out_webhook_event gen now e d) = auditLogs d"
  "outboxEvents (fan_out_webhook_event gen now e d) = outboxEvents d"
  "notifications (fan_out_webhook_event gen now e d) = notifications d"
  "subscriptions (fan_out_webhook_event gen now e d) = subscriptions d"
  "attempts (fan_out_webhook_event gen now e d) = attempts d"
  "payments (fan_out_webhook_event gen now e d) = payments d"
  "providerEvents (fan_out_webhook_event gen now e d) = providerEvents d"
  "checkouts (fan_out_webhook_event gen now e d) = checkouts d"
  "settings (fan_out_webhook_event gen now e d) = settings d"
  by (simp_all add: fan_out_webhook_event_def Let_def)

section \<open>Finding the wallets\<close>

definition routed :: "db \<Rightarrow> uuid \<Rightarrow> transfer_request \<Rightarrow> route \<Rightarrow> bool" where
  "routed d senderUserId req ro \<longleftrightarrow>
     findRow (\<lambda>w. w_id w = tr_sourceWalletId req \<and> w_userId w = senderUserId) (wallets d) = Some (ro_source ro) \<and>
     (if truthy (tr_beneficiaryId req) then
        (\<exists>b. findRow (\<lambda>b. Some (b_id b) = tr_beneficiaryId req \<and> b_ownerUserId b = senderUserId \<and>
             b_deletedAt b = None) (beneficiaries d) = Some b \<and>
           wallet_pk.lookup (b_walletId b) (wallets d) = Some (ro_destination ro) \<and>
           ro_beneficiaryId ro = Some (b_id b))
      else truthy (tr_destinationWalletId req) \<and>
        wallet_pk.lookup (the (tr_destinationWalletId req)) (wallets d) = Some (ro_destination ro) \<and>
        ro_beneficiaryId ro = None) \<and>
     w_status (ro_source ro) = ACTIVE \<and> w_status (ro_destination ro) = ACTIVE \<and>
     w_id (ro_source ro) \<noteq> w_id (ro_destination ro) \<and>
     w_currency (ro_source ro) = w_currency (ro_destination ro)"

lemma resolveDestination_readonly: "readonly (resolveDestination u req)"
  by (auto simp: resolveDestination_def readonly_def op_simps split: option.splits)

lemma resolveRoute_readonly: "readonly (resolveRoute u req)"
proof -
  have "snd (resolveDestination u req d) = d" for d
    using resolveDestination_readonly by (simp add: readonly_def)
  then show ?thesis
    by (auto simp: resolveRoute_def readonly_def op_simps andThen_apply [of "resolveDestination u req"]
        split: option.splits prod.splits sum.splits) (metis snd_conv)+
qed

lemma resolveRoute_Inr:
  "resolveRoute u req d = (Inr ro, d') \<longleftrightarrow> d' = d \<and> routed d u req ro"
proof -
  have dest: "resolveDestination u req d = (Inr (w, b), e) \<longleftrightarrow> e = d \<and>
     (if truthy (tr_beneficiaryId req) then
        (\<exists>ben. findRow (\<lambda>b. Some (b_id b) = tr_beneficiaryId req \<and> b_ownerUserId b = u \<and>
             b_deletedAt b = None) (beneficiaries d) = Some ben \<and>
           wallet_pk.lookup (b_walletId ben) (wallets d) = Some w \<and> b = Some (b_id ben))
      else truthy (tr_destinationWalletId req) \<and>
        wallet_pk.lookup (the (tr_destinationWalletId req)) (wallets d) = Some w \<and> b = None)" for w b e
    by (auto simp: resolveDestination_def op_simps split: option.splits)
  show ?thesis
    by (cases ro) (auto simp: resolveRoute_def op_simps dest routed_def split: option.splits)
qed

section \<open>What a transfer writes\<close>

definition transferGen :: "runtime \<Rightarrow> nat \<Rightarrow> uuid" where
  "transferGen rt = (\<lambda>k. rt_uuid rt (2 + k))"

text \<open>The rows a transfer needs to be new.\<close>

definition transfer_fresh :: "runtime \<Rightarrow> db \<Rightarrow> bool" where
  "transfer_fresh rt d \<longleftrightarrow>
     rt_uuid rt 1 \<notin> t_id ` set (transfers d) \<and>
     transferReference rt \<notin> t_reference ` set (transfers d) \<and>
     rt_uuid rt 2 \<notin> t_ledgerTransactionId ` set (transfers d) \<and>
     \<not> existsRow (\<lambda>b. al_id b = rt_uuid rt 5 \<or>
        (al_action b = TRANSFER_CREATED \<and> al_transferId b = rt_uuid rt 1)) (auditLogs d) \<and>
     \<not> existsRow (\<lambda>f. e_id f = rt_uuid rt 6 \<or>
        (e_type f = TRANSFER_COMPLETED \<and> e_aggregateId f = rt_uuid rt 1)) (outboxEvents d)"

definition ledger_sound :: "db \<Rightarrow> bool" where
  "ledger_sound d \<longleftrightarrow> pairing_ok d \<and> postings_linked d"

lemma newTransfer_simps [simp]:
  "t_id (newTransfer rt u req ro l) = rt_uuid rt 1"
  "t_reference (newTransfer rt u req ro l) = transferReference rt"
  "t_senderUserId (newTransfer rt u req ro l) = u"
  "t_sourceWalletId (newTransfer rt u req ro l) = w_id (ro_source ro)"
  "t_destinationWalletId (newTransfer rt u req ro l) = w_id (ro_destination ro)"
  "t_beneficiaryId (newTransfer rt u req ro l) = ro_beneficiaryId ro"
  "t_ledgerTransactionId (newTransfer rt u req ro l) = l"
  "t_currency (newTransfer rt u req ro l) = w_currency (ro_source ro)"
  "t_amountMinor (newTransfer rt u req ro l) = tr_amountMinor req"
  "t_status (newTransfer rt u req ro l) = T_COMPLETED"
  "t_completedAt (newTransfer rt u req ro l) = Some (rt_now rt)"
  by (simp_all add: newTransfer_def)

lemma transferAudit_simps [simp]:
  "al_id (transferAudit rt u t) = rt_uuid rt 5" "al_actorUserId (transferAudit rt u t) = u"
  "al_action (transferAudit rt u t) = TRANSFER_CREATED" "al_transferId (transferAudit rt u t) = t_id t"
  "al_reversalId (transferAudit rt u t) = None"
  by (simp_all add: transferAudit_def)

lemma transferEvent_simps [simp]:
  "e_id (transferEvent rt u t) = rt_uuid rt 6" "e_actorUserId (transferEvent rt u t) = u"
  "e_type (transferEvent rt u t) = TRANSFER_COMPLETED" "e_aggregateId (transferEvent rt u t) = t_id t"
  by (simp_all add: transferEvent_def new_outboxEvent_def)

text \<open>The conditions under which the writes after the ledger posting succeed.\<close>

definition transfer_writable :: "runtime \<Rightarrow> uuid \<Rightarrow> transfer_request \<Rightarrow> route \<Rightarrow> db \<Rightarrow> bool" where
  "transfer_writable rt u req ro d \<longleftrightarrow>
     transfer_fresh rt d \<and> varchar_ok 120 (transferReference rt) \<and>
     bigint_ok (tr_amountMinor req) \<and> 0 < tr_amountMinor req \<and>
     w_id (ro_source ro) \<noteq> w_id (ro_destination ro) \<and> u \<in> u_id ` set (users d) \<and>
     w_id (ro_source ro) \<in> w_id ` set (wallets d) \<and> w_id (ro_destination ro) \<in> w_id ` set (wallets d) \<and>
     (ro_beneficiaryId ro = None \<or> ro_beneficiaryId ro \<in> (\<lambda>b. Some (b_id b)) ` set (beneficiaries d))"

definition transfer_rows :: "runtime \<Rightarrow> uuid \<Rightarrow> transfer \<Rightarrow> db \<Rightarrow> db" where
  "transfer_rows rt u t d =
     fan_out_webhook_event (\<lambda>k. rt_uuid rt (7 + k)) (rt_now rt) (transferEvent rt u t)
       (d\<lparr>transfers := transfers d @ [t],
          settings := ''app.audit_write'' # ''app.transfer_write'' # settings d,
          auditLogs := auditLogs d @ [transferAudit rt u t],
          outboxEvents := outboxEvents d @ [transferEvent rt u t]\<rparr>)"

lemma transfer_writes:
  assumes "rt_uuid rt 2 \<in> lt_id ` set (ledgerTransactions d)"
  shows "(andThen (set_config ''app.transfer_write'') (\<lambda>_.
     andThen (create_transfer (newTransfer rt u req ro (rt_uuid rt 2))) (\<lambda>transfer.
     andThen (set_config ''app.audit_write'') (\<lambda>_.
     andThen (create_auditLog (transferAudit rt u transfer)) (\<lambda>_.
     andThen (create_outboxEvent (\<lambda>k. rt_uuid rt (7 + k)) (rt_now rt) (transferEvent rt u transfer)) (\<lambda>_.
     return transfer)))))) d = (Inr t, d') \<longleftrightarrow>
    transfer_writable rt u req ro d \<and> t = newTransfer rt u req ro (rt_uuid rt 2) \<and>
    d' = transfer_rows rt u t d"
  using assms
  by (simp add: set_config_def op_simps create_transfer_Inr create_auditLog_Inr create_outboxEvent_Inr
      setting_on_def transfer_writable_def transfer_fresh_def transfer_rows_def)
    (rule iffI; elim conjE; simp)

lemma effect_wallet_ids [simp]:
  "w_id ` set (map (credit_wallet now ps) ws) = w_id ` set ws"
  by (simp add: image_image)

lemma transfer_writable_effect [simp]:
  "transfer_writable rt u req ro (ledger_effect now gen n d) = transfer_writable rt u req ro d"
  by (simp add: transfer_writable_def transfer_fresh_def image_image)

lemma transferGen_simps [simp]: "transferGen rt 0 = rt_uuid rt 2" "transferGen rt k = rt_uuid rt (2 + k)"
  by (simp_all add: transferGen_def numeral_2_eq_2)

text \<open>The complete condition and effect of a transfer's work.\<close>

definition transfer_effect ::
  "runtime \<Rightarrow> uuid \<Rightarrow> transfer_request \<Rightarrow> route \<Rightarrow> ledger_input \<Rightarrow> db \<Rightarrow> db" where
  "transfer_effect rt u req ro n d =
     transfer_rows rt u (newTransfer rt u req ro (rt_uuid rt 2))
       (ledger_effect (rt_now rt) (transferGen rt) n d)"

definition transfer_allowed ::
  "runtime \<Rightarrow> uuid \<Rightarrow> transfer_request \<Rightarrow> route \<Rightarrow> ledger_input \<Rightarrow> db \<Rightarrow> bool" where
  "transfer_allowed rt u req ro n d \<longleftrightarrow>
     normalizeLedgerTransactionInput (rt_isUUID rt) (transferLedgerInput rt ro req) = Inr n \<and>
     postable d n \<and> fresh_ledger (transferGen rt) n d \<and> transfer_writable rt u req ro d"

lemma executeTransfer_Inr:
  assumes ok: "ledger_sound d"
  shows "executeTransfer rt u req ro d = (Inr t, d') \<longleftrightarrow>
    (\<exists>n. transfer_allowed rt u req ro n d \<and> t = newTransfer rt u req ro (rt_uuid rt 2) \<and>
         d' = transfer_effect rt u req ro n d)"
proof -
  let ?rest = "\<lambda>l. andThen (set_config ''app.transfer_write'') (\<lambda>_.
     andThen (create_transfer (newTransfer rt u req ro l)) (\<lambda>transfer.
     andThen (set_config ''app.audit_write'') (\<lambda>_.
     andThen (create_auditLog (transferAudit rt u transfer)) (\<lambda>_.
     andThen (create_outboxEvent (\<lambda>k. rt_uuid rt (7 + k)) (rt_now rt) (transferEvent rt u transfer)) (\<lambda>_.
     return transfer)))))"
  have post: "postWithinTransaction rt (transferGen rt) inp d = (Inr lq, m) \<longleftrightarrow>
     (\<exists>n. normalizeLedgerTransactionInput (rt_isUUID rt) inp = Inr n \<and> postable d n \<and>
       fresh_ledger (transferGen rt) n d \<and> m = ledger_effect (rt_now rt) (transferGen rt) n d \<and>
       lq = (sealed_row (rt_now rt) (transferGen rt) n,
             sort_key lp_accountId (posting_rows (transferGen rt) 1 (transferGen rt 0) (li_postings n))))" for inp lq m
    using ok post_Inr [of d rt "transferGen rt" inp lq m] by (auto simp: ledger_sound_def)
  have rest: "?rest (rt_uuid rt 2) (ledger_effect (rt_now rt) (transferGen rt) n d) = (Inr t, d') \<longleftrightarrow>
     transfer_writable rt u req ro d \<and> t = newTransfer rt u req ro (rt_uuid rt 2) \<and>
     d' = transfer_effect rt u req ro n d" for n
    by (subst transfer_writes) (auto simp: transfer_effect_def)
  have "executeTransfer rt u req ro d = (Inr t, d') \<longleftrightarrow>
     (\<exists>lq m. postWithinTransaction rt (transferGen rt) (transferLedgerInput rt ro req) d = (Inr lq, m) \<and>
        ?rest (lt_id (fst lq)) m = (Inr t, d'))"
    unfolding executeTransfer_def transferGen_def [symmetric] by (subst andThen_Inr) (simp add: case_prod_beta)
  also have "\<dots> \<longleftrightarrow> (\<exists>n. normalizeLedgerTransactionInput (rt_isUUID rt) (transferLedgerInput rt ro req) = Inr n \<and>
       postable d n \<and> fresh_ledger (transferGen rt) n d \<and>
       ?rest (rt_uuid rt 2) (ledger_effect (rt_now rt) (transferGen rt) n d) = (Inr t, d'))"
    unfolding post by auto
  finally show ?thesis unfolding rest transfer_allowed_def by blast
qed

lemma executeTransfer_Inl:
  assumes ok: "ledger_sound d" and run: "executeTransfer rt u req ro d = (Inl (HttpException s m), d')"
  shows "d' = d"
proof -
  from run have "postWithinTransaction rt (transferGen rt) (transferLedgerInput rt ro req) d = (Inl (HttpException s m), d')"
    unfolding executeTransfer_def transferGen_def [symmetric]
    by (auto simp: andThen_Inl set_config_def op_simps)
  with ok post_Inl [of d rt "transferGen rt"] show ?thesis by (fastforce simp: ledger_sound_def)
qed

lemma transferWork_Inr:
  assumes "ledger_sound d"
  shows "transferWork rt u req d = (Inr t, d') \<longleftrightarrow>
    (\<exists>ro n. routed d u req ro \<and> transfer_allowed rt u req ro n d \<and>
       t = newTransfer rt u req ro (rt_uuid rt 2) \<and> d' = transfer_effect rt u req ro n d)"
  using executeTransfer_Inr [OF assms] by (auto simp: transferWork_def andThen_Inr resolveRoute_Inr)

lemma transferWork_Inl:
  assumes "ledger_sound d" "transferWork rt u req d = (Inl (HttpException s m), d')"
  shows "d' = d"
  using assms executeTransfer_Inl readonly_state [OF resolveRoute_readonly]
  unfolding transferWork_def by (auto simp: andThen_Inl) metis

end
