(* ===== verification/TransferCommit.thy ===== *)
theory TransferCommit
  imports TransferCorrect
begin

text \<open>
  A committed transfer satisfies every deferred trigger of the database, so that no
  transfer can fail at commit on a data check.
\<close>

section \<open>Independence of the claim table\<close>

lemma records_irrelevant [simp]:
  "ledger_sound (d\<lparr>idempotencyRecords := ids\<rparr>) = ledger_sound d"
  "postable (d\<lparr>idempotencyRecords := ids\<rparr>) n = postable d n"
  "fresh_ledger gen n (d\<lparr>idempotencyRecords := ids\<rparr>) = fresh_ledger gen n d"
  "transfer_writable rt u req ro (d\<lparr>idempotencyRecords := ids\<rparr>) = transfer_writable rt u req ro d"
  "transfer_allowed rt u req ro n (d\<lparr>idempotencyRecords := ids\<rparr>) = transfer_allowed rt u req ro n d"
  "routed (d\<lparr>idempotencyRecords := ids\<rparr>) u req ro = routed d u req ro"
  "pairing_ok (d\<lparr>idempotencyRecords := ids\<rparr>) = pairing_ok d"
  "double_entry (d\<lparr>idempotencyRecords := ids\<rparr>) = double_entry d"
  "identity_ok (d\<lparr>idempotencyRecords := ids\<rparr>) = identity_ok d"
  by (simp_all add: ledger_sound_def pairing_ok_def postings_linked_def postable_def posting_passes_def
      fresh_ledger_def transfer_allowed_def transfer_writable_def transfer_fresh_def routed_def
      double_entry_def identity_ok_def)

lemma transfer_effect_records [simp]:
  "transfer_effect rt u req ro n (d\<lparr>idempotencyRecords := ids\<rparr>) =
   (transfer_effect rt u req ro n d)\<lparr>idempotencyRecords := ids\<rparr>"
  by (rule db.equality)
    (simp_all add: transfer_effect_def transfer_rows_def ledger_effect_def fan_out_webhook_event_def Let_def)

lemma transfer_effect_simps [simp]:
  "users (transfer_effect rt u req ro n d) = users d"
  "wallets (transfer_effect rt u req ro n d) = map (credit_wallet (rt_now rt) (li_postings n)) (wallets d)"
  "accounts (transfer_effect rt u req ro n d) = map (credit_account (li_postings n)) (accounts d)"
  "ledgerTransactions (transfer_effect rt u req ro n d) =
     ledgerTransactions d @ [sealed_row (rt_now rt) (transferGen rt) n]"
  "postings (transfer_effect rt u req ro n d) =
     postings d @ posting_rows (transferGen rt) 1 (rt_uuid rt 2) (li_postings n)"
  "transfers (transfer_effect rt u req ro n d) = transfers d @ [newTransfer rt u req ro (rt_uuid rt 2)]"
  "reversals (transfer_effect rt u req ro n d) = reversals d"
  "beneficiaries (transfer_effect rt u req ro n d) = beneficiaries d"
  "idempotencyRecords (transfer_effect rt u req ro n d) = idempotencyRecords d"
  "auditLogs (transfer_effect rt u req ro n d) =
     auditLogs d @ [transferAudit rt u (newTransfer rt u req ro (rt_uuid rt 2))]"
  "outboxEvents (transfer_effect rt u req ro n d) =
     outboxEvents d @ [transferEvent rt u (newTransfer rt u req ro (rt_uuid rt 2))]"
  "notifications (transfer_effect rt u req ro n d) = notifications d"
  "payments (transfer_effect rt u req ro n d) = payments d"
  "providerEvents (transfer_effect rt u req ro n d) = providerEvents d"
  by (simp_all add: transfer_effect_def transfer_rows_def)

section \<open>Lookups in the result\<close>

text \<open>What the identifiers look like: 36 hexadecimal digits and hyphens in fact; only the
  characters and the length matter here.\<close>

definition uuid_source :: "runtime \<Rightarrow> bool" where
  "uuid_source rt \<longleftrightarrow> (\<forall>k. length (rt_uuid rt k) \<le> 36 \<and> list_all keyChar (rt_uuid rt k))"

lemma keyChar_not_ws: "keyChar c \<Longrightarrow> \<not> js_whitespace c"
  by (auto simp: keyChar_def isAlnum_def isDigit_def isUpper_def isLower_def js_whitespace_def)

lemma reference_trimmed:
  assumes "pre \<noteq> []" "list_all keyChar pre" "list_all keyChar s"
  shows "js_trim (pre @ s) = pre @ s"
proof (rule js_trim_fixed)
  have all: "list_all keyChar (pre @ s)" and ne: "pre @ s \<noteq> []" using assms by simp_all
  then have "keyChar (hd (pre @ s))" "keyChar (last (pre @ s))"
    by (metis hd_in_set list.pred_set, metis last_in_set list.pred_set)
  then show "pre @ s = [] \<or> \<not> js_whitespace (hd (pre @ s)) \<and> \<not> js_whitespace (last (pre @ s))"
    using keyChar_not_ws by blast
qed

lemma normalize_reference:
  "normalizeLedgerTransactionInput isUUID input = Inr n \<Longrightarrow> li_reference n = js_trim (li_reference input)"
  by (auto simp: normalizeLedgerTransactionInput_def Let_def ebind_eq_Inr split: if_splits)

lemma credit_lookup:
  "wallet_pk.lookup k (map (credit_wallet now ps) ws) = map_option (credit_wallet now ps) (wallet_pk.lookup k ws)"
  by (induction ws) (auto simp: wallet_pk.lookup_def)

lemma written_map_same:
  "list_all (\<lambda>a. existsRow (\<lambda>b. la_id b = la_id a) as \<or> P a) (map (credit_account ps) as)"
  by (auto simp: list_all_iff existsRow_iff)

lemma two_postings_pair:
  assumes "a1 \<noteq> a2" and "postingsOf e tid = posting_rows gen k tid
      [\<lparr>pi_accountId = a1, pi_amountMinor = x1\<rparr>, \<lparr>pi_accountId = a2, pi_amountMinor = x2\<rparr>]"
  shows "two_postings e tid (Some a1) x1 (Some a2) x2"
  using assms by (simp add: two_postings_def Let_def)

section \<open>The deferred checks\<close>

definition beneficiary_ids_ok :: "db \<Rightarrow> bool" where
  "beneficiary_ids_ok d \<longleftrightarrow> distinct (map b_id (beneficiaries d))"

lemma findRow_unique:
  "distinct (map key rs) \<Longrightarrow> r \<in> set rs \<Longrightarrow> findRow (\<lambda>r. key r = key r0) rs = Some r1 \<Longrightarrow> key r = key r0 \<Longrightarrow> r1 = r"
  by (auto dest!: findRow_SomeD dest: distinct_map_inj)

lemma routed_facts:
  assumes "routed d u req ro"
  shows "ro_source ro \<in> set (wallets d)" "w_userId (ro_source ro) = u" "ro_destination ro \<in> set (wallets d)"
    "w_currency (ro_source ro) = w_currency (ro_destination ro)"
    "w_id (ro_source ro) \<noteq> w_id (ro_destination ro)"
    "ro_beneficiaryId ro = Some bid \<Longrightarrow>
       \<exists>b \<in> set (beneficiaries d). b_id b = bid \<and> b_ownerUserId b = u \<and> b_walletId b = w_id (ro_destination ro)"
  using assms wallet_pk.lookup_Some [of _ "wallets d"]
  by (auto simp: routed_def dest!: findRow_SomeD split: if_splits)

lemma transfer_validates:
  assumes ok: "ledger_sound d" and ids: "beneficiary_ids_ok d" and rt: "uuid_source rt"
    and ro: "routed d u req ro" and allow: "transfer_allowed rt u req ro n d"
    and e: "wallets e = wallets (transfer_effect rt u req ro n d)"
      "postings e = postings (transfer_effect rt u req ro n d)"
      "ledgerTransactions e = ledgerTransactions (transfer_effect rt u req ro n d)"
      "beneficiaries e = beneficiaries d"
  shows "validate_transfer e (newTransfer rt u req ro (rt_uuid rt 2))"
proof -
  let ?s = "ro_source ro" and ?w = "ro_destination ro"
  note facts = routed_facts [OF ro]
  have n: "normalizeLedgerTransactionInput (rt_isUUID rt) (transferLedgerInput rt ro req) = Inr n"
    and fresh: "fresh_ledger (transferGen rt) n d" using allow by (auto simp: transfer_allowed_def)
  have ps: "li_postings n = transferPostings ro req" "li_currency n = w_currency ?s"
    using normalize_postings [OF n] by (simp_all add: transferLedgerInput_def)
  have ref: "li_reference n = transferReference rt"
  proof -
    have "js_trim (transferReference rt) = transferReference rt"
      unfolding transferReference_def using rt
      by (intro reference_trimmed) (auto simp: uuid_source_def keyChar_def isAlnum_def isDigit_def isUpper_def isLower_def)
    then show ?thesis using normalize_reference [OF n] by (simp add: transferLedgerInput_def)
  qed
  have acc: "w_ledgerAccountId ?s \<noteq> w_ledgerAccountId ?w"
    using normalize_balanced [OF n] ps(1) by (simp add: balanced_input_def transferPostings_def)
  have uniq: "wallet_pk.unique (wallets d)" using ok by (simp add: ledger_sound_def pairing_ok_def)
  have look: "wallet_pk.lookup (w_id ?s) (wallets e) = Some (credit_wallet (rt_now rt) (li_postings n) ?s)"
    "wallet_pk.lookup (w_id ?w) (wallets e) = Some (credit_wallet (rt_now rt) (li_postings n) ?w)"
    using facts(1,3) uniq e(1) by (auto simp: credit_lookup wallet_pk.lookup_unique)
  have ben: "\<exists>b. findRow (\<lambda>b. b_id b = bid) (beneficiaries e) = Some b \<and> b_ownerUserId b = u \<and>
      b_walletId b = w_id ?w" if "ro_beneficiaryId ro = Some bid" for bid
  proof -
    from facts(6) [OF that] obtain b where b: "b \<in> set (beneficiaries d)" "b_id b = bid"
      "b_ownerUserId b = u" "b_walletId b = w_id ?w" by blast
    then have "findRow (\<lambda>b. b_id b = bid) (beneficiaries d) \<noteq> None" by (auto simp: findRow_None)
    then obtain c where c: "findRow (\<lambda>b. b_id b = bid) (beneficiaries d) = Some c" by blast
    with b ids have "c = b"
      using findRow_unique [of b_id "beneficiaries d" b b c] by (simp add: beneficiary_ids_ok_def)
    with b c e(4) show ?thesis by simp
  qed
  have link: "postings_linked d" using ok by (simp add: ledger_sound_def)
  have own: "postingsOf e (rt_uuid rt 2) = posting_rows (transferGen rt) 1 (rt_uuid rt 2) (transferPostings ro req)"
    using effect_postingsOf [OF link fresh, of "rt_uuid rt 2" "rt_now rt"] e(2) ps(1) by simp
  have led: "matching_ledger e (rt_uuid rt 2) (w_currency ?s) (transferReference rt)"
    using fresh e(3) ref ps(2) lookup_opened [of "transferGen rt" "ledgerTransactions d"]
    by (simp add: matching_ledger_def fresh_ledger_def)
  have two: "two_postings e (rt_uuid rt 2) (Some (w_ledgerAccountId ?s)) (- tr_amountMinor req)
      (Some (w_ledgerAccountId ?w)) (tr_amountMinor req)"
    using two_postings_pair [OF acc own [unfolded transferPostings_def]] .
  show ?thesis
    using look ben led two facts
    by (auto simp: validate_transfer_def accountOf_def split: option.splits)
qed

lemma transfer_lookup_new:
  assumes "transfer_fresh rt d"
  shows "transfer_pk.lookup (rt_uuid rt 1) (transfers d @ [newTransfer rt u req ro l]) =
    Some (newTransfer rt u req ro l)"
  using assms transfer_pk.lookup_append_new [of "newTransfer rt u req ro l" "transfers d"]
  by (auto simp: transfer_fresh_def transfer_pk.lookup_def findRow_None notin_image)

lemma transfer_commits:
  assumes ok: "ledger_sound d" and ids: "beneficiary_ids_ok d" and rt: "uuid_source rt"
    and ro: "routed d u req ro" and allow: "transfer_allowed rt u req ro n d"
    and i: "i_scope i = TRANSFER_SCOPE" "i_userId i = u" "i_transferId i = Some (rt_uuid rt 1)"
  shows "commit_checks d ((transfer_effect rt u req ro n d)\<lparr>idempotencyRecords := idempotencyRecords d @ [i]\<rparr>)"
    (is "commit_checks d ?e")
proof -
  let ?t = "newTransfer rt u req ro (rt_uuid rt 2)"
  have n: "normalizeLedgerTransactionInput (rt_isUUID rt) (transferLedgerInput rt ro req) = Inr n"
    and pass: "postable d n" and fresh: "fresh_ledger (transferGen rt) n d" "transfer_fresh rt d"
    using allow by (auto simp: transfer_allowed_def transfer_writable_def)
  have led: "validate_ledgerTransaction ?e (sealed_row (rt_now rt) (transferGen rt) n)"
    using ok normalize_balanced [OF n] pass fresh(1)
    by (intro effect_validates [of d "rt_isUUID rt" n "transferGen rt"]) (auto simp: ledger_sound_def)
  have new: "sealed_row (rt_now rt) (transferGen rt) n \<notin> set (ledgerTransactions d)"
    using fresh(1) by (auto simp: fresh_ledger_def notin_image)
  have tr: "validate_transfer ?e ?t"
    by (rule transfer_validates [OF ok ids rt ro allow]) simp_all
  have look: "transfer_pk.lookup (rt_uuid rt 1) (transfers ?e) = Some ?t"
    using transfer_lookup_new [OF fresh(2)] by simp
  have idem: "validate_idempotency ?e i"
    using i look by (simp add: validate_idempotency_def TRANSFER_SCOPE_def)
  have audit: "validate_auditLog ?e (transferAudit rt u ?t)"
    using look by (simp add: validate_auditLog_def)
  show ?thesis
    using led new tr idem audit written_map_same
    by (simp add: commit_checks_def list_all_iff)
qed

text \<open>A refused transfer commits only its failed record.\<close>

lemma failure_commits:
  assumes "i_status i = I_FAILED"
  shows "commit_checks d (d\<lparr>idempotencyRecords := idempotencyRecords d @ [i]\<rparr>)"
  using assms by (auto simp: commit_checks_def validate_idempotency_def list_all_iff existsRow_iff)

end
