(* ===== verification/Messages.thy ===== *)
theory Messages
  imports TransferCommit
begin

text \<open>
  Every HTTP error of the services carries a message. The idempotency protocol depends on it:
  a stored failure without a message could not be replayed. With that, the transfer service
  fulfils the contract of the protocol: the interpretation is at the end.
\<close>

definition speaks :: "('s, 'a) op \<Rightarrow> bool" where
  "speaks f \<longleftrightarrow> (\<forall>d s m d'. f d = (Inl (HttpException s m), d') \<longrightarrow> m \<noteq> [])"

lemma speaksD: "speaks f \<Longrightarrow> f d = (Inl (HttpException s m), d') \<Longrightarrow> m \<noteq> []"
  by (auto simp: speaks_def)

lemma speaks_basic [simp, intro]:
  "speaks (return x)" "speaks (query q)" "speaks (modify u)" "speaks (set_config c)"
  "speaks (raise (PrismaKnownError p q'))" "speaks (raise (OtherError o'))"
  by (simp_all add: speaks_def op_simps set_config_def)

lemma speaks_raise [simp]: "speaks (raise (HttpException s m)) \<longleftrightarrow> m \<noteq> []"
  by (auto simp: speaks_def op_simps)

lemma speaks_require [simp]: "m \<noteq> [] \<Longrightarrow> speaks (require c (HttpException s m))"
  by (auto simp: speaks_def op_simps)

lemma speaks_andThen [intro]:
  "speaks f \<Longrightarrow> (\<And>x. speaks (g x)) \<Longrightarrow> speaks (andThen f g)"
  unfolding speaks_def andThen_Inl by blast

lemma speaks_cases [intro]:
  "speaks a \<Longrightarrow> (\<And>x. speaks (b x)) \<Longrightarrow> speaks (case v of None \<Rightarrow> a | Some x \<Rightarrow> b x)"
  "(\<And>x y. speaks (g x y)) \<Longrightarrow> speaks (case w of (x, y) \<Rightarrow> g x y)"
  "speaks f \<Longrightarrow> speaks h \<Longrightarrow> speaks (if c then f else h)"
  by (auto split: option.split prod.split)

lemma speaks_forEach: "(\<And>x. speaks (f x)) \<Longrightarrow> speaks (forEach f xs)"
  by (induction xs) auto

text \<open>The database's writes never raise an HTTP error.\<close>

definition silent :: "('s, 'a) op \<Rightarrow> bool" where
  "silent f \<longleftrightarrow> (\<forall>d s m d'. f d \<noteq> (Inl (HttpException s m), d'))"

lemma silent_speaks: "silent f \<Longrightarrow> speaks f"
  by (auto simp: silent_def speaks_def)

lemma silent_writes [simp]:
  "silent (create_ledgerTransaction t)" "silent (create_ledgerPosting p)"
  "silent (seal_ledgerTransaction i now)" "silent (update_ledgerAccount_balance now i b)"
  "silent (create_transfer tr)" "silent (create_auditLog a)" "silent (create_outboxEvent gen now e)"
  "silent (create_transferReversal rv)"
  by (simp_all add: silent_def create_ledgerTransaction_def create_ledgerPosting_def
      seal_ledgerTransaction_def update_ledgerAccount_balance_def sync_wallet_balance_def
      create_transferReversal_def op_simps split: option.splits)

lemmas silent_speak [simp] = silent_writes [THEN silent_speaks]

section \<open>The ledger\<close>

definition spoken :: "exn + 'a \<Rightarrow> bool" where
  "spoken r \<longleftrightarrow> (\<forall>s m. r = Inl (HttpException s m) \<longrightarrow> m \<noteq> [])"

lemma speaks_lift [simp]: "speaks (lift r) = spoken r"
  by (auto simp: speaks_def spoken_def op_simps)

lemma spoken_normalizePostings: "spoken (normalizePostings isUUID ids tot ps)"
  unfolding spoken_def
  by (induction ps arbitrary: ids tot) (auto simp: ebind_eq_Inl split: if_splits)

lemma spoken_normalize: "spoken (normalizeLedgerTransactionInput isUUID input)"
  using spoken_normalizePostings
  by (auto simp: spoken_def normalizeLedgerTransactionInput_def Let_def ebind_eq_Inl split: if_splits)

lemma spoken_check: "spoken (checkAccount cur row)"
  by (auto simp: spoken_def checkAccount_def split: prod.splits option.splits)

lemma spoken_compute: "spoken (computeNextBalances cur accs ps next)"
  using spoken_check unfolding spoken_def
  by (induction ps arbitrary: "next")
    (auto simp: ebind_eq_Inl Let_def split: option.splits if_splits)

lemma speaks_writeBalance: "speaks (writeBalance now next row)"
  by (simp add: writeBalance_def split: option.split)

lemma speaks_post: "speaks (postWithinTransaction rt gen input)"
  unfolding postWithinTransaction_def Let_def
  by (intro speaks_andThen)
    (auto simp: spoken_normalize spoken_compute intro!: speaks_forEach speaks_writeBalance
      split: prod.split option.split)

section \<open>Transfers\<close>

lemma speaks_resolveDestination [intro]: "speaks (resolveDestination u req)"
  unfolding resolveDestination_def by (auto intro!: speaks_cases speaks_andThen)

lemma speaks_resolveRoute [intro]: "speaks (resolveRoute u req)"
  unfolding resolveRoute_def by (auto intro!: speaks_cases speaks_andThen)

lemma speaks_transferWork: "speaks (transferWork rt u req)"
  unfolding transferWork_def executeTransfer_def
  by (intro speaks_andThen speaks_resolveRoute speaks_cases speaks_post) simp_all

section \<open>The contract\<close>

interpretation transfer_work: idempotent_work "''transfer''" TRANSFER_SCOPE includedTransfer linkTransfer
  "transferWork rt u req" ledger_sound
  for rt u req
proof
  show "ledger_sound (d\<lparr>idempotencyRecords := ids\<rparr>) = ledger_sound d" for d ids by simp
  show "ledger_sound d \<Longrightarrow> transferWork rt u req d = (Inl (HttpException s m), d') \<Longrightarrow> d' = d" for d s m d'
    by (rule transferWork_Inl)
  show "transferWork rt u req d = (Inl (HttpException s m), d') \<Longrightarrow> m \<noteq> []" for d s m d'
    by (rule speaksD [OF speaks_transferWork])
  show "idempotencyRecords d' = idempotencyRecords d"
    if "ledger_sound d" "transferWork rt u req d = (Inr r, d')" for d r d'
    using that by (auto simp: transferWork_Inr)
  show "includedTransfer d' (linkTransfer r i) = Some r"
    if "ledger_sound d" "transferWork rt u req d = (Inr r, d')" for d r d' i
    using that transfer_lookup_new
    by (auto simp: transferWork_Inr includedTransfer_def linkTransfer_def transfer_allowed_def transfer_writable_def)
  show "includedTransfer (d\<lparr>idempotencyRecords := ids, settings := cs\<rparr>) i = includedTransfer d i" for d ids cs i
    by (simp add: includedTransfer_def split: option.split)
qed (simp_all add: linkTransfer_def)

end
