(* ===== verification/TransferClaims.thy ===== *)
theory TransferClaims
  imports Messages
begin

text \<open>
  The properties of \<open>TransfersService.create\<close>: what a successful transfer does, everything
  that any call can do, replay, key conflicts, the invariants, and the request digest.
\<close>

section \<open>Outcomes\<close>

definition transfer_claim :: "runtime \<Rightarrow> uuid \<Rightarrow> string \<Rightarrow> transfer_request \<Rightarrow> idempotency_record" where
  "transfer_claim rt u key req = newClaim (rt_uuid rt 0) TRANSFER_SCOPE u key (hashTransferRequest rt req)"

text \<open>The database after a transfer that was made, and after one that was refused.\<close>

definition after_transfer ::
  "runtime \<Rightarrow> uuid \<Rightarrow> string \<Rightarrow> transfer_request \<Rightarrow> route \<Rightarrow> ledger_input \<Rightarrow> db \<Rightarrow> db" where
  "after_transfer rt u key req ro n d =
     (transfer_effect rt u req ro n d)
       \<lparr>idempotencyRecords := idempotencyRecords d @
          [completed linkTransfer (newTransfer rt u req ro (rt_uuid rt 2)) (transfer_claim rt u key req)],
        settings := []\<rparr>"

lemma completed_simps [simp]:
  "i_scope (completed linkTransfer t i) = i_scope i" "i_userId (completed linkTransfer t i) = i_userId i"
  "i_key (completed linkTransfer t i) = i_key i" "i_id (completed linkTransfer t i) = i_id i"
  "i_requestHash (completed linkTransfer t i) = i_requestHash i"
  "i_transferId (completed linkTransfer t i) = Some (t_id t)"
  "i_status (completed linkTransfer t i) = I_COMPLETED"
  by (simp_all add: completed_def linkTransfer_def)

text \<open>Every way a call can end, for a key that is not in use and for one that is.\<close>

lemma transfersCreate_serve:
  "transfersCreate rt abort observed u hdr input d =
    (case normalizeIdempotencyKey hdr of Inl e \<Rightarrow> (Inl e, d)
     | Inr key \<Rightarrow> (case normalizeTransferRequest input of Inl e \<Rightarrow> (Inl e, d)
       | Inr req \<Rightarrow> transfer_work.serve rt u req toTransferResponse abort observed u key
           (hashTransferRequest rt req) (rt_uuid rt 0) d))"
  by (simp add: transfersCreate_def op_simps split: sum.split)

lemma transfersCreate_outcomes:
  assumes ok: "ledger_sound d" and run: "transfersCreate rt abort observed u hdr input d = (r, d')"
  shows "d' = d \<or> d' = d\<lparr>settings := []\<rparr> \<or>
    (\<exists>key req ro n. normalizeIdempotencyKey hdr = Inr key \<and> normalizeTransferRequest input = Inr req \<and>
       findClaim TRANSFER_SCOPE u key d = None \<and>
       routed d u req ro \<and> transfer_allowed rt u req ro n d \<and>
       r = Inr (toTransferResponse (newTransfer rt u req ro (rt_uuid rt 2))) \<and>
       d' = after_transfer rt u key req ro n d) \<or>
    (\<exists>key req s msg. normalizeIdempotencyKey hdr = Inr key \<and> normalizeTransferRequest input = Inr req \<and>
       findClaim TRANSFER_SCOPE u key d = None \<and>
       r = Inl (HttpException s msg) \<and> 400 \<le> s \<and> s < 500 \<and> msg \<noteq> [] \<and>
       d' = after_refusal (transfer_claim rt u key req) s msg d)"
proof (cases "\<exists>key req. normalizeIdempotencyKey hdr = Inr key \<and> normalizeTransferRequest input = Inr req")
  case False
  then have "d' = d"
    using run by (cases "normalizeIdempotencyKey hdr"; cases "normalizeTransferRequest input")
      (simp_all add: transfersCreate_serve)
  then show ?thesis by simp
next
  case True
  then obtain key req where k: "normalizeIdempotencyKey hdr = Inr key" "normalizeTransferRequest input = Inr req"
    by blast
  let ?h = "hashTransferRequest rt req"
  from run k have "transfer_work.serve rt u req toTransferResponse abort observed u key ?h (rt_uuid rt 0) d = (r, d')"
    by (simp add: transfersCreate_serve)
  from transfer_work.serve_outcomes [OF ok this] show ?thesis
  proof (elim disjE exE conjE)
    fix t m
    assume none: "findClaim TRANSFER_SCOPE u key d = None"
      and work: "transferWork rt u req (claimed d TRANSFER_SCOPE u key ?h (rt_uuid rt 0)) = (Inr t, m)"
      and r: "r = Inr (toTransferResponse t)"
      and d': "d' = m\<lparr>idempotencyRecords := idempotencyRecords d @ [completed linkTransfer t
        (newClaim (rt_uuid rt 0) TRANSFER_SCOPE u key ?h)], settings := []\<rparr>"
    from work ok obtain ro n ids where "routed d u req ro" "transfer_allowed rt u req ro n d"
      and t: "t = newTransfer rt u req ro (rt_uuid rt 2)"
      "m = (transfer_effect rt u req ro n d)\<lparr>idempotencyRecords := ids\<rparr>"
      by (auto simp: claimed_def transferWork_Inr)
    moreover have "d' = after_transfer rt u key req ro n d"
      by (simp add: d' t after_transfer_def transfer_claim_def)
    ultimately show ?thesis using none r k by blast
  qed (use k in \<open>auto simp: transfer_claim_def\<close>)
qed

section \<open>Invariants\<close>

lemma after_transfer_ok:
  assumes "ledger_ok d" "transfer_allowed rt u req ro n d"
  shows "ledger_ok (after_transfer rt u key req ro n d)"
proof -
  have "ledger_ok (ledger_effect (rt_now rt) (transferGen rt) n d)"
    using assms normalize_balanced by (intro effect_ledger_ok) (auto simp: transfer_allowed_def)
  then show ?thesis
    by (simp add: ledger_ok_def pairing_ok_def double_entry_def after_transfer_def)
qed

lemma after_transfer_identity:
  "identity_ok (after_transfer rt u key req ro n d) = identity_ok d"
  using identity_map [of "credit_wallet (rt_now rt) (li_postings n)" d]
  by (simp add: identity_ok_def after_transfer_def)

lemma ledger_ok_sound: "ledger_ok d \<Longrightarrow> ledger_sound d"
  by (simp add: ledger_ok_def ledger_sound_def double_entry_linked)

lemma after_refusal_ok [simp]:
  "ledger_ok (after_refusal i s m d) = ledger_ok d" "identity_ok (after_refusal i s m d) = identity_ok d"
  by (simp_all add: after_refusal_def ledger_ok_def)

lemma transfersCreate_invariant:
  assumes ok: "ledger_ok d" "identity_ok d" and run: "transfersCreate rt abort observed u hdr input d = (r, d')"
  shows "ledger_ok d' \<and> identity_ok d'"
  using transfersCreate_outcomes [OF ledger_ok_sound [OF ok(1)] run]
proof (elim disjE exE conjE)
  fix key req ro n
  assume "transfer_allowed rt u req ro n d" "d' = after_transfer rt u key req ro n d"
  then show ?thesis using ok by (simp add: after_transfer_ok after_transfer_identity)
qed (use ok in simp_all)

section \<open>A first request that can be served\<close>

definition servable ::
  "runtime \<Rightarrow> uuid \<Rightarrow> string \<Rightarrow> transfer_request \<Rightarrow> route \<Rightarrow> ledger_input \<Rightarrow> db \<Rightarrow> bool" where
  "servable rt u key req ro n d \<longleftrightarrow>
     findClaim TRANSFER_SCOPE u key d = None \<and>
     claimable d TRANSFER_SCOPE u key (hashTransferRequest rt req) (rt_uuid rt 0) \<and>
     Some (rt_uuid rt 1) \<notin> i_transferId ` set (idempotencyRecords d) \<and>
     routed d u req ro \<and> transfer_allowed rt u req ro n d"

lemma transfersCreate_serves:
  assumes "ledger_sound d" "beneficiary_ids_ok d" "uuid_source rt"
    and "normalizeIdempotencyKey hdr = Inr key" "normalizeTransferRequest input = Inr req"
    and s: "servable rt u key req ro n d"
  shows "transfersCreate rt None observed u hdr input d =
    (Inr (toTransferResponse (newTransfer rt u req ro (rt_uuid rt 2))), after_transfer rt u key req ro n d)"
proof -
  let ?t = "newTransfer rt u req ro (rt_uuid rt 2)" and ?h = "hashTransferRequest rt req"
  have none: "findClaim TRANSFER_SCOPE u key d = None"
    and can: "claimable d TRANSFER_SCOPE u key ?h (rt_uuid rt 0)" using s by (auto simp: servable_def)
  have work: "transferWork rt u req (claimed d TRANSFER_SCOPE u key ?h (rt_uuid rt 0)) =
      (Inr ?t, transfer_effect rt u req ro n (claimed d TRANSFER_SCOPE u key ?h (rt_uuid rt 0)))"
    using assms(1) s by (subst transferWork_Inr) (auto simp: claimed_def servable_def)
  have commit: "commit_checks d ((transfer_effect rt u req ro n (claimed d TRANSFER_SCOPE u key ?h (rt_uuid rt 0)))
     \<lparr>idempotencyRecords := idempotencyRecords d @
        [completed linkTransfer ?t (newClaim (rt_uuid rt 0) TRANSFER_SCOPE u key ?h)]\<rparr>)"
    using transfer_commits [OF assms(1-3)] s by (simp add: claimed_def servable_def)
  have "transfer_work.serve rt u req toTransferResponse None observed u key ?h (rt_uuid rt 0) d =
      (Inr (toTransferResponse ?t), after_transfer rt u key req ro n d)"
    using transfer_work.serve_success [OF assms(1) none can work _ _ _ commit, where toResponse = toTransferResponse and observed = observed] s
    by (auto simp: idem_shape_def completed_def linkTransfer_def servable_def notin_image
        after_transfer_def transfer_claim_def claimed_def)
  then show ?thesis by (simp add: transfersCreate_serve assms(4,5))
qed

section \<open>Replay\<close>

text \<open>What a later database keeps of an earlier one: the claim, and the rows of the
  transfers table that were there.\<close>

definition remembers :: "string \<Rightarrow> uuid \<Rightarrow> string \<Rightarrow> db \<Rightarrow> db \<Rightarrow> bool" where
  "remembers scope u key d e \<longleftrightarrow> findClaim scope u key e = findClaim scope u key d \<and>
     (\<forall>t \<in> set (transfers d). transfer_pk.lookup (t_id t) (transfers e) = transfer_pk.lookup (t_id t) (transfers d))"

lemma transfersCreate_replay:
  assumes ok: "ledger_sound d" and none: "findClaim TRANSFER_SCOPE u key d = None"
    and key: "normalizeIdempotencyKey hdr = Inr key" and req: "normalizeTransferRequest input = Inr req"
    and run: "transfersCreate rt abort observed u hdr input d = (r, d')"
    and stored: "findClaim TRANSFER_SCOPE u key d' \<noteq> None"
    and later: "remembers TRANSFER_SCOPE u key d' e" and sha: "rt_sha256 rt' = rt_sha256 rt"
  shows "transfersCreate rt' None observed' u hdr input e = (r, e\<lparr>settings := []\<rparr>)"
proof -
  have hash: "hashTransferRequest rt' req = hashTransferRequest rt req"
    by (simp add: hashTransferRequest_def sha)
  have keep: "\<forall>i t. includedTransfer d' i = Some t \<longrightarrow> includedTransfer e i = Some t"
    using later transfer_pk.lookup_Some [of _ "transfers d'"]
    by (fastforce simp: remembers_def includedTransfer_def split: option.splits)
  have "transfer_work.serve rt u req toTransferResponse abort observed u key
      (hashTransferRequest rt req) (rt_uuid rt 0) d = (r, d')"
    using run by (simp add: transfersCreate_serve key req)
  note replay = transfer_work.serve_replay [OF ok none this stored _ keep]
  have same: "attempt ''transfer'' includedTransfer linkTransfer TRANSFER_SCOPE u key h c (transferWork rt' u req) e =
      attempt ''transfer'' includedTransfer linkTransfer TRANSFER_SCOPE u key h c (transferWork rt u req) e" for h c
    using later stored by (cases "findClaim TRANSFER_SCOPE u key e") (auto simp: remembers_def attempt_def op_simps)
  then have "transfer_work.serve rt' u req toTransferResponse None observed' u key h c e =
      transfer_work.serve rt u req toTransferResponse None observed' u key h c e" for h c
    by (simp add: andThen_def attemptOrReplay_def replayOrRethrow_def tryCatch_def prisma_transaction_def)
  with replay [of observed' "rt_uuid rt' 0"] later show ?thesis
    by (simp add: transfersCreate_serve key req hash remembers_def)
qed

section \<open>The request digest\<close>

lemma stringify_field:
  "js_quote k @ '':'' @ js_stringify (JStr a) @ r = js_quote k @ '':'' @ js_stringify (JStr b) @ r' \<Longrightarrow>
   a = b \<and> r = r'"
  "js_quote k @ '':'' @ js_stringify (orNull v) @ r = js_quote k @ '':'' @ js_stringify (orNull w) @ r' \<Longrightarrow>
   v = w \<and> r = r'"
  by (simp_all add: js_quote_inject orNull_inject)

lemma digest_fields:
  assumes "transferDigestInput a = transferDigestInput b"
  shows "tr_sourceWalletId a = tr_sourceWalletId b \<and> tr_destinationWalletId a = tr_destinationWalletId b \<and>
    tr_beneficiaryId a = tr_beneficiaryId b \<and> tr_amountMinorText a = tr_amountMinorText b"
proof -
  let ?f = "\<lambda>k v r. js_quote k @ '':'' @ js_stringify v @ r"
  have eq: "transferDigestInput c =
     ''{'' @ ?f ''sourceWalletId'' (JStr (tr_sourceWalletId c)) ('','' @
       ?f ''destinationWalletId'' (orNull (tr_destinationWalletId c)) ('','' @
       ?f ''beneficiaryId'' (orNull (tr_beneficiaryId c)) ('','' @
       ?f ''amountMinor'' (JStr (tr_amountMinorText c)) ''}'')))" for c
    unfolding transferDigestInput_def js_stringify.simps(7) by (simp del: js_stringify.simps)
  have drop: "x @ y = x @ z \<Longrightarrow> y = z" for x y z :: string by simp
  note e = assms [unfolded eq, THEN drop]
  note e1 = stringify_field(1) [OF e]
  note e2 = stringify_field(2) [OF e1 [THEN conjunct2, THEN drop]]
  note e3 = stringify_field(2) [OF e2 [THEN conjunct2, THEN drop]]
  note e4 = stringify_field(1) [OF e3 [THEN conjunct2, THEN drop]]
  show ?thesis using e1 e2 e3 e4 by blast
qed

lemma normalized_text: "normalizeTransferRequest input = Inr req \<Longrightarrow> tr_amountMinorText req = js_showInt (tr_amountMinor req)"
  by (auto simp: normalizeTransferRequest_def Let_def split: if_splits option.splits)

section \<open>Balances\<close>

definition balanceAt :: "uuid \<Rightarrow> db \<Rightarrow> int option" where
  "balanceAt wid d = map_option w_currentBalanceMinor (wallet_pk.lookup wid (wallets d))"

lemma credited_balance:
  assumes ok: "pairing_ok d" and w: "a \<in> set (wallets d)" "b \<in> set (wallets d)" "w_id a \<noteq> w_id b"
    and ps: "ps = [\<lparr>pi_accountId = w_ledgerAccountId a, pi_amountMinor = - x\<rparr>,
      \<lparr>pi_accountId = w_ledgerAccountId b, pi_amountMinor = x\<rparr>]"
    and d': "wallets d' = map (credit_wallet now ps) (wallets d)"
  shows "balanceAt wid d' =
    map_option (\<lambda>y. y + (if wid = w_id a then - x else if wid = w_id b then x else 0)) (balanceAt wid d)"
proof -
  have same: "v = w" if "v \<in> set (wallets d)" "w \<in> set (wallets d)" "w_ledgerAccountId v = w_ledgerAccountId w" for v w
    using ok that by (auto simp: pairing_ok_def wallet_account.unique_def dest: distinct_map_inj)
  have id: "v = w" if "v \<in> set (wallets d)" "w \<in> set (wallets d)" "w_id v = w_id w" for v w
    using ok that by (auto simp: pairing_ok_def wallet_pk.unique_def dest: distinct_map_inj)
  show ?thesis
  proof (cases "wallet_pk.lookup wid (wallets d)")
    case None
    then show ?thesis by (simp add: balanceAt_def d' credit_lookup)
  next
    case (Some v)
    then have v: "v \<in> set (wallets d)" "w_id v = wid" using wallet_pk.lookup_Some by blast+
    have "w_ledgerAccountId a = w_ledgerAccountId v \<longleftrightarrow> wid = w_id a"
      "w_ledgerAccountId b = w_ledgerAccountId v \<longleftrightarrow> wid = w_id b"
      using same [OF w(1) v(1)] id [OF v(1) w(1)] same [OF w(2) v(1)] id [OF v(1) w(2)] v(2) by metis+
    then have "amountFor ps (w_ledgerAccountId v) = (if wid = w_id a then - x else if wid = w_id b then x else 0)"
      using w(3) by (simp add: ps amountFor_def)
    then show ?thesis using Some by (simp add: balanceAt_def d' credit_lookup)
  qed
qed

lemma transfer_postings:
  "transfer_allowed rt u req ro n d \<Longrightarrow> li_postings n = transferPostings ro req"
  unfolding transfer_allowed_def using normalize_postings by (fastforce simp: transferLedgerInput_def)

section \<open>A concrete transfer\<close>

lemma uuid_source_rt0: "uuid_source rt0"
proof -
  have "keyChar (char_of (97 + k mod 26 :: nat))" for k
  proof -
    have k: "k mod 26 \<le> (25::nat)" using mod_less_divisor [of 26 k] by linarith
    then have "(97 + k mod 26) mod 256 = 97 + k mod 26" by (intro mod_less) linarith
    with k show ?thesis by (simp add: keyChar_def isAlnum_def isLower_def)
  qed
  moreover have "keyChar CHR ''g''" by code_simp
  ultimately show ?thesis by (simp add: uuid_source_def rt0_def)
qed

definition transfer0 :: create_transfer_input where
  "transfer0 = \<lparr>ct_sourceWalletId = ''W1'', ct_destinationWalletId = Some ''w2'',
     ct_beneficiaryId = None, ct_amountMinor = ''250''\<rparr>"

definition request0 :: transfer_request where
  "request0 = \<lparr>tr_sourceWalletId = ''w1'', tr_destinationWalletId = Some ''w2'',
     tr_beneficiaryId = None, tr_amountMinor = 250, tr_amountMinorText = ''250''\<rparr>"

definition route0 :: route where
  "route0 = \<lparr>ro_source = wallet1, ro_destination = wallet2, ro_beneficiaryId = None\<rparr>"

definition ledger0 :: ledger_input where
  "ledger0 = transferLedgerInput rt0 route0 request0"

lemma postable_code [code]:
  "postable d n = list_all (\<lambda>p. case account_pk.lookup (pi_accountId p) (accounts d) of
     None \<Rightarrow> False | Some a \<Rightarrow> posting_passes d (li_currency n) p a) (li_postings n)"
  by (auto simp: postable_def list_all_iff split: option.splits)

lemma request0_simps: "normalizeIdempotencyKey (Some ''k-1'') = Inr ''k-1''" "normalizeTransferRequest transfer0 = Inr request0"
  by code_simp+

lemma servable0: "servable rt0 ''u1'' ''k-1'' request0 route0 ledger0 db0"
proof -
  have "routed db0 ''u1'' request0 route0"
    by (simp add: routed_def sample_defs request0_def route0_def truthy_def wallet_pk.lookup_def)
  moreover have "transfer_allowed rt0 ''u1'' request0 route0 ledger0 db0" by code_simp
  moreover have "findClaim TRANSFER_SCOPE ''u1'' ''k-1'' db0 = None"
    "claimable db0 TRANSFER_SCOPE ''u1'' ''k-1'' (hashTransferRequest rt0 request0) (rt_uuid rt0 0)"
    "Some (rt_uuid rt0 1) \<notin> i_transferId ` set (idempotencyRecords db0)"
    by code_simp+
  ultimately show ?thesis unfolding servable_def by blast
qed

lemma beneficiaries0: "beneficiary_ids_ok db0"
  by code_simp

lemma transfer0_runs:
  "transfersCreate rt0 None observed ''u1'' (Some ''k-1'') transfer0 db0 =
    (Inr (toTransferResponse (newTransfer rt0 ''u1'' request0 route0 (rt_uuid rt0 2))),
     after_transfer rt0 ''u1'' ''k-1'' request0 route0 ledger0 db0)"
  by (rule transfersCreate_serves [OF ledger_ok_sound [OF db0_ok] beneficiaries0 uuid_source_rt0
      request0_simps servable0])

lemma sound0: "ledger_sound db0"
  by (rule ledger_ok_sound [OF db0_ok])

lemma fresh_key0: "findClaim TRANSFER_SCOPE ''u1'' ''k-1'' db0 = None"
  using servable0 by (simp add: servable_def)

section \<open>Properties\<close>

text \<open>
  C9. A first request that can be served succeeds, with the whole effect in one commit:
  the sealed ledger transaction and its two postings, both balances and both wallet
  snapshots, the completed transfer, its audit entry, its outbox event with the webhook
  deliveries, and the completed idempotency record. No deferred trigger can refuse it.
\<close>

theorem transfer_succeeds:
  assumes "ledger_ok d" "beneficiary_ids_ok d" "uuid_source rt"
    and "normalizeIdempotencyKey hdr = Inr key" "normalizeTransferRequest input = Inr req"
    and "servable rt u key req ro n d"
  shows "transfersCreate rt None observed u hdr input d =
    (Inr (toTransferResponse (newTransfer rt u req ro (rt_uuid rt 2))), after_transfer rt u key req ro n d)"
  using assms by (intro transfersCreate_serves ledger_ok_sound)

theorem transfer_succeeds_witness:
  "transfersCreate rt0 None (\<lambda>_. db0) ''u1'' (Some ''k-1'') transfer0 db0 =
    (Inr (toTransferResponse (newTransfer rt0 ''u1'' request0 route0 (rt_uuid rt0 2))),
     after_transfer rt0 ''u1'' ''k-1'' request0 route0 ledger0 db0)"
  by (rule transfer_succeeds [OF db0_ok beneficiaries0 uuid_source_rt0 request0_simps servable0])

lemma transfersCreate_moves:
  assumes ok: "ledger_ok d" and run: "transfersCreate rt abort observed u hdr input d = (r, d')"
  shows "(\<forall>wid. balanceAt wid d' = balanceAt wid d) \<or>
    (\<exists>req src dst. normalizeTransferRequest input = Inr req \<and> 0 < tr_amountMinor req \<and>
       src \<in> set (wallets d) \<and> dst \<in> set (wallets d) \<and> w_id src \<noteq> w_id dst \<and> w_userId src = u \<and>
       w_id src = tr_sourceWalletId req \<and> w_currency src = w_currency dst \<and>
       w_status src = ACTIVE \<and> w_status dst = ACTIVE \<and>
       tr_amountMinor req \<le> w_currentBalanceMinor src \<and>
       (\<forall>wid. balanceAt wid d' = map_option (\<lambda>y. y + (if wid = w_id src then - tr_amountMinor req
          else if wid = w_id dst then tr_amountMinor req else 0)) (balanceAt wid d)))"
  using transfersCreate_outcomes [OF ledger_ok_sound [OF ok] run]
proof (elim disjE exE conjE)
  fix key req ro n
  assume req: "normalizeTransferRequest input = Inr req" and ro: "routed d u req ro"
    and allow: "transfer_allowed rt u req ro n d" and d': "d' = after_transfer rt u key req ro n d"
  note facts = routed_facts [OF ro]
  have pair: "pairing_ok d" using ok by (simp add: ledger_ok_def)
  have "wallets d' = map (credit_wallet (rt_now rt) (transferPostings ro req)) (wallets d)"
    using d' transfer_postings [OF allow] by (simp add: after_transfer_def)
  note bal = credited_balance [OF pair facts(1,3,5) transferPostings_def this]
  moreover have "w_id (ro_source ro) = tr_sourceWalletId req" "w_status (ro_source ro) = ACTIVE"
    "w_status (ro_destination ro) = ACTIVE"
    using ro by (auto simp: routed_def dest: findRow_SomeD)
  moreover have "tr_amountMinor req \<le> w_currentBalanceMinor (ro_source ro)"
  proof -
    have ok': "pairing_ok d'"
      using d' after_transfer_ok [OF ok allow] by (simp add: ledger_ok_def)
    have uniq: "wallet_pk.unique (wallets d)" "wallet_pk.unique (wallets d')"
      using pair ok' by (simp_all add: pairing_ok_def)
    have "balanceAt (w_id (ro_source ro)) d = Some (w_currentBalanceMinor (ro_source ro))"
      using uniq(1) facts(1) by (auto simp: balanceAt_def wallet_pk.lookup_unique)
    with bal [of "w_id (ro_source ro)"] obtain w where
      "wallet_pk.lookup (w_id (ro_source ro)) (wallets d') = Some w"
      "w_currentBalanceMinor w = w_currentBalanceMinor (ro_source ro) - tr_amountMinor req"
      by (auto simp: balanceAt_def)
    moreover from this obtain a where "a \<in> set (accounts d')" "wallet_matches w a" "account_ok a"
      using ok' wallet_pk.lookup_Some unfolding pairing_ok_def by metis
    ultimately show ?thesis
      by (auto simp: wallet_matches_def account_ok_def kind_policy_def balance_policy_def)
  qed
  moreover have "0 < tr_amountMinor req"
    using allow by (simp add: transfer_allowed_def transfer_writable_def)
  ultimately show ?thesis using req facts by blast
qed (auto simp: after_refusal_def balanceAt_def)

text \<open>
  C10. Whatever a call does, either no wallet balance changes, or the requested amount, which
  is positive, leaves one active wallet of the caller and reaches one other active wallet of
  the same currency, and no other balance changes.
\<close>

theorem transfer_moves_money:
  assumes ok: "ledger_ok d" and run: "transfersCreate rt abort observed u hdr input d = (r, d')"
  shows "(\<forall>wid. balanceAt wid d' = balanceAt wid d) \<or>
    (\<exists>req src dst. normalizeTransferRequest input = Inr req \<and> 0 < tr_amountMinor req \<and>
       src \<in> set (wallets d) \<and> dst \<in> set (wallets d) \<and> w_id src \<noteq> w_id dst \<and> w_userId src = u \<and>
       w_id src = tr_sourceWalletId req \<and> w_currency src = w_currency dst \<and>
       w_status src = ACTIVE \<and> w_status dst = ACTIVE \<and>
       tr_amountMinor req \<le> w_currentBalanceMinor src \<and>
       (\<forall>wid. balanceAt wid d' = map_option (\<lambda>y. y + (if wid = w_id src then - tr_amountMinor req
          else if wid = w_id dst then tr_amountMinor req else 0)) (balanceAt wid d)))"
  using assms by (rule transfersCreate_moves)

theorem transfer_moves_money_witness:
  "balanceAt ''w1'' (after_transfer rt0 ''u1'' ''k-1'' request0 route0 ledger0 db0) = Some 750 \<and>
   balanceAt ''w2'' (after_transfer rt0 ''u1'' ''k-1'' request0 route0 ledger0 db0) = Some 250"
proof -
  let ?e = "after_transfer rt0 ''u1'' ''k-1'' request0 route0 ledger0 db0"
  have b: "balanceAt ''w1'' db0 = Some 1000" "balanceAt ''w2'' db0 = Some 0" by code_simp+
  have changed: "balanceAt ''w1'' ?e \<noteq> balanceAt ''w1'' db0" by code_simp
  from transfer_moves_money [OF db0_ok transfer0_runs] show ?thesis
  proof (elim disjE exE conjE)
    fix req src dst
    assume "normalizeTransferRequest transfer0 = Inr req" "w_id src = tr_sourceWalletId req"
      and dst: "dst \<in> set (wallets db0)" "w_id src \<noteq> w_id dst"
      and bal: "\<forall>wid. balanceAt wid ?e = map_option (\<lambda>y. y + (if wid = w_id src then - tr_amountMinor req
          else if wid = w_id dst then tr_amountMinor req else 0)) (balanceAt wid db0)"
    then have "tr_amountMinor req = 250" "w_id src = ''w1''"
      using request0_simps(2) by (auto simp: request0_def)
    moreover from this dst have "w_id dst = ''w2''" by (auto simp: sample_defs)
    ultimately show ?thesis using bal b by simp
  qed (use changed in blast)
qed

text \<open>
  C11. A call changes the database in one of two ways only: it makes the transfer, or it
  records a client error that it also returns (a failed record, nothing else). Any other
  result, an unusable key or body, a replay, a conflict, a server or database error, changes
  nothing. In particular a refused or failed transfer never moves money.
\<close>

theorem transfer_all_or_nothing:
  assumes "ledger_ok d" and "transfersCreate rt abort observed u hdr input d = (r, d')"
  shows "d' = d \<or> d' = d\<lparr>settings := []\<rparr> \<or>
    (\<exists>key req ro n. normalizeIdempotencyKey hdr = Inr key \<and> normalizeTransferRequest input = Inr req \<and>
       findClaim TRANSFER_SCOPE u key d = None \<and>
       routed d u req ro \<and> transfer_allowed rt u req ro n d \<and>
       r = Inr (toTransferResponse (newTransfer rt u req ro (rt_uuid rt 2))) \<and>
       d' = after_transfer rt u key req ro n d) \<or>
    (\<exists>key req s msg. normalizeIdempotencyKey hdr = Inr key \<and> normalizeTransferRequest input = Inr req \<and>
       findClaim TRANSFER_SCOPE u key d = None \<and>
       r = Inl (HttpException s msg) \<and> 400 \<le> s \<and> s < 500 \<and> msg \<noteq> [] \<and>
       d' = after_refusal (transfer_claim rt u key req) s msg d)"
  using assms by (intro transfersCreate_outcomes ledger_ok_sound)

definition overdraft0 :: create_transfer_input where
  "overdraft0 = transfer0\<lparr>ct_amountMinor := ''1001''\<rparr>"

definition refused0 :: db where
  "refused0 = snd (transfersCreate rt0 None (\<lambda>_. db0) ''u1'' (Some ''k-1'') overdraft0 db0)"

lemma refused0_runs:
  "transfersCreate rt0 None (\<lambda>_. db0) ''u1'' (Some ''k-1'') overdraft0 db0 =
     (Inl (Conflict ''Insufficient funds for ledger posting''), refused0)"
  unfolding refused0_def by code_simp

theorem transfer_all_or_nothing_witness:
  "wallets refused0 = wallets db0 \<and> length (idempotencyRecords refused0) = 1"
proof -
  have "idempotencyRecords refused0 \<noteq> idempotencyRecords db0" by code_simp
  moreover have "idempotencyRecords (db0\<lparr>settings := []\<rparr>) = idempotencyRecords db0" by simp
  ultimately have "refused0 \<noteq> db0" "refused0 \<noteq> db0\<lparr>settings := []\<rparr>" by metis+
  with transfer_all_or_nothing [OF db0_ok refused0_runs] obtain claim s msg
    where "refused0 = after_refusal claim s msg db0" by auto
  then have "wallets refused0 = wallets (after_refusal claim s msg db0)"
    "idempotencyRecords refused0 = idempotencyRecords (after_refusal claim s msg db0)" by (rule arg_cong)+
  moreover have "idempotencyRecords db0 = []" by (simp add: db0_def)
  ultimately show ?thesis by (simp add: after_refusal_def)
qed

text \<open>
  C12. Exactly once: a request that was answered and recorded, whether the transfer was made
  or refused, is answered the same way whenever it is repeated with the same key, and the
  repetition changes nothing, on any later database that keeps the claim and the transfers.
\<close>

theorem transfer_replay:
  assumes "ledger_ok d" "findClaim TRANSFER_SCOPE u key d = None"
    and "normalizeIdempotencyKey hdr = Inr key" "normalizeTransferRequest input = Inr req"
    and "transfersCreate rt abort observed u hdr input d = (r, d')"
    and "findClaim TRANSFER_SCOPE u key d' \<noteq> None"
    and "remembers TRANSFER_SCOPE u key d' e" "rt_sha256 rt' = rt_sha256 rt"
  shows "transfersCreate rt' None observed' u hdr input e = (r, e\<lparr>settings := []\<rparr>)"
  using transfersCreate_replay [OF ledger_ok_sound [OF assms(1)] assms(2-8)] .

theorem transfer_replay_witness:
  "transfersCreate rt0 None (\<lambda>_. db0) ''u1'' (Some ''k-1'') overdraft0 refused0 =
     (Inl (Conflict ''Insufficient funds for ledger posting''), refused0\<lparr>settings := []\<rparr>)"
proof (rule transfer_replay [OF db0_ok fresh_key0 request0_simps(1) _ refused0_runs])
  show "normalizeTransferRequest overdraft0 =
      Inr (request0\<lparr>tr_amountMinor := 1001, tr_amountMinorText := ''1001''\<rparr>)" by code_simp
  show "findClaim TRANSFER_SCOPE ''u1'' ''k-1'' refused0 \<noteq> None" by code_simp
  show "remembers TRANSFER_SCOPE ''u1'' ''k-1'' refused0 refused0" by (simp add: remembers_def)
qed simp

text \<open>
  C34. A key that was used for one request cannot be used for another: if the digests differ,
  the answer is a conflict and nothing changes, whatever the state of the first request.
\<close>

theorem transfer_key_conflict:
  assumes "normalizeIdempotencyKey hdr = Inr key" "normalizeTransferRequest input = Inr req"
    and "findClaim TRANSFER_SCOPE u key d = Some i" "i_requestHash i \<noteq> hashTransferRequest rt req"
  shows "transfersCreate rt None observed u hdr input d =
    (Inl (Conflict ''Idempotency-Key has already been used with a different transfer request''), d)"
  using transfer_work.serve_conflict [OF assms(3,4)] by (simp add: transfersCreate_serve assms(1,2))

definition other_runtime :: runtime where
  "other_runtime = rt0\<lparr>rt_sha256 := (\<lambda>s. replicate 64 CHR ''b'')\<rparr>"

theorem transfer_key_conflict_witness:
  "transfersCreate other_runtime None (\<lambda>_. db0) ''u1'' (Some ''k-1'') transfer0 refused0 =
    (Inl (Conflict ''Idempotency-Key has already been used with a different transfer request''), refused0)"
proof -
  have "findClaim TRANSFER_SCOPE ''u1'' ''k-1'' refused0 = Some (hd (idempotencyRecords refused0))"
    "i_requestHash (hd (idempotencyRecords refused0)) \<noteq> hashTransferRequest other_runtime request0"
    by code_simp+
  from transfer_key_conflict [OF request0_simps this] show ?thesis .
qed

text \<open>
  Transfers keep the ledger and identity invariants on every path: no balance that must
  not be negative becomes so, the books still balance, and wallets still mirror accounts.
\<close>

theorem transfer_invariant:
  assumes "ledger_ok d" "identity_ok d"
  shows "ledger_ok (snd (transfersCreate rt abort observed u hdr input d)) \<and>
    identity_ok (snd (transfersCreate rt abort observed u hdr input d)) \<and>
    balanceOf c (snd (transfersCreate rt abort observed u hdr input d)) = 0"
  using transfersCreate_invariant [OF assms prod.collapse [symmetric]] books_balance
  by (simp add: ledger_ok_def)

theorem transfer_invariant_witness:
  "balanceOf USD (after_transfer rt0 ''u1'' ''k-1'' request0 route0 ledger0 db0) = 0"
  using transfer_invariant [OF db0_ok db0_identity, where rt = rt0 and abort = None
      and u = "''u1''" and hdr = "Some ''k-1''" and input = transfer0 and c = USD]
  by (simp add: transfer0_runs)

text \<open>
  The text that is hashed determines the normalised request: two requests with the same
  digest input have the same wallets, beneficiary and amount, so that a key conflict is
  reported for every other request up to collisions of SHA-256 itself.
\<close>

theorem transfer_digest_injective:
  assumes "normalizeTransferRequest a = Inr r1" "normalizeTransferRequest b = Inr r2"
    and "transferDigestInput r1 = transferDigestInput r2"
  shows "r1 = r2"
  using digest_fields [OF assms(3)] normalized_text [OF assms(1)] normalized_text [OF assms(2)]
  by (cases r1; cases r2) (simp add: js_showInt_inject)

theorem transfer_digest_injective_witness:
  "normalizeTransferRequest (transfer0\<lparr>ct_amountMinor := '' 0x0fa ''\<rparr>) = Inr request0"
proof -
  let ?r = "\<lparr>tr_sourceWalletId = ''w1'', tr_destinationWalletId = Some ''w2'',
     tr_beneficiaryId = None, tr_amountMinor = 250, tr_amountMinorText = ''250''\<rparr>"
  have r: "normalizeTransferRequest (transfer0\<lparr>ct_amountMinor := '' 0x0fa ''\<rparr>) = Inr ?r"
    "transferDigestInput ?r = transferDigestInput request0" by code_simp+
  from transfer_digest_injective [OF r(1) request0_simps(2) r(2)] r(1) show ?thesis by simp
qed

end
