(* ===== verification/Reversals.thy ===== *)
theory Reversals
  imports TransferClaims
begin

text \<open>
  \<open>src/reversals/reversals.service.ts\<close> with its mapper: a reversal posts the opposite of a
  completed transfer, once, for its sender, under the same idempotency protocol as transfers.

  The identifiers of one call are drawn in order: 0 the claim, 1 \<open>reversalId\<close>, 2 the ledger
  transaction, 3 and 4 its postings, 5 the audit entry, 6 the event, 7 onwards the webhook
  deliveries the event fans out to.
\<close>

section \<open>Requests\<close>

record reversal_request =
  rq_transferId :: string
  rq_reason :: "string option"

definition REVERSAL_SCOPE :: string where
  "REVERSAL_SCOPE = ''transfer-reversal''"

definition normalizeReversalRequest :: "string \<Rightarrow> string option \<Rightarrow> reversal_request" where
  "normalizeReversalRequest transferId inputReason =
     (let reason = map_option js_trim inputReason in
      \<lparr>rq_transferId = js_toLowerCase transferId, rq_reason = (if truthy reason then reason else None)\<rparr>)"

definition reversalDigestInput :: "reversal_request \<Rightarrow> string" where
  "reversalDigestInput req = js_stringify (JObj
     [(''transferId'', JStr (rq_transferId req)), (''reason'', orNull (rq_reason req))])"

definition hashReversalRequest :: "runtime \<Rightarrow> reversal_request \<Rightarrow> string" where
  "hashReversalRequest rt req = rt_sha256 rt (reversalDigestInput req)"

section \<open>The work\<close>

text \<open>The transfer with its two wallets.\<close>

record reversible =
  rv_transfer :: transfer
  rv_source :: wallet
  rv_destination :: wallet

definition findReversible :: "uuid \<Rightarrow> reversal_request \<Rightarrow> (db, reversible) op" where
  "findReversible actorUserId req =
     andThen (query (\<lambda>d. findRow (\<lambda>t. t_id t = rq_transferId req \<and> t_senderUserId t = actorUserId)
       (transfers d))) (\<lambda>transfer.
     case transfer of
       None \<Rightarrow> raise (NotFound ''Transfer not found'')
     | Some t \<Rightarrow>
         andThen (query (\<lambda>d. (wallet_pk.lookup (t_sourceWalletId t) (wallets d),
                              wallet_pk.lookup (t_destinationWalletId t) (wallets d),
                              existsRow (\<lambda>r. r_transferId r = t_id t) (reversals d)))) (\<lambda>(source, destination, reversed).
         case (source, destination) of
           (Some s, Some w) \<Rightarrow>
             andThen (require (t_status t = T_COMPLETED)
               (Conflict ''Only completed transfers can be reversed'')) (\<lambda>_.
             andThen (require (\<not> reversed) (Conflict ''Transfer has already been reversed'')) (\<lambda>_.
             andThen (require (w_status s = ACTIVE \<and> w_status w = ACTIVE)
               (Conflict ''Both transfer wallets must be active before reversal'')) (\<lambda>_.
             return \<lparr>rv_transfer = t, rv_source = s, rv_destination = w\<rparr>)))
         | _ \<Rightarrow> raise (OtherError ''Inconsistent query result'')))"

definition reversalReference :: "runtime \<Rightarrow> string" where
  "reversalReference rt = ''reversal:'' @ rt_uuid rt 1"

definition reversalPostings :: "reversible \<Rightarrow> posting_input list" where
  "reversalPostings v =
     [\<lparr>pi_accountId = w_ledgerAccountId (rv_source v), pi_amountMinor = t_amountMinor (rv_transfer v)\<rparr>,
      \<lparr>pi_accountId = w_ledgerAccountId (rv_destination v), pi_amountMinor = - t_amountMinor (rv_transfer v)\<rparr>]"

definition reversalLedgerInput :: "runtime \<Rightarrow> reversible \<Rightarrow> ledger_input" where
  "reversalLedgerInput rt v =
     \<lparr>li_reference = reversalReference rt, li_currency = t_currency (rv_transfer v),
      li_description = Some ''Internal transfer reversal'', li_postings = reversalPostings v\<rparr>"

definition newReversal :: "runtime \<Rightarrow> uuid \<Rightarrow> reversal_request \<Rightarrow> reversible \<Rightarrow> uuid \<Rightarrow> transfer_reversal" where
  "newReversal rt actorUserId req v ledgerTransactionId =
     \<lparr>r_id = rt_uuid rt 1, r_reference = reversalReference rt, r_transferId = t_id (rv_transfer v),
      r_actorUserId = actorUserId, r_ledgerTransactionId = ledgerTransactionId,
      r_currency = t_currency (rv_transfer v), r_amountMinor = t_amountMinor (rv_transfer v),
      r_reason = (if truthy (rq_reason req) then rq_reason req else None), r_createdAt = rt_now rt\<rparr>"

definition reversalAudit :: "runtime \<Rightarrow> uuid \<Rightarrow> reversible \<Rightarrow> transfer_reversal \<Rightarrow> audit_log" where
  "reversalAudit rt actorUserId v r =
     \<lparr>al_id = rt_uuid rt 5, al_actorUserId = actorUserId, al_action = AUDIT_TRANSFER_REVERSED,
      al_transferId = t_id (rv_transfer v), al_reversalId = Some (r_id r), al_createdAt = rt_now rt\<rparr>"

definition reversalEvent :: "runtime \<Rightarrow> uuid \<Rightarrow> reversible \<Rightarrow> transfer_reversal \<Rightarrow> outbox_event" where
  "reversalEvent rt actorUserId v r =
     new_outboxEvent (rt_uuid rt 6) (rt_now rt) TRANSFER_REVERSED ''TransferReversal'' (r_id r) actorUserId
       (JObj [(''reversalId'', JStr (r_id r)), (''transferId'', JStr (t_id (rv_transfer v))),
              (''amountMinor'', JStr (js_showInt (r_amountMinor r))),
              (''currency'', JStr (currencyName (r_currency r)))])"

definition executeReversal :: "runtime \<Rightarrow> uuid \<Rightarrow> reversal_request \<Rightarrow> reversible \<Rightarrow> (db, transfer_reversal) op" where
  "executeReversal rt actorUserId req v =
     andThen (postWithinTransaction rt (\<lambda>k. rt_uuid rt (2 + k)) (reversalLedgerInput rt v))
       (\<lambda>(ledgerTransaction, _).
     andThen (set_config ''app.reversal_write'') (\<lambda>_.
     andThen (create_transferReversal (newReversal rt actorUserId req v (lt_id ledgerTransaction))) (\<lambda>reversal.
     andThen (set_config ''app.audit_write'') (\<lambda>_.
     andThen (create_auditLog (reversalAudit rt actorUserId v reversal)) (\<lambda>_.
     andThen (create_outboxEvent (\<lambda>k. rt_uuid rt (7 + k)) (rt_now rt)
       (reversalEvent rt actorUserId v reversal)) (\<lambda>_.
     return reversal))))))"

definition reversalWork :: "runtime \<Rightarrow> uuid \<Rightarrow> reversal_request \<Rightarrow> (db, transfer_reversal) op" where
  "reversalWork rt actorUserId req =
     andThen (findReversible actorUserId req) (executeReversal rt actorUserId req)"

section \<open>The service\<close>

record reversal_response =
  vr_id :: uuid
  vr_reference :: string
  vr_transferId :: uuid
  vr_ledgerTransactionId :: uuid
  vr_currency :: Currency
  vr_amountMinor :: string
  vr_reason :: "string option"
  vr_createdAt :: time

definition toReversalResponse :: "transfer_reversal \<Rightarrow> reversal_response" where
  "toReversalResponse r =
     \<lparr>vr_id = r_id r, vr_reference = r_reference r, vr_transferId = r_transferId r,
      vr_ledgerTransactionId = r_ledgerTransactionId r, vr_currency = r_currency r,
      vr_amountMinor = js_showInt (r_amountMinor r), vr_reason = r_reason r,
      vr_createdAt = r_createdAt r\<rparr>"

definition includedReversal :: "db \<Rightarrow> idempotency_record \<Rightarrow> transfer_reversal option" where
  "includedReversal d i =
     (case i_reversalId i of None \<Rightarrow> None | Some rid \<Rightarrow> findRow (\<lambda>r. r_id r = rid) (reversals d))"

definition linkReversal :: "transfer_reversal \<Rightarrow> idempotency_record \<Rightarrow> idempotency_record" where
  "linkReversal r i = i\<lparr>i_reversalId := Some (r_id r)\<rparr>"

text \<open>The private methods that \<open>reversals.service.ts\<close> repeats: the shared protocol, with the words and
  the relation of a reversal.\<close>

definition reversalIdempotencyKey :: "string option \<Rightarrow> exn + string" where
  "reversalIdempotencyKey = normalizeIdempotencyKey"

definition reversalResolveExisting ::
  "string \<Rightarrow> db \<Rightarrow> idempotency_record \<Rightarrow> exn + transfer_reversal outcome" where
  "reversalResolveExisting = resolveExisting ''reversal'' includedReversal"

definition reversalReplayAfterRace ::
  "uuid \<Rightarrow> string \<Rightarrow> string \<Rightarrow> db list \<Rightarrow> exn + transfer_reversal outcome" where
  "reversalReplayAfterRace = replayAfterRace ''reversal'' includedReversal REVERSAL_SCOPE"

definition reversalUnwrapOutcome :: "transfer_reversal outcome \<Rightarrow> (db, reversal_response) op" where
  "reversalUnwrapOutcome = unwrapOutcome toReversalResponse"

definition reversalRecordRefusal :: "uuid \<Rightarrow> exn \<Rightarrow> (db, transfer_reversal outcome) op" where
  "reversalRecordRefusal = recordRefusal"

definition reversalAttempt ::
  "runtime \<Rightarrow> uuid \<Rightarrow> string \<Rightarrow> reversal_request \<Rightarrow> (db, transfer_reversal outcome) op" where
  "reversalAttempt rt actorUserId key request =
     (let requestHash = hashReversalRequest rt request in
     andThen (query (\<lambda>d. (d, findClaim REVERSAL_SCOPE actorUserId key d))) (\<lambda>(d, existing).
     case existing of
       Some i \<Rightarrow> lift (reversalResolveExisting requestHash d i)
     | None \<Rightarrow>
         andThen (create_idempotencyRecord (newClaim (rt_uuid rt 0) REVERSAL_SCOPE actorUserId key requestHash)) (\<lambda>claim.
         tryCatch
           (andThen (reversalWork rt actorUserId request) (\<lambda>reversal.
            andThen (update_idempotencyRecord (i_id claim) (completed linkReversal reversal)) (\<lambda>_.
            return (Success reversal))))
           (reversalRecordRefusal (i_id claim)))))"

definition reversalReplayOrRethrow ::
  "(nat \<Rightarrow> db) \<Rightarrow> uuid \<Rightarrow> string \<Rightarrow> string \<Rightarrow> exn \<Rightarrow> (db, transfer_reversal outcome) op" where
  "reversalReplayOrRethrow observed actorUserId key requestHash e =
     (if isUniqueViolation e then
        lift (reversalReplayAfterRace actorUserId key requestHash (map observed [0..<5]))
      else if isSerializationConflict e then
        lift (reversalReplayAfterRace actorUserId key requestHash (map observed [0..<5]))
      else raise e)"

definition reversalsCreate ::
  "runtime \<Rightarrow> exn option \<Rightarrow> (nat \<Rightarrow> db) \<Rightarrow> uuid \<Rightarrow> string \<Rightarrow> string option \<Rightarrow> string option \<Rightarrow>
   (db, reversal_response) op" where
  "reversalsCreate rt abort observed actorUserId transferId idempotencyKeyHeader inputReason =
     andThen (lift (reversalIdempotencyKey idempotencyKeyHeader)) (\<lambda>idempotencyKey.
     let request = normalizeReversalRequest transferId inputReason;
         requestHash = hashReversalRequest rt request in
     andThen
       (tryCatch (prisma_transaction abort (reversalAttempt rt actorUserId idempotencyKey request))
          (reversalReplayOrRethrow observed actorUserId idempotencyKey requestHash)) (\<lambda>outcome.
     reversalUnwrapOutcome outcome))"

text \<open>The service follows the shared protocol.\<close>

lemma reversalReplay_protocol:
  "reversalReplayOrRethrow observed actorUserId key requestHash =
     replayOrRethrow ''reversal'' includedReversal REVERSAL_SCOPE observed actorUserId key requestHash"
  by (simp add: fun_eq_iff reversalReplayOrRethrow_def replayOrRethrow_def reversalReplayAfterRace_def)

lemma reversalsCreate_protocol:
  "reversalsCreate rt abort observed actorUserId transferId idempotencyKeyHeader inputReason =
     andThen (lift (normalizeIdempotencyKey idempotencyKeyHeader)) (\<lambda>idempotencyKey.
     let request = normalizeReversalRequest transferId inputReason in
     andThen (attemptOrReplay ''reversal'' includedReversal linkReversal REVERSAL_SCOPE abort observed
       actorUserId idempotencyKey (hashReversalRequest rt request) (rt_uuid rt 0)
       (reversalWork rt actorUserId request)) (\<lambda>outcome.
     unwrapOutcome toReversalResponse outcome))"
  unfolding reversalsCreate_def attemptOrReplay_def reversalAttempt_def attempt_def reversalReplay_protocol
    reversalUnwrapOutcome_def reversalIdempotencyKey_def reversalRecordRefusal_def reversalResolveExisting_def Let_def
  by (rule refl)

lemma reversalReplay_reads:
  "reversalReplayAfterRace actorUserId key requestHash (d # observed) =
     (case findClaim REVERSAL_SCOPE actorUserId key d of
        Some i \<Rightarrow> reversalResolveExisting requestHash d i
      | None \<Rightarrow> reversalReplayAfterRace actorUserId key requestHash observed)"
  unfolding reversalReplayAfterRace_def reversalResolveExisting_def by (rule replayAfterRace.simps(2))

definition reversalsFindOneForUser :: "uuid \<Rightarrow> uuid \<Rightarrow> (db, reversal_response) op" where
  "reversalsFindOneForUser actorUserId transferId =
     andThen (query (\<lambda>d. findRow (\<lambda>r. r_transferId r = pgUuid transferId \<and> r_actorUserId r = actorUserId)
       (reversals d))) (\<lambda>r.
     case r of None \<Rightarrow> raise (NotFound ''Reversal not found'')
     | Some r \<Rightarrow> return (toReversalResponse r))"

end
