(* ===== verification/Providers.thy ===== *)
theory Providers
  imports Idempotency
begin

text \<open>
  \<open>src/payments/providers\<close>: the mock provider (\<open>mock-payment-provider.ts\<close>) and the Paystack
  provider (\<open>paystack-provider.ts\<close>), which turn untrusted bytes into verified payment events.

  What comes from outside the repository is the record \<open>provider_env\<close>: the configuration,
  the two HMACs of node:crypto as lower-case hexadecimal strings, \<open>JSON.parse\<close> of the UTF-8 text of a body
  (no result when it throws), zod's UUID check, and \<open>fetch\<close>. A body is its list of bytes.
\<close>

section \<open>The environment\<close>

record http_response =
  hr_ok :: bool
  hr_body :: "string list option"

record provider_env =
  pv_provider :: "string option"
  pv_nodeEnv :: "string option"
  pv_mockSecret :: "string option"
  pv_paystackKey :: "string option"
  pv_hmac256 :: "string \<Rightarrow> string \<Rightarrow> string"
  pv_hmac512 :: "string \<Rightarrow> string \<Rightarrow> string"
  pv_parseBody :: "string \<Rightarrow> json option"
  pv_zodUuid :: "string \<Rightarrow> bool"
  pv_encodeURIComponent :: "string \<Rightarrow> string"
  pv_fetch :: "string \<Rightarrow> string option \<Rightarrow> http_response option"

record verified_event =
  ve_eventId :: string
  ve_reference :: string
  ve_amountMinor :: string
  ve_currency :: Currency
  ve_status :: PaymentStatus
  ve_payloadHash :: string

section \<open>Patterns\<close>

text \<open>\<open>/^[1-9][0-9]{0,n}$/\<close>\<close>

definition positiveDecimal :: "nat \<Rightarrow> string \<Rightarrow> bool" where
  "positiveDecimal n s \<longleftrightarrow> s \<noteq> [] \<and> isDigit (hd s) \<and> hd s \<noteq> CHR ''0'' \<and>
     length s \<le> Suc n \<and> list_all isDigit s"

definition hexOrDash :: "char \<Rightarrow> bool" where
  "hexOrDash c \<longleftrightarrow> isDigit c \<or> (97 \<le> code c \<and> code c \<le> 102) \<or> c = CHR ''-''"

text \<open>\<open>/^prefix[0-9a-f-]{36}$/\<close>\<close>

definition referencePattern :: "string \<Rightarrow> string \<Rightarrow> bool" where
  "referencePattern pre s \<longleftrightarrow> take (length pre) s = pre \<and>
     length (drop (length pre) s) = 36 \<and> list_all hexOrDash (drop (length pre) s)"

definition lowerHex :: "char \<Rightarrow> bool" where
  "lowerHex c \<longleftrightarrow> isDigit c \<or> (97 \<le> code c \<and> code c \<le> 102)"

definition anyHex :: "char \<Rightarrow> bool" where
  "anyHex c \<longleftrightarrow> lowerHex c \<or> (65 \<le> code c \<and> code c \<le> 70)"

definition startsWith :: "string \<Rightarrow> string \<Rightarrow> bool" where
  "startsWith pre s \<longleftrightarrow> take (length pre) s = pre"

fun currencyOf :: "string \<Rightarrow> Currency option" where
  "currencyOf s = (if s = ''USD'' then Some USD else if s = ''NGN'' then Some NGN else None)"

section \<open>Schemas\<close>

definition jfield :: "string \<Rightarrow> json \<Rightarrow> json option" where
  "jfield k j = (case j of JObj kvs \<Rightarrow> map_of kvs k | _ \<Rightarrow> None)"

fun jstring :: "json option \<Rightarrow> string option" where
  "jstring (Some (JStr s)) = Some s"
| "jstring _ = None"

fun jint :: "json option \<Rightarrow> int option" where
  "jint (Some (JInt i)) = Some i"
| "jint _ = None"

definition MAX_SAFE_INTEGER :: int where
  "MAX_SAFE_INTEGER = 9007199254740991"

text \<open>\<open>z.number().int().positive().safe()\<close>\<close>

definition safePositive :: "json option \<Rightarrow> int option" where
  "safePositive j = (case jint j of None \<Rightarrow> None
     | Some i \<Rightarrow> if 0 < i \<and> i \<le> MAX_SAFE_INTEGER then Some i else None)"

definition onlyKeys :: "string list \<Rightarrow> json \<Rightarrow> bool" where
  "onlyKeys ks j = (case j of JObj kvs \<Rightarrow> list_all (\<lambda>kv. fst kv \<in> set ks) kvs | _ \<Rightarrow> False)"

text \<open>The strict \<open>eventSchema\<close> of the mock provider.\<close>

definition parseMockEvent :: "(string \<Rightarrow> bool) \<Rightarrow> string \<Rightarrow> json \<Rightarrow> verified_event option" where
  "parseMockEvent isUuid hash j =
     (case (jstring (jfield ''eventId'' j), jstring (jfield ''reference'' j),
            jstring (jfield ''amountMinor'' j), jstring (jfield ''currency'' j),
            jstring (jfield ''status'' j)) of
        (Some eventId, Some reference, Some amountMinor, Some currency, Some status) \<Rightarrow>
          if isUuid eventId \<and> referencePattern ''payment:'' reference \<and>
             positiveDecimal 18 amountMinor \<and>
             (case js_BigInt amountMinor of None \<Rightarrow> False | Some v \<Rightarrow> v \<le> MAX_MINOR_UNITS) \<and>
             currencyOf currency \<noteq> None \<and> status \<in> {''SUCCEEDED'', ''FAILED''} \<and>
             onlyKeys [''eventId'', ''reference'', ''amountMinor'', ''currency'', ''status''] j
          then Some \<lparr>ve_eventId = eventId, ve_reference = reference, ve_amountMinor = amountMinor,
                     ve_currency = the (currencyOf currency),
                     ve_status = (if status = ''SUCCEEDED'' then P_SUCCEEDED else P_FAILED),
                     ve_payloadHash = hash\<rparr>
          else None
      | _ \<Rightarrow> None)"

section \<open>The mock provider\<close>

definition mockAssertEnabled :: "provider_env \<Rightarrow> exn + unit" where
  "mockAssertEnabled env =
     (if pv_provider env \<noteq> Some ''mock'' \<or> pv_nodeEnv env = Some ''production'' \<or>
         (case pv_mockSecret env of None \<Rightarrow> 0 | Some s \<Rightarrow> length s) < 32
      then Inl (ServiceUnavailable ''Mock payment provider is disabled'') else Inr ())"

definition mockInitialize :: "provider_env \<Rightarrow> string \<Rightarrow> exn + unit" where
  "mockInitialize env reference =
     ebind (mockAssertEnabled env) (\<lambda>_.
     if \<not> referencePattern ''payment:'' reference
     then Inl (BadRequest ''Invalid payment reference'') else Inr ())"

text \<open>Ten decimal digits, as a number of seconds.\<close>

definition timestampOf :: "string option \<Rightarrow> int option" where
  "timestampOf t = (case t of None \<Rightarrow> None
     | Some s \<Rightarrow> if length s = 10 \<and> list_all isDigit s then map_option int (parseDigits 10 s) else None)"

definition mockSignatureFormat :: "string \<Rightarrow> bool" where
  "mockSignatureFormat s \<longleftrightarrow> startsWith ''v1='' s \<and> length (drop 3 s) = 64 \<and> list_all lowerHex (drop 3 s)"

definition mockVerify ::
  "runtime \<Rightarrow> provider_env \<Rightarrow> string \<Rightarrow> string option \<Rightarrow> string option \<Rightarrow> exn + verified_event" where
  "mockVerify rt env rawBody timestamp signature =
     ebind (mockAssertEnabled env) (\<lambda>_.
     if rawBody = [] \<or> 16384 < length rawBody then
       Inl (BadRequest ''Invalid provider payload size'')
     else if \<not> (case (timestampOf timestamp, signature) of
               (Some t, Some s) \<Rightarrow> \<bar>rt_now rt - t * 1000\<bar> \<le> 300000 \<and> mockSignatureFormat s
             | _ \<Rightarrow> False) then
       Inl (Unauthorized ''Invalid provider signature'')
     else if pv_hmac256 env (the (pv_mockSecret env)) (the timestamp @ ''.'' @ rawBody)
             \<noteq> drop 3 (the signature) then
       Inl (Unauthorized ''Invalid provider signature'')
     else
       (case pv_parseBody env rawBody of
          None \<Rightarrow> Inl (BadRequest ''Invalid provider payload'')
        | Some input \<Rightarrow>
            (case parseMockEvent (pv_zodUuid env) (rt_sha256 rt rawBody) input of
               None \<Rightarrow> Inl (BadRequest ''Invalid provider payload'')
             | Some e \<Rightarrow> Inr e)))"

section \<open>Paystack\<close>

definition paystackKeyFormat :: "string \<Rightarrow> bool" where
  "paystackKeyFormat k \<longleftrightarrow> (startsWith ''sk_test_'' k \<or> startsWith ''sk_live_'' k) \<and>
     drop 8 k \<noteq> [] \<and> list_all isAlnum (drop 8 k)"

definition paystackAssertEnabled :: "provider_env \<Rightarrow> exn + unit" where
  "paystackAssertEnabled env =
     (case pv_paystackKey env of
        None \<Rightarrow> Inl (ServiceUnavailable ''Paystack provider is disabled'')
      | Some key \<Rightarrow>
          if pv_provider env \<noteq> Some ''paystack'' \<or> \<not> paystackKeyFormat key \<or>
             (startsWith ''sk_live_'' key \<and> pv_nodeEnv env \<noteq> Some ''production'')
          then Inl (ServiceUnavailable ''Paystack provider is disabled'') else Inr ())"

definition validateIntent :: "string \<Rightarrow> Currency \<Rightarrow> exn + unit" where
  "validateIntent amountMinor currency =
     (if currency \<noteq> NGN \<or> \<not> positiveDecimal 15 amountMinor \<or>
         (case js_BigInt amountMinor of None \<Rightarrow> True | Some v \<Rightarrow> MAX_SAFE_INTEGER < v)
      then Inl (BadRequest
        ''Paystack requires NGN and a positive safely representable minor-unit amount'')
      else Inr ())"

text \<open>The bounded read loop over the chunks of a response.\<close>

fun readChunks :: "nat \<Rightarrow> string list \<Rightarrow> string option" where
  "readChunks read [] = Some []"
| "readChunks read (value # rest) =
     (if 65536 < read + length value then None
      else map_option (\<lambda>more. value @ more) (readChunks (read + length value) rest))"

text \<open>
  The private method \<open>request\<close>. A fetch that throws, a status that is not 2xx, a response without
  body, one larger than 64 KiB and text that is not JSON are the same error to the caller.
\<close>

definition paystackRequest :: "provider_env \<Rightarrow> string \<Rightarrow> string option \<Rightarrow> exn + json" where
  "paystackRequest env path body =
     (let result =
        (case pv_fetch env (''https://api.paystack.co'' @ path) body of
           None \<Rightarrow> None
         | Some response \<Rightarrow>
             if \<not> hr_ok response then None
             else (case hr_body response of
                 None \<Rightarrow> None
               | Some chunks \<Rightarrow>
                   (case readChunks 0 chunks of
                      None \<Rightarrow> None
                    | Some text \<Rightarrow> pv_parseBody env text)))
      in case result of
           None \<Rightarrow> Inl (ServiceUnavailable ''Paystack request unavailable; reconcile the original payment'')
         | Some j \<Rightarrow> Inr j)"

definition paystackInitialize ::
  "provider_env \<Rightarrow> string \<Rightarrow> string \<Rightarrow> Currency \<Rightarrow> string \<Rightarrow> exn + string" where
  "paystackInitialize env reference amountMinor currency email =
     ebind (paystackAssertEnabled env) (\<lambda>_.
     ebind (validateIntent amountMinor currency) (\<lambda>_.
     ebind (ensure (referencePattern ''payment-'' reference)
       (BadRequest ''Invalid Paystack reference'')) (\<lambda>_.
     ebind (paystackRequest env ''/transaction/initialize''
       (Some (js_stringify (JObj [(''reference'', JStr reference), (''amount'', JStr amountMinor),
         (''currency'', JStr (currencyName currency)), (''email'', JStr email)])))) (\<lambda>response.
     case jfield ''data'' response of
       None \<Rightarrow> Inl (ServiceUnavailable ''Invalid Paystack initialization response'')
     | Some data \<Rightarrow>
         (case jstring (jfield ''authorization_url'' data) of
            None \<Rightarrow> Inl (ServiceUnavailable ''Invalid Paystack initialization response'')
          | Some url \<Rightarrow>
              if jfield ''status'' response = Some (JBool True) \<and>
                 jfield ''reference'' data = Some (JStr reference) \<and>
                 length url \<le> 512 \<and> checkoutUrlPattern url
              then Inr url
              else Inl (ServiceUnavailable ''Invalid Paystack initialization response''))))))"

definition hex128 :: "string \<Rightarrow> bool" where
  "hex128 s \<longleftrightarrow> length s = 128 \<and> list_all anyHex s"

text \<open>\<open>z.object({ event: z.string(), data: z.unknown() })\<close>, then \<open>z.object({ reference: z.string() })\<close>;
  a null result is \<open>None\<close>.\<close>

definition webhookReference :: "provider_env \<Rightarrow> string \<Rightarrow> string option \<Rightarrow> exn + string option" where
  "webhookReference env raw signature =
     ebind (paystackAssertEnabled env) (\<lambda>_.
     case signature of
       None \<Rightarrow> Inl (Unauthorized ''Invalid Paystack signature'')
     | Some sig \<Rightarrow>
         if \<not> hex128 sig \<or> raw = [] \<or> 65536 < length raw then
           Inl (Unauthorized ''Invalid Paystack signature'')
         else if pv_hmac512 env (the (pv_paystackKey env)) raw \<noteq> js_toLowerCase sig then
           Inl (Unauthorized ''Invalid Paystack signature'')
         else
           (case pv_parseBody env raw of
              None \<Rightarrow> Inl (BadRequest ''Invalid Paystack payload'')
            | Some payload \<Rightarrow>
                (case jstring (jfield ''event'' payload) of
                   None \<Rightarrow> Inl (BadRequest ''Invalid Paystack event'')
                 | Some event \<Rightarrow>
                     if event \<noteq> ''charge.success'' then Inr None
                     else
                       (case Option.bind (jfield ''data'' payload) (\<lambda>data. jstring (jfield ''reference'' data)) of
                          None \<Rightarrow> Inl (BadRequest ''Invalid Paystack reference'')
                        | Some reference \<Rightarrow>
                            Inr (if referencePattern ''payment-'' reference then Some reference
                                 else None)))))"

record paystack_transaction =
  pt_id :: int
  pt_reference :: string
  pt_amount :: int
  pt_domain :: string
  pt_status :: string

text \<open>\<open>transactionSchema\<close>\<close>

definition parseTransaction :: "json \<Rightarrow> paystack_transaction option" where
  "parseTransaction j =
     (case (safePositive (jfield ''id'' j), jstring (jfield ''reference'' j),
            safePositive (jfield ''amount'' j), jstring (jfield ''domain'' j),
            jstring (jfield ''status'' j)) of
        (Some i, Some reference, Some amount, Some domain, Some status) \<Rightarrow>
          if referencePattern ''payment-'' reference \<and> jfield ''currency'' j = Some (JStr ''NGN'') \<and>
             domain \<in> {''test'', ''live''}
          then Some \<lparr>pt_id = i, pt_reference = reference, pt_amount = amount, pt_domain = domain,
                     pt_status = status\<rparr>
          else None
      | _ \<Rightarrow> None)"

definition paystackDomain :: "string \<Rightarrow> string" where
  "paystackDomain key = (if startsWith ''sk_test_'' key then ''test'' else ''live'')"

text \<open>The text that is hashed: \<open>JSON.stringify({ ...evidence, domain })\<close>.\<close>

definition evidenceText :: "string \<Rightarrow> string \<Rightarrow> int \<Rightarrow> string \<Rightarrow> string" where
  "evidenceText eventId reference amount domain = js_stringify (JObj
     [(''eventId'', JStr eventId), (''reference'', JStr reference),
      (''amountMinor'', JStr (js_showInt amount)), (''currency'', JStr ''NGN''),
      (''status'', JStr ''SUCCEEDED''), (''domain'', JStr domain)])"

definition paystackEvidence :: "(string \<Rightarrow> string) \<Rightarrow> string \<Rightarrow> paystack_transaction \<Rightarrow> verified_event" where
  "paystackEvidence sha domain data =
     (let eventId = ''paystack:'' @ js_showInt (pt_id data) @ '':success'' in
      \<lparr>ve_eventId = eventId, ve_reference = pt_reference data,
       ve_amountMinor = js_showInt (pt_amount data), ve_currency = NGN, ve_status = P_SUCCEEDED,
       ve_payloadHash = sha (evidenceText eventId (pt_reference data) (pt_amount data) domain)\<rparr>)"

definition paystackReconcile :: "runtime \<Rightarrow> provider_env \<Rightarrow> string \<Rightarrow> exn + verified_event option" where
  "paystackReconcile rt env reference =
     ebind (paystackAssertEnabled env) (\<lambda>_.
     ebind (ensure (referencePattern ''payment-'' reference)
       (BadRequest ''Invalid Paystack reference'')) (\<lambda>_.
     ebind (paystackRequest env (''/transaction/verify/'' @ pv_encodeURIComponent env reference) None) (\<lambda>result.
     case (if jfield ''status'' result = Some (JBool True)
           then Option.bind (jfield ''data'' result) parseTransaction else None) of
       None \<Rightarrow> Inl (ServiceUnavailable ''Invalid Paystack verification response'')
     | Some data \<Rightarrow>
         let domain = paystackDomain (the (pv_paystackKey env)) in
         if pt_reference data \<noteq> reference \<or> pt_domain data \<noteq> domain then
           Inl (ServiceUnavailable ''Paystack verification identity mismatch'')
         else if pt_status data \<noteq> ''success'' then Inr None
         else Inr (Some (paystackEvidence (rt_sha256 rt) domain data)))))"

end
