(* ===== verification/Pagination.thy ===== *)
theory Pagination
  imports Schema
begin

text \<open>
  The cursor pagination that the payment, provider-event, audit and webhook-delivery listings
  share: the rows ordered by \<open>createdAt desc, id desc\<close>, \<open>take: limit + 1\<close> from after the cursor row,
  and a next cursor when one more row was found. The lemmas say that a client that follows the
  cursors over an unchanged table sees every row exactly once, newest first.
\<close>

record 'r page =
  pg_items :: "'r list"
  pg_nextCursor :: "uuid option"

text \<open>\<open>findMany\<close> with \<open>cursor\<close> and \<open>skip: 1\<close>: the rows after the cursor row.\<close>

definition findManyDesc :: "('r \<Rightarrow> time \<times> uuid) \<Rightarrow> nat \<Rightarrow> uuid option \<Rightarrow> 'r list \<Rightarrow> 'r list" where
  "findManyDesc key n cursor rows =
     (let ordered = rev (sort_key key rows) in
      take n (case cursor of
                None \<Rightarrow> ordered
              | Some c \<Rightarrow> drop 1 (dropWhile (\<lambda>r. snd (key r) \<noteq> c) ordered)))"

definition makePage :: "('r \<Rightarrow> uuid) \<Rightarrow> ('r \<Rightarrow> 'o) \<Rightarrow> nat \<Rightarrow> 'r list \<Rightarrow> 'o page" where
  "makePage ident out limit rows =
     (let items = take limit rows in
      \<lparr>pg_items = map out items,
       pg_nextCursor = (if limit < length rows then Some (ident (last items)) else None)\<rparr>)"

text \<open>A client that follows \<open>nextCursor\<close> until it is null, for at most \<open>n\<close> requests; \<open>None\<close>
  when a request fails or pages remain.\<close>

fun followPages :: "nat \<Rightarrow> (uuid option \<Rightarrow> 'o page option) \<Rightarrow> uuid option \<Rightarrow> 'o list option" where
  "followPages 0 fetch cursor = None"
| "followPages (Suc n) fetch cursor =
     (case fetch cursor of
        None \<Rightarrow> None
      | Some p \<Rightarrow>
          (case pg_nextCursor p of
             None \<Rightarrow> Some (pg_items p)
           | Some c \<Rightarrow> map_option (\<lambda>rest. pg_items p @ rest) (followPages n fetch (Some c))))"

lemma after_cursor:
  assumes "distinct (map ident (xs @ c # ys))"
  shows "drop 1 (dropWhile (\<lambda>r. ident r \<noteq> ident c) (xs @ c # ys)) = ys"
proof -
  have "\<forall>x \<in> set xs. ident x \<noteq> ident c" using assms by (auto simp: image_iff)
  then show ?thesis by (simp add: dropWhile_append2)
qed

lemma follow_all_aux:
  assumes "0 < limit" and dist: "distinct (map (snd \<circ> key) rows)"
    and fetch: "\<And>c. c = None \<or> (\<exists>r \<in> set rows. c = Some (snd (key r))) \<Longrightarrow>
      fetch c = Some (makePage (snd \<circ> key) out limit (findManyDesc key (Suc limit) c rows))"
  shows "rev (sort_key key rows) = seen @ left \<Longrightarrow>
    cursor = (if seen = [] then None else Some (snd (key (last seen)))) \<Longrightarrow> length left < n \<Longrightarrow>
    followPages n fetch cursor = Some (map out left)"
proof (induction n arbitrary: seen left cursor)
  case 0
  then show ?case by simp
next
  case (Suc n)
  let ?L = "rev (sort_key key rows)"
  have mem: "set ?L = set rows" by simp
  have dL: "distinct (map (snd \<circ> key) (seen @ left))"
  proof -
    have "distinct (map (snd \<circ> key) ?L)" using dist unfolding distinct_map by simp
    then show ?thesis using Suc.prems(1) by simp
  qed
  have "set seen \<subseteq> set rows" using Suc.prems(1) mem by (metis Un_upper1 set_append)
  then have ok: "cursor = None \<or> (\<exists>r \<in> set rows. cursor = Some (snd (key r)))"
    using Suc.prems(2) last_in_set by auto
  have rows: "findManyDesc key (Suc limit) cursor rows = take (Suc limit) left"
  proof (cases "seen = []")
    case True
    with Suc.prems show ?thesis by (simp add: findManyDesc_def)
  next
    case False
    then obtain xs c where d: "seen = xs @ [c]" by (metis rev_exhaust)
    with dL have dL: "distinct (map (snd \<circ> key) (xs @ c # left))" by simp
    have "drop 1 (dropWhile (\<lambda>r. (snd \<circ> key) r \<noteq> (snd \<circ> key) c) (xs @ c # left)) = left"
      by (rule after_cursor [OF dL])
    with d Suc.prems show ?thesis by (simp add: findManyDesc_def)
  qed
  show ?case
  proof (cases "limit < length left")
    case False
    with rows show ?thesis by (simp add: fetch [OF ok] makePage_def Let_def)
  next
    case True
    let ?more = "take limit left"
    have ne: "?more \<noteq> []" using True assms(1) by auto
    have "followPages n fetch (Some (snd (key (last ?more)))) = Some (map out (drop limit left))"
      using Suc.prems True ne assms(1)
      by (intro Suc.IH [of "seen @ ?more"]) auto
    with True rows show ?thesis
      by (simp add: fetch [OF ok] makePage_def Let_def min_def map_append [symmetric] del: map_append)
  qed
qed

text \<open>Every row exactly once, newest first, with one request more than there are rows enough.\<close>

lemma follow_all:
  assumes "0 < limit" "distinct (map (snd \<circ> key) rows)" "length rows < n"
    and "\<And>c. c = None \<or> (\<exists>r \<in> set rows. c = Some (snd (key r))) \<Longrightarrow>
      fetch c = Some (makePage (snd \<circ> key) out limit (findManyDesc key (Suc limit) c rows))"
  shows "followPages n fetch None = Some (map out (rev (sort_key key rows)))"
  using assms by (intro follow_all_aux [where seen = "[]"]) auto

text \<open>Without the premise on ids: a page never exceeds its limit.\<close>

lemma makePage_bound: "length (pg_items (makePage ident out limit rows)) \<le> limit"
  by (simp add: makePage_def Let_def)

end
