(* ===== verification/Payments.thy ===== *)
theory Payments
  imports Providers Pagination
begin

text \<open>
  \<open>src/payments/payments.service.ts\<close> with its mapper: creating a payment intent, initialising the
  checkout, and settling a verified provider event against the ledger.

  Identifiers of \<open>create\<close>: 0 the UUID of the reference, 1 the payment. Identifiers of one
  settlement attempt: 0 the provider event, 1 the ledger transaction, 2 and 3 its postings, 4 the
  outbox event, 5 onwards the webhook deliveries it fans out to.

  Other writers may commit between the transactions of one call. The argument \<open>others\<close> is what
  they do at each such point (the identity when the call runs alone).
\<close>

section \<open>Creating an intent\<close>

record create_payment_input =
  cp_walletId :: string
  cp_amountMinor :: string

record payment_response =
  py_id :: uuid
  py_walletId :: uuid
  py_provider :: PaymentProvider
  py_reference :: string
  py_amountMinor :: string
  py_currency :: Currency
  py_status :: PaymentStatus
  py_createdAt :: time
  py_completedAt :: "time option"

definition toPaymentResponse :: "payment \<Rightarrow> payment_response" where
  "toPaymentResponse p =
     \<lparr>py_id = p_id p, py_walletId = p_walletId p, py_provider = p_provider p,
      py_reference = p_reference p, py_amountMinor = js_showInt (p_amountMinor p),
      py_currency = p_currency p, py_status = p_status p, py_createdAt = p_createdAt p,
      py_completedAt = p_completedAt p\<rparr>"

text \<open>\<open>{ ...toPaymentResponse(payment), checkoutUrl }\<close>\<close>

type_synonym checkout_response = "payment_response \<times> string option"

definition usePaystack :: "provider_env \<Rightarrow> bool" where
  "usePaystack env \<longleftrightarrow> pv_provider env = Some ''paystack''"

definition paymentKey :: "string option \<Rightarrow> exn + string" where
  "paymentKey header =
     (case map_option js_trim header of
        None \<Rightarrow> Inl (BadRequest ''A valid Idempotency-Key is required'')
      | Some key \<Rightarrow>
          if key = [] \<or> \<not> keyPattern key
          then Inl (BadRequest ''A valid Idempotency-Key is required'') else Inr key)"

definition paymentAmount :: "string \<Rightarrow> exn + int" where
  "paymentAmount amountMinor =
     (case (if positiveDecimal 18 amountMinor then js_BigInt amountMinor else None) of
        None \<Rightarrow> Inl (BadRequest ''amountMinor exceeds the positive BIGINT range'')
      | Some v \<Rightarrow> if MAX_MINOR_UNITS < v
                   then Inl (BadRequest ''amountMinor exceeds the positive BIGINT range'') else Inr v)"

definition paymentDigestInput :: "string \<Rightarrow> string \<Rightarrow> string" where
  "paymentDigestInput walletId amountMinor = js_stringify (JObj
     [(''walletId'', JStr walletId), (''amountMinor'', JStr amountMinor)])"

definition replayPayment :: "payment \<Rightarrow> string \<Rightarrow> exn + payment" where
  "replayPayment p hash =
     (if p_requestHash p \<noteq> hash
      then Inl (Conflict ''Idempotency-Key was used with a different payment request'')
      else Inr p)"

definition findPayment :: "uuid \<Rightarrow> string \<Rightarrow> db \<Rightarrow> payment option" where
  "findPayment userId key d = findRow (\<lambda>p. p_userId p = userId \<and> p_idempotencyKey p = key) (payments d)"

definition newPayment ::
  "runtime \<Rightarrow> bool \<Rightarrow> uuid \<Rightarrow> wallet \<Rightarrow> string \<Rightarrow> string \<Rightarrow> int \<Rightarrow> payment" where
  "newPayment rt paystack userId wallet key hash amount =
     \<lparr>p_id = rt_uuid rt 1, p_userId = userId, p_walletId = w_id wallet,
      p_provider = (if paystack then PAYSTACK else MOCK),
      p_reference = ''payment'' @ (if paystack then ''-'' else '':'') @ rt_uuid rt 0,
      p_idempotencyKey = key, p_requestHash = hash, p_amountMinor = amount,
      p_currency = w_currency wallet, p_status = P_PENDING, p_ledgerTransactionId = None,
      p_createdAt = rt_now rt, p_completedAt = None\<rparr>"

text \<open>The interactive transaction of \<open>create\<close>.\<close>

definition intentBody ::
  "runtime \<Rightarrow> bool \<Rightarrow> uuid \<Rightarrow> string \<Rightarrow> string \<Rightarrow> string \<Rightarrow> string \<Rightarrow> int \<Rightarrow> (db, payment) op" where
  "intentBody rt paystack userId key hash walletId amountMinor amount =
     andThen (query (findPayment userId key)) (\<lambda>existing.
     case existing of
       Some p \<Rightarrow> lift (replayPayment p hash)
     | None \<Rightarrow>
         andThen (query (\<lambda>d. findRow (\<lambda>w. w_id w = walletId \<and> w_userId w = userId) (wallets d))) (\<lambda>w.
         case w of
           None \<Rightarrow> raise (NotFound ''Wallet not found'')
         | Some wallet \<Rightarrow>
             andThen (require (w_status wallet = ACTIVE) (Conflict ''Wallet must be active'')) (\<lambda>_.
             andThen (lift (if paystack then validateIntent amountMinor (w_currency wallet)
                            else Inr ())) (\<lambda>_.
             andThen (set_config ''app.payment_write'') (\<lambda>_.
             create_payment (newPayment rt paystack userId wallet key hash amount))))))"

text \<open>The intent, or the one a concurrent request with the same key created.\<close>

definition createIntent ::
  "runtime \<Rightarrow> bool \<Rightarrow> exn option \<Rightarrow> (db \<Rightarrow> db) \<Rightarrow> uuid \<Rightarrow> string \<Rightarrow> string \<Rightarrow> string \<Rightarrow> string \<Rightarrow> int \<Rightarrow>
   (db, payment) op" where
  "createIntent rt paystack abort others userId key hash walletId amountMinor amount =
     tryCatch
       (prisma_transaction abort (intentBody rt paystack userId key hash walletId amountMinor amount))
       (\<lambda>e. if \<not> isUniqueViolation e then raise e
            else
              andThen (modify others) (\<lambda>_.
              andThen (query (findPayment userId key)) (\<lambda>existing.
              case existing of
                None \<Rightarrow> raise (Conflict ''Concurrent initialization; retry with the same key'')
              | Some p \<Rightarrow> lift (replayPayment p hash))))"

definition initializePaystack :: "runtime \<Rightarrow> provider_env \<Rightarrow> payment \<Rightarrow> (db, checkout_response) op" where
  "initializePaystack rt env p =
     andThen (lift (paystackAssertEnabled env)) (\<lambda>_.
     andThen (query (\<lambda>d. user_pk.lookup (p_userId p) (users d))) (\<lambda>user.
     case user of
       None \<Rightarrow> raise P2025
     | Some user \<Rightarrow>
         andThen (claim_checkout (p_id p) (rt_now rt)) (\<lambda>claimed.
         if claimed = 0 then
           andThen (query (\<lambda>d. findRow (\<lambda>c. pc_paymentId c = p_id p) (checkouts d))) (\<lambda>cached.
           case cached of
             None \<Rightarrow> raise P2025
           | Some c \<Rightarrow>
               if \<not> truthy (pc_checkoutUrl c) then
                 raise (ServiceUnavailable
                   ''Checkout initialization is pending or uncertain; reconcile this payment reference'')
               else return (toPaymentResponse p, pc_checkoutUrl c))
         else
           andThen (lift (paystackInitialize env (p_reference p) (js_showInt (p_amountMinor p))
             (p_currency p) (u_email user))) (\<lambda>url.
           andThen (update_checkout (p_id p) url) (\<lambda>_.
           return (toPaymentResponse p, Some url))))))"

definition paymentsCreate ::
  "runtime \<Rightarrow> provider_env \<Rightarrow> exn option \<Rightarrow> (db \<Rightarrow> db) \<Rightarrow> uuid \<Rightarrow> string option \<Rightarrow>
   create_payment_input \<Rightarrow> (db, checkout_response) op" where
  "paymentsCreate rt env abort others userId header input =
     andThen (lift (if usePaystack env then paystackAssertEnabled env else mockAssertEnabled env)) (\<lambda>_.
     andThen (lift (paymentKey header)) (\<lambda>key.
     andThen (lift (paymentAmount (cp_amountMinor input))) (\<lambda>amount.
     let walletId = js_toLowerCase (cp_walletId input);
         hash = rt_sha256 rt (paymentDigestInput walletId (cp_amountMinor input)) in
     andThen (createIntent rt (usePaystack env) abort others userId key hash walletId
       (cp_amountMinor input) amount) (\<lambda>payment.
     if p_status payment \<noteq> P_PENDING then return (toPaymentResponse payment, None)
     else if p_provider payment = PAYSTACK then initializePaystack rt env payment
     else if usePaystack env then raise (Conflict ''Payment belongs to a different provider'')
     else
       (case mockInitialize env (p_reference payment) of
          Inl _ \<Rightarrow> raise (ServiceUnavailable
            ''Payment initialization unavailable; retry with the same Idempotency-Key'')
        | Inr _ \<Rightarrow> return (toPaymentResponse payment, None))))))"

section \<open>Settlement\<close>

text \<open>\<open>{ received: true }\<close>, with the payment and its status when there is one.\<close>

datatype receipt = Received | Settled uuid PaymentStatus

definition paymentLedgerInput :: "payment \<Rightarrow> uuid \<Rightarrow> wallet \<Rightarrow> ledger_input" where
  "paymentLedgerInput p clearingId wallet =
     \<lparr>li_reference = p_reference p, li_currency = p_currency p,
      li_description = Some ''Verified provider funding'',
      li_postings =
        [\<lparr>pi_accountId = clearingId, pi_amountMinor = - p_amountMinor p\<rparr>,
         \<lparr>pi_accountId = w_ledgerAccountId wallet, pi_amountMinor = p_amountMinor p\<rparr>]\<rparr>"

definition fundWallet :: "runtime \<Rightarrow> payment \<Rightarrow> (db, uuid) op" where
  "fundWallet rt p =
     andThen (query (\<lambda>d. wallet_pk.lookup (p_walletId p) (wallets d))) (\<lambda>w.
     case w of None \<Rightarrow> raise P2025
     | Some wallet \<Rightarrow>
         andThen (query (\<lambda>d. findRow (\<lambda>a. la_systemKey a =
           Some (externalClearingAccountKey (p_currency p))) (accounts d))) (\<lambda>c.
         case c of None \<Rightarrow> raise P2025
         | Some account \<Rightarrow>
             andThen (postWithinTransaction rt (\<lambda>k. rt_uuid rt (1 + k))
               (paymentLedgerInput p (la_id account) wallet)) (\<lambda>(ledger, _).
             return (lt_id ledger))))"

fun providerName :: "PaymentProvider \<Rightarrow> string" where
  "providerName PAYSTACK = ''PAYSTACK''"
| "providerName MOCK = ''MOCK''"

definition paymentEvent :: "runtime \<Rightarrow> payment \<Rightarrow> PaymentStatus \<Rightarrow> outbox_event" where
  "paymentEvent rt p st =
     new_outboxEvent (rt_uuid rt 4) (rt_now rt)
       (if st = P_SUCCEEDED then PAYMENT_SUCCEEDED else PAYMENT_FAILED) ''Payment'' (p_id p) (p_userId p)
       (JObj [(''paymentId'', JStr (p_id p)), (''reference'', JStr (p_reference p)),
              (''provider'', JStr (providerName (p_provider p))), (''walletId'', JStr (p_walletId p)),
              (''amountMinor'', JStr (js_showInt (p_amountMinor p))),
              (''currency'', JStr (currencyName (p_currency p)))])"

definition newProviderEvent :: "runtime \<Rightarrow> PaymentProvider \<Rightarrow> payment \<Rightarrow> verified_event \<Rightarrow> provider_event" where
  "newProviderEvent rt provider p event =
     \<lparr>pe_id = rt_uuid rt 0, pe_paymentId = p_id p, pe_provider = provider,
      pe_eventId = ve_eventId event, pe_payloadHash = ve_payloadHash event,
      pe_status = ve_status event, pe_createdAt = rt_now rt\<rparr>"

text \<open>\<open>data: { status, completedAt, ledgerTransactionId }\<close>; an undefined id leaves the column.\<close>

definition settledAs :: "PaymentStatus \<Rightarrow> time \<Rightarrow> uuid option \<Rightarrow> payment \<Rightarrow> payment" where
  "settledAs st now ltid p =
     p\<lparr>p_status := st,
       p_ledgerTransactionId := (case ltid of None \<Rightarrow> p_ledgerTransactionId p | Some l \<Rightarrow> Some l),
       p_completedAt := Some now\<rparr>"

definition settleBody :: "runtime \<Rightarrow> verified_event \<Rightarrow> PaymentProvider \<Rightarrow> (db, receipt) op" where
  "settleBody rt event provider =
     andThen (query (\<lambda>d. findRow (\<lambda>p. p_provider p = provider \<and> p_reference p = ve_reference event)
       (payments d))) (\<lambda>found.
     case found of
       None \<Rightarrow> raise (NotFound ''Unknown provider reference'')
     | Some p \<Rightarrow>
         andThen (require (js_showInt (p_amountMinor p) = ve_amountMinor event \<and>
             p_currency p = ve_currency event)
           (Conflict ''Provider amount or currency does not match payment intent'')) (\<lambda>_.
         andThen (query (\<lambda>d. findRow (\<lambda>e. pe_provider e = provider \<and> pe_eventId e = ve_eventId event)
           (providerEvents d))) (\<lambda>existing.
         case existing of
           Some e \<Rightarrow>
             andThen (require (pe_payloadHash e = ve_payloadHash event \<and> pe_paymentId e = p_id p)
               (Conflict ''Provider event identity was reused'')) (\<lambda>_.
             return (Settled (p_id p) (p_status p)))
         | None \<Rightarrow>
             andThen (require (p_status p = P_PENDING \<or> p_status p = ve_status event)
               (Conflict ''Conflicting terminal provider outcome'')) (\<lambda>_.
             andThen (set_config ''app.payment_write'') (\<lambda>_.
             andThen (create_providerEvent (newProviderEvent rt provider p event)) (\<lambda>_.
             if p_status p \<noteq> P_PENDING then return (Settled (p_id p) (p_status p))
             else
               andThen (if ve_status event = P_SUCCEEDED
                        then andThen (fundWallet rt p) (\<lambda>l. return (Some l))
                        else return None) (\<lambda>ledgerTransactionId.
               andThen (update_payment (p_id p)
                 (settledAs (ve_status event) (rt_now rt) ledgerTransactionId)) (\<lambda>_.
               andThen (create_outboxEvent (\<lambda>k. rt_uuid rt (5 + k)) (rt_now rt)
                 (paymentEvent rt p (ve_status event))) (\<lambda>_.
               return (Settled (p_id p) (ve_status event)))))))))))"

record settle_attempt =
  sa_runtime :: runtime
  sa_abort :: "exn option"
  sa_others :: "db \<Rightarrow> db"

definition settle :: "settle_attempt \<Rightarrow> verified_event \<Rightarrow> PaymentProvider \<Rightarrow> (db, receipt) op" where
  "settle sa event provider =
     andThen (modify (sa_others sa)) (\<lambda>_.
     prisma_transaction (sa_abort sa) (settleBody (sa_runtime sa) event provider))"

definition transientError :: "exn \<Rightarrow> bool" where
  "transientError e \<longleftrightarrow>
     (case e of PrismaKnownError c meta \<Rightarrow>
        c = ''P2034'' \<or> c = ''P2002'' \<or> (c = ''P2010'' \<and> meta = Some ''40001'')
      | _ \<Rightarrow> False)"

text \<open>The loop over at most three attempts, from attempt \<open>k\<close>.\<close>

function settleFrom ::
  "nat \<Rightarrow> (nat \<Rightarrow> settle_attempt) \<Rightarrow> verified_event \<Rightarrow> PaymentProvider \<Rightarrow> (db, receipt) op" where
  "settleFrom k env event provider =
     (if k < 3 then
        tryCatch (settle (env k) event provider) (\<lambda>e.
          if \<not> transientError e then raise e
          else if k = 2 then raise (ServiceUnavailable ''Concurrent payment settlement; retry callback'')
          else settleFrom (Suc k) env event provider)
      else raise (ServiceUnavailable ''Retry callback''))"
  by pat_completeness auto
termination
  by (relation "measure (\<lambda>(k, _). 3 - k)") auto

declare settleFrom.simps [simp del]

definition settleVerified ::
  "(nat \<Rightarrow> settle_attempt) \<Rightarrow> verified_event \<Rightarrow> PaymentProvider \<Rightarrow> (db, receipt) op" where
  "settleVerified = settleFrom 0"

section \<open>Entry points\<close>

definition paymentsReceive ::
  "(nat \<Rightarrow> settle_attempt) \<Rightarrow> provider_env \<Rightarrow> string \<Rightarrow> string option \<Rightarrow> string option \<Rightarrow> (db, receipt) op" where
  "paymentsReceive env pv rawBody timestamp signature =
     andThen (lift (mockVerify (sa_runtime (env 0)) pv rawBody timestamp signature)) (\<lambda>event.
     settleVerified env event MOCK)"

definition receivePaystack ::
  "(nat \<Rightarrow> settle_attempt) \<Rightarrow> provider_env \<Rightarrow> string \<Rightarrow> string option \<Rightarrow> (db, receipt) op" where
  "receivePaystack env pv rawBody signature =
     andThen (lift (webhookReference pv rawBody signature)) (\<lambda>reference.
     case reference of
       None \<Rightarrow> return Received
     | Some reference \<Rightarrow>
         andThen (query (\<lambda>d. findRow (\<lambda>p. p_provider p = PAYSTACK \<and> p_reference p = reference)
           (payments d))) (\<lambda>payment.
         case payment of
           None \<Rightarrow> return Received
         | Some p \<Rightarrow>
             andThen (lift (paystackReconcile (sa_runtime (env 0)) pv (p_reference p))) (\<lambda>event.
             case event of
               None \<Rightarrow> raise (ServiceUnavailable ''Provider has not confirmed success; retry webhook'')
             | Some event \<Rightarrow> settleVerified env event PAYSTACK)))"

definition paymentsFindOne :: "uuid \<Rightarrow> uuid \<Rightarrow> (db, payment_response) op" where
  "paymentsFindOne userId pid =
     andThen (query (\<lambda>d. findRow (\<lambda>p. p_id p = pgUuid pid \<and> p_userId p = userId) (payments d))) (\<lambda>payment.
     case payment of None \<Rightarrow> raise (NotFound ''Payment not found'')
     | Some p \<Rightarrow> return (toPaymentResponse p))"

definition paymentsReconcile ::
  "(nat \<Rightarrow> settle_attempt) \<Rightarrow> provider_env \<Rightarrow> uuid \<Rightarrow> uuid \<Rightarrow> (db, payment_response) op" where
  "paymentsReconcile env pv userId pid =
     andThen (query (\<lambda>d. findRow (\<lambda>p. p_id p = pgUuid pid \<and> p_userId p = userId) (payments d))) (\<lambda>payment.
     case payment of
       None \<Rightarrow> raise (NotFound ''Payment not found'')
     | Some p \<Rightarrow>
         andThen (require (p_provider p = PAYSTACK)
           (BadRequest ''Reconciliation requires a Paystack payment'')) (\<lambda>_.
         andThen
           (if p_status p = P_PENDING then
              andThen (lift (paystackReconcile (sa_runtime (env 0)) pv (p_reference p))) (\<lambda>event.
              case event of
                None \<Rightarrow> return ()
              | Some event \<Rightarrow> andThen (settleVerified env event PAYSTACK) (\<lambda>_. return ()))
            else return ()) (\<lambda>_.
         paymentsFindOne userId pid)))"

section \<open>Listings\<close>

definition paymentsList :: "uuid \<Rightarrow> nat \<Rightarrow> uuid option \<Rightarrow> (db, payment_response page) op" where
  "paymentsList userId limit cursor =
     andThen (query (\<lambda>d. existsRow (\<lambda>p. Some (p_id p) = map_option pgUuid cursor \<and> p_userId p = userId) (payments d))) (\<lambda>known.
     andThen (require (\<not> truthy cursor \<or> known) (BadRequest ''Invalid payment cursor'')) (\<lambda>_.
     query (\<lambda>d. makePage p_id toPaymentResponse limit
       (findManyDesc (\<lambda>p. (p_createdAt p, p_id p)) (limit + 1) (if truthy cursor then map_option pgUuid cursor else None)
         (filter (\<lambda>p. p_userId p = userId) (payments d))))))"

text \<open>The columns of the \<open>select\<close>.\<close>

record event_response =
  ev_id :: uuid
  ev_eventId :: string
  ev_provider :: PaymentProvider
  ev_status :: PaymentStatus
  ev_createdAt :: time

definition toEventResponse :: "provider_event \<Rightarrow> event_response" where
  "toEventResponse e = \<lparr>ev_id = pe_id e, ev_eventId = pe_eventId e, ev_provider = pe_provider e,
     ev_status = pe_status e, ev_createdAt = pe_createdAt e\<rparr>"

definition paymentsEvents :: "uuid \<Rightarrow> uuid \<Rightarrow> nat \<Rightarrow> uuid option \<Rightarrow> (db, event_response page) op" where
  "paymentsEvents userId pid limit cursor =
     andThen (paymentsFindOne userId pid) (\<lambda>_.
     andThen (query (\<lambda>d. existsRow (\<lambda>e. Some (pe_id e) = map_option pgUuid cursor \<and> pe_paymentId e = pgUuid pid)
       (providerEvents d))) (\<lambda>known.
     andThen (require (\<not> truthy cursor \<or> known) (BadRequest ''Invalid event cursor'')) (\<lambda>_.
     query (\<lambda>d. makePage pe_id toEventResponse limit
       (findManyDesc (\<lambda>e. (pe_createdAt e, pe_id e)) (limit + 1) (if truthy cursor then map_option pgUuid cursor else None)
         (filter (\<lambda>e. pe_paymentId e = pgUuid pid) (providerEvents d)))))))"

end
