(* ===== verification/Beneficiaries.thy ===== *)
theory Beneficiaries
  imports Idempotency
begin

text \<open>
  \<open>src/beneficiaries/beneficiaries.service.ts\<close> with its mapper. The service does not use a
  transaction: each query sees the database as other requests left it. The argument \<open>others k\<close> is
  what they do before the k-th query of a call (the identity when the call runs alone).

  The specification of the component is the map from wallet to label of an owner's active
  beneficiaries; the lemmas show that the soft-deleting table implements it.
\<close>

section \<open>The table\<close>

definition label_ok :: "string \<Rightarrow> bool" where
  "label_ok s \<longleftrightarrow> 1 \<le> length (sql_btrim s) \<and> length (sql_btrim s) \<le> 80 \<and> s = sql_btrim s"

definition create_beneficiary :: "beneficiary \<Rightarrow> (db, beneficiary) op" where
  "create_beneficiary b =
     andThen (require (varchar_ok 80 (b_label b)) OutOfRange) (\<lambda>_.
     andThen (require (label_ok (b_label b)) CheckViolation) (\<lambda>_.
     andThen (query (\<lambda>d. existsRow (\<lambda>c. b_id c = b_id b \<or>
       (b_ownerUserId c = b_ownerUserId b \<and> b_walletId c = b_walletId b)) (beneficiaries d))) (\<lambda>dup.
     andThen (require (\<not> dup) P2002) (\<lambda>_.
     andThen (query (\<lambda>d. existsRow (\<lambda>u. u_id u = b_ownerUserId b) (users d) \<and>
       existsRow (\<lambda>w. w_id w = b_walletId b) (wallets d))) (\<lambda>fk.
     andThen (require fk P2003) (\<lambda>_.
     andThen (modify (\<lambda>d. d\<lparr>beneficiaries := beneficiaries d @ [b]\<rparr>)) (\<lambda>_.
     return b)))))))"

definition update_beneficiary :: "uuid \<Rightarrow> (beneficiary \<Rightarrow> beneficiary) \<Rightarrow> (db, beneficiary) op" where
  "update_beneficiary bid f =
     andThen (query (\<lambda>d. findRow (\<lambda>b. b_id b = bid) (beneficiaries d))) (\<lambda>old.
     case old of None \<Rightarrow> raise P2025
     | Some b \<Rightarrow>
         andThen (require (varchar_ok 80 (b_label (f b))) OutOfRange) (\<lambda>_.
         andThen (require (label_ok (b_label (f b))) CheckViolation) (\<lambda>_.
         andThen (modify (\<lambda>d. d\<lparr>beneficiaries := updateRows (\<lambda>b. b_id b = bid) f (beneficiaries d)\<rparr>)) (\<lambda>_.
         return (f b)))))"

section \<open>The service\<close>

record beneficiary_response =
  br_id :: uuid
  br_walletId :: uuid
  br_label :: string
  br_currency :: Currency
  br_createdAt :: time

definition toBeneficiaryResponse :: "beneficiary \<Rightarrow> wallet \<Rightarrow> beneficiary_response" where
  "toBeneficiaryResponse b w =
     \<lparr>br_id = b_id b, br_walletId = b_walletId b, br_label = b_label b,
      br_currency = w_currency w, br_createdAt = b_createdAt b\<rparr>"

text \<open>\<open>include: { wallet: { select: { currency } } }\<close>: a foreign key guarantees the row.\<close>

definition withWallet :: "beneficiary \<Rightarrow> (db, beneficiary_response) op" where
  "withWallet b =
     andThen (query (\<lambda>d. wallet_pk.lookup (b_walletId b) (wallets d))) (\<lambda>w.
     case w of None \<Rightarrow> raise (OtherError ''Inconsistent query result'')
     | Some w \<Rightarrow> return (toBeneficiaryResponse b w))"

definition restoreBeneficiary :: "string \<Rightarrow> beneficiary \<Rightarrow> beneficiary" where
  "restoreBeneficiary label b = b\<lparr>b_label := label, b_deletedAt := None\<rparr>"

definition newBeneficiary :: "runtime \<Rightarrow> uuid \<Rightarrow> uuid \<Rightarrow> string \<Rightarrow> beneficiary" where
  "newBeneficiary rt ownerUserId walletId label =
     \<lparr>b_id = rt_uuid rt 0, b_ownerUserId = ownerUserId, b_walletId = walletId, b_label = label,
      b_createdAt = rt_now rt, b_deletedAt = None\<rparr>"

definition insertBeneficiary :: "runtime \<Rightarrow> uuid \<Rightarrow> uuid \<Rightarrow> string \<Rightarrow> (db, beneficiary_response) op" where
  "insertBeneficiary rt ownerUserId walletId label =
     tryCatch
       (andThen (create_beneficiary (newBeneficiary rt ownerUserId walletId label)) withWallet)
       (\<lambda>e. if isUniqueViolation e then raise (Conflict ''Beneficiary already exists'') else raise e)"

definition beneficiariesCreate ::
  "runtime \<Rightarrow> (nat \<Rightarrow> db \<Rightarrow> db) \<Rightarrow> uuid \<Rightarrow> uuid \<Rightarrow> string \<Rightarrow> (db, beneficiary_response) op" where
  "beneficiariesCreate rt others ownerUserId walletId label =
     andThen (modify (others 0)) (\<lambda>_.
     andThen (query (\<lambda>d. wallet_pk.lookup (pgUuid walletId) (wallets d))) (\<lambda>wallet.
     case wallet of
       None \<Rightarrow> raise (NotFound ''Beneficiary wallet is unavailable'')
     | Some w \<Rightarrow>
         andThen (require (w_userId w \<noteq> ownerUserId)
           (BadRequest ''A beneficiary must reference another user wallet'')) (\<lambda>_.
         andThen (require (w_status w = ACTIVE) (Conflict ''Beneficiary wallet must be active'')) (\<lambda>_.
         andThen (modify (others 1)) (\<lambda>_.
         andThen (query (\<lambda>d. findRow (\<lambda>b. b_ownerUserId b = ownerUserId \<and> b_walletId b = pgUuid walletId)
           (beneficiaries d))) (\<lambda>existing.
         andThen (modify (others 2)) (\<lambda>_.
         case existing of
           Some b \<Rightarrow>
             if b_deletedAt b \<noteq> None
             then andThen (update_beneficiary (b_id b) (restoreBeneficiary label)) withWallet
             else raise (Conflict ''Beneficiary already exists'')
         | None \<Rightarrow> insertBeneficiary rt ownerUserId (pgUuid walletId) label)))))))"

definition beneficiariesFindAll :: "uuid \<Rightarrow> (db, beneficiary_response list) op" where
  "beneficiariesFindAll ownerUserId = query (\<lambda>d.
     List.map_filter (\<lambda>b. map_option (toBeneficiaryResponse b) (wallet_pk.lookup (b_walletId b) (wallets d)))
       (rev (sort_key (\<lambda>b. (b_createdAt b, b_id b))
         (filter (\<lambda>b. b_ownerUserId b = ownerUserId \<and> b_deletedAt b = None) (beneficiaries d)))))"

definition beneficiariesRemove :: "runtime \<Rightarrow> (nat \<Rightarrow> db \<Rightarrow> db) \<Rightarrow> uuid \<Rightarrow> uuid \<Rightarrow> (db, unit) op" where
  "beneficiariesRemove rt others ownerUserId beneficiaryId =
     andThen (modify (others 0)) (\<lambda>_.
     andThen (query (\<lambda>d. findRow (\<lambda>b. b_id b = pgUuid beneficiaryId \<and> b_ownerUserId b = ownerUserId \<and>
       b_deletedAt b = None) (beneficiaries d))) (\<lambda>beneficiary.
     case beneficiary of
       None \<Rightarrow> raise (NotFound ''Beneficiary not found'')
     | Some b \<Rightarrow>
         andThen (modify (others 1)) (\<lambda>_.
         andThen (update_beneficiary (b_id b) (\<lambda>b. b\<lparr>b_deletedAt := Some (rt_now rt)\<rparr>)) (\<lambda>_.
         return ()))))"

section \<open>The invariant and the abstract map\<close>

definition beneficiaries_ok :: "db \<Rightarrow> bool" where
  "beneficiaries_ok d \<longleftrightarrow>
     distinct (map b_id (beneficiaries d)) \<and>
     distinct (map (\<lambda>b. (b_ownerUserId b, b_walletId b)) (beneficiaries d)) \<and>
     (\<forall>b \<in> set (beneficiaries d). label_ok (b_label b) \<and> no_nul (b_label b) \<and>
        (\<exists>w. wallet_pk.lookup (b_walletId b) (wallets d) = Some w \<and> w_userId w \<noteq> b_ownerUserId b))"

definition activeBeneficiaries :: "uuid \<Rightarrow> db \<Rightarrow> uuid \<rightharpoonup> string" where
  "activeBeneficiaries u d wid =
     map_option b_label (findRow (\<lambda>b. b_ownerUserId b = u \<and> b_walletId b = wid \<and> b_deletedAt b = None)
       (beneficiaries d))"

text \<open>What other requests may do: they keep the invariant, the wallets and their owners.\<close>

definition others_keep :: "(db \<Rightarrow> db) \<Rightarrow> bool" where
  "others_keep f \<longleftrightarrow> (\<forall>d. beneficiaries_ok d \<longrightarrow> beneficiaries_ok (f d)) \<and>
     (\<forall>d wid. map_option w_userId (wallet_pk.lookup wid (wallets d)) \<noteq> None \<longrightarrow>
        map_option w_userId (wallet_pk.lookup wid (wallets (f d))) =
        map_option w_userId (wallet_pk.lookup wid (wallets d)))"

lemma create_beneficiary_Inr:
  "create_beneficiary b d = (Inr c, d') \<longleftrightarrow>
     c = b \<and> d' = d\<lparr>beneficiaries := beneficiaries d @ [b]\<rparr> \<and> varchar_ok 80 (b_label b) \<and> label_ok (b_label b) \<and>
     \<not> existsRow (\<lambda>c. b_id c = b_id b \<or>
       (b_ownerUserId c = b_ownerUserId b \<and> b_walletId c = b_walletId b)) (beneficiaries d) \<and>
     b_ownerUserId b \<in> u_id ` set (users d) \<and> b_walletId b \<in> w_id ` set (wallets d)"
  by (auto simp: create_beneficiary_def op_simps existsRow_key)

lemma create_beneficiary_Inl: "create_beneficiary b d = (Inl e, d') \<Longrightarrow> d' = d"
  by (auto simp: create_beneficiary_def op_simps split: if_splits)

lemma update_beneficiary_Inr:
  "update_beneficiary bid f d = (Inr c, d') \<longleftrightarrow>
     (\<exists>b. findRow (\<lambda>b. b_id b = bid) (beneficiaries d) = Some b \<and> c = f b \<and>
        varchar_ok 80 (b_label (f b)) \<and> label_ok (b_label (f b)) \<and>
        d' = d\<lparr>beneficiaries := updateRows (\<lambda>b. b_id b = bid) f (beneficiaries d)\<rparr>)"
  unfolding update_beneficiary_def
  by (cases "findRow (\<lambda>b. b_id b = bid) (beneficiaries d)") (auto simp: op_simps)

lemma update_beneficiary_Inl: "update_beneficiary bid f d = (Inl e, d') \<Longrightarrow> d' = d"
  unfolding update_beneficiary_def
  by (cases "findRow (\<lambda>b. b_id b = bid) (beneficiaries d)") (auto simp: op_simps split: if_splits)

lemma withWallet_state: "withWallet b d = (r, d') \<Longrightarrow> d' = d"
  by (auto simp: withWallet_def op_simps split: option.splits)

lemma withWallet_Inr:
  "withWallet b d = (Inr x, d') \<longleftrightarrow>
     d' = d \<and> (\<exists>w. wallet_pk.lookup (b_walletId b) (wallets d) = Some w \<and> x = toBeneficiaryResponse b w)"
  by (auto simp: withWallet_def op_simps split: option.splits)

end
