(* ===== verification/AuditTrail.thy ===== *)
theory AuditTrail
  imports Pagination Idempotency Samples
begin

text \<open>
  \<open>src/audit/audit.service.ts\<close> with its mapper: the audit entries of a user, page by page.
\<close>

record audit_response =
  ar_id :: uuid
  ar_action :: AuditAction
  ar_transferId :: uuid
  ar_reversalId :: "uuid option"
  ar_createdAt :: time

definition toAuditLogResponse :: "audit_log \<Rightarrow> audit_response" where
  "toAuditLogResponse a = \<lparr>ar_id = al_id a, ar_action = al_action a, ar_transferId = al_transferId a,
     ar_reversalId = al_reversalId a, ar_createdAt = al_createdAt a\<rparr>"

definition auditFindAllForUser :: "uuid \<Rightarrow> nat \<Rightarrow> uuid option \<Rightarrow> (db, audit_response page) op" where
  "auditFindAllForUser actorUserId limit cursor =
     andThen (query (\<lambda>d. existsRow (\<lambda>a. Some (al_id a) = map_option pgUuid cursor \<and> al_actorUserId a = actorUserId)
       (auditLogs d))) (\<lambda>known.
     andThen (require (\<not> truthy cursor \<or> known)
       (BadRequest ''Audit cursor is invalid for the authenticated user'')) (\<lambda>_.
     query (\<lambda>d. makePage al_id toAuditLogResponse limit
       (findManyDesc (\<lambda>a. (al_createdAt a, al_id a)) (limit + 1) (if truthy cursor then map_option pgUuid cursor else None)
         (filter (\<lambda>a. al_actorUserId a = actorUserId) (auditLogs d))))))"

text \<open>A client that follows the cursors of the audit listing over an unchanged database receives every
  audit entry of the user and of nobody else, each exactly once, newest first; a cursor that is not an
  entry of the user is refused.\<close>

theorem audit_complete:
  assumes "0 < limit" "distinct (map al_id (auditLogs d))" "\<forall>a \<in> set (auditLogs d). al_id a \<noteq> [] \<and> pgUuid (al_id a) = al_id a"
    "length (auditLogs d) < n"
  shows "followPages n (\<lambda>c. case fst (auditFindAllForUser u limit c d) of Inl _ \<Rightarrow> None | Inr p \<Rightarrow> Some p) None =
      Some (map toAuditLogResponse
        (rev (sort_key (\<lambda>a. (al_createdAt a, al_id a)) (filter (\<lambda>a. al_actorUserId a = u) (auditLogs d))))) \<and>
    (c \<noteq> [] \<and> (\<forall>a \<in> set (auditLogs d). al_id a = pgUuid c \<longrightarrow> al_actorUserId a \<noteq> u) \<longrightarrow>
      auditFindAllForUser u limit (Some c) d =
        (Inl (BadRequest ''Audit cursor is invalid for the authenticated user''), d))"
proof
  let ?rows = "filter (\<lambda>a. al_actorUserId a = u) (auditLogs d)"
  show "followPages n (\<lambda>c. case fst (auditFindAllForUser u limit c d) of Inl _ \<Rightarrow> None | Inr p \<Rightarrow> Some p) None =
      Some (map toAuditLogResponse (rev (sort_key (\<lambda>a. (al_createdAt a, al_id a)) ?rows)))"
  proof (rule follow_all)
    show "0 < limit" by fact
    show "distinct (map (snd \<circ> (\<lambda>a. (al_createdAt a, al_id a))) ?rows)"
      using assms(2) by (simp add: comp_def distinct_map_filter)
    show "length ?rows < n" using assms(4) by (meson le_less_trans length_filter_le)
    fix c assume "c = None \<or> (\<exists>r \<in> set ?rows. c = Some (snd (al_createdAt r, al_id r)))"
    then have "(if truthy c then map_option pgUuid c else None) = c"
      "truthy c \<longrightarrow> existsRow (\<lambda>a. Some (al_id a) = map_option pgUuid c \<and> al_actorUserId a = u) (auditLogs d)"
      using assms(3) by (auto simp: truthy_def existsRow_iff)
    then show "(case fst (auditFindAllForUser u limit c d) of Inl _ \<Rightarrow> None | Inr p \<Rightarrow> Some p) =
        Some (makePage (snd \<circ> (\<lambda>a. (al_createdAt a, al_id a))) toAuditLogResponse limit
          (findManyDesc (\<lambda>a. (al_createdAt a, al_id a)) (Suc limit) c ?rows))"
      by (simp add: auditFindAllForUser_def op_simps comp_def)
  qed
  show "c \<noteq> [] \<and> (\<forall>a \<in> set (auditLogs d). al_id a = pgUuid c \<longrightarrow> al_actorUserId a \<noteq> u) \<longrightarrow>
      auditFindAllForUser u limit (Some c) d =
        (Inl (BadRequest ''Audit cursor is invalid for the authenticated user''), d)"
    by (auto simp: auditFindAllForUser_def op_simps truthy_def existsRow_iff)
qed

definition entry :: "uuid \<Rightarrow> time \<Rightarrow> audit_log" where
  "entry i t = \<lparr>al_id = i, al_actorUserId = ''u1'', al_action = TRANSFER_CREATED, al_transferId = i,
     al_reversalId = None, al_createdAt = t\<rparr>"

lemma audit_complete_witness:
  "followPages 3 (\<lambda>c. case fst (auditFindAllForUser ''u1'' 1 c (db0\<lparr>auditLogs := [entry ''x'' 1, entry ''y'' 2]\<rparr>))
      of Inl _ \<Rightarrow> None | Inr p \<Rightarrow> Some p) None =
    Some [toAuditLogResponse (entry ''y'' 2), toAuditLogResponse (entry ''x'' 1)]"
proof -
  let ?d = "db0\<lparr>auditLogs := [entry ''x'' 1, entry ''y'' 2]\<rparr>"
  have h: "distinct (map al_id (auditLogs ?d))" "\<forall>a \<in> set (auditLogs ?d). al_id a \<noteq> [] \<and> pgUuid (al_id a) = al_id a" "length (auditLogs ?d) < 3"
    "rev (sort_key (\<lambda>a. (al_createdAt a, al_id a)) (filter (\<lambda>a. al_actorUserId a = ''u1'') (auditLogs ?d))) =
      [entry ''y'' 2, entry ''x'' 1]"
    by (simp_all add: entry_def pgUuid_def js_toLowerCase_def js_lower_def)
  from audit_complete [OF _ h(1-3), of 1 "''u1''" "''z''"] show ?thesis unfolding h(4) by simp
qed

end
