(* ===== verification/WebhookTransport.thy ===== *)
theory WebhookTransport
  imports Commit "HOL-Library.Word"
begin

text \<open>
  \<open>src/webhooks/webhook-transport.service.ts\<close> and \<open>webhook-crypto.service.ts\<close>: which endpoints a
  webhook may name, the pinned request with its deadline, and the sealing and signing of secrets.

  The platform is an argument: the URL parser of Node, DNS and the HTTPS client with the
  milliseconds they take, AES-GCM, HMAC and base64.
\<close>

section \<open>IPv4 addresses\<close>

text \<open>One number of a dotted address as \<open>isIP\<close> reads it: decimal, at most 255, no leading zero.\<close>

definition octet :: "string \<Rightarrow> nat option" where
  "octet s = (if length s \<le> 3 \<and> (hd s = CHR ''0'' \<longrightarrow> length s = 1) \<and> list_all isDigit s
              then case parseDigits 10 s of Some n \<Rightarrow> if n \<le> 255 then Some n else None | None \<Rightarrow> None
              else None)"

definition ipv4Word :: "nat \<Rightarrow> nat \<Rightarrow> nat \<Rightarrow> nat \<Rightarrow> 32 word" where
  "ipv4Word a b c e = of_nat (((a * 256 + b) * 256 + c) * 256 + e)"

definition parseIPv4 :: "string \<Rightarrow> 32 word option" where
  "parseIPv4 s =
     (case map octet (splitOn (CHR ''.'') s) of
        [Some a, Some b, Some c, Some e] \<Rightarrow> Some (ipv4Word a b c e)
      | _ \<Rightarrow> None)"

definition blockedSubnets :: "(string \<times> nat) list" where
  "blockedSubnets =
     [(''0.0.0.0'', 8), (''10.0.0.0'', 8), (''100.64.0.0'', 10), (''127.0.0.0'', 8),
      (''169.254.0.0'', 16), (''172.16.0.0'', 12), (''192.0.0.0'', 24), (''192.0.2.0'', 24),
      (''192.88.99.0'', 24), (''192.168.0.0'', 16), (''198.18.0.0'', 15), (''198.51.100.0'', 24),
      (''203.0.113.0'', 24), (''224.0.0.0'', 4), (''240.0.0.0'', 4)]"

text \<open>\<open>BlockList.check\<close>: the first \<open>prefix\<close> bits agree with those of a subnet.\<close>

definition inSubnet :: "32 word \<Rightarrow> string \<times> nat \<Rightarrow> bool" where
  "inSubnet w subnet =
     (case parseIPv4 (fst subnet) of
        None \<Rightarrow> False
      | Some net \<Rightarrow> drop_bit (32 - snd subnet) w = drop_bit (32 - snd subnet) net)"

definition isPublicIPv4 :: "string \<Rightarrow> bool" where
  "isPublicIPv4 address =
     (case parseIPv4 address of None \<Rightarrow> False | Some w \<Rightarrow> \<not> list_ex (inSubnet w) blockedSubnets)"

definition dotted :: "nat \<Rightarrow> nat \<Rightarrow> nat \<Rightarrow> nat \<Rightarrow> string" where
  "dotted a b c e = showNat a @ ''.'' @ showNat b @ ''.'' @ showNat c @ ''.'' @ showNat e"

section \<open>Endpoints\<close>

datatype transport_code = UNSAFE_ENDPOINT | TIMEOUT | NETWORK_ERROR

fun codeName :: "transport_code \<Rightarrow> string" where
  "codeName UNSAFE_ENDPOINT = ''UNSAFE_ENDPOINT''"
| "codeName TIMEOUT = ''TIMEOUT''"
| "codeName NETWORK_ERROR = ''NETWORK_ERROR''"

text \<open>The parts of a parsed \<open>URL\<close> the code reads.\<close>

record js_url =
  url_protocol :: string
  url_hostname :: string
  url_port :: string
  url_username :: string
  url_password :: string
  url_hash :: string

text \<open>What the HTTPS request ends with: a response, whose status may be undefined, or an error.\<close>

datatype http_reply = Reply "nat option" | SocketError

record network =
  net_URL :: "string \<Rightarrow> js_url option"
  net_isIPv6 :: "string \<Rightarrow> bool"
  net_lookup :: "string \<Rightarrow> nat \<times> string list option"
  net_request :: "js_url \<Rightarrow> string \<Rightarrow> (string \<times> string) list \<Rightarrow> string \<Rightarrow> nat \<times> http_reply"

definition alnumLabel :: "string \<Rightarrow> bool" where
  "alnumLabel s \<longleftrightarrow> s \<noteq> [] \<and> isAlnum (hd s) \<and> isAlnum (last s) \<and>
     list_all (\<lambda>c. isAlnum c \<or> c = CHR ''-'') s"

definition dnsName :: "string \<Rightarrow> bool" where
  "dnsName s \<longleftrightarrow> 2 \<le> length (splitOn (CHR ''.'') s) \<and> list_all alnumLabel (splitOn (CHR ''.'') s)"

definition parseEndpoint :: "network \<Rightarrow> string \<Rightarrow> transport_code + js_url" where
  "parseEndpoint net raw =
     (case net_URL net raw of
        None \<Rightarrow> Inl UNSAFE_ENDPOINT
      | Some url \<Rightarrow>
          if 2048 < length raw \<or> url_protocol url \<noteq> ''https:'' \<or>
             (url_port url \<noteq> [] \<and> url_port url \<noteq> ''443'') \<or>
             url_username url \<noteq> [] \<or> url_password url \<noteq> [] \<or> url_hash url \<noteq> [] \<or>
             parseIPv4 (url_hostname url) \<noteq> None \<or> net_isIPv6 net (url_hostname url) \<or>
             \<not> dnsName (url_hostname url)
          then Inl UNSAFE_ENDPOINT else Inr url)"

text \<open>A promise is the time it takes to settle with its result; \<open>None\<close> is an error that is not a
  \<open>WebhookTransportError\<close>.\<close>

type_synonym 'a promise = "nat \<times> (transport_code option + 'a)"

definition resolve :: "network \<Rightarrow> js_url \<Rightarrow> string promise" where
  "resolve net url =
     (case net_lookup net (url_hostname url) of
        (t, None) \<Rightarrow> (t, Inl None)
      | (t, Some addresses) \<Rightarrow>
          if addresses = [] \<or> list_ex (\<lambda>a. \<not> isPublicIPv4 a) addresses
          then (t, Inl (Some UNSAFE_ENDPOINT)) else (t, Inr (hd addresses)))"

text \<open>The race against the timer of 5000 ms.\<close>

definition DEADLINE :: nat where
  "DEADLINE = 5000"

definition withDeadline :: "'a promise \<Rightarrow> transport_code + 'a" where
  "withDeadline operation =
     (if DEADLINE \<le> fst operation then Inl TIMEOUT
      else case snd operation of
        Inl (Some why) \<Rightarrow> Inl why
      | Inl None \<Rightarrow> Inl NETWORK_ERROR
      | Inr x \<Rightarrow> Inr x)"

definition validateEndpoint :: "network \<Rightarrow> string \<Rightarrow> transport_code + unit" where
  "validateEndpoint net raw =
     (case parseEndpoint net raw of
        Inl why \<Rightarrow> Inl why
      | Inr url \<Rightarrow> withDeadline (case resolve net url of
            (t, Inl e) \<Rightarrow> (t, Inl e)
          | (t, Inr _) \<Rightarrow> (t, Inr ())))"

text \<open>\<open>Buffer.byteLength\<close> in UTF-8, for code units below 256.\<close>

definition byteLength :: "string \<Rightarrow> nat" where
  "byteLength s = sum_list (map (\<lambda>c. if code c < 128 then 1 else 2) s)"

definition pinnedRequest ::
  "network \<Rightarrow> js_url \<Rightarrow> string \<Rightarrow> (string \<times> string) list \<Rightarrow> string promise \<Rightarrow> nat promise" where
  "pinnedRequest net url body headers resolved =
     (case resolved of
        (t, Inl e) \<Rightarrow> (t, Inl e)
      | (t, Inr address) \<Rightarrow>
          if DEADLINE \<le> t then (t, Inl (Some TIMEOUT))
          else (case net_request net url address
                  (headers @ [(''Content-Type'', ''application/json''),
                     (''Content-Length'', showNat (byteLength body))]) body of
                  (t', Reply status) \<Rightarrow> (t + t', Inr (case status of None \<Rightarrow> 0 | Some s \<Rightarrow> s))
                | (t', SocketError) \<Rightarrow> (t + t', Inl None)))"

definition send :: "network \<Rightarrow> string \<Rightarrow> string \<Rightarrow> (string \<times> string) list \<Rightarrow> transport_code + nat" where
  "send net raw body headers =
     (case parseEndpoint net raw of
        Inl why \<Rightarrow> Inl why
      | Inr url \<Rightarrow> withDeadline (pinnedRequest net url body headers (resolve net url)))"

section \<open>Secrets\<close>

text \<open>
  \<open>node:crypto\<close>: random bytes, AES-256-GCM (key, nonce, text to tag and ciphertext, and back when
  the tag verifies), HMAC-SHA-256 in hex, base64. A byte is a character.
\<close>

record crypto =
  cr_encryptionKey :: "string option"
  cr_randomHex :: "nat \<Rightarrow> string"
  cr_randomBytes :: "nat \<Rightarrow> string"
  cr_seal :: "string \<Rightarrow> string \<Rightarrow> string \<Rightarrow> string \<times> string"
  cr_open :: "string \<Rightarrow> string \<Rightarrow> string \<Rightarrow> string \<Rightarrow> string option"
  cr_hmac :: "string \<Rightarrow> string \<Rightarrow> string"
  cr_base64 :: "string \<Rightarrow> string"
  cr_unbase64 :: "string \<Rightarrow> string"

definition hexChar :: "char \<Rightarrow> bool" where
  "hexChar c \<longleftrightarrow> digitVal c < 16"

definition signingEnabled :: "crypto \<Rightarrow> bool" where
  "signingEnabled cr =
     (case cr_encryptionKey cr of None \<Rightarrow> False | Some k \<Rightarrow> length k = 64 \<and> list_all hexChar k)"

fun unhex :: "string \<Rightarrow> string" where
  "unhex (a # b # cs) = char_of (16 * digitVal a + digitVal b) # unhex cs"
| "unhex _ = []"

definition cryptoKey :: "crypto \<Rightarrow> exn + string" where
  "cryptoKey cr =
     (case cr_encryptionKey cr of
        None \<Rightarrow> Inl (OtherError ''SIGNING_UNAVAILABLE'')
      | Some k \<Rightarrow> if signingEnabled cr then Inr (unhex k) else Inl (OtherError ''SIGNING_UNAVAILABLE''))"

definition generateSecret :: "crypto \<Rightarrow> string" where
  "generateSecret cr = cr_randomHex cr 32"

definition encryptSecret :: "crypto \<Rightarrow> string \<Rightarrow> exn + string" where
  "encryptSecret cr secret =
     ebind (cryptoKey cr) (\<lambda>key.
     let iv = cr_randomBytes cr 12; sealed = cr_seal cr key iv secret
     in Inr (cr_base64 cr (iv @ fst sealed @ snd sealed)))"

definition decryptSecret :: "crypto \<Rightarrow> string \<Rightarrow> exn + string" where
  "decryptSecret cr encrypted =
     (let data = cr_unbase64 cr encrypted in
      ebind (cryptoKey cr) (\<lambda>key.
      case cr_open cr key (take 12 data) (take 16 (drop 12 data)) (drop 28 data) of
        None \<Rightarrow> Inl (OtherError ''Unsupported state or unable to authenticate data'')
      | Some secret \<Rightarrow> Inr secret))"

definition signedText :: "string \<Rightarrow> string \<Rightarrow> string" where
  "signedText timestamp body = timestamp @ ''.'' @ body"

definition sign :: "crypto \<Rightarrow> string \<Rightarrow> string \<Rightarrow> string \<Rightarrow> string" where
  "sign cr secret timestamp body = ''v1='' @ cr_hmac cr secret (signedText timestamp body)"

end
