(* ===== verification/Webhooks.thy ===== *)
theory Webhooks
  imports WebhookTransport Pagination Idempotency
begin

text \<open>
  \<open>src/webhooks/webhooks.service.ts\<close> (subscriptions and their deliveries) and the database writes of
  the webhook tables, with their constraints.
\<close>

section \<open>Writes\<close>

interpretation subscription_pk: keyed ws_id .
interpretation delivery_pk: keyed wd_id .
interpretation event_pk: keyed e_id .

definition create_subscription :: "webhook_subscription \<Rightarrow> (db, webhook_subscription) op" where
  "create_subscription s =
     andThen (require (varchar_ok 2048 (ws_url s)) OutOfRange) (\<lambda>_.
     andThen (query (\<lambda>d. existsRow (\<lambda>r. ws_id r = ws_id s) (subscriptions d))) (\<lambda>dup.
     andThen (require (\<not> dup) P2002) (\<lambda>_.
     andThen (query (\<lambda>d. existsRow (\<lambda>u. u_id u = ws_userId s) (users d))) (\<lambda>fk.
     andThen (require fk P2003) (\<lambda>_.
     andThen (modify (\<lambda>d. d\<lparr>subscriptions := subscriptions d @ [s]\<rparr>)) (\<lambda>_.
     return s))))))"

text \<open>The check constraints of a delivery: the lease and the count of attempts.\<close>

definition delivery_row_ok :: "webhook_delivery \<Rightarrow> bool" where
  "delivery_row_ok v \<longleftrightarrow> wd_attemptCount v \<le> 5 \<and>
     (wd_status v = D_PROCESSING \<longrightarrow> wd_leaseToken v \<noteq> None \<and> wd_leaseUntil v \<noteq> None) \<and>
     (wd_status v \<noteq> D_PROCESSING \<longrightarrow> wd_leaseToken v = None \<and> wd_leaseUntil v = None)"

definition update_delivery :: "uuid \<Rightarrow> (webhook_delivery \<Rightarrow> webhook_delivery) \<Rightarrow> (db, unit) op" where
  "update_delivery vid f =
     andThen (query (\<lambda>d. delivery_pk.lookup vid (deliveries d))) (\<lambda>old.
     case old of
       None \<Rightarrow> raise P2025
     | Some v \<Rightarrow>
         andThen (require (delivery_row_ok (f v)) CheckViolation) (\<lambda>_.
         modify (\<lambda>d. d\<lparr>deliveries := delivery_pk.put vid f (deliveries d)\<rparr>)))"

text \<open>\<open>updateMany\<close> answers how many rows it changed; one row that violates a check aborts it.\<close>

definition updateMany_deliveries ::
  "(webhook_delivery \<Rightarrow> bool) \<Rightarrow> (webhook_delivery \<Rightarrow> webhook_delivery) \<Rightarrow> (db, nat) op" where
  "updateMany_deliveries p f =
     andThen (query (\<lambda>d. filter p (deliveries d))) (\<lambda>rows.
     andThen (require (list_all (\<lambda>v. delivery_row_ok (f v)) rows) CheckViolation) (\<lambda>_.
     andThen (modify (\<lambda>d. d\<lparr>deliveries := updateRows p f (deliveries d)\<rparr>)) (\<lambda>_.
     return (length rows))))"

definition updateMany_attempts ::
  "(webhook_attempt \<Rightarrow> bool) \<Rightarrow> (webhook_attempt \<Rightarrow> webhook_attempt) \<Rightarrow> (db, nat) op" where
  "updateMany_attempts p f =
     andThen (query (\<lambda>d. filter p (attempts d))) (\<lambda>rows.
     andThen (modify (\<lambda>d. d\<lparr>attempts := updateRows p f (attempts d)\<rparr>)) (\<lambda>_.
     return (length rows)))"

definition create_attempt :: "webhook_attempt \<Rightarrow> (db, unit) op" where
  "create_attempt a =
     andThen (require (1 \<le> wa_number a \<and> wa_number a \<le> 5) CheckViolation) (\<lambda>_.
     andThen (query (\<lambda>d. existsRow (\<lambda>b. wa_id b = wa_id a \<or>
       (wa_deliveryId b = wa_deliveryId a \<and> wa_number b = wa_number a)) (attempts d))) (\<lambda>dup.
     andThen (require (\<not> dup) P2002) (\<lambda>_.
     andThen (query (\<lambda>d. existsRow (\<lambda>v. wd_id v = wa_deliveryId a) (deliveries d))) (\<lambda>fk.
     andThen (require fk P2003) (\<lambda>_.
     modify (\<lambda>d. d\<lparr>attempts := attempts d @ [a]\<rparr>))))))"

definition findUniqueOrThrow :: "'r option \<Rightarrow> ('s, 'r) op" where
  "findUniqueOrThrow r = (case r of None \<Rightarrow> raise P2025 | Some x \<Rightarrow> return x)"

section \<open>The service\<close>

text \<open>The \<open>publicSubscription\<close> columns.\<close>

record subscription_response =
  sr_id :: uuid
  sr_url :: string
  sr_enabled :: bool
  sr_createdAt :: time

definition publicSubscription :: "webhook_subscription \<Rightarrow> subscription_response" where
  "publicSubscription s = \<lparr>sr_id = ws_id s, sr_url = ws_url s, sr_enabled = ws_enabled s,
     sr_createdAt = ws_createdAt s\<rparr>"

definition endpointError :: "transport_code \<Rightarrow> exn" where
  "endpointError why =
     (if why = UNSAFE_ENDPOINT then BadRequest ''A public HTTPS endpoint on port 443 is required''
      else ServiceUnavailable ''Endpoint DNS validation failed'')"

definition webhooksCreate ::
  "runtime \<Rightarrow> crypto \<Rightarrow> network \<Rightarrow> uuid \<Rightarrow> string \<Rightarrow> (db, subscription_response \<times> string) op" where
  "webhooksCreate rt cr net userId url =
     andThen (require (signingEnabled cr) (ServiceUnavailable ''Webhook signing is unavailable'')) (\<lambda>_.
     andThen (lift (case validateEndpoint net url of Inl why \<Rightarrow> Inl (endpointError why) | Inr u \<Rightarrow> Inr u)) (\<lambda>_.
     andThen (lift (encryptSecret cr (generateSecret cr))) (\<lambda>sealed.
     andThen (create_subscription \<lparr>ws_id = rt_uuid rt 0, ws_userId = userId, ws_url = url,
       ws_encryptedSecret = sealed, ws_enabled = True, ws_createdAt = rt_now rt\<rparr>) (\<lambda>s.
     return (publicSubscription s, generateSecret cr)))))"

definition webhooksList :: "uuid \<Rightarrow> (db, subscription_response list) op" where
  "webhooksList userId = query (\<lambda>d. map publicSubscription
     (rev (sort_key (\<lambda>s. (ws_createdAt s, ws_id s))
       (filter (\<lambda>s. ws_userId s = userId) (subscriptions d)))))"

definition openAttempt :: "webhook_attempt \<Rightarrow> bool" where
  "openAttempt a \<longleftrightarrow> wa_status a = A_QUEUED \<or> wa_status a = A_SENDING"

definition disableBody :: "runtime \<Rightarrow> uuid \<Rightarrow> uuid \<Rightarrow> (db, unit) op" where
  "disableBody rt userId sid =
     andThen (query (\<lambda>d. length (filter (\<lambda>s. ws_id s = pgUuid sid \<and> ws_userId s = userId) (subscriptions d)))) (\<lambda>n.
     andThen (modify (\<lambda>d. d\<lparr>subscriptions := updateRows (\<lambda>s. ws_id s = pgUuid sid \<and> ws_userId s = userId)
       (\<lambda>s. s\<lparr>ws_enabled := False\<rparr>) (subscriptions d)\<rparr>)) (\<lambda>_.
     andThen (require (n \<noteq> 0) (NotFound ''Webhook not found'')) (\<lambda>_.
     andThen (updateMany_deliveries
       (\<lambda>v. wd_subscriptionId v = pgUuid sid \<and> (wd_status v = D_PENDING \<or> wd_status v = D_PROCESSING))
       (\<lambda>v. v\<lparr>wd_status := D_CANCELLED, wd_leaseUntil := None, wd_leaseToken := None\<rparr>)) (\<lambda>_.
     andThen (query (\<lambda>d. map wd_id (filter (\<lambda>v. wd_subscriptionId v = pgUuid sid) (deliveries d)))) (\<lambda>ids.
     andThen (updateMany_attempts (\<lambda>a. wa_deliveryId a \<in> set ids \<and> openAttempt a)
       (\<lambda>a. a\<lparr>wa_status := A_CANCELLED, wa_completedAt := Some (rt_now rt)\<rparr>)) (\<lambda>_.
     return ()))))))"

definition webhooksDisable :: "exn option \<Rightarrow> runtime \<Rightarrow> uuid \<Rightarrow> uuid \<Rightarrow> (db, unit) op" where
  "webhooksDisable abort rt userId sid = prisma_transaction abort (disableBody rt userId sid)"

record attempt_response =
  wr_number :: nat
  wr_status :: WebhookAttemptStatus
  wr_httpStatus :: "nat option"
  wr_errorCode :: "string option"
  wr_createdAt :: time
  wr_completedAt :: "time option"

record delivery_response =
  dr_id :: uuid
  dr_outboxEventId :: uuid
  dr_status :: WebhookDeliveryStatus
  dr_attemptCount :: nat
  dr_createdAt :: time
  dr_availableAt :: time
  dr_attempts :: "attempt_response list"

definition toAttemptResponse :: "webhook_attempt \<Rightarrow> attempt_response" where
  "toAttemptResponse a = \<lparr>wr_number = wa_number a, wr_status = wa_status a,
     wr_httpStatus = wa_httpStatus a, wr_errorCode = wa_errorCode a, wr_createdAt = wa_createdAt a,
     wr_completedAt = wa_completedAt a\<rparr>"

definition attemptsOf :: "db \<Rightarrow> uuid \<Rightarrow> webhook_attempt list" where
  "attemptsOf d vid = filter (\<lambda>a. wa_deliveryId a = vid) (attempts d)"

definition toDeliveryResponse :: "db \<Rightarrow> webhook_delivery \<Rightarrow> delivery_response" where
  "toDeliveryResponse d v = \<lparr>dr_id = wd_id v, dr_outboxEventId = wd_outboxEventId v, dr_status = wd_status v,
     dr_attemptCount = wd_attemptCount v, dr_createdAt = wd_createdAt v, dr_availableAt = wd_availableAt v,
     dr_attempts = map toAttemptResponse (sort_key wa_number (attemptsOf d (wd_id v)))\<rparr>"

definition webhooksDeliveries ::
  "uuid \<Rightarrow> uuid \<Rightarrow> nat \<Rightarrow> uuid option \<Rightarrow> (db, delivery_response page) op" where
  "webhooksDeliveries userId sid limit cursor =
     andThen (query (\<lambda>d. existsRow (\<lambda>s. ws_id s = pgUuid sid \<and> ws_userId s = userId) (subscriptions d))) (\<lambda>mine.
     andThen (require mine (NotFound ''Webhook not found'')) (\<lambda>_.
     andThen (query (\<lambda>d. existsRow (\<lambda>v. Some (wd_id v) = map_option pgUuid cursor \<and> wd_subscriptionId v = pgUuid sid) (deliveries d))) (\<lambda>known.
     andThen (require (\<not> truthy cursor \<or> known) (BadRequest ''Invalid delivery cursor'')) (\<lambda>_.
     query (\<lambda>d. makePage wd_id (toDeliveryResponse d) limit
       (findManyDesc (\<lambda>v. (wd_createdAt v, wd_id v)) (limit + 1) (if truthy cursor then map_option pgUuid cursor else None)
         (filter (\<lambda>v. wd_subscriptionId v = pgUuid sid) (deliveries d))))))))"

end
