(* ===== verification/Api.thy ===== *)
theory Api
  imports Auth Transfers Reversals Payments Beneficiaries AuditTrail Webhooks
begin

text \<open>
  The HTTP interface: the controllers under \<open>src/\<close>, the guard in front of them and the rate guard of
  the authentication routes (\<open>src/operations/auth-rate.guard.ts\<close>). Bodies and queries are as the
  validation pipe of Nest lets them through; the UUID check of its parameter pipe is an argument.
\<close>

section \<open>The surroundings of a request\<close>

text \<open>What the Redis script answers: an error, something that is not a number, or the count.\<close>

datatype rate_reply = RedisError | NotNumber | Count int

text \<open>Everything a request depends on besides the database. Other requests change the database between
  the guard and the service (\<open>ap_others 0\<close>) and between the transactions of a service.\<close>

record api =
  ap_jwt :: jwt
  ap_scrypt :: scrypt
  ap_salt :: string
  ap_rate :: rate_reply
  ap_rateLimit :: int
  ap_guardError :: "exn option"
  ap_authorization :: "string option"
  ap_idempotencyKey :: "string option"
  ap_isUuid :: "string \<Rightarrow> bool"
  ap_runtime :: runtime
  ap_abort :: "exn option"
  ap_others :: "nat \<Rightarrow> db \<Rightarrow> db"
  ap_observed :: "nat \<Rightarrow> db"
  ap_provider :: provider_env
  ap_settlement :: "nat \<Rightarrow> settle_attempt"
  ap_crypto :: crypto
  ap_network :: network

definition mapResponse :: "('a \<Rightarrow> 'b) \<Rightarrow> (db, 'a) op \<Rightarrow> (db, 'b) op" where
  "mapResponse f m = andThen m (\<lambda>x. return (f x))"

text \<open>\<open>ParseUUIDPipe\<close> on a path parameter.\<close>

definition withUuid :: "api \<Rightarrow> string \<Rightarrow> (db, 'a) op \<Rightarrow> (db, 'a) op" where
  "withUuid ap s m = andThen (require (ap_isUuid ap s) (BadRequest ''Validation failed (uuid is expected)'')) (\<lambda>_. m)"

text \<open>\<open>@UseGuards(JwtAuthGuard)\<close> and \<open>@CurrentUser()\<close>.\<close>

definition guarded :: "api \<Rightarrow> (uuid \<Rightarrow> (db, 'a) op) \<Rightarrow> (db, 'a) op" where
  "guarded ap handler =
     andThen (canActivate (ap_jwt ap) (rt_now (ap_runtime ap)) (ap_guardError ap) (ap_authorization ap)) (\<lambda>caller.
     andThen (modify (ap_others ap 0)) (\<lambda>_. handler (au_id caller)))"

definition authRateGuard :: "api \<Rightarrow> (db, 'a) op \<Rightarrow> (db, 'a) op" where
  "authRateGuard ap m =
     (case ap_rate ap of
        Count n \<Rightarrow>
          if ap_rateLimit ap < n then raise (HttpException 429 ''Too many authentication attempts; retry later'') else m
      | _ \<Rightarrow> raise (ServiceUnavailable ''Authentication temporarily unavailable''))"

section \<open>The controllers\<close>

datatype api_response =
    RegisterR register_response | AuthR auth_response | ProfileR safe_user
  | WalletR wallet_response | WalletsR "wallet_response list"
  | BeneficiaryR beneficiary_response | BeneficiariesR "beneficiary_response list" | NoContent
  | TransferR transfer_response | TransfersR "transfer_response list" | ReversalR reversal_response
  | AuditR "audit_response page"
  | CheckoutR checkout_response | PaymentR payment_response | PaymentsR "payment_response page"
  | EventsR "event_response page" | ReceiptR receipt
  | WebhookR "subscription_response \<times> string" | WebhooksR "subscription_response list"
  | DeliveriesR "delivery_response page"

datatype auth_route = Register register_input | Login login_input | Me

fun authController :: "api \<Rightarrow> auth_route \<Rightarrow> (db, api_response) op" where
  "authController ap (Register input) = authRateGuard ap (mapResponse RegisterR
     (register (ap_scrypt ap) (ap_jwt ap) (ap_runtime ap) (ap_salt ap) (ap_others ap 0) (ap_abort ap) input))"
| "authController ap (Login input) = authRateGuard ap (mapResponse AuthR
     (login (ap_scrypt ap) (ap_jwt ap) (rt_now (ap_runtime ap)) input))"
| "authController ap Me = guarded ap (\<lambda>u. mapResponse ProfileR (getProfile u))"

datatype wallets_route = CreateWallet Currency | ListWallets | GetWallet uuid | CloseWallet uuid

fun walletsController :: "api \<Rightarrow> wallets_route \<Rightarrow> (db, api_response) op" where
  "walletsController ap (CreateWallet c) =
     guarded ap (\<lambda>u. mapResponse WalletR (walletsCreate (ap_runtime ap) (ap_abort ap) u c))"
| "walletsController ap ListWallets = guarded ap (\<lambda>u. mapResponse WalletsR (walletsFindAllForUser u))"
| "walletsController ap (GetWallet wid) =
     guarded ap (\<lambda>u. withUuid ap wid (mapResponse WalletR (walletsFindOneForUser u wid)))"
| "walletsController ap (CloseWallet wid) =
     guarded ap (\<lambda>u. withUuid ap wid (mapResponse WalletR
       (walletsClose (ap_runtime ap) (ap_abort ap) (ap_observed ap 0) u wid)))"

datatype beneficiaries_route = CreateBeneficiary uuid string | ListBeneficiaries | RemoveBeneficiary uuid

fun beneficiariesController :: "api \<Rightarrow> beneficiaries_route \<Rightarrow> (db, api_response) op" where
  "beneficiariesController ap (CreateBeneficiary wid label) =
     guarded ap (\<lambda>u. mapResponse BeneficiaryR (beneficiariesCreate (ap_runtime ap) (ap_others ap) u wid label))"
| "beneficiariesController ap ListBeneficiaries =
     guarded ap (\<lambda>u. mapResponse BeneficiariesR (beneficiariesFindAll u))"
| "beneficiariesController ap (RemoveBeneficiary bid) =
     guarded ap (\<lambda>u. withUuid ap bid (mapResponse (\<lambda>_. NoContent)
       (beneficiariesRemove (ap_runtime ap) (ap_others ap) u bid)))"

datatype transfers_route = CreateTransfer create_transfer_input | ListTransfers | GetTransfer uuid

fun transfersController :: "api \<Rightarrow> transfers_route \<Rightarrow> (db, api_response) op" where
  "transfersController ap (CreateTransfer input) =
     guarded ap (\<lambda>u. mapResponse TransferR
       (transfersCreate (ap_runtime ap) (ap_abort ap) (ap_observed ap) u (ap_idempotencyKey ap) input))"
| "transfersController ap ListTransfers = guarded ap (\<lambda>u. mapResponse TransfersR (transfersFindAllForUser u))"
| "transfersController ap (GetTransfer tid) =
     guarded ap (\<lambda>u. withUuid ap tid (mapResponse TransferR (transfersFindOneForUser u tid)))"

datatype reversals_route = CreateReversal uuid "string option" | GetReversal uuid

fun reversalsController :: "api \<Rightarrow> reversals_route \<Rightarrow> (db, api_response) op" where
  "reversalsController ap (CreateReversal tid reason) =
     guarded ap (\<lambda>u. withUuid ap tid (mapResponse ReversalR
       (reversalsCreate (ap_runtime ap) (ap_abort ap) (ap_observed ap) u tid (ap_idempotencyKey ap) reason)))"
| "reversalsController ap (GetReversal tid) =
     guarded ap (\<lambda>u. withUuid ap tid (mapResponse ReversalR (reversalsFindOneForUser u tid)))"

definition auditController :: "api \<Rightarrow> nat \<Rightarrow> uuid option \<Rightarrow> (db, api_response) op" where
  "auditController ap limit cursor = guarded ap (\<lambda>u. mapResponse AuditR (auditFindAllForUser u limit cursor))"

datatype payments_route =
    CreatePayment create_payment_input | ListPayments nat "uuid option" | GetPayment uuid
  | ReconcilePayment uuid | ListEvents uuid nat "uuid option"

fun paymentsController :: "api \<Rightarrow> payments_route \<Rightarrow> (db, api_response) op" where
  "paymentsController ap (CreatePayment input) =
     guarded ap (\<lambda>u. mapResponse CheckoutR
       (paymentsCreate (ap_runtime ap) (ap_provider ap) (ap_abort ap) (ap_others ap 1) u (ap_idempotencyKey ap) input))"
| "paymentsController ap (ListPayments limit cursor) =
     guarded ap (\<lambda>u. mapResponse PaymentsR (paymentsList u limit cursor))"
| "paymentsController ap (GetPayment pid) =
     guarded ap (\<lambda>u. withUuid ap pid (mapResponse PaymentR (paymentsFindOne u pid)))"
| "paymentsController ap (ReconcilePayment pid) =
     guarded ap (\<lambda>u. withUuid ap pid (mapResponse PaymentR
       (paymentsReconcile (ap_settlement ap) (ap_provider ap) u pid)))"
| "paymentsController ap (ListEvents pid limit cursor) =
     guarded ap (\<lambda>u. withUuid ap pid (mapResponse EventsR (paymentsEvents u pid limit cursor)))"

text \<open>The provider callbacks have no guard; the body is empty when there is none.\<close>

datatype callback_route = PaystackCallback "string option" "string option"
  | MockCallback "string option" "string option" "string option"

fun paymentWebhooksController :: "api \<Rightarrow> callback_route \<Rightarrow> (db, api_response) op" where
  "paymentWebhooksController ap (PaystackCallback body signature) =
     mapResponse ReceiptR (receivePaystack (ap_settlement ap) (ap_provider ap) (case body of None \<Rightarrow> [] | Some b \<Rightarrow> b) signature)"
| "paymentWebhooksController ap (MockCallback body timestamp signature) =
     mapResponse ReceiptR (paymentsReceive (ap_settlement ap) (ap_provider ap) (case body of None \<Rightarrow> [] | Some b \<Rightarrow> b)
       timestamp signature)"

datatype webhooks_route = CreateWebhook string | ListWebhooks | DisableWebhook uuid
  | ListDeliveries uuid nat "uuid option"

fun webhooksController :: "api \<Rightarrow> webhooks_route \<Rightarrow> (db, api_response) op" where
  "webhooksController ap (CreateWebhook url) =
     guarded ap (\<lambda>u. mapResponse WebhookR (webhooksCreate (ap_runtime ap) (ap_crypto ap) (ap_network ap) u url))"
| "webhooksController ap ListWebhooks = guarded ap (\<lambda>u. mapResponse WebhooksR (webhooksList u))"
| "webhooksController ap (DisableWebhook sid) =
     guarded ap (\<lambda>u. withUuid ap sid (mapResponse (\<lambda>_. NoContent) (webhooksDisable (ap_abort ap) (ap_runtime ap) u sid)))"
| "webhooksController ap (ListDeliveries sid limit cursor) =
     guarded ap (\<lambda>u. withUuid ap sid (mapResponse DeliveriesR (webhooksDeliveries u sid limit cursor)))"

section \<open>All routes\<close>

datatype route_of =
    AuthRoute auth_route | WalletsRoute wallets_route | BeneficiariesRoute beneficiaries_route
  | TransfersRoute transfers_route | ReversalsRoute reversals_route | AuditRoute nat "uuid option"
  | PaymentsRoute payments_route | CallbackRoute callback_route | WebhooksRoute webhooks_route

fun handle :: "api \<Rightarrow> route_of \<Rightarrow> (db, api_response) op" where
  "handle ap (AuthRoute r) = authController ap r"
| "handle ap (WalletsRoute r) = walletsController ap r"
| "handle ap (BeneficiariesRoute r) = beneficiariesController ap r"
| "handle ap (TransfersRoute r) = transfersController ap r"
| "handle ap (ReversalsRoute r) = reversalsController ap r"
| "handle ap (AuditRoute limit cursor) = auditController ap limit cursor"
| "handle ap (PaymentsRoute r) = paymentsController ap r"
| "handle ap (CallbackRoute r) = paymentWebhooksController ap r"
| "handle ap (WebhooksRoute r) = webhooksController ap r"

text \<open>The routes without the guard: registration, login and the callbacks of the providers.\<close>

fun open_route :: "route_of \<Rightarrow> bool" where
  "open_route (AuthRoute (Register _)) = True"
| "open_route (AuthRoute (Login _)) = True"
| "open_route (CallbackRoute _) = True"
| "open_route _ = False"

end
