(* ===== verification/PaymentCorrect.thy ===== *)
theory PaymentCorrect
  imports Payments TransferCommit
begin

text \<open>
  Correctness of settlement: when each write of \<open>settleBody\<close> succeeds, the complete list of the ways
  in which it succeeds (\<open>settleBody_Inr\<close>) with the effect of each, and that what it commits satisfies
  every deferred trigger.
\<close>

section \<open>Invariant of the payment tables\<close>

definition payment_wallet_ok :: "db \<Rightarrow> payment \<Rightarrow> bool" where
  "payment_wallet_ok d p \<longleftrightarrow>
     (case wallet_pk.lookup (p_walletId p) (wallets d) of
        None \<Rightarrow> False | Some w \<Rightarrow> w_userId w = p_userId p \<and> w_currency w = p_currency p)"

definition payment_ok :: "db \<Rightarrow> payment \<Rightarrow> bool" where
  "payment_ok d p \<longleftrightarrow>
     payment_state_ok p \<and> 0 < p_amountMinor p \<and> bigint_ok (p_amountMinor p) \<and>
     js_trim (p_reference p) = p_reference p \<and> payment_wallet_ok d p"

definition funded_by :: "payment \<Rightarrow> ledger_transaction \<Rightarrow> bool" where
  "funded_by p t \<longleftrightarrow> p_ledgerTransactionId p = Some (lt_id t) \<and> lt_reference t = p_reference p"

definition payments_linked :: "db \<Rightarrow> bool" where
  "payments_linked d \<longleftrightarrow>
     (\<forall>p \<in> set (payments d). p_ledgerTransactionId p = None \<or> (\<exists>t \<in> set (ledgerTransactions d). funded_by p t))"

definition payments_ok :: "db \<Rightarrow> bool" where
  "payments_ok d \<longleftrightarrow> payments_linked d \<and>
     payment_pk.unique (payments d) \<and> distinct (map p_reference (payments d)) \<and>
     (\<forall>p \<in> set (payments d). payment_ok d p) \<and>
     (\<forall>e \<in> set (providerEvents d). pe_status e \<noteq> P_PENDING \<and> validate_providerEvent d e)"

section \<open>Writes that succeed\<close>

lemma create_providerEvent_Inr:
  "create_providerEvent e d = (Inr v, d') \<longleftrightarrow>
     d' = d\<lparr>providerEvents := providerEvents d @ [e]\<rparr> \<and> setting_on ''app.payment_write'' d \<and>
     hex64 (pe_payloadHash e) \<and> pe_status e \<noteq> P_PENDING \<and> varchar_ok 128 (pe_eventId e) \<and>
     \<not> existsRow (\<lambda>f. pe_id f = pe_id e \<or> (pe_provider f = pe_provider e \<and> pe_eventId f = pe_eventId e))
         (providerEvents d) \<and>
     pe_paymentId e \<in> p_id ` set (payments d)"
  by (auto simp: create_providerEvent_def op_simps existsRow_key)

lemma update_payment_Inr:
  "update_payment pid f d = (Inr v, d') \<longleftrightarrow>
     (\<exists>p. payment_pk.lookup pid (payments d) = Some p \<and> setting_on ''app.payment_write'' d \<and>
        p_status p = P_PENDING \<and> p_status (f p) \<noteq> P_PENDING \<and>
        p_id (f p) = p_id p \<and> p_userId (f p) = p_userId p \<and> p_walletId (f p) = p_walletId p \<and>
        p_provider (f p) = p_provider p \<and> p_reference (f p) = p_reference p \<and>
        p_idempotencyKey (f p) = p_idempotencyKey p \<and> p_requestHash (f p) = p_requestHash p \<and>
        p_amountMinor (f p) = p_amountMinor p \<and> p_currency (f p) = p_currency p \<and>
        p_createdAt (f p) = p_createdAt p \<and> payment_state_ok (f p) \<and>
        \<not> existsRow (\<lambda>q. p_id q \<noteq> pid \<and> p_ledgerTransactionId (f p) \<noteq> None \<and>
           p_ledgerTransactionId q = p_ledgerTransactionId (f p)) (payments d) \<and>
        (p_ledgerTransactionId (f p) = None \<or>
         existsRow (\<lambda>l. Some (lt_id l) = p_ledgerTransactionId (f p)) (ledgerTransactions d)) \<and>
        d' = d\<lparr>payments := payment_pk.put pid f (payments d)\<rparr>)"
  unfolding update_payment_def
  by (cases "payment_pk.lookup pid (payments d)") (simp_all add: op_simps, blast)

lemma settledAs_simps [simp]:
  "p_id (settledAs st now l p) = p_id p" "p_userId (settledAs st now l p) = p_userId p"
  "p_walletId (settledAs st now l p) = p_walletId p" "p_provider (settledAs st now l p) = p_provider p"
  "p_reference (settledAs st now l p) = p_reference p"
  "p_idempotencyKey (settledAs st now l p) = p_idempotencyKey p"
  "p_requestHash (settledAs st now l p) = p_requestHash p"
  "p_amountMinor (settledAs st now l p) = p_amountMinor p"
  "p_currency (settledAs st now l p) = p_currency p" "p_status (settledAs st now l p) = st"
  "p_createdAt (settledAs st now l p) = p_createdAt p"
  "p_completedAt (settledAs st now l p) = Some now"
  "p_ledgerTransactionId (settledAs st now (Some x) p) = Some x"
  "p_ledgerTransactionId (settledAs st now None p) = p_ledgerTransactionId p"
  by (simp_all add: settledAs_def)

lemma paymentEvent_simps [simp]:
  "e_id (paymentEvent rt p st) = rt_uuid rt 4" "e_aggregateId (paymentEvent rt p st) = p_id p"
  "e_aggregateType (paymentEvent rt p st) = ''Payment''"
  "e_actorUserId (paymentEvent rt p st) = p_userId p"
  "e_type (paymentEvent rt p st) = (if st = P_SUCCEEDED then PAYMENT_SUCCEEDED else PAYMENT_FAILED)"
  by (simp_all add: paymentEvent_def new_outboxEvent_def)

lemma newProviderEvent_simps [simp]:
  "pe_id (newProviderEvent rt pr p ev) = rt_uuid rt 0" "pe_paymentId (newProviderEvent rt pr p ev) = p_id p"
  "pe_provider (newProviderEvent rt pr p ev) = pr" "pe_eventId (newProviderEvent rt pr p ev) = ve_eventId ev"
  "pe_payloadHash (newProviderEvent rt pr p ev) = ve_payloadHash ev"
  "pe_status (newProviderEvent rt pr p ev) = ve_status ev"
  by (simp_all add: newProviderEvent_def)

lemma pending_settles:
  "payment_state_ok p \<Longrightarrow> p_status p = P_PENDING \<Longrightarrow>
   payment_state_ok (settledAs st now l p) \<longleftrightarrow>
     (st = P_SUCCEEDED \<and> l \<noteq> None) \<or> (st = P_FAILED \<and> l = None)"
  by (cases st; cases l) (auto simp: payment_state_ok_def settledAs_def)

section \<open>The effect of a settlement\<close>

definition paymentGen :: "runtime \<Rightarrow> nat \<Rightarrow> uuid" where
  "paymentGen rt = (\<lambda>k. rt_uuid rt (1 + k))"

lemma paymentGen_simps [simp]: "paymentGen rt 0 = rt_uuid rt 1" "paymentGen rt k = rt_uuid rt (1 + k)"
  by (simp_all add: paymentGen_def)

definition with_evidence :: "runtime \<Rightarrow> PaymentProvider \<Rightarrow> payment \<Rightarrow> verified_event \<Rightarrow> db \<Rightarrow> db" where
  "with_evidence rt pr p ev d =
     d\<lparr>providerEvents := providerEvents d @ [newProviderEvent rt pr p ev],
       settings := ''app.payment_write'' # settings d\<rparr>"

definition with_outcome :: "runtime \<Rightarrow> payment \<Rightarrow> PaymentStatus \<Rightarrow> uuid option \<Rightarrow> db \<Rightarrow> db" where
  "with_outcome rt p st l d =
     fan_out_webhook_event (\<lambda>k. rt_uuid rt (5 + k)) (rt_now rt) (paymentEvent rt p st)
       (d\<lparr>payments := payment_pk.put (p_id p) (settledAs st (rt_now rt) l) (payments d),
          outboxEvents := outboxEvents d @ [paymentEvent rt p st]\<rparr>)"

text \<open>The evidence can be stored.\<close>

definition evidence_writable :: "runtime \<Rightarrow> verified_event \<Rightarrow> db \<Rightarrow> bool" where
  "evidence_writable rt ev d \<longleftrightarrow>
     hex64 (ve_payloadHash ev) \<and> ve_status ev \<noteq> P_PENDING \<and> varchar_ok 128 (ve_eventId ev) \<and>
     rt_uuid rt 0 \<notin> pe_id ` set (providerEvents d)"

text \<open>The outcome can be announced.\<close>

definition outcome_writable :: "runtime \<Rightarrow> payment \<Rightarrow> PaymentStatus \<Rightarrow> db \<Rightarrow> bool" where
  "outcome_writable rt p st d \<longleftrightarrow>
     \<not> existsRow (\<lambda>f. e_id f = rt_uuid rt 4 \<or>
        (e_type f = (if st = P_SUCCEEDED then PAYMENT_SUCCEEDED else PAYMENT_FAILED) \<and>
         e_aggregateId f = p_id p)) (outboxEvents d) \<and>
     p_userId p \<in> u_id ` set (users d)"

text \<open>The ledger accepts the funding.\<close>

definition fundable :: "runtime \<Rightarrow> payment \<Rightarrow> wallet \<Rightarrow> ledger_account \<Rightarrow> ledger_input \<Rightarrow> db \<Rightarrow> bool" where
  "fundable rt p w a n d \<longleftrightarrow>
     wallet_pk.lookup (p_walletId p) (wallets d) = Some w \<and>
     findRow (\<lambda>a. la_systemKey a = Some (externalClearingAccountKey (p_currency p))) (accounts d) = Some a \<and>
     normalizeLedgerTransactionInput (rt_isUUID rt) (paymentLedgerInput p (la_id a) w) = Inr n \<and>
     postable d n \<and> fresh_ledger (paymentGen rt) n d"

lemma fundable_new:
  assumes "payments_ok d" "fundable rt p w a n d"
  shows "Some (rt_uuid rt 1) \<notin> p_ledgerTransactionId ` set (payments d)"
proof
  assume "Some (rt_uuid rt 1) \<in> p_ledgerTransactionId ` set (payments d)"
  then obtain q where "q \<in> set (payments d)" "p_ledgerTransactionId q = Some (rt_uuid rt 1)" by auto
  with assms(1) have "rt_uuid rt 1 \<in> lt_id ` set (ledgerTransactions d)"
    unfolding payments_ok_def payments_linked_def funded_by_def by force
  with assms(2) show False by (simp add: fundable_def fresh_ledger_def)
qed

definition funded :: "runtime \<Rightarrow> PaymentProvider \<Rightarrow> payment \<Rightarrow> verified_event \<Rightarrow> ledger_input \<Rightarrow> db \<Rightarrow> db" where
  "funded rt pr p ev n d =
     with_outcome rt p P_SUCCEEDED (Some (rt_uuid rt 1))
       (ledger_effect (rt_now rt) (paymentGen rt) n (with_evidence rt pr p ev d))"

definition declined :: "runtime \<Rightarrow> PaymentProvider \<Rightarrow> payment \<Rightarrow> verified_event \<Rightarrow> db \<Rightarrow> db" where
  "declined rt pr p ev d = with_outcome rt p P_FAILED None (with_evidence rt pr p ev d)"

lemma with_evidence_simps [simp]:
  "users (with_evidence rt pr p ev d) = users d" "wallets (with_evidence rt pr p ev d) = wallets d"
  "accounts (with_evidence rt pr p ev d) = accounts d"
  "ledgerTransactions (with_evidence rt pr p ev d) = ledgerTransactions d"
  "postings (with_evidence rt pr p ev d) = postings d" "transfers (with_evidence rt pr p ev d) = transfers d"
  "reversals (with_evidence rt pr p ev d) = reversals d"
  "beneficiaries (with_evidence rt pr p ev d) = beneficiaries d"
  "idempotencyRecords (with_evidence rt pr p ev d) = idempotencyRecords d"
  "auditLogs (with_evidence rt pr p ev d) = auditLogs d"
  "outboxEvents (with_evidence rt pr p ev d) = outboxEvents d"
  "payments (with_evidence rt pr p ev d) = payments d"
  "providerEvents (with_evidence rt pr p ev d) = providerEvents d @ [newProviderEvent rt pr p ev]"
  "setting_on ''app.payment_write'' (with_evidence rt pr p ev d)"
  by (simp_all add: with_evidence_def setting_on_def)

lemma with_outcome_simps [simp]:
  "users (with_outcome rt p st l d) = users d" "wallets (with_outcome rt p st l d) = wallets d"
  "accounts (with_outcome rt p st l d) = accounts d"
  "ledgerTransactions (with_outcome rt p st l d) = ledgerTransactions d"
  "postings (with_outcome rt p st l d) = postings d" "transfers (with_outcome rt p st l d) = transfers d"
  "reversals (with_outcome rt p st l d) = reversals d"
  "beneficiaries (with_outcome rt p st l d) = beneficiaries d"
  "idempotencyRecords (with_outcome rt p st l d) = idempotencyRecords d"
  "auditLogs (with_outcome rt p st l d) = auditLogs d"
  "outboxEvents (with_outcome rt p st l d) = outboxEvents d @ [paymentEvent rt p st]"
  "payments (with_outcome rt p st l d) =
     payment_pk.put (p_id p) (settledAs st (rt_now rt) l) (payments d)"
  "providerEvents (with_outcome rt p st l d) = providerEvents d"
  by (simp_all add: with_outcome_def)

lemma evidence_irrelevant [simp]:
  "ledger_sound (with_evidence rt pr p ev d) = ledger_sound d"
  "ledger_ok (with_evidence rt pr p ev d) = ledger_ok d"
  "postable (with_evidence rt pr p ev d) n = postable d n"
  "fresh_ledger gen n (with_evidence rt pr p ev d) = fresh_ledger gen n d"
  "fundable rt q w a n (with_evidence rt pr p ev d) = fundable rt q w a n d"
  "outcome_writable rt q st (with_evidence rt pr p ev d) = outcome_writable rt q st d"
  by (simp_all add: ledger_sound_def pairing_ok_def postings_linked_def postable_def posting_passes_def
      fresh_ledger_def fundable_def outcome_writable_def ledger_ok_def double_entry_def)

section \<open>Funding the wallet\<close>

lemma fundWallet_Inr:
  assumes ok: "ledger_sound d"
  shows "fundWallet rt p d = (Inr l, d') \<longleftrightarrow>
    (\<exists>w a n. fundable rt p w a n d \<and> l = rt_uuid rt 1 \<and> d' = ledger_effect (rt_now rt) (paymentGen rt) n d)"
proof -
  have post: "postWithinTransaction rt (paymentGen rt) inp d = (Inr lq, m) \<longleftrightarrow>
     (\<exists>n. normalizeLedgerTransactionInput (rt_isUUID rt) inp = Inr n \<and> postable d n \<and>
       fresh_ledger (paymentGen rt) n d \<and> m = ledger_effect (rt_now rt) (paymentGen rt) n d \<and>
       lq = (sealed_row (rt_now rt) (paymentGen rt) n,
             sort_key lp_accountId (posting_rows (paymentGen rt) 1 (paymentGen rt 0) (li_postings n))))" for inp lq m
    using ok post_Inr [of d rt "paymentGen rt" inp lq m] by (auto simp: ledger_sound_def)
  show ?thesis
    unfolding fundWallet_def paymentGen_def [symmetric] fundable_def
    by (auto simp: op_simps post split: option.splits)
qed

lemma ledger_effect_payment [simp]:
  "setting_on ''app.payment_write'' (ledger_effect now gen n d) = setting_on ''app.payment_write'' d"
  "outcome_writable rt p st (ledger_effect now gen n d) = outcome_writable rt p st d"
  by (simp_all add: setting_on_def outcome_writable_def)

text \<open>The last two writes, on a pending payment whose ledger transaction, if any, exists.\<close>

lemma outcome_writes:
  assumes ok: "payments_ok d" and p: "p \<in> set (payments d)" "p_status p = P_PENDING"
    and e: "payments e = payments d" "setting_on ''app.payment_write'' e"
    and l: "l = None \<or> (l = Some l' \<and> l' \<in> lt_id ` set (ledgerTransactions e) \<and>
      Some l' \<notin> p_ledgerTransactionId ` set (payments d))"
  shows "andThen (update_payment (p_id p) (settledAs st (rt_now rt) l)) (\<lambda>_.
      andThen (create_outboxEvent (\<lambda>k. rt_uuid rt (5 + k)) (rt_now rt) (paymentEvent rt p st)) (\<lambda>_.
      return x)) e = (Inr r, d') \<longleftrightarrow>
    r = x \<and> ((st = P_SUCCEEDED \<and> l \<noteq> None) \<or> (st = P_FAILED \<and> l = None)) \<and>
    outcome_writable rt p st e \<and> d' = with_outcome rt p st l e"
proof -
  have look: "payment_pk.lookup (p_id p) (payments d) = Some p" and st: "payment_state_ok p"
    using ok p by (auto simp: payments_ok_def payment_ok_def payment_pk.lookup_unique)
  have none: "p_ledgerTransactionId p = None"
    using st p(2) by (simp add: payment_state_ok_def)
  have upd: "update_payment (p_id p) (settledAs st (rt_now rt) l) e = (Inr u, m) \<longleftrightarrow>
      ((st = P_SUCCEEDED \<and> l \<noteq> None) \<or> (st = P_FAILED \<and> l = None)) \<and>
      m = e\<lparr>payments := payment_pk.put (p_id p) (settledAs st (rt_now rt) l) (payments d)\<rparr>" for u m
  proof (cases l)
    case None
    then show ?thesis
      using e look p(2) none pending_settles [OF st p(2)] by (simp add: update_payment_Inr existsRow_iff) blast
  next
    case (Some x)
    with l have x: "x \<in> lt_id ` set (ledgerTransactions e)" "\<forall>q \<in> set (payments d). p_ledgerTransactionId q \<noteq> Some x"
      by (auto simp: notin_image)
    then have "existsRow (\<lambda>r. lt_id r = x) (ledgerTransactions e)"
      "\<not> existsRow (\<lambda>q. p_id q \<noteq> p_id p \<and> p_ledgerTransactionId q = Some x) (payments d)"
      by (auto simp: existsRow_iff)
    with Some show ?thesis
      using e look p(2) pending_settles [OF st p(2)]
      by (cases st) (simp_all add: update_payment_Inr)
  qed
  show ?thesis
    using e(1)
    by (simp add: op_simps upd create_outboxEvent_Inr outcome_writable_def with_outcome_def)
      (intro conjI impI iffI; elim conjE; simp)
qed

section \<open>Every way a settlement succeeds\<close>

definition findIntent :: "PaymentProvider \<Rightarrow> verified_event \<Rightarrow> db \<Rightarrow> payment option" where
  "findIntent pr ev d = findRow (\<lambda>p. p_provider p = pr \<and> p_reference p = ve_reference ev) (payments d)"

definition findEvidence :: "PaymentProvider \<Rightarrow> verified_event \<Rightarrow> db \<Rightarrow> provider_event option" where
  "findEvidence pr ev d = findRow (\<lambda>e. pe_provider e = pr \<and> pe_eventId e = ve_eventId ev) (providerEvents d)"

definition event_matches :: "payment \<Rightarrow> verified_event \<Rightarrow> bool" where
  "event_matches p ev \<longleftrightarrow> js_showInt (p_amountMinor p) = ve_amountMinor ev \<and> p_currency p = ve_currency ev"

text \<open>
  A known intent with the same amount and currency, and one of: the event was seen before;
  the payment has this outcome already (the evidence is stored); it is pending and declined;
  it is pending and funded.
\<close>

definition settles :: "runtime \<Rightarrow> verified_event \<Rightarrow> PaymentProvider \<Rightarrow> db \<Rightarrow> receipt \<Rightarrow> db \<Rightarrow> bool" where
  "settles rt ev pr d r d' \<longleftrightarrow>
     (\<exists>p. findIntent pr ev d = Some p \<and> event_matches p ev \<and>
        ((\<exists>e. findEvidence pr ev d = Some e \<and> pe_payloadHash e = ve_payloadHash ev \<and>
            pe_paymentId e = p_id p \<and> r = Settled (p_id p) (p_status p) \<and> d' = d) \<or>
         (findEvidence pr ev d = None \<and> evidence_writable rt ev d \<and>
            ((p_status p = ve_status ev \<and> r = Settled (p_id p) (p_status p) \<and>
                d' = with_evidence rt pr p ev d) \<or>
             (p_status p = P_PENDING \<and> outcome_writable rt p (ve_status ev) d \<and>
                r = Settled (p_id p) (ve_status ev) \<and>
                ((ve_status ev = P_FAILED \<and> d' = declined rt pr p ev d) \<or>
                 (ve_status ev = P_SUCCEEDED \<and> (\<exists>w a n. fundable rt p w a n d \<and> d' = funded rt pr p ev n d))))))))"

lemma store_evidence:
  assumes "findEvidence pr ev d = None" "p \<in> set (payments d)"
  shows "create_providerEvent (newProviderEvent rt pr p ev) (d\<lparr>settings := ''app.payment_write'' # settings d\<rparr>) =
      (Inr u, m) \<longleftrightarrow> evidence_writable rt ev d \<and> m = with_evidence rt pr p ev d"
  using assms
  by (auto simp: create_providerEvent_Inr evidence_writable_def with_evidence_def setting_on_def
      findEvidence_def findRow_None existsRow_iff notin_image)

lemma andThen_known:
  "(\<And>y m. f e = (Inr y, m) \<longleftrightarrow> (\<exists>w a n. P w a n \<and> y = Y \<and> m = M n)) \<Longrightarrow>
   andThen f g e = (Inr r, d') \<longleftrightarrow> (\<exists>w a n. P w a n \<and> g Y (M n) = (Inr r, d'))"
  by (simp add: andThen_Inr) blast

lemma pending_outcome:
  assumes ok: "ledger_sound d" "payments_ok d"
    and p: "p \<in> set (payments d)" "p_status p = P_PENDING" and st: "ve_status ev \<noteq> P_PENDING"
  shows "andThen (if ve_status ev = P_SUCCEEDED then andThen (fundWallet rt p) (\<lambda>l. return (Some l)) else return None)
      (\<lambda>l. andThen (update_payment (p_id p) (settledAs (ve_status ev) (rt_now rt) l)) (\<lambda>_.
      andThen (create_outboxEvent (\<lambda>k. rt_uuid rt (5 + k)) (rt_now rt) (paymentEvent rt p (ve_status ev))) (\<lambda>_.
      return x))) (with_evidence rt pr p ev d) = (Inr r, d') \<longleftrightarrow>
    outcome_writable rt p (ve_status ev) d \<and> r = x \<and>
    ((ve_status ev = P_FAILED \<and> d' = declined rt pr p ev d) \<or>
     (ve_status ev = P_SUCCEEDED \<and> (\<exists>w a n. fundable rt p w a n d \<and> d' = funded rt pr p ev n d)))"
    (is "andThen ?fund ?rest ?e = _ \<longleftrightarrow> _")
proof (cases "ve_status ev = P_SUCCEEDED")
  case True
  have fund: "fundWallet rt p ?e = (Inr l, m) \<longleftrightarrow>
      (\<exists>w a n. fundable rt p w a n d \<and> l = rt_uuid rt 1 \<and> m = ledger_effect (rt_now rt) (paymentGen rt) n ?e)" for l m
    using ok by (subst fundWallet_Inr) simp_all
  have rest: "?rest (Some (rt_uuid rt 1)) (ledger_effect (rt_now rt) (paymentGen rt) n ?e) = (Inr r, d') \<longleftrightarrow>
      r = x \<and> outcome_writable rt p P_SUCCEEDED d \<and> d' = funded rt pr p ev n d" if "fundable rt p w a n d" for w a n
    using fundable_new [OF ok(2) that] True
    by (subst outcome_writes [OF ok(2) p, where l' = "rt_uuid rt 1"])
      (auto simp: funded_def)
  show ?thesis
  proof -
    have "andThen (fundWallet rt p) (\<lambda>l. return (Some l)) ?e = (Inr y, m) \<longleftrightarrow>
        (\<exists>w a n. fundable rt p w a n d \<and> y = Some (rt_uuid rt 1) \<and>
           m = ledger_effect (rt_now rt) (paymentGen rt) n ?e)" for y m
      by (auto simp: andThen_Inr fund op_apply)
    then have "?fund ?e = (Inr y, m) \<longleftrightarrow>
        (\<exists>w a n. fundable rt p w a n d \<and> y = Some (rt_uuid rt 1) \<and>
           m = ledger_effect (rt_now rt) (paymentGen rt) n ?e)" for y m
      by (simp only: True simp_thms if_True)
    then have "andThen ?fund ?rest ?e = (Inr r, d') \<longleftrightarrow> (\<exists>w a n. fundable rt p w a n d \<and>
        ?rest (Some (rt_uuid rt 1)) (ledger_effect (rt_now rt) (paymentGen rt) n ?e) = (Inr r, d'))"
      by (rule andThen_known)
    also have "\<dots> \<longleftrightarrow> (\<exists>w a n. fundable rt p w a n d \<and>
        r = x \<and> outcome_writable rt p P_SUCCEEDED d \<and> d' = funded rt pr p ev n d)"
      using rest by blast
    finally show ?thesis using True by auto
  qed
next
  case False
  then have failed: "ve_status ev = P_FAILED" using st by (cases "ve_status ev") simp_all
  then show ?thesis
    by (simp add: op_simps del: andThen_Inr, subst outcome_writes [OF ok(2) p])
      (auto simp: declined_def)
qed

lemma findIntent_in: "findIntent pr ev d = Some p \<Longrightarrow> p \<in> set (payments d) \<and> p_provider p = pr \<and> p_reference p = ve_reference ev"
  by (auto simp: findIntent_def dest: findRow_SomeD)

text \<open>An event that was not seen before, for a known payment that it matches.\<close>

lemma settleBody_new:
  assumes ok: "ledger_sound d" "payments_ok d" and find: "findIntent pr ev d = Some p"
    and m: "event_matches p ev" and new: "findEvidence pr ev d = None"
  shows "settleBody rt ev pr d = (Inr r, d') \<longleftrightarrow> settles rt ev pr d r d'"
proof -
  note p = findIntent_in [OF find] and find' = find [unfolded findIntent_def]
  let ?go = "\<lambda>u. if p_status p \<noteq> P_PENDING then return (Settled (p_id p) (p_status p))
    else andThen (if ve_status ev = P_SUCCEEDED then andThen (fundWallet rt p) (\<lambda>l. return (Some l)) else return None)
      (\<lambda>l. andThen (update_payment (p_id p) (settledAs (ve_status ev) (rt_now rt) l)) (\<lambda>_.
      andThen (create_outboxEvent (\<lambda>k. rt_uuid rt (5 + k)) (rt_now rt) (paymentEvent rt p (ve_status ev))) (\<lambda>_.
      return (Settled (p_id p) (ve_status ev)))))"
  have step: "andThen (create_providerEvent (newProviderEvent rt pr p ev)) go
      (d\<lparr>settings := ''app.payment_write'' # settings d\<rparr>) = (Inr r, d') \<longleftrightarrow>
      evidence_writable rt ev d \<and> go () (with_evidence rt pr p ev d) = (Inr r, d')"
    for go :: "unit \<Rightarrow> (db, receipt) op"
    using store_evidence [OF new, of p] p by (auto simp: andThen_Inr)
  have body: "settleBody rt ev pr d =
      (if p_status p = P_PENDING \<or> p_status p = ve_status ev
       then andThen (create_providerEvent (newProviderEvent rt pr p ev)) ?go
         (d\<lparr>settings := ''app.payment_write'' # settings d\<rparr>)
       else (Inl (Conflict ''Conflicting terminal provider outcome''), d))"
    using m new
    by (simp add: settleBody_def find' op_apply andThen_steps event_matches_def findEvidence_def set_config_def)
  consider "p_status p \<noteq> P_PENDING \<and> p_status p \<noteq> ve_status ev" | "p_status p = P_PENDING \<and> ve_status ev \<noteq> P_PENDING"
    | "p_status p = ve_status ev" by fastforce
  then show ?thesis
  proof cases
    case 1
    then show ?thesis unfolding body by (auto simp: settles_def find new m)
  next
    case 2
    then have "settleBody rt ev pr d = (Inr r, d') \<longleftrightarrow> evidence_writable rt ev d \<and> ?go () (with_evidence rt pr p ev d) = (Inr r, d')"
      by (simp only: body step if_True simp_thms)
    also have "?go () (with_evidence rt pr p ev d) = (Inr r, d') \<longleftrightarrow>
        outcome_writable rt p (ve_status ev) d \<and> r = Settled (p_id p) (ve_status ev) \<and>
        ((ve_status ev = P_FAILED \<and> d' = declined rt pr p ev d) \<or>
         (ve_status ev = P_SUCCEEDED \<and> (\<exists>w a n. fundable rt p w a n d \<and> d' = funded rt pr p ev n d)))"
      using 2 p by (subst if_not_P, simp, intro pending_outcome [OF ok]) simp_all
    finally show ?thesis using 2 by (simp only: settles_def find new) (auto simp: m)
  next
    case 3
    then have "settleBody rt ev pr d = (Inr r, d') \<longleftrightarrow> evidence_writable rt ev d \<and> ?go () (with_evidence rt pr p ev d) = (Inr r, d')"
      by (simp only: body step if_True simp_thms)
    then show ?thesis
      using 3 by (auto simp: settles_def find new m evidence_writable_def op_simps)
  qed
qed

lemma settleBody_Inr:
  assumes ok: "ledger_sound d" "payments_ok d"
  shows "settleBody rt ev pr d = (Inr r, d') \<longleftrightarrow> settles rt ev pr d r d'"
proof (cases "findIntent pr ev d")
  case None
  then show ?thesis by (simp add: settleBody_def settles_def findIntent_def op_simps)
next
  case (Some p)
  note find = Some [unfolded findIntent_def]
  consider "\<not> event_matches p ev" | e where "event_matches p ev" "findEvidence pr ev d = Some e"
    | "event_matches p ev" "findEvidence pr ev d = None" by fastforce
  then show ?thesis
  proof cases
    case 1
    then show ?thesis by (auto simp: settleBody_def settles_def find Some op_simps event_matches_def)
  next
    case 2
    then show ?thesis
      by (auto simp: settleBody_def settles_def find Some op_simps event_matches_def findEvidence_def)
  next
    case 3
    then show ?thesis by (rule settleBody_new [OF ok Some])
  qed
qed

end
