(* ===== verification/PaymentCommit.thy ===== *)
theory PaymentCommit
  imports PaymentCorrect
begin

text \<open>
  A committed settlement satisfies every deferred trigger of the database, keeps the invariants of
  the ledger, of the identities and of the payment tables; and what \<open>settle\<close> returns and leaves behind.
\<close>

section \<open>The effect on the tables\<close>

lemma funded_simps [simp]:
  "users (funded rt pr p ev n d) = users d"
  "wallets (funded rt pr p ev n d) = map (credit_wallet (rt_now rt) (li_postings n)) (wallets d)"
  "accounts (funded rt pr p ev n d) = map (credit_account (li_postings n)) (accounts d)"
  "ledgerTransactions (funded rt pr p ev n d) = ledgerTransactions d @ [sealed_row (rt_now rt) (paymentGen rt) n]"
  "postings (funded rt pr p ev n d) = postings d @ posting_rows (paymentGen rt) 1 (rt_uuid rt 1) (li_postings n)"
  "transfers (funded rt pr p ev n d) = transfers d" "reversals (funded rt pr p ev n d) = reversals d"
  "beneficiaries (funded rt pr p ev n d) = beneficiaries d"
  "idempotencyRecords (funded rt pr p ev n d) = idempotencyRecords d"
  "auditLogs (funded rt pr p ev n d) = auditLogs d"
  "outboxEvents (funded rt pr p ev n d) = outboxEvents d @ [paymentEvent rt p P_SUCCEEDED]"
  "payments (funded rt pr p ev n d) =
     payment_pk.put (p_id p) (settledAs P_SUCCEEDED (rt_now rt) (Some (rt_uuid rt 1))) (payments d)"
  "providerEvents (funded rt pr p ev n d) = providerEvents d @ [newProviderEvent rt pr p ev]"
  by (simp_all add: funded_def)

lemma declined_simps [simp]:
  "users (declined rt pr p ev d) = users d" "wallets (declined rt pr p ev d) = wallets d"
  "accounts (declined rt pr p ev d) = accounts d"
  "ledgerTransactions (declined rt pr p ev d) = ledgerTransactions d"
  "postings (declined rt pr p ev d) = postings d" "transfers (declined rt pr p ev d) = transfers d"
  "reversals (declined rt pr p ev d) = reversals d" "beneficiaries (declined rt pr p ev d) = beneficiaries d"
  "idempotencyRecords (declined rt pr p ev d) = idempotencyRecords d"
  "auditLogs (declined rt pr p ev d) = auditLogs d"
  "outboxEvents (declined rt pr p ev d) = outboxEvents d @ [paymentEvent rt p P_FAILED]"
  "payments (declined rt pr p ev d) = payment_pk.put (p_id p) (settledAs P_FAILED (rt_now rt) None) (payments d)"
  "providerEvents (declined rt pr p ev d) = providerEvents d @ [newProviderEvent rt pr p ev]"
  by (simp_all add: declined_def)

lemma put_members:
  assumes "payment_pk.unique ps" "p \<in> set ps" "q \<in> set (payment_pk.put (p_id p) f ps)"
  shows "q = f p \<or> (q \<in> set ps \<and> p_id q \<noteq> p_id p)"
  using assms by (auto simp: payment_pk.put_def set_updateRows payment_pk.unique_def
      dest: distinct_map_inj split: if_splits)

lemma put_member:
  "p \<in> set ps \<Longrightarrow> f p \<in> set (payment_pk.put (p_id p) f ps)"
  by (auto simp: payment_pk.put_def set_updateRows)

lemma map_findRow:
  "(\<And>x. q (f x) = q x) \<Longrightarrow> findRow q (map f xs) = map_option f (findRow q xs)"
  by (induction xs) auto

section \<open>The deferred checks\<close>

lemma evidence_validates:
  assumes "q \<in> set (payments e)" "p_id q = p_id p" "p_provider q = pr" "p_status q = ve_status ev"
  shows "validate_providerEvent e (newProviderEvent rt pr p ev)"
  using assms by (auto simp: validate_providerEvent_def existsRow_iff)

lemma fundable_input:
  assumes "fundable rt p w a n d" "js_trim (p_reference p) = p_reference p"
  shows "li_postings n = [\<lparr>pi_accountId = la_id a, pi_amountMinor = - p_amountMinor p\<rparr>,
      \<lparr>pi_accountId = w_ledgerAccountId w, pi_amountMinor = p_amountMinor p\<rparr>]"
    "li_currency n = p_currency p" "li_reference n = p_reference p" "la_id a \<noteq> w_ledgerAccountId w"
    "balanced_input (rt_isUUID rt) n"
proof -
  have n: "normalizeLedgerTransactionInput (rt_isUUID rt) (paymentLedgerInput p (la_id a) w) = Inr n"
    using assms(1) by (simp add: fundable_def)
  show b: "balanced_input (rt_isUUID rt) n" using n by (rule normalize_balanced)
  show ps: "li_postings n = [\<lparr>pi_accountId = la_id a, pi_amountMinor = - p_amountMinor p\<rparr>,
      \<lparr>pi_accountId = w_ledgerAccountId w, pi_amountMinor = p_amountMinor p\<rparr>]"
    and "li_currency n = p_currency p" "li_reference n = p_reference p"
    using normalize_postings [OF n] normalize_reference [OF n] assms(2)
    by (simp_all add: paymentLedgerInput_def)
  show "la_id a \<noteq> w_ledgerAccountId w" using b ps by (simp add: balanced_input_def)
qed

lemma two_postings_swap: "two_postings e t a x b y = two_postings e t b y a x"
  by (auto simp: two_postings_def Let_def)

lemma payment_validates:
  assumes ok: "ledger_sound d" "payments_ok d" and p: "findIntent pr ev d = Some p" "ve_status ev = P_SUCCEEDED"
    and f: "fundable rt p w a n d"
  shows "validate_payment (funded rt pr p ev n d) (settledAs P_SUCCEEDED now (Some (rt_uuid rt 1)) p)"
proof -
  let ?e = "funded rt pr p ev n d"
  have pin: "p \<in> set (payments d)" "p_provider p = pr" using findIntent_in [OF p(1)] by auto
  then have wok: "payment_wallet_ok d p" and ref: "js_trim (p_reference p) = p_reference p"
    using ok by (auto simp: payments_ok_def payment_ok_def)
  note inp = fundable_input [OF f ref]
  have w: "wallet_pk.lookup (p_walletId p) (wallets d) = Some w"
    and a: "findRow (\<lambda>a. la_systemKey a = Some (externalClearingAccountKey (p_currency p))) (accounts d) = Some a"
    and fresh: "fresh_ledger (paymentGen rt) n d" using f by (auto simp: fundable_def)
  have own: "postingsOf ?e (rt_uuid rt 1) = posting_rows (paymentGen rt) 1 (rt_uuid rt 1) (li_postings n)"
    using effect_postingsOf [OF _ fresh, of "rt_uuid rt 1" "rt_now rt"] ok(1) by (simp add: ledger_sound_def)
  have "two_postings ?e (rt_uuid rt 1) (Some (la_id a)) (- p_amountMinor p)
      (Some (w_ledgerAccountId w)) (p_amountMinor p)"
    using two_postings_pair [OF inp(4) own [unfolded inp(1)]] .
  then have two: "two_postings ?e (rt_uuid rt 1) (Some (w_ledgerAccountId w)) (p_amountMinor p)
      (Some (la_id a)) (- p_amountMinor p)" by (simp only: two_postings_swap)
  have led: "matching_ledger ?e (rt_uuid rt 1) (p_currency p) (p_reference p)"
    using fresh inp lookup_opened [of "paymentGen rt" "ledgerTransactions d"]
    by (simp add: matching_ledger_def fresh_ledger_def)
  have clr: "findRow (\<lambda>b. la_systemKey b = Some (''external-clearing:'' @ currencyName (p_currency p))) (accounts ?e) =
      Some (credit_account (li_postings n) a)"
    using a by (simp add: map_findRow externalClearingAccountKey_def)
  have "w_userId w = p_userId p" "w_currency w = p_currency p" using wok w by (simp_all add: payment_wallet_ok_def)
  then show ?thesis
    using w led two clr pin(2) p(2)
    by (simp add: validate_payment_def credit_lookup existsRow_iff)
qed

lemma settled_commits:
  assumes ok: "ledger_sound d" "payments_ok d" and p: "p \<in> set (payments d)" "p_provider p = pr"
    and e: "payments e = payment_pk.put (p_id p) (settledAs (ve_status ev) now l) (payments d)"
      "providerEvents e = providerEvents d @ [newProviderEvent rt pr p ev]"
      "transfers e = transfers d" "reversals e = reversals d" "auditLogs e = auditLogs d"
      "idempotencyRecords e = idempotencyRecords d"
    and led: "list_all (validate_ledgerTransaction e) (written (ledgerTransactions d) (ledgerTransactions e))"
    and acc: "list_all (\<lambda>a. existsRow (\<lambda>b. la_id b = la_id a) (accounts d) \<or> validate_accountPair e a) (accounts e)"
    and pay: "validate_payment e (settledAs (ve_status ev) now l p)"
  shows "commit_checks d e"
proof -
  have uniq: "payment_pk.unique (payments d)" using ok by (simp add: payments_ok_def)
  have "list_all (validate_payment e) (written (payments d) (payments e))"
    using put_members [OF uniq p(1)] pay unfolding e(1) by (fastforce simp: list_all_iff written_def)
  moreover have "validate_providerEvent e (newProviderEvent rt pr p ev)"
    using put_member [OF p(1), of "settledAs (ve_status ev) now l"] p(2)
    by (intro evidence_validates [of "settledAs (ve_status ev) now l p"]) (simp_all add: e(1))
  ultimately show ?thesis
    using led acc e by (simp add: commit_checks_def list_all_iff)
qed

lemma settles_commits:
  assumes ok: "ledger_sound d" "payments_ok d" and s: "settles rt ev pr d r d'"
  shows "commit_checks d d'"
proof -
  obtain p where p: "findIntent pr ev d = Some p" and cases: "d' = d \<or>
      (ve_status ev = p_status p \<and> d' = with_evidence rt pr p ev d) \<or>
      (ve_status ev = P_FAILED \<and> d' = declined rt pr p ev d) \<or>
      (ve_status ev = P_SUCCEEDED \<and> (\<exists>w a n. fundable rt p w a n d \<and> d' = funded rt pr p ev n d))"
    using s by (auto simp: settles_def)
  note pin = findIntent_in [OF p]
  have refl: "list_all (\<lambda>a. existsRow (\<lambda>b. la_id b = la_id a) (accounts d) \<or> Q a) (accounts d)" for Q
    by (auto simp: list_all_iff existsRow_iff)
  from cases show ?thesis
  proof (elim disjE conjE exE)
    show "d' = d \<Longrightarrow> ?thesis" using refl by (simp add: commit_checks_def)
  next
    assume "ve_status ev = p_status p" and d': "d' = with_evidence rt pr p ev d"
    then have "validate_providerEvent d' (newProviderEvent rt pr p ev)"
      using pin by (intro evidence_validates [of p]) simp_all
    then show ?thesis using refl by (simp add: commit_checks_def d')
  next
    assume st: "ve_status ev = P_FAILED" and d': "d' = declined rt pr p ev d"
    have "payment_wallet_ok d p" using ok pin by (auto simp: payments_ok_def payment_ok_def)
    then have "validate_payment d' (settledAs (ve_status ev) (rt_now rt) None p)"
      using st pin by (auto simp: validate_payment_def payment_wallet_ok_def d' existsRow_iff split: option.splits)
    with st pin refl show ?thesis
      by (intro settled_commits [OF ok]) (auto simp: d')
  next
    fix w a n assume st: "ve_status ev = P_SUCCEEDED" and f: "fundable rt p w a n d"
      and d': "d' = funded rt pr p ev n d"
    have b: "balanced_input (rt_isUUID rt) n" and fresh: "fresh_ledger (paymentGen rt) n d" and pass: "postable d n"
      using f by (auto simp: fundable_def dest: normalize_balanced)
    have "validate_ledgerTransaction d' (sealed_row (rt_now rt) (paymentGen rt) n)"
      using ok b pass fresh
      by (intro effect_validates [of d "rt_isUUID rt" n "paymentGen rt"]) (auto simp: ledger_sound_def d')
    moreover have "validate_payment d' (settledAs (ve_status ev) (rt_now rt) (Some (rt_uuid rt 1)) p)"
      using payment_validates [OF ok p st f] st d' by simp
    ultimately show ?thesis
      using st pin written_map_same by (intro settled_commits [OF ok]) (auto simp: d' list_all_iff)
  qed
qed

section \<open>The invariants\<close>

lemma payment_ok_wallets:
  assumes "\<And>k. map_option (\<lambda>w. (w_userId w, w_currency w)) (wallet_pk.lookup k (wallets e)) =
      map_option (\<lambda>w. (w_userId w, w_currency w)) (wallet_pk.lookup k (wallets d))"
  shows "payment_ok e p = payment_ok d p"
  using assms [of "p_walletId p"]
  by (auto simp: payment_ok_def payment_wallet_ok_def split: option.splits)

lemma payment_ok_credit:
  "wallets e = map (credit_wallet now ps) (wallets d) \<Longrightarrow> payment_ok e p = payment_ok d p"
  by (rule payment_ok_wallets) (simp add: credit_lookup option.map_comp comp_def)

lemma payment_ok_same: "wallets e = wallets d \<Longrightarrow> payment_ok e p = payment_ok d p"
  by (rule payment_ok_wallets) simp

lemma put_keeps:
  "map p_id (payment_pk.put k (settledAs st now l) ps) = map p_id ps"
  "map p_reference (payment_pk.put k (settledAs st now l) ps) = map p_reference ps"
  by (simp_all add: payment_pk.put_def map_updateRows)

lemma settled_payments_ok:
  assumes ok: "payments_ok d" and p: "p \<in> set (payments d)" "p_provider p = pr" "p_status p = P_PENDING"
    and e: "payments e = payment_pk.put (p_id p) (settledAs (ve_status ev) now l) (payments d)"
      "providerEvents e = providerEvents d @ [newProviderEvent rt pr p ev]"
    and st: "(ve_status ev = P_SUCCEEDED \<and> l \<noteq> None) \<or> (ve_status ev = P_FAILED \<and> l = None)"
    and same: "\<And>q. payment_ok e q = payment_ok d q"
    and lts: "\<forall>x. l = Some x \<longrightarrow> (\<exists>t \<in> set (ledgerTransactions e). lt_id t = x \<and> lt_reference t = p_reference p)"
      "set (ledgerTransactions d) \<subseteq> set (ledgerTransactions e)"
  shows "payments_ok e"
proof -
  let ?f = "settledAs (ve_status ev) now l"
  have uniq: "payment_pk.unique (payments d)" and state: "payment_state_ok p" and pok: "payment_ok d p"
    using ok p by (auto simp: payments_ok_def payment_ok_def)
  have "payment_ok d (?f p)"
    using pok st pending_settles [OF state p(3)]
    by (auto simp: payment_ok_def payment_wallet_ok_def split: option.splits)
  then have pays: "\<forall>q \<in> set (payments e). payment_ok e q"
    using put_members [OF uniq p(1)] ok unfolding e(1) same payments_ok_def by blast
  have new: "validate_providerEvent e (newProviderEvent rt pr p ev)"
    using put_member [OF p(1), of ?f] p(2)
    by (intro evidence_validates [of "?f p"]) (simp_all add: e(1))
  have old: "validate_providerEvent e x" if x: "x \<in> set (providerEvents d)" for x
  proof -
    from ok x have "validate_providerEvent d x" "pe_status x \<noteq> P_PENDING"
      by (simp_all add: payments_ok_def)
    then obtain q where q: "q \<in> set (payments d)" "p_id q = pe_paymentId x"
      "p_provider q = pe_provider x" "p_status q = pe_status x" "pe_status x \<noteq> P_PENDING"
      unfolding validate_providerEvent_def existsRow_iff by blast
    have "p_id q \<noteq> p_id p"
    proof
      assume "p_id q = p_id p"
      with uniq p(1) q(1) have "q = p" unfolding payment_pk.unique_def by (metis distinct_map_inj)
      with p(3) q(4,5) show False by simp
    qed
    with q(1) have "q \<in> set (payments e)"
      by (force simp: e(1) payment_pk.put_def set_updateRows)
    with q show ?thesis unfolding validate_providerEvent_def existsRow_iff by blast
  qed
  have "payment_pk.unique (payments e)" "distinct (map p_reference (payments e))"
    using ok by (simp_all add: payments_ok_def payment_pk.unique_def e(1) put_keeps)
  moreover have "\<forall>x \<in> set (providerEvents e). pe_status x \<noteq> P_PENDING \<and> validate_providerEvent e x"
    using ok old new st by (auto simp: e(2) payments_ok_def)
  moreover have "payments_linked e"
  proof -
    have "p_ledgerTransactionId p = None" using state p(3) by (simp add: payment_state_ok_def)
    then have "p_ledgerTransactionId (?f p) = None \<or> (\<exists>t \<in> set (ledgerTransactions e). funded_by (?f p) t)"
      using lts(1) by (cases l) (auto simp: funded_by_def)
    moreover have "p_ledgerTransactionId q = None \<or> (\<exists>t \<in> set (ledgerTransactions e). funded_by q t)"
      if "q \<in> set (payments d)" for q
      using ok lts(2) that unfolding payments_ok_def payments_linked_def by blast
    ultimately show ?thesis
      using put_members [OF uniq p(1)] unfolding payments_linked_def e(1) by metis
  qed
  ultimately show ?thesis using pays by (simp add: payments_ok_def)
qed

lemma identity_credit:
  "users e = users d \<Longrightarrow> wallets e = map (credit_wallet now ps) (wallets d) \<Longrightarrow> identity_ok e = identity_ok d"
  using identity_map [of "credit_wallet now ps" d]
  by (simp add: identity_ok_def del: map_map)

lemma ledger_effect_identity [simp]: "identity_ok (ledger_effect now gen n d) = identity_ok d"
  by (rule identity_credit [where now = now and ps = "li_postings n"]) simp_all

lemma evidence_payments_ok:
  assumes ok: "payments_ok d" and p: "p \<in> set (payments d)" "p_provider p = pr"
    and st: "p_status p = ve_status ev" "ve_status ev \<noteq> P_PENDING"
  shows "payments_ok (with_evidence rt pr p ev d)"
proof -
  let ?e = "with_evidence rt pr p ev d"
  have "payment_ok ?e q = payment_ok d q" for q by (rule payment_ok_same) simp
  moreover have "validate_providerEvent ?e x = validate_providerEvent d x" for x
    by (simp add: validate_providerEvent_def)
  moreover have "validate_providerEvent ?e (newProviderEvent rt pr p ev)"
    using p st by (intro evidence_validates [of p]) simp_all
  ultimately show ?thesis using ok st by (simp add: payments_ok_def payments_linked_def)
qed

definition books_ok :: "db \<Rightarrow> bool" where
  "books_ok d \<longleftrightarrow> ledger_ok d \<and> identity_ok d \<and> payments_ok d"

lemma books_okD: "books_ok d \<Longrightarrow> ledger_sound d" "books_ok d \<Longrightarrow> payments_ok d"
  by (simp_all add: books_ok_def ledger_ok_def ledger_sound_def double_entry_linked)

text \<open>Neither the settings nor the tables the invariants do not mention matter.\<close>

lemma books_settings [simp]: "books_ok (d\<lparr>settings := s\<rparr>) = books_ok d"
proof -
  have "payment_ok (d\<lparr>settings := s\<rparr>) q = payment_ok d q" for q by (rule payment_ok_same) simp
  then show ?thesis by (simp add: books_ok_def payments_ok_def payments_linked_def validate_providerEvent_def)
qed

lemma with_outcome_ok:
  "ledger_ok (with_outcome rt p st l d) = ledger_ok d" "identity_ok (with_outcome rt p st l d) = identity_ok d"
  by (simp_all add: ledger_ok_def pairing_ok_def double_entry_def identity_ok_def)

lemma settles_books:
  assumes ok: "books_ok d" and s: "settles rt ev pr d r d'"
  shows "books_ok d'"
proof -
  obtain p where p: "findIntent pr ev d = Some p" and cases: "d' = d \<or>
      (evidence_writable rt ev d \<and> ve_status ev = p_status p \<and> d' = with_evidence rt pr p ev d) \<or>
      (p_status p = P_PENDING \<and> ve_status ev = P_FAILED \<and> d' = declined rt pr p ev d) \<or>
      (p_status p = P_PENDING \<and> ve_status ev = P_SUCCEEDED \<and>
         (\<exists>w a n. fundable rt p w a n d \<and> d' = funded rt pr p ev n d))"
    using s by (auto simp: settles_def)
  note pin = findIntent_in [OF p]
  have led: "ledger_ok d" "identity_ok d" "payments_ok d" using ok by (simp_all add: books_ok_def)
  from cases show ?thesis
  proof (elim disjE conjE exE)
    show "d' = d \<Longrightarrow> ?thesis" using ok by simp
  next
    assume "evidence_writable rt ev d" "ve_status ev = p_status p" and d': "d' = with_evidence rt pr p ev d"
    then have "payments_ok d'" using pin led(3)
      by (auto simp: evidence_writable_def intro!: evidence_payments_ok)
    moreover have "identity_ok d'" using led(2) by (simp add: d' identity_ok_def)
    ultimately show ?thesis using led by (simp add: books_ok_def d')
  next
    assume st: "p_status p = P_PENDING" "ve_status ev = P_FAILED" and d': "d' = declined rt pr p ev d"
    have "payments_ok d'"
      using pin st led(3) payment_ok_same [of d' d]
      by (intro settled_payments_ok [of d p pr d' ev]) (auto simp: d')
    moreover have "identity_ok d'" using led(2) by (simp add: d' identity_ok_def)
    ultimately show ?thesis using led by (simp add: books_ok_def d' declined_def with_outcome_ok)
  next
    fix w a n assume st: "p_status p = P_PENDING" "ve_status ev = P_SUCCEEDED"
      and f: "fundable rt p w a n d" and d': "d' = funded rt pr p ev n d"
    have b: "balanced_input (rt_isUUID rt) n" and fresh: "fresh_ledger (paymentGen rt) n d" and pass: "postable d n"
      using f by (auto simp: fundable_def dest: normalize_balanced)
    have "js_trim (p_reference p) = p_reference p" using led(3) pin by (auto simp: payments_ok_def payment_ok_def)
    with f have "li_reference n = p_reference p" by (rule fundable_input)
    then have "payments_ok d'"
      using pin st led(3) payment_ok_credit [of d' "rt_now rt" "li_postings n" d]
      by (intro settled_payments_ok [of d p pr d' ev]) (auto simp: d')
    moreover have "ledger_ok d'"
      using led(1) b pass fresh
      by (simp add: d' funded_def with_outcome_ok effect_ledger_ok [of _ "rt_isUUID rt"])
    moreover have "identity_ok d'"
      using led(2) by (simp add: d' funded_def with_outcome_ok) (simp add: identity_ok_def)
    ultimately show ?thesis by (simp add: books_ok_def)
  qed
qed

section \<open>One attempt\<close>

lemma settle_Inr:
  assumes e: "e = sa_others sa d" "ledger_sound e" "payments_ok e"
  shows "settle sa ev pr d = (Inr r, d') \<longleftrightarrow>
    sa_abort sa = None \<and> (\<exists>m. settles (sa_runtime sa) ev pr e r m \<and> d' = m\<lparr>settings := []\<rparr>)"
  using settleBody_Inr [OF e(2,3)] settles_commits [OF e(2,3)]
  by (auto simp: settle_def op_simps prisma_transaction_Inr e(1) [symmetric])

lemma settle_Inl: "settle sa ev pr d = (Inl x, d') \<Longrightarrow> d' = sa_others sa d"
  by (auto simp: settle_def op_simps dest: prisma_transaction_Inl)

end
