(* ===== verification/PaymentAmounts.thy ===== *)
theory PaymentAmounts
  imports PaymentCommit
begin

text \<open>
  Amounts as text: a string that the patterns \<open>/^[1-9][0-9]{0,n}$/\<close> accept is the canonical decimal
  numeral of a positive number, so comparing a printed amount with the text of an event, as \<open>settle\<close>
  does, compares the numbers. The evidence the two providers produce carries such amounts only.
\<close>

section \<open>Canonical numerals\<close>

definition decimalValue :: "string \<Rightarrow> nat" where
  "decimalValue s = foldl (\<lambda>acc c. acc * 10 + digitVal c) 0 s"

lemma decimalValue_snoc: "decimalValue (s @ [c]) = decimalValue s * 10 + digitVal c"
  by (simp add: decimalValue_def)

lemma decimalValue_pos:
  "s \<noteq> [] \<Longrightarrow> list_all isDigit s \<Longrightarrow> hd s \<noteq> CHR ''0'' \<Longrightarrow> 0 < decimalValue s"
proof (induction s rule: rev_induct)
  case (snoc c s)
  show ?case
  proof (cases "s = []")
    case True
    with snoc.prems have c: "isDigit c" "c \<noteq> CHR ''0''" by simp_all
    have "digitVal c \<noteq> 0"
    proof
      assume "digitVal c = 0"
      then have "digitChar 0 = c" using digitChar_digitVal [OF c(1)] by simp
      moreover have "digitChar 0 = CHR ''0''" using showNat_zero by (subst (asm) showNat.simps) simp
      ultimately show False using c(2) by simp
    qed
    with True show ?thesis by (simp add: decimalValue_def)
  next
    case False
    with snoc have "0 < decimalValue s" by simp
    then show ?thesis by (simp add: decimalValue_snoc)
  qed
qed simp

lemma showNat_decimalValue:
  "s \<noteq> [] \<Longrightarrow> list_all isDigit s \<Longrightarrow> hd s \<noteq> CHR ''0'' \<Longrightarrow> showNat (decimalValue s) = s"
proof (induction s rule: rev_induct)
  case (snoc c s)
  have d: "digitVal c < 10" "digitChar (digitVal c) = c"
    using snoc.prems digit_val_lt digitChar_digitVal by simp_all
  show ?case
  proof (cases "s = []")
    case True
    with d show ?thesis by (subst showNat.simps) (simp add: decimalValue_def)
  next
    case False
    with snoc have IH: "showNat (decimalValue s) = s" and pos: "0 < decimalValue s"
      by (simp_all add: decimalValue_pos)
    from pos d have "10 \<le> decimalValue (s @ [c])" "decimalValue (s @ [c]) div 10 = decimalValue s"
      "decimalValue (s @ [c]) mod 10 = digitVal c"
      by (simp_all add: decimalValue_snoc)
    with IH d(2) show ?thesis by (subst showNat.simps) simp
  qed
qed simp

lemma positiveDecimal_canonical:
  assumes "positiveDecimal n s"
  shows "js_BigInt s = Some (int (decimalValue s)) \<and> js_showInt (int (decimalValue s)) = s \<and> 0 < decimalValue s"
proof -
  have s: "s \<noteq> []" "list_all isDigit s" "hd s \<noteq> CHR ''0''" using assms by (simp_all add: positiveDecimal_def)
  note shown = showNat_decimalValue [OF s]
  then have "js_BigInt s = Some (int (decimalValue s))" by (metis js_BigInt_showNat)
  with shown s show ?thesis by (simp add: js_showInt_def decimalValue_pos)
qed

definition amount_text :: "string \<Rightarrow> bool" where
  "amount_text s \<longleftrightarrow> (\<exists>v. 0 < v \<and> v \<le> MAX_MINOR_UNITS \<and> js_BigInt s = Some v \<and> js_showInt v = s)"

lemma amount_text_of:
  "positiveDecimal n s \<Longrightarrow> js_BigInt s = Some v \<Longrightarrow> v \<le> MAX_MINOR_UNITS \<Longrightarrow> amount_text s"
  using positiveDecimal_canonical [of n s] by (auto simp: amount_text_def)

lemma paymentAmount_Inr:
  "paymentAmount s = Inr v \<longleftrightarrow> positiveDecimal 18 s \<and> js_BigInt s = Some v \<and> v \<le> MAX_MINOR_UNITS"
  by (auto simp: paymentAmount_def split: option.splits if_splits)

section \<open>What the providers accept\<close>

lemma mockVerify_Inr:
  "mockVerify rt env raw ts sig = Inr e \<longleftrightarrow>
     mockAssertEnabled env = Inr () \<and> raw \<noteq> [] \<and> length raw \<le> 16384 \<and>
     (\<exists>t s tm j. ts = Some t \<and> sig = Some s \<and> timestampOf ts = Some tm \<and>
        \<bar>rt_now rt - tm * 1000\<bar> \<le> 300000 \<and> mockSignatureFormat s \<and>
        drop 3 s = pv_hmac256 env (the (pv_mockSecret env)) (t @ ''.'' @ raw) \<and>
        pv_parseBody env raw = Some j \<and> parseMockEvent (pv_zodUuid env) (rt_sha256 rt raw) j = Some e)"
  unfolding mockVerify_def
  by (cases ts; cases sig; cases "mockAssertEnabled env")
    (auto simp: timestampOf_def split: option.splits if_splits)

lemma parseMockEvent_Some:
  assumes "parseMockEvent isUuid hash j = Some e"
  shows "amount_text (ve_amountMinor e) \<and> ve_status e \<in> {P_SUCCEEDED, P_FAILED} \<and>
    referencePattern ''payment:'' (ve_reference e) \<and> isUuid (ve_eventId e) \<and> ve_payloadHash e = hash"
  using assms amount_text_of [of 18 "ve_amountMinor e"]
  by (auto simp: parseMockEvent_def split: option.splits if_splits)

lemma timestamp_length: "timestampOf (Some t) = Some tm \<Longrightarrow> length t = 10"
  by (simp add: timestampOf_def split: if_splits)

lemma showInt_amount:
  assumes "0 < v" "v \<le> MAX_SAFE_INTEGER"
  shows "amount_text (js_showInt v)"
  using assms js_BigInt_showInt [of v]
  by (auto simp: amount_text_def MAX_SAFE_INTEGER_def MAX_MINOR_UNITS_def)

lemma paystackReconcile_Some:
  "paystackReconcile rt env ref = Inr (Some e) \<Longrightarrow>
     \<exists>result body data. paystackRequest env (''/transaction/verify/'' @ pv_encodeURIComponent env ref) None = Inr result \<and>
       jfield ''status'' result = Some (JBool True) \<and> jfield ''data'' result = Some body \<and>
       parseTransaction body = Some data \<and> pt_reference data = ref \<and> pt_status data = ''success'' \<and>
       pt_domain data = paystackDomain (the (pv_paystackKey env)) \<and>
       e = paystackEvidence (rt_sha256 rt) (paystackDomain (the (pv_paystackKey env))) data"
proof -
  let ?v = "\<lambda>result. if jfield ''status'' result = Some (JBool True)
      then Option.bind (jfield ''data'' result) parseTransaction else None"
  let ?domain = "paystackDomain (the (pv_paystackKey env))"
  assume run: "paystackReconcile rt env ref = Inr (Some e)"
  then obtain result where r: "paystackRequest env (''/transaction/verify/'' @ pv_encodeURIComponent env ref) None = Inr result"
    and v: "(case ?v result of
       None \<Rightarrow> Inl (ServiceUnavailable ''Invalid Paystack verification response'')
     | Some data \<Rightarrow>
         if pt_reference data \<noteq> ref \<or> pt_domain data \<noteq> ?domain then
           Inl (ServiceUnavailable ''Paystack verification identity mismatch'')
         else if pt_status data \<noteq> ''success'' then Inr None
         else Inr (Some (paystackEvidence (rt_sha256 rt) ?domain data))) = Inr (Some e)"
    unfolding paystackReconcile_def Let_def ebind_eq_Inr by blast
  from v obtain data where data: "?v result = Some data" by (cases "?v result") simp_all
  with v have "pt_reference data = ref" "pt_domain data = ?domain" "pt_status data = ''success''"
    "e = paystackEvidence (rt_sha256 rt) ?domain data"
    by (simp_all only: option.case) (auto split: if_splits)
  moreover from data obtain body where "jfield ''status'' result = Some (JBool True)"
    "jfield ''data'' result = Some body" "parseTransaction body = Some data"
    by (cases "jfield ''data'' result") (simp_all split: if_splits)
  ultimately show ?thesis using r by blast
qed

lemma parseTransaction_Some:
  "parseTransaction j = Some data \<Longrightarrow>
     0 < pt_id data \<and> 0 < pt_amount data \<and> pt_amount data \<le> MAX_SAFE_INTEGER \<and>
     referencePattern ''payment-'' (pt_reference data) \<and> pt_domain data \<in> {''test'', ''live''}"
  by (auto simp: parseTransaction_def safePositive_def split: option.splits if_splits)

end
