(* ===== verification/Requests.thy ===== *)
theory Requests
  imports Api PaymentAmounts
begin

text \<open>
  From the bodies and queries of requests to the inputs of the services: the classes under
  \<open>src/*/dto/\<close>, \<open>payments.dto.ts\<close> and \<open>webhooks.dto.ts\<close>, behind the validation pipe that
  \<open>src/main.ts\<close> installs (\<open>transform\<close>, \<open>whitelist\<close>, \<open>forbidNonWhitelisted\<close>).

  A body is the list of the members of a JSON object (empty when there is none), a query the list of
  its parameters. The address and UUID checks of \<open>class-validator\<close> and the texts of its messages are
  arguments; its other decorators are the functions of the first section.
\<close>

section \<open>Decorated fields\<close>

record pipe =
  pp_isEmail :: "string \<Rightarrow> bool"
  pp_isUUID :: "string \<Rightarrow> string \<Rightarrow> bool"
  pp_message :: "(string \<times> json) list \<Rightarrow> string"
  pp_queryMessage :: "(string \<times> string) list \<Rightarrow> string"

text \<open>A string field after its \<open>@Transform\<close> \<open>f\<close>, with the checks \<open>p\<close>; the second one is \<open>@IsOptional\<close>, which
  lets \<open>null\<close> pass as well. The outer option is acceptance.\<close>

definition stringField :: "(string \<Rightarrow> string) \<Rightarrow> (string \<Rightarrow> bool) \<Rightarrow> json option \<Rightarrow> string option" where
  "stringField f p v = (case v of Some (JStr s) \<Rightarrow> if p (f s) then Some (f s) else None | _ \<Rightarrow> None)"

definition optionalField :: "(string \<Rightarrow> string) \<Rightarrow> (string \<Rightarrow> bool) \<Rightarrow> json option \<Rightarrow> string option option" where
  "optionalField f p v =
     (if v = None \<or> v = Some JNull then Some None else map_option Some (stringField f p v))"

definition lengthIn :: "nat \<Rightarrow> nat \<Rightarrow> string \<Rightarrow> bool" where
  "lengthIn lo hi s \<longleftrightarrow> lo \<le> length s \<and> length s \<le> hi"

text \<open>The whole object: no other members, and every field accepted.\<close>

definition validated :: "pipe \<Rightarrow> string list \<Rightarrow> (string \<times> json) list \<Rightarrow> 'a option \<Rightarrow> exn + 'a" where
  "validated pp known body r =
     (case r of
        None \<Rightarrow> Inl (BadRequest (pp_message pp body))
      | Some x \<Rightarrow> if list_all (\<lambda>kv. fst kv \<in> set known) body then Inr x
                  else Inl (BadRequest (pp_message pp body)))"

section \<open>Bodies\<close>

definition registerDto :: "pipe \<Rightarrow> (string \<times> json) list \<Rightarrow> exn + register_input" where
  "registerDto pp body = validated pp [''email'', ''password'', ''firstName'', ''lastName'', ''currency''] body
     (case (stringField normalizeEmail (\<lambda>s. pp_isEmail pp s \<and> length s \<le> 320) (map_of body ''email''),
            stringField id (lengthIn 12 256) (map_of body ''password''),
            stringField js_trim (lengthIn 1 80) (map_of body ''firstName''),
            stringField js_trim (lengthIn 1 80) (map_of body ''lastName''),
            optionalField id (\<lambda>s. currencyOf s \<noteq> None) (map_of body ''currency'')) of
        (Some email, Some password, Some firstName, Some lastName, Some currency) \<Rightarrow>
          Some \<lparr>ri_email = email, ri_password = password, ri_firstName = firstName, ri_lastName = lastName,
                ri_currency = Option.bind currency currencyOf\<rparr>
      | _ \<Rightarrow> None)"

definition loginDto :: "pipe \<Rightarrow> (string \<times> json) list \<Rightarrow> exn + login_input" where
  "loginDto pp body = validated pp [''email'', ''password''] body
     (case (stringField normalizeEmail (\<lambda>s. pp_isEmail pp s \<and> length s \<le> 320) (map_of body ''email''),
            stringField id (\<lambda>s. length s \<le> 256) (map_of body ''password'')) of
        (Some email, Some password) \<Rightarrow> Some \<lparr>li_email = email, li_password = password\<rparr>
      | _ \<Rightarrow> None)"

definition createWalletDto :: "pipe \<Rightarrow> (string \<times> json) list \<Rightarrow> exn + Currency" where
  "createWalletDto pp body = validated pp [''currency''] body
     (Option.bind (stringField id (\<lambda>s. currencyOf s \<noteq> None) (map_of body ''currency'')) currencyOf)"

definition createBeneficiaryDto :: "pipe \<Rightarrow> (string \<times> json) list \<Rightarrow> exn + (uuid \<times> string)" where
  "createBeneficiaryDto pp body = validated pp [''walletId'', ''label''] body
     (case (stringField id (pp_isUUID pp ''4'') (map_of body ''walletId''),
            stringField js_trim (lengthIn 1 80) (map_of body ''label'')) of
        (Some walletId, Some label) \<Rightarrow> Some (walletId, label)
      | _ \<Rightarrow> None)"

text \<open>\<open>@IsString() @MaxLength(19) @Matches(/^[1-9]\d*$/)\<close>\<close>

definition amountField :: "json option \<Rightarrow> string option" where
  "amountField = stringField id (positiveDecimal 18)"

definition createTransferDto :: "pipe \<Rightarrow> (string \<times> json) list \<Rightarrow> exn + create_transfer_input" where
  "createTransferDto pp body =
     validated pp [''sourceWalletId'', ''destinationWalletId'', ''beneficiaryId'', ''amountMinor''] body
       (case (stringField id (pp_isUUID pp ''4'') (map_of body ''sourceWalletId''),
              optionalField id (pp_isUUID pp ''4'') (map_of body ''destinationWalletId''),
              optionalField id (pp_isUUID pp ''4'') (map_of body ''beneficiaryId''),
              amountField (map_of body ''amountMinor'')) of
          (Some source, Some destination, Some beneficiary, Some amount) \<Rightarrow>
            Some \<lparr>ct_sourceWalletId = source, ct_destinationWalletId = destination,
                  ct_beneficiaryId = beneficiary, ct_amountMinor = amount\<rparr>
        | _ \<Rightarrow> None)"

definition createReversalDto :: "pipe \<Rightarrow> (string \<times> json) list \<Rightarrow> exn + string option" where
  "createReversalDto pp body = validated pp [''reason''] body
     (optionalField js_trim (lengthIn 1 255) (map_of body ''reason''))"

definition createPaymentDto :: "pipe \<Rightarrow> (string \<times> json) list \<Rightarrow> exn + create_payment_input" where
  "createPaymentDto pp body = validated pp [''walletId'', ''amountMinor''] body
     (case (stringField id (pp_isUUID pp ''all'') (map_of body ''walletId''), amountField (map_of body ''amountMinor'')) of
        (Some walletId, Some amount) \<Rightarrow> Some \<lparr>cp_walletId = walletId, cp_amountMinor = amount\<rparr>
      | _ \<Rightarrow> None)"

definition createWebhookDto :: "pipe \<Rightarrow> (string \<times> json) list \<Rightarrow> exn + string" where
  "createWebhookDto pp body = validated pp [''url''] body (stringField id (\<lambda>s. length s \<le> 2048) (map_of body ''url''))"

section \<open>Queries\<close>

text \<open>A parameter: missing, given once, or given several times, which makes it an array.\<close>

datatype parameter = Missing | Single string | Several

definition parameterOf :: "string \<Rightarrow> (string \<times> string) list \<Rightarrow> parameter" where
  "parameterOf k q = (case filter (\<lambda>kv. fst kv = k) q of [] \<Rightarrow> Missing | [kv] \<Rightarrow> Single (snd kv) | _ \<Rightarrow> Several)"

text \<open>\<open>@Type(() => Number) @IsInt() @Min(1) @Max(100) limit = 50\<close>\<close>

fun limitField :: "parameter \<Rightarrow> nat option" where
  "limitField Missing = Some 50"
| "limitField (Single s) = (case integerValue (js_Number s) of
      None \<Rightarrow> None | Some n \<Rightarrow> if 1 \<le> n \<and> n \<le> 100 then Some (nat n) else None)"
| "limitField Several = None"

fun cursorField :: "pipe \<Rightarrow> parameter \<Rightarrow> uuid option option" where
  "cursorField pp Missing = Some None"
| "cursorField pp (Single s) = (if pp_isUUID pp ''all'' s then Some (Some s) else None)"
| "cursorField pp Several = None"

definition pageDto :: "pipe \<Rightarrow> (string \<times> string) list \<Rightarrow> exn + (nat \<times> uuid option)" where
  "pageDto pp q =
     (case (limitField (parameterOf ''limit'' q), cursorField pp (parameterOf ''cursor'' q)) of
        (Some limit, Some cursor) \<Rightarrow>
          if list_all (\<lambda>kv. fst kv \<in> {''limit'', ''cursor''}) q then Inr (limit, cursor)
          else Inl (BadRequest (pp_queryMessage pp q))
      | _ \<Rightarrow> Inl (BadRequest (pp_queryMessage pp q)))"

section \<open>Endpoints\<close>

datatype endpoint =
    PostRegister "(string \<times> json) list" | PostLogin "(string \<times> json) list" | GetMe
  | PostWallets "(string \<times> json) list" | GetWallets | GetWalletOf uuid | PostClose uuid
  | PostBeneficiaries "(string \<times> json) list" | GetBeneficiaries | DeleteBeneficiary uuid
  | PostTransfers "(string \<times> json) list" | GetTransfers | GetTransferOf uuid
  | PostReversal uuid "(string \<times> json) list" | GetReversalOf uuid
  | GetAudit "(string \<times> string) list"
  | PostPayments "(string \<times> json) list" | GetPayments "(string \<times> string) list" | GetPaymentOf uuid
  | PostReconcile uuid | GetEvents uuid "(string \<times> string) list"
  | PostCallback callback_route
  | PostWebhooks "(string \<times> json) list" | GetWebhooks | DeleteWebhook uuid
  | GetDeliveries uuid "(string \<times> string) list"

fun parseRequest :: "pipe \<Rightarrow> endpoint \<Rightarrow> exn + route_of" where
  "parseRequest pp (PostRegister body) = ebind (registerDto pp body) (\<lambda>input. Inr (AuthRoute (Register input)))"
| "parseRequest pp (PostLogin body) = ebind (loginDto pp body) (\<lambda>input. Inr (AuthRoute (Login input)))"
| "parseRequest pp GetMe = Inr (AuthRoute Me)"
| "parseRequest pp (PostWallets body) = ebind (createWalletDto pp body) (\<lambda>c. Inr (WalletsRoute (CreateWallet c)))"
| "parseRequest pp GetWallets = Inr (WalletsRoute ListWallets)"
| "parseRequest pp (GetWalletOf i) = Inr (WalletsRoute (GetWallet i))"
| "parseRequest pp (PostClose i) = Inr (WalletsRoute (CloseWallet i))"
| "parseRequest pp (PostBeneficiaries body) =
     ebind (createBeneficiaryDto pp body) (\<lambda>(walletId, label). Inr (BeneficiariesRoute (CreateBeneficiary walletId label)))"
| "parseRequest pp GetBeneficiaries = Inr (BeneficiariesRoute ListBeneficiaries)"
| "parseRequest pp (DeleteBeneficiary i) = Inr (BeneficiariesRoute (RemoveBeneficiary i))"
| "parseRequest pp (PostTransfers body) = ebind (createTransferDto pp body) (\<lambda>input. Inr (TransfersRoute (CreateTransfer input)))"
| "parseRequest pp GetTransfers = Inr (TransfersRoute ListTransfers)"
| "parseRequest pp (GetTransferOf i) = Inr (TransfersRoute (GetTransfer i))"
| "parseRequest pp (PostReversal i body) = ebind (createReversalDto pp body) (\<lambda>reason. Inr (ReversalsRoute (CreateReversal i reason)))"
| "parseRequest pp (GetReversalOf i) = Inr (ReversalsRoute (GetReversal i))"
| "parseRequest pp (GetAudit q) = ebind (pageDto pp q) (\<lambda>(limit, cursor). Inr (AuditRoute limit cursor))"
| "parseRequest pp (PostPayments body) = ebind (createPaymentDto pp body) (\<lambda>input. Inr (PaymentsRoute (CreatePayment input)))"
| "parseRequest pp (GetPayments q) = ebind (pageDto pp q) (\<lambda>(limit, cursor). Inr (PaymentsRoute (ListPayments limit cursor)))"
| "parseRequest pp (GetPaymentOf i) = Inr (PaymentsRoute (GetPayment i))"
| "parseRequest pp (PostReconcile i) = Inr (PaymentsRoute (ReconcilePayment i))"
| "parseRequest pp (GetEvents i q) = ebind (pageDto pp q) (\<lambda>(limit, cursor). Inr (PaymentsRoute (ListEvents i limit cursor)))"
| "parseRequest pp (PostCallback r) = Inr (CallbackRoute r)"
| "parseRequest pp (PostWebhooks body) = ebind (createWebhookDto pp body) (\<lambda>url. Inr (WebhooksRoute (CreateWebhook url)))"
| "parseRequest pp GetWebhooks = Inr (WebhooksRoute ListWebhooks)"
| "parseRequest pp (DeleteWebhook i) = Inr (WebhooksRoute (DisableWebhook i))"
| "parseRequest pp (GetDeliveries i q) = ebind (pageDto pp q) (\<lambda>(limit, cursor). Inr (WebhooksRoute (ListDeliveries i limit cursor)))"

text \<open>Guards run before pipes: an input is only refused to a caller that the guard has let through.\<close>

definition handleRequest :: "api \<Rightarrow> pipe \<Rightarrow> endpoint \<Rightarrow> (db, api_response) op" where
  "handleRequest ap pp e =
     (case parseRequest pp e of
        Inr route \<Rightarrow> handle ap route
      | Inl err \<Rightarrow>
          (case e of
             PostRegister _ \<Rightarrow> authRateGuard ap (raise err)
           | PostLogin _ \<Rightarrow> authRateGuard ap (raise err)
           | _ \<Rightarrow> guarded ap (\<lambda>_. raise err)))"

end
