(* ===== verification/AuthClaims.thy ===== *)
theory AuthClaims
  imports Auth
begin

text \<open>
  Properties of registration, login and the guard: what is stored verifies exactly the password it was
  made from, an issued token is accepted for its user, and nothing else passes the guard.
\<close>

section \<open>Password hashes\<close>

lemma encodeHash_parts:
  "splitOn (CHR ''$'') (encodeHash salt key) =
    [''scrypt'', showNat SCRYPT_N, showNat SCRYPT_R, showNat SCRYPT_P, toBase64url salt, toBase64url key]"
proof -
  have "CHR ''$'' \<notin> set (showNat n)" for n using showNat_digits [of n] by (auto simp: isDigit_def)
  then show ?thesis
    unfolding encodeHash_def using base64url_no_dollar by (intro split_joined) auto
qed

lemma showNat_cost:
  "showNat SCRYPT_N = ''32768''" "showNat SCRYPT_R = ''8''" "showNat SCRYPT_P = ''3''"
  unfolding SCRYPT_N_def SCRYPT_R_def SCRYPT_P_def
  by (simp_all add: showNat.simps digitChar_def char_of_is)

lemma verify_encoded:
  assumes "length salt = 16" "length key = KEY_LENGTH"
  shows "verifyPassword scrypt password (encodeHash salt key) \<longleftrightarrow> derive scrypt password salt = Inr key"
proof -
  have "toBase64url salt \<noteq> []" "toBase64url key \<noteq> []"
    using assms by (auto simp: base64url_nonempty KEY_LENGTH_def)
  moreover have "js_Number (showNat SCRYPT_N) = Dyadic (int SCRYPT_N) 0"
    "js_Number (showNat SCRYPT_R) = Dyadic (int SCRYPT_R) 0" "js_Number (showNat SCRYPT_P) = Dyadic (int SCRYPT_P) 0"
    unfolding showNat_cost js_Number_samples by (simp_all add: SCRYPT_N_def SCRYPT_R_def SCRYPT_P_def)
  ultimately show ?thesis
    using assms by (simp add: verifyPassword_def encodeHash_parts from_to_base64url split: sum.split)
qed

text \<open>The stored text fits its column.\<close>

lemma length_encodeHash:
  assumes "length salt = 16" "length key = KEY_LENGTH"
  shows "length (encodeHash salt key) = 126"
  using assms unfolding encodeHash_def showNat_cost by (simp add: length_base64url KEY_LENGTH_def)

lemma encodeHash_no_nul: "no_nul (encodeHash salt key)"
  using base64url_no_nul by (simp add: no_nul_def encodeHash_def showNat_cost)

section \<open>Registration\<close>

lemma register_Inr_parts:
  assumes "register scrypt jwt rt salt others abort input d = (Inr res, d')"
  obtains key w where "derive scrypt (ri_password input) salt = Inr key"
    "createWithInitialWallet rt abort (newAccount input (encodeHash salt key)) (others d) = (Inr (ar_user res, w), d')"
    "issueAccessToken jwt (rt_now rt) (ar_user res) = Inr (ar_token res)"
    "rr_initialWallet res = toWalletResponse w"
proof -
  from assms obtain key where key: "derive scrypt (ri_password input) salt = Inr key"
    and create: "createAccount jwt rt abort input (encodeHash salt key) (others d) = (Inr res, d')"
    by (auto simp: register_def hashPassword_def findByEmailWithPassword_def op_simps ebind_eq_Inr
        andThen_Inr lift_def ebind_def split: sum.splits if_splits)
  then obtain u w where "createWithInitialWallet rt abort (newAccount input (encodeHash salt key)) (others d) = (Inr (u, w), d')"
    "issueAccessToken jwt (rt_now rt) u = Inr (ar_token res)" "u = ar_user res" "rr_initialWallet res = toWalletResponse w"
    by (auto simp: createAccount_def tryCatch_def andThen_def op_simps lift_def raise_def return_def
        split: prod.splits sum.splits if_splits)
  with key show thesis using that by blast
qed

lemma registered_stored:
  assumes ok: "ledger_ok d" and run: "createWithInitialWallet rt abort input d = (Inr (u, w), d')"
    and email: "normalizeEmail email = normalizeEmail (cu_email input)"
  shows "findByEmailWithPassword email d' = (Inr (Some (registered_user rt input)), d') \<and>
    u = toSafeUser (registered_user rt input)"
proof -
  have "findRow (\<lambda>u. u_email u = normalizeEmail (cu_email input)) (users d) = None"
    using register_Inr [OF ok run] by (auto simp: findRow_None notin_image)
  then show ?thesis
    using register_Inr [OF ok run] email
    by (simp add: findByEmailWithPassword_def op_simps opened_wallet_def findRow_append registered_user_def)
qed

lemma registration_runs:
  assumes ok: "ledger_ok d" "can_open rt 1 (rt_uuid rt 0) c (d\<lparr>users := users d @ [registered_user rt input]\<rparr>)"
    and new: "rt_uuid rt 0 \<notin> u_id ` set (users d)" "normalizeEmail (cu_email input) \<notin> u_email ` set (users d)"
    and fits: "varchar_ok 320 (normalizeEmail (cu_email input))" "varchar_ok 255 (cu_passwordHash input)"
      "varchar_ok 80 (js_trim (cu_firstName input))" "varchar_ok 80 (js_trim (cu_lastName input))"
    and c: "c = (case cu_currency input of None \<Rightarrow> USD | Some c \<Rightarrow> c)"
  shows "\<exists>w d'. createWithInitialWallet rt None input d = (Inr (toSafeUser (registered_user rt input), w), d')"
proof -
  let ?e = "d\<lparr>users := users d @ [registered_user rt input]\<rparr>"
  have ok': "pairing_ok ?e" using ok by (simp add: ledger_ok_def)
  have "create_user (registered_user rt input) d = (Inr (registered_user rt input), ?e)"
    using fits new normalizeEmail_canonical [of "cu_email input"]
    by (auto simp: create_user_def registered_user_def op_simps existsRow_iff notin_image)
  moreover have "fst (open_wallet rt 1 (rt_uuid rt 0) c ?e) = Inr (new_wallet (rt_uuid rt 2) (rt_uuid rt 0) (rt_uuid rt 1) c (rt_now rt))"
    "snd (open_wallet rt 1 (rt_uuid rt 0) c ?e) = opened_wallet rt 1 (rt_uuid rt 0) c ?e"
    using open_wallet_cases [OF ok', of rt 1 "rt_uuid rt 0" c] ok(2) by (simp_all add: can_open_def numeral_2_eq_2)
  moreover have "commit_checks d (opened_wallet rt 1 (rt_uuid rt 0) c ?e)"
    using opened_wallet_commits [OF ok', of rt 1 "rt_uuid rt 0" c] ok(2)
    by (simp add: can_open_def commit_checks_def)
  ultimately show ?thesis
    by (auto simp: createWithInitialWallet_def prisma_transaction_def registered_user_def c [symmetric] andThen_def
        return_def split: prod.splits)
qed

lemma registration_refused:
  assumes "\<not> (varchar_ok 320 (normalizeEmail (cu_email input)) \<and> varchar_ok 255 (cu_passwordHash input) \<and>
    varchar_ok 80 (js_trim (cu_firstName input)) \<and> varchar_ok 80 (js_trim (cu_lastName input)))"
  shows "createWithInitialWallet rt None input d = (Inl OutOfRange, d)"
proof -
  have "create_user (registered_user rt input) d = (Inl OutOfRange, d)"
    using assms by (auto simp: create_user_def registered_user_def andThen_apply require_apply)
  then show ?thesis
    by (simp add: createWithInitialWallet_def prisma_transaction_def registered_user_def andThen_apply Let_def)
qed

lemma login_stored:
  assumes "findByEmailWithPassword (li_email input) d = (Inr (Some u), d)" "u_passwordHash u \<noteq> []"
  shows "login scrypt jwt now input d =
    (if verifyPassword scrypt (li_password input) (u_passwordHash u)
     then ebind (issueAccessToken jwt now (toSafeUser u)) (\<lambda>token. Inr \<lparr>ar_token = token, ar_user = toSafeUser u\<rparr>)
     else Inl (Unauthorized ''Invalid email or password''), d)"
  using assms
  by (simp add: login_def andThen_def verifyOrBurn_def lift_def raise_def return_def ebind_def split: sum.splits)

lemma encodeHash_nonempty: "encodeHash salt key \<noteq> []"
  by (simp add: encodeHash_def)

section \<open>Tokens\<close>

lemma guard_found:
  assumes "jwt_verify jwt token (jwt_secret jwt) [''HS256''] JWT_ISSUER JWT_AUDIENCE now = Inr p"
    and "vp_sub p = Some sub" "vp_type p = Some ''access''" "sub \<noteq> []" "user_pk.lookup (pgUuid sub) (users d) = Some u"
  shows "authenticate jwt now None token d = (Inr \<lparr>au_id = u_id u, au_email = u_email u\<rparr>, d)"
  using assms by (simp add: authenticate_def andThen_def lift_def unlessError_def findSafeById_def op_simps toSafeUser_def)

lemma dropWhile_pad:
  "\<forall>c \<in> set xs. p c \<Longrightarrow> t \<noteq> [] \<Longrightarrow> \<not> p (hd t) \<Longrightarrow> dropWhile p (xs @ t) = t"
  by (cases t) (simp_all add: dropWhile_append2)

lemma trim_pad:
  assumes "\<forall>c \<in> set prefix. js_whitespace c" "\<forall>c \<in> set suffix. js_whitespace c"
    and "s \<noteq> []" "\<not> js_whitespace (hd s)" "\<not> js_whitespace (last s)"
  shows "js_trim (prefix @ s @ suffix) = s"
proof -
  have "dropWhile js_whitespace (prefix @ (s @ suffix)) = s @ suffix"
    using assms by (intro dropWhile_pad) auto
  moreover have "dropWhile js_whitespace (rev suffix @ rev s) = rev s"
    using assms by (intro dropWhile_pad) (auto simp: hd_rev)
  ultimately show ?thesis by (simp add: js_trim_def)
qed

lemma bearer_read:
  assumes "\<forall>c \<in> set prefix. js_whitespace c" "\<forall>c \<in> set suffix. js_whitespace c"
    and "gap \<noteq> []" "\<forall>c \<in> set gap. js_whitespace c"
    and "js_toLowerCase scheme = ''bearer''" "token \<noteq> []" "\<forall>c \<in> set token. \<not> js_whitespace c"
  shows "extractBearerToken (Some (prefix @ scheme @ gap @ token @ suffix)) = Inr token"
proof -
  have low: "\<forall>c \<in> set ''bearer''. \<not> js_whitespace c" by (simp add: js_whitespace_def)
  then have scheme: "scheme \<noteq> []" "\<forall>c \<in> set scheme. \<not> js_whitespace c"
    unfolding assms(5) [symmetric] js_toLowerCase_def using assms(5) by (auto simp: js_toLowerCase_def)
  have "js_trim (prefix @ (scheme @ gap @ token) @ suffix) = scheme @ gap @ token"
    using assms scheme by (intro trim_pad) (auto simp: hd_append)
  moreover have "splitSpaces (scheme @ gap @ token) = [scheme, token]"
    using assms scheme by (intro splitSpaces_two)
  ultimately show ?thesis
    using assms scheme by (auto simp: extractBearerToken_def split: list.split)
qed

section \<open>Properties\<close>

text \<open>C33. An account that was registered can log in with any spelling of its address, and with a password
  exactly when that password derives the same key: the answer carries the registered user and a token
  issued for it. Any other password is refused with 401, and a login changes nothing. Requests that
  ran between the two transactions of the registration make no difference.\<close>

theorem login_after_register:
  assumes ok: "ledger_ok (others d)"
    and run: "register scrypt jwt rt salt others abort input d = (Inr res, d')"
    and salt: "length salt = 16"
    and scrypt: "\<And>password key. derive scrypt password salt = Inr key \<Longrightarrow> length key = KEY_LENGTH"
    and email: "normalizeEmail email = normalizeEmail (ri_email input)"
  shows "login scrypt jwt' now \<lparr>li_email = email, li_password = password\<rparr> d' =
    (if derive scrypt password salt = derive scrypt (ri_password input) salt
     then ebind (issueAccessToken jwt' now (ar_user res)) (\<lambda>token. Inr \<lparr>ar_token = token, ar_user = ar_user res\<rparr>)
     else Inl (Unauthorized ''Invalid email or password''), d')"
proof -
  from run obtain key w where key: "derive scrypt (ri_password input) salt = Inr key"
    and create: "createWithInitialWallet rt abort (newAccount input (encodeHash salt key)) (others d) = (Inr (ar_user res, w), d')"
    by (rule register_Inr_parts)
  let ?u = "registered_user rt (newAccount input (encodeHash salt key))"
  have hash: "u_passwordHash ?u = encodeHash salt key" by (simp add: registered_user_def newAccount_def)
  have found: "findByEmailWithPassword email d' = (Inr (Some ?u), d')" and user: "ar_user res = toSafeUser ?u"
    using registered_stored [OF ok create] email by (simp_all add: newAccount_def normalizeEmail_idem)
  show ?thesis
    using login_stored [of "\<lparr>li_email = email, li_password = password\<rparr>" d' ?u] found
    by (simp add: hash encodeHash_nonempty verify_encoded [OF salt scrypt [OF key]] key user)
qed

text \<open>C30. An access token opens the guard for its user: presented as a bearer token, with any capitals in the
  scheme and any white space around the parts, it is accepted while it is valid and the user's row is
  there, and the request then acts as exactly that user. What the token service is relied on for: a
  token it signed has no white space, and verifies to its claims under the same secret, algorithm,
  issuer and audience until the second in which it expires.\<close>

theorem token_accepted:
  assumes issued: "issueAccessToken jwt now (toSafeUser u) = Inr token"
    and row: "user_pk.lookup (pgUuid (u_id u)) (users d) = Some u" "u_id u \<noteq> []"
    and valid: "later div 1000 < now div 1000 + jwt_ttlSeconds jwt"
    and tokens: "\<And>p alg ttl iss aud at tok. jwt_sign jwt p (jwt_secret jwt) alg ttl iss aud at = Inr tok \<Longrightarrow>
      tok \<noteq> [] \<and> (\<forall>c \<in> set tok. \<not> js_whitespace c)"
    and verifies: "\<And>p alg ttl iss aud at tok t. jwt_sign jwt p (jwt_secret jwt) alg ttl iss aud at = Inr tok \<Longrightarrow>
      t div 1000 < at div 1000 + ttl \<Longrightarrow>
      jwt_verify jwt tok (jwt_secret jwt) [alg] iss aud t = Inr \<lparr>vp_sub = Some (at_sub p), vp_type = Some (at_type p)\<rparr>"
    and header: "\<forall>c \<in> set prefix. js_whitespace c" "\<forall>c \<in> set suffix. js_whitespace c"
      "gap \<noteq> []" "\<forall>c \<in> set gap. js_whitespace c" "js_toLowerCase scheme = ''bearer''"
  shows "canActivate jwt later None (Some (prefix @ scheme @ gap @ tr_accessToken token @ suffix)) d =
    (Inr \<lparr>au_id = u_id u, au_email = u_email u\<rparr>, d)"
proof -
  from issued have sign: "jwt_sign jwt (tokenPayload (toSafeUser u)) (jwt_secret jwt) ''HS256'' (jwt_ttlSeconds jwt)
      JWT_ISSUER JWT_AUDIENCE now = Inr (tr_accessToken token)"
    by (auto simp: issueAccessToken_def ebind_eq_Inr)
  have "extractBearerToken (Some (prefix @ scheme @ gap @ tr_accessToken token @ suffix)) = Inr (tr_accessToken token)"
    using header tokens [OF sign] by (intro bearer_read) simp_all
  moreover have "jwt_verify jwt (tr_accessToken token) (jwt_secret jwt) [''HS256''] JWT_ISSUER JWT_AUDIENCE later =
      Inr \<lparr>vp_sub = Some (u_id u), vp_type = Some ''access''\<rparr>"
    using verifies [OF sign valid] by (simp add: tokenPayload_def toSafeUser_def)
  note guard_found [OF this _ _ row(2,1)]
  ultimately show ?thesis by (simp add: canActivate_def andThen_def lift_def tryCatch_def)
qed

lemma guard_result:
  "canActivate jwt now dbError authorization d =
    (case extractBearerToken authorization of
       Inl e \<Rightarrow> Inl e
     | Inr token \<Rightarrow>
         (case fst (authenticate jwt now dbError token d) of
            Inl e \<Rightarrow> Inl (guardError e)
          | Inr caller \<Rightarrow> Inr caller), d)"
proof -
  have "snd (authenticate jwt now dbError token d) = d" for token
    by (auto simp: authenticate_def andThen_def lift_def unlessError_def findSafeById_def op_simps
        split: sum.splits option.splits)
  then show ?thesis
    by (auto simp: canActivate_def andThen_def lift_def tryCatch_def raise_def prod_eq_iff split: sum.splits prod.splits)
qed

lemma authenticate_Inr:
  "fst (authenticate jwt now dbError token d) = Inr caller \<longleftrightarrow> dbError = None \<and>
    (\<exists>payload sub u. jwt_verify jwt token (jwt_secret jwt) [''HS256''] JWT_ISSUER JWT_AUDIENCE now = Inr payload \<and>
       vp_type payload = Some ''access'' \<and> vp_sub payload = Some sub \<and> sub \<noteq> [] \<and>
       user_pk.lookup (pgUuid sub) (users d) = Some u \<and> caller = \<lparr>au_id = u_id u, au_email = u_email u\<rparr>)"
  by (cases "jwt_verify jwt token (jwt_secret jwt) [''HS256''] JWT_ISSUER JWT_AUDIENCE now"; cases dbError)
    (auto simp: authenticate_def andThen_def lift_def unlessError_def findSafeById_def op_simps toSafeUser_def
      split: option.splits)

lemma guard_unauthorized:
  "\<exists>m. guardError e = Unauthorized m"
  "extractBearerToken authorization = Inl e \<Longrightarrow> \<exists>m. e = Unauthorized m"
proof -
  show "\<exists>m. guardError e = Unauthorized m" by (cases e) auto
  show "extractBearerToken authorization = Inl e \<Longrightarrow> \<exists>m. e = Unauthorized m"
    by (auto simp: extractBearerToken_def split: option.splits list.splits if_splits)
qed

text \<open>C29. The guard lets a request through exactly when it carries a bearer token that verifies under the
  configured secret, with HS256, this issuer and this audience, whose type is an access token and whose
  subject is the id (in any case) of a user in the database, and that user can be read; the request then
  acts as that user, with the address of the row and not of the token. Every other request ends with
  status 401, whatever fails (the header, the token, the database), and the guard never writes.\<close>

theorem guard_exact:
  assumes "canActivate jwt now dbError authorization d = (r, d')"
  shows "d' = d \<and>
    (\<forall>caller. r = Inr caller \<longleftrightarrow> dbError = None \<and>
       (\<exists>token payload sub u. extractBearerToken authorization = Inr token \<and>
          jwt_verify jwt token (jwt_secret jwt) [''HS256''] JWT_ISSUER JWT_AUDIENCE now = Inr payload \<and>
          vp_type payload = Some ''access'' \<and> vp_sub payload = Some sub \<and> sub \<noteq> [] \<and>
          user_pk.lookup (pgUuid sub) (users d) = Some u \<and> caller = \<lparr>au_id = u_id u, au_email = u_email u\<rparr>)) \<and>
    (\<forall>e. r = Inl e \<longrightarrow> (\<exists>m. e = Unauthorized m))"
proof (cases "extractBearerToken authorization")
  case (Inl e)
  with assms guard_unauthorized(2) [OF Inl] show ?thesis by (auto simp: guard_result)
next
  case (Inr token)
  show ?thesis
  proof (cases "fst (authenticate jwt now dbError token d)")
    case (Inl e)
    with assms Inr have "r = Inl (guardError e)" "d' = d" by (simp_all add: guard_result)
    moreover have "fst (authenticate jwt now dbError token d) \<noteq> Inr caller" for caller using Inl by simp
    ultimately show ?thesis using Inr guard_unauthorized(1) unfolding authenticate_Inr by auto
  next
    case c: (Inr c)
    with assms Inr have "r = Inr c" "d' = d" by (simp_all add: guard_result)
    moreover have "fst (authenticate jwt now dbError token d) = Inr caller \<longleftrightarrow> c = caller" for caller using c by simp
    ultimately show ?thesis using Inr unfolding authenticate_Inr by auto
  qed
qed

text \<open>What a handler behind the guard can rely on.\<close>

lemma canActivate_cases:
  assumes "canActivate jwt now dbError authorization d = (r, d')"
  shows "d' = d \<and>
    (case r of
       Inl e \<Rightarrow> (\<exists>m. e = Unauthorized m)
     | Inr caller \<Rightarrow> dbError = None \<and>
         (\<exists>token payload sub u. extractBearerToken authorization = Inr token \<and>
            jwt_verify jwt token (jwt_secret jwt) [''HS256''] JWT_ISSUER JWT_AUDIENCE now = Inr payload \<and>
            vp_type payload = Some ''access'' \<and> vp_sub payload = Some sub \<and> pgUuid sub = u_id u \<and> u \<in> set (users d) \<and>
            caller = \<lparr>au_id = u_id u, au_email = u_email u\<rparr>))"
proof (cases "extractBearerToken authorization")
  case (Inl e)
  with assms guard_unauthorized(2) [OF Inl] show ?thesis by (auto simp: guard_result)
next
  case (Inr token)
  show ?thesis
  proof (cases "fst (authenticate jwt now dbError token d)")
    case (Inl e)
    with assms Inr guard_unauthorized(1) [of e] show ?thesis by (auto simp: guard_result)
  next
    case c: (Inr c)
    then obtain payload sub u where "dbError = None"
      "jwt_verify jwt token (jwt_secret jwt) [''HS256''] JWT_ISSUER JWT_AUDIENCE now = Inr payload"
      "vp_type payload = Some ''access''" "vp_sub payload = Some sub" "user_pk.lookup (pgUuid sub) (users d) = Some u"
      "c = \<lparr>au_id = u_id u, au_email = u_email u\<rparr>"
      unfolding authenticate_Inr by blast
    moreover from this(5) have "u \<in> set (users d)" "pgUuid sub = u_id u" using user_pk.lookup_Some by fastforce+
    moreover from assms Inr c have "r = Inr c" "d' = d" by (simp_all add: guard_result)
    ultimately show ?thesis using Inr by auto
  qed
qed

section \<open>Witnesses\<close>

text \<open>A sample service: tokens that name their claims, a derivation that keeps the password.\<close>

definition scrypt0 :: scrypt where
  "scrypt0 password salt n cost memory = Inr (take n (password @ salt @ replicate n CHR ''x''))"

definition jwt0 :: jwt where
  "jwt0 = \<lparr>jwt_secret = ''secret'', jwt_ttlSeconds = 900,
     jwt_sign = (\<lambda>p secret alg ttl iss aud at. Inr (toBase64url (at_sub p) @ ''.'' @ toBase64url (at_type p))),
     jwt_verify = (\<lambda>tok secret algs iss aud at. case splitOn (CHR ''.'') tok of
        [sub, type] \<Rightarrow> Inr \<lparr>vp_sub = Some (fromBase64url sub), vp_type = Some (fromBase64url type)\<rparr>
      | _ \<Rightarrow> Inl (OtherError ''JsonWebTokenError''))\<rparr>"

definition input1 :: register_input where
  "input1 = \<lparr>ri_email = '' New@b.c'', ri_password = ''correct-horse'', ri_firstName = ''N'',
     ri_lastName = ''U'', ri_currency = Some NGN\<rparr>"

lemma jwt0_laws:
  "jwt_sign jwt0 p secret alg ttl iss aud at = Inr tok \<Longrightarrow> tok \<noteq> [] \<and> (\<forall>c \<in> set tok. \<not> js_whitespace c)"
  "jwt_sign jwt0 p secret alg ttl iss aud at = Inr tok \<Longrightarrow>
   jwt_verify jwt0 tok secret algs iss aud t = Inr \<lparr>vp_sub = Some (at_sub p), vp_type = Some (at_type p)\<rparr>"
proof -
  have "\<not> js_whitespace CHR ''.''" by (simp add: js_whitespace_def)
  then show "jwt_sign jwt0 p secret alg ttl iss aud at = Inr tok \<Longrightarrow> tok \<noteq> [] \<and> (\<forall>c \<in> set tok. \<not> js_whitespace c)"
    using base64url_no_space by (auto simp: jwt0_def)
  show "jwt_sign jwt0 p secret alg ttl iss aud at = Inr tok \<Longrightarrow>
    jwt_verify jwt0 tok secret algs iss aud t = Inr \<lparr>vp_sub = Some (at_sub p), vp_type = Some (at_type p)\<rparr>"
    by (auto simp: jwt0_def splitOn_append splitOn_none base64url_no_dot from_to_base64url)
qed

lemma scrypt0_length: "derive scrypt0 password salt = Inr key \<Longrightarrow> length key = KEY_LENGTH"
  by (auto simp: derive_def scrypt0_def)

lemma register_sample:
  obtains res d' where "register scrypt0 jwt0 rt0 (replicate 16 CHR ''s'') id None input1 db0 = (Inr res, d')"
    "su_id (ar_user res) = ''ga''"
proof -
  obtain key where key: "derive scrypt0 (ri_password input1) (replicate 16 CHR ''s'') = Inr key"
    by (simp add: derive_def scrypt0_def)
  let ?hash = "encodeHash (replicate 16 CHR ''s'') key"
  have fits: "length ?hash \<le> 255" "no_nul ?hash"
    using length_encodeHash scrypt0_length [OF key] by (simp_all add: encodeHash_no_nul)
  have email: "normalizeEmail '' New@b.c'' = ''new@b.c''" by code_simp
  have trims: "js_trim ''N'' = ''N''" "js_trim ''U'' = ''U''" by code_simp+
  have "\<exists>w d'. createWithInitialWallet rt0 None (newAccount input1 ?hash) db0 =
      (Inr (toSafeUser (registered_user rt0 (newAccount input1 ?hash)), w), d')"
  proof (rule registration_runs [OF db0_ok])
    show "can_open rt0 1 (rt_uuid rt0 0) NGN (db0\<lparr>users := users db0 @ [registered_user rt0 (newAccount input1 ?hash)]\<rparr>)"
      by (simp add: can_open_def registered_user_def sample_defs db0_def)
  qed (use fits in \<open>simp_all add: newAccount_def input1_def email normalizeEmail_idem [of "'' New@b.c''", unfolded email] trims
      varchar_ok_def varchar_fits_def no_nul_def sample_defs db0_def\<close>)
  then obtain w d' where run: "createWithInitialWallet rt0 None (newAccount input1 ?hash) db0 =
      (Inr (toSafeUser (registered_user rt0 (newAccount input1 ?hash)), w), d')" by blast
  let ?user = "toSafeUser (registered_user rt0 (newAccount input1 ?hash))"
  obtain token where token: "issueAccessToken jwt0 (rt_now rt0) ?user = Inr token"
    by (simp add: issueAccessToken_def jwt0_def)
  have none: "findByEmailWithPassword (normalizeEmail (ri_email input1)) db0 = (Inr None, db0)"
    by (simp add: findByEmailWithPassword_def op_simps normalizeEmail_idem) (simp add: input1_def email db0_def sample_defs)
  have "register scrypt0 jwt0 rt0 (replicate 16 CHR ''s'') id None input1 db0 =
      (Inr \<lparr>ar_token = token, ar_user = ?user, rr_initialWallet = toWalletResponse w\<rparr>, d')"
    using none key run token
    by (simp add: register_def createAccount_def hashPassword_def andThen_def lift_def require_def modify_def return_def
        tryCatch_def)
  moreover have "su_id ?user = ''ga''" by (simp add: toSafeUser_def registered_user_def sample_defs char_of_is)
  ultimately show thesis using that by simp
qed

lemma login_after_register_witness:
  "\<exists>res d'. register scrypt0 jwt0 rt0 (replicate 16 CHR ''s'') id None input1 db0 = (Inr res, d') \<and>
     (\<exists>token. login scrypt0 jwt0 5000 \<lparr>li_email = ''NEW@b.C '', li_password = ''correct-horse''\<rparr> d' =
        (Inr \<lparr>ar_token = token, ar_user = ar_user res\<rparr>, d')) \<and>
     login scrypt0 jwt0 5000 \<lparr>li_email = ''new@b.c'', li_password = ''Correct-horse''\<rparr> d' =
       (Inl (Unauthorized ''Invalid email or password''), d')"
proof -
  obtain res d' where run: "register scrypt0 jwt0 rt0 (replicate 16 CHR ''s'') id None input1 db0 = (Inr res, d')"
    by (rule register_sample)
  have email: "normalizeEmail ''NEW@b.C '' = normalizeEmail (ri_email input1)"
    "normalizeEmail ''new@b.c'' = normalizeEmail (ri_email input1)" by code_simp+
  have ok: "ledger_ok (id db0)" using db0_ok by simp
  have salt: "length (replicate 16 CHR ''s'') = 16" by simp
  note login = login_after_register [OF ok run salt]
  have wrong: "derive scrypt0 ''Correct-horse'' (replicate 16 CHR ''s'') \<noteq> derive scrypt0 (ri_password input1) (replicate 16 CHR ''s'')"
    by (simp add: derive_def scrypt0_def input1_def KEY_LENGTH_def)
  have right: "ri_password input1 = ''correct-horse''" by (simp add: input1_def)
  obtain token where token: "issueAccessToken jwt0 5000 (ar_user res) = Inr token"
    by (simp add: issueAccessToken_def jwt0_def)
  show ?thesis
    using run login [where jwt' = jwt0 and now = 5000 and password = "''correct-horse''", OF _ email(1)]
      login [where jwt' = jwt0 and now = 5000 and password = "''Correct-horse''", OF _ email(2)]
      wrong right token scrypt0_length by auto
qed

lemma token_accepted_witness:
  "\<exists>token. issueAccessToken jwt0 1000 (toSafeUser user1) = Inr token \<and>
     canActivate jwt0 900999 None (Some (''bEARER  '' @ tr_accessToken token @ '' '')) db0 =
       (Inr \<lparr>au_id = ''u1'', au_email = ''a@b.c''\<rparr>, db0)"
proof -
  obtain token where token: "issueAccessToken jwt0 1000 (toSafeUser user1) = Inr token"
    by (simp add: issueAccessToken_def jwt0_def)
  have "canActivate jwt0 900999 None (Some ([] @ ''bEARER'' @ ''  '' @ tr_accessToken token @ '' '')) db0 =
      (Inr \<lparr>au_id = u_id user1, au_email = u_email user1\<rparr>, db0)"
    by (rule token_accepted [OF token _ _ _ jwt0_laws(1) jwt0_laws(2)])
      (simp_all add: db0_def sample_defs pgUuid_def user_pk.lookup_def jwt0_def js_whitespace_def js_toLowerCase_def js_lower_def char_of_is)
  with token show ?thesis by (simp add: user1_def)
qed

lemma guard_exact_witness:
  "canActivate jwt0 2000 None (Some (''Bearer '' @ toBase64url ''U1'' @ ''.'' @ toBase64url ''access'')) db0 =
      (Inr \<lparr>au_id = ''u1'', au_email = ''a@b.c''\<rparr>, db0) \<and>
   (\<exists>m. fst (canActivate jwt0 2000 (Some P2002) (Some (''Bearer '' @ toBase64url ''U1'' @ ''.'' @ toBase64url ''access'')) db0) =
      Inl (Unauthorized m))"
proof -
  let ?h = "Some (''Bearer '' @ toBase64url ''U1'' @ ''.'' @ toBase64url ''access'')"
  obtain r d' where run: "canActivate jwt0 2000 None ?h db0 = (r, d')" by (meson surj_pair)
  obtain q e where bad: "canActivate jwt0 2000 (Some P2002) ?h db0 = (q, e)" by (meson surj_pair)
  have token: "extractBearerToken ?h = Inr (toBase64url ''U1'' @ ''.'' @ toBase64url ''access'')"
    "jwt_verify jwt0 (toBase64url ''U1'' @ ''.'' @ toBase64url ''access'') (jwt_secret jwt0) [''HS256''] JWT_ISSUER JWT_AUDIENCE 2000 =
      Inr \<lparr>vp_sub = Some ''U1'', vp_type = Some ''access''\<rparr>"
    "user_pk.lookup (pgUuid ''U1'') (users db0) = Some user1" "u_id user1 = ''u1''" "u_email user1 = ''a@b.c''"
    by code_simp+
  from guard_exact [OF run] token have "d' = db0" "r = Inr \<lparr>au_id = ''u1'', au_email = ''a@b.c''\<rparr>" by auto
  moreover from guard_exact [OF bad] have "\<exists>m. q = Inl (Unauthorized m)" by (cases q) auto
  ultimately show ?thesis using run bad by simp
qed

end
