(* ===== verification/ReversalCorrect.thy ===== *)
theory ReversalCorrect
  imports Reversals
begin

text \<open>
  Correctness of a reversal's work, in the same steps as for transfers: the condition and the
  effect of the work, its refusals, the deferred checks of the database, and the
  interpretation of the idempotency contract.
\<close>

section \<open>Condition and effect\<close>

lemma create_transferReversal_Inr:
  "create_transferReversal r d = (Inr v, d') \<longleftrightarrow>
     v = r \<and> d' = d\<lparr>reversals := reversals d @ [r]\<rparr> \<and> setting_on ''app.reversal_write'' d \<and>
     varchar_ok 120 (r_reference r) \<and> bigint_ok (r_amountMinor r) \<and>
     (case r_reason r of None \<Rightarrow> True | Some s \<Rightarrow> varchar_ok 255 s) \<and> 0 < r_amountMinor r \<and>
     (case r_reason r of None \<Rightarrow> True | Some s \<Rightarrow> s \<noteq> [] \<and> s = sql_btrim s) \<and>
     \<not> existsRow (\<lambda>u. r_id u = r_id r \<or> r_reference u = r_reference r \<or>
       r_transferId u = r_transferId r \<or> r_ledgerTransactionId u = r_ledgerTransactionId r) (reversals d) \<and>
     r_transferId r \<in> t_id ` set (transfers d) \<and> r_actorUserId r \<in> u_id ` set (users d) \<and>
     r_ledgerTransactionId r \<in> lt_id ` set (ledgerTransactions d)"
  by (auto simp: create_transferReversal_def op_simps existsRow_key split: option.splits)

definition reversible_ok :: "db \<Rightarrow> uuid \<Rightarrow> reversal_request \<Rightarrow> reversible \<Rightarrow> bool" where
  "reversible_ok d u req v \<longleftrightarrow>
     findRow (\<lambda>t. t_id t = rq_transferId req \<and> t_senderUserId t = u) (transfers d) = Some (rv_transfer v) \<and>
     wallet_pk.lookup (t_sourceWalletId (rv_transfer v)) (wallets d) = Some (rv_source v) \<and>
     wallet_pk.lookup (t_destinationWalletId (rv_transfer v)) (wallets d) = Some (rv_destination v) \<and>
     t_status (rv_transfer v) = T_COMPLETED \<and>
     \<not> existsRow (\<lambda>r. r_transferId r = t_id (rv_transfer v)) (reversals d) \<and>
     w_status (rv_source v) = ACTIVE \<and> w_status (rv_destination v) = ACTIVE"

lemma findReversible_Inr:
  "findReversible u req d = (Inr v, d') \<longleftrightarrow> d' = d \<and> reversible_ok d u req v"
  by (cases v) (auto simp: findReversible_def op_simps reversible_ok_def split: option.splits)

lemma findReversible_readonly: "readonly (findReversible u req)"
  by (auto simp: findReversible_def readonly_def op_simps split: option.splits)

lemma speaks_findReversible [intro]: "speaks (findReversible u req)"
  unfolding findReversible_def by (auto intro!: speaks_cases speaks_andThen split: option.split)

lemma speaks_reversalWork: "speaks (reversalWork rt u req)"
  unfolding reversalWork_def executeReversal_def
  by (intro speaks_andThen speaks_findReversible speaks_cases speaks_post) simp_all

lemma newReversal_simps [simp]:
  "r_id (newReversal rt u req v l) = rt_uuid rt 1"
  "r_reference (newReversal rt u req v l) = reversalReference rt"
  "r_transferId (newReversal rt u req v l) = t_id (rv_transfer v)"
  "r_actorUserId (newReversal rt u req v l) = u"
  "r_ledgerTransactionId (newReversal rt u req v l) = l"
  "r_currency (newReversal rt u req v l) = t_currency (rv_transfer v)"
  "r_amountMinor (newReversal rt u req v l) = t_amountMinor (rv_transfer v)"
  by (simp_all add: newReversal_def)

lemma reversalAudit_simps [simp]:
  "al_id (reversalAudit rt u v r) = rt_uuid rt 5" "al_actorUserId (reversalAudit rt u v r) = u"
  "al_action (reversalAudit rt u v r) = AUDIT_TRANSFER_REVERSED"
  "al_transferId (reversalAudit rt u v r) = t_id (rv_transfer v)"
  "al_reversalId (reversalAudit rt u v r) = Some (r_id r)"
  by (simp_all add: reversalAudit_def)

lemma reversalEvent_simps [simp]:
  "e_id (reversalEvent rt u v r) = rt_uuid rt 6" "e_actorUserId (reversalEvent rt u v r) = u"
  "e_type (reversalEvent rt u v r) = TRANSFER_REVERSED" "e_aggregateId (reversalEvent rt u v r) = r_id r"
  by (simp_all add: reversalEvent_def new_outboxEvent_def)

definition reversal_writable :: "runtime \<Rightarrow> uuid \<Rightarrow> reversal_request \<Rightarrow> reversible \<Rightarrow> db \<Rightarrow> bool" where
  "reversal_writable rt u req v d \<longleftrightarrow>
     varchar_ok 120 (reversalReference rt) \<and> bigint_ok (t_amountMinor (rv_transfer v)) \<and>
     0 < t_amountMinor (rv_transfer v) \<and>
     (case r_reason (newReversal rt u req v []) of None \<Rightarrow> True
      | Some s \<Rightarrow> varchar_ok 255 s \<and> s \<noteq> [] \<and> s = sql_btrim s) \<and>
     \<not> existsRow (\<lambda>r. r_id r = rt_uuid rt 1 \<or> r_reference r = reversalReference rt \<or>
       r_transferId r = t_id (rv_transfer v) \<or> r_ledgerTransactionId r = rt_uuid rt 2) (reversals d) \<and>
     t_id (rv_transfer v) \<in> t_id ` set (transfers d) \<and> u \<in> u_id ` set (users d) \<and>
     \<not> existsRow (\<lambda>b. al_id b = rt_uuid rt 5 \<or> al_reversalId b = Some (rt_uuid rt 1) \<or>
       (al_action b = AUDIT_TRANSFER_REVERSED \<and> al_transferId b = t_id (rv_transfer v))) (auditLogs d) \<and>
     \<not> existsRow (\<lambda>f. e_id f = rt_uuid rt 6 \<or>
       (e_type f = TRANSFER_REVERSED \<and> e_aggregateId f = rt_uuid rt 1)) (outboxEvents d)"

definition reversal_rows :: "runtime \<Rightarrow> uuid \<Rightarrow> reversible \<Rightarrow> transfer_reversal \<Rightarrow> db \<Rightarrow> db" where
  "reversal_rows rt u v r d =
     fan_out_webhook_event (\<lambda>k. rt_uuid rt (7 + k)) (rt_now rt) (reversalEvent rt u v r)
       (d\<lparr>reversals := reversals d @ [r],
          settings := ''app.audit_write'' # ''app.reversal_write'' # settings d,
          auditLogs := auditLogs d @ [reversalAudit rt u v r],
          outboxEvents := outboxEvents d @ [reversalEvent rt u v r]\<rparr>)"

lemma reason_any: "r_reason (newReversal rt u req v l) = r_reason (newReversal rt u req v [])"
  by (simp add: newReversal_def)

lemma reversal_writes:
  assumes "rt_uuid rt 2 \<in> lt_id ` set (ledgerTransactions d)"
  shows "(andThen (set_config ''app.reversal_write'') (\<lambda>_.
     andThen (create_transferReversal (newReversal rt u req v (rt_uuid rt 2))) (\<lambda>reversal.
     andThen (set_config ''app.audit_write'') (\<lambda>_.
     andThen (create_auditLog (reversalAudit rt u v reversal)) (\<lambda>_.
     andThen (create_outboxEvent (\<lambda>k. rt_uuid rt (7 + k)) (rt_now rt) (reversalEvent rt u v reversal)) (\<lambda>_.
     return reversal)))))) d = (Inr r, d') \<longleftrightarrow>
    reversal_writable rt u req v d \<and> r = newReversal rt u req v (rt_uuid rt 2) \<and>
    d' = reversal_rows rt u v r d"
proof -
  have reason: "(case r_reason (newReversal rt u req v (rt_uuid rt 2)) of None \<Rightarrow> True | Some s \<Rightarrow> varchar_ok 255 s) \<and>
      (case r_reason (newReversal rt u req v (rt_uuid rt 2)) of None \<Rightarrow> True | Some s \<Rightarrow> s \<noteq> [] \<and> s = sql_btrim s) \<longleftrightarrow>
    (case r_reason (newReversal rt u req v []) of None \<Rightarrow> True
      | Some s \<Rightarrow> varchar_ok 255 s \<and> s \<noteq> [] \<and> s = sql_btrim s)"
    unfolding reason_any [of rt u req v "rt_uuid rt 2"] by (auto split: option.split)
  show ?thesis
    using assms unfolding reversal_writable_def reason [symmetric]
    by (simp add: set_config_def op_simps create_transferReversal_Inr create_auditLog_Inr
        create_outboxEvent_Inr setting_on_def reversal_rows_def)
      (rule iffI; elim conjE; simp)
qed

lemma reversal_writable_effect [simp]:
  "reversal_writable rt u req v (ledger_effect now gen n d) = reversal_writable rt u req v d"
  by (simp add: reversal_writable_def)

definition reversal_effect ::
  "runtime \<Rightarrow> uuid \<Rightarrow> reversal_request \<Rightarrow> reversible \<Rightarrow> ledger_input \<Rightarrow> db \<Rightarrow> db" where
  "reversal_effect rt u req v n d =
     reversal_rows rt u v (newReversal rt u req v (rt_uuid rt 2))
       (ledger_effect (rt_now rt) (transferGen rt) n d)"

definition reversal_allowed ::
  "runtime \<Rightarrow> uuid \<Rightarrow> reversal_request \<Rightarrow> reversible \<Rightarrow> ledger_input \<Rightarrow> db \<Rightarrow> bool" where
  "reversal_allowed rt u req v n d \<longleftrightarrow>
     normalizeLedgerTransactionInput (rt_isUUID rt) (reversalLedgerInput rt v) = Inr n \<and>
     postable d n \<and> fresh_ledger (transferGen rt) n d \<and> reversal_writable rt u req v d"

lemma executeReversal_Inr:
  assumes ok: "ledger_sound d"
  shows "executeReversal rt u req v d = (Inr r, d') \<longleftrightarrow>
    (\<exists>n. reversal_allowed rt u req v n d \<and> r = newReversal rt u req v (rt_uuid rt 2) \<and>
         d' = reversal_effect rt u req v n d)"
proof -
  let ?rest = "\<lambda>l. andThen (set_config ''app.reversal_write'') (\<lambda>_.
     andThen (create_transferReversal (newReversal rt u req v l)) (\<lambda>reversal.
     andThen (set_config ''app.audit_write'') (\<lambda>_.
     andThen (create_auditLog (reversalAudit rt u v reversal)) (\<lambda>_.
     andThen (create_outboxEvent (\<lambda>k. rt_uuid rt (7 + k)) (rt_now rt) (reversalEvent rt u v reversal)) (\<lambda>_.
     return reversal)))))"
  have post: "postWithinTransaction rt (transferGen rt) inp d = (Inr lq, m) \<longleftrightarrow>
     (\<exists>n. normalizeLedgerTransactionInput (rt_isUUID rt) inp = Inr n \<and> postable d n \<and>
       fresh_ledger (transferGen rt) n d \<and> m = ledger_effect (rt_now rt) (transferGen rt) n d \<and>
       lq = (sealed_row (rt_now rt) (transferGen rt) n,
             sort_key lp_accountId (posting_rows (transferGen rt) 1 (transferGen rt 0) (li_postings n))))" for inp lq m
    using ok post_Inr [of d rt "transferGen rt" inp lq m] by (auto simp: ledger_sound_def)
  have rest: "?rest (rt_uuid rt 2) (ledger_effect (rt_now rt) (transferGen rt) n d) = (Inr r, d') \<longleftrightarrow>
     reversal_writable rt u req v d \<and> r = newReversal rt u req v (rt_uuid rt 2) \<and>
     d' = reversal_effect rt u req v n d" for n
    by (subst reversal_writes) (auto simp: reversal_effect_def)
  have "executeReversal rt u req v d = (Inr r, d') \<longleftrightarrow>
     (\<exists>lq m. postWithinTransaction rt (transferGen rt) (reversalLedgerInput rt v) d = (Inr lq, m) \<and>
        ?rest (lt_id (fst lq)) m = (Inr r, d'))"
    unfolding executeReversal_def transferGen_def [symmetric] by (subst andThen_Inr) (simp add: case_prod_beta)
  also have "\<dots> \<longleftrightarrow> (\<exists>n. normalizeLedgerTransactionInput (rt_isUUID rt) (reversalLedgerInput rt v) = Inr n \<and>
       postable d n \<and> fresh_ledger (transferGen rt) n d \<and>
       ?rest (rt_uuid rt 2) (ledger_effect (rt_now rt) (transferGen rt) n d) = (Inr r, d'))"
    unfolding post by auto
  finally show ?thesis unfolding rest reversal_allowed_def by blast
qed

lemma executeReversal_Inl:
  assumes ok: "ledger_sound d" and run: "executeReversal rt u req v d = (Inl (HttpException s m), d')"
  shows "d' = d"
proof -
  have silent: "create_transferReversal r e \<noteq> (Inl (HttpException s m), e')" for r e e'
    using silent_writes(8) by (auto simp: silent_def)
  from run silent have "postWithinTransaction rt (transferGen rt) (reversalLedgerInput rt v) d = (Inl (HttpException s m), d')"
    unfolding executeReversal_def transferGen_def [symmetric]
    by (auto simp: andThen_Inl set_config_def op_simps)
  with ok post_Inl [of d rt "transferGen rt"] show ?thesis by (fastforce simp: ledger_sound_def)
qed

lemma reversalWork_Inr:
  assumes "ledger_sound d"
  shows "reversalWork rt u req d = (Inr r, d') \<longleftrightarrow>
    (\<exists>v n. reversible_ok d u req v \<and> reversal_allowed rt u req v n d \<and>
       r = newReversal rt u req v (rt_uuid rt 2) \<and> d' = reversal_effect rt u req v n d)"
  using executeReversal_Inr [OF assms] by (auto simp: reversalWork_def andThen_Inr findReversible_Inr)

lemma reversalWork_Inl:
  assumes "ledger_sound d" "reversalWork rt u req d = (Inl (HttpException s m), d')"
  shows "d' = d"
  using assms executeReversal_Inl readonly_state [OF findReversible_readonly]
  unfolding reversalWork_def by (auto simp: andThen_Inl) metis

end
