(* ===== verification/ReversalCommit.thy ===== *)
theory ReversalCommit
  imports ReversalCorrect
begin

text \<open>
  A committed reversal satisfies every deferred trigger of the database; the interpretation
  of the idempotency contract on the reversal service; and the outcomes of a call.
\<close>

section \<open>Independence of the claim table, and the tables after a reversal\<close>

lemma reversal_records_irrelevant [simp]:
  "reversal_writable rt u req v (d\<lparr>idempotencyRecords := ids\<rparr>) = reversal_writable rt u req v d"
  "reversal_allowed rt u req v n (d\<lparr>idempotencyRecords := ids\<rparr>) = reversal_allowed rt u req v n d"
  "reversible_ok (d\<lparr>idempotencyRecords := ids\<rparr>) u req v = reversible_ok d u req v"
  by (simp_all add: reversal_writable_def reversal_allowed_def reversible_ok_def)

lemma reversal_effect_records [simp]:
  "reversal_effect rt u req v n (d\<lparr>idempotencyRecords := ids\<rparr>) =
   (reversal_effect rt u req v n d)\<lparr>idempotencyRecords := ids\<rparr>"
  by (rule db.equality)
    (simp_all add: reversal_effect_def reversal_rows_def ledger_effect_def fan_out_webhook_event_def Let_def)

lemma reversal_effect_simps [simp]:
  "users (reversal_effect rt u req v n d) = users d"
  "wallets (reversal_effect rt u req v n d) = map (credit_wallet (rt_now rt) (li_postings n)) (wallets d)"
  "accounts (reversal_effect rt u req v n d) = map (credit_account (li_postings n)) (accounts d)"
  "ledgerTransactions (reversal_effect rt u req v n d) =
     ledgerTransactions d @ [sealed_row (rt_now rt) (transferGen rt) n]"
  "postings (reversal_effect rt u req v n d) =
     postings d @ posting_rows (transferGen rt) 1 (rt_uuid rt 2) (li_postings n)"
  "transfers (reversal_effect rt u req v n d) = transfers d"
  "reversals (reversal_effect rt u req v n d) = reversals d @ [newReversal rt u req v (rt_uuid rt 2)]"
  "beneficiaries (reversal_effect rt u req v n d) = beneficiaries d"
  "idempotencyRecords (reversal_effect rt u req v n d) = idempotencyRecords d"
  "auditLogs (reversal_effect rt u req v n d) =
     auditLogs d @ [reversalAudit rt u v (newReversal rt u req v (rt_uuid rt 2))]"
  "payments (reversal_effect rt u req v n d) = payments d"
  "providerEvents (reversal_effect rt u req v n d) = providerEvents d"
  by (simp_all add: reversal_effect_def reversal_rows_def)

section \<open>The deferred checks\<close>

definition transfer_ids_ok :: "db \<Rightarrow> bool" where
  "transfer_ids_ok d \<longleftrightarrow> transfer_pk.unique (transfers d)"

lemma reversible_facts:
  assumes "reversible_ok d u req v"
  shows "rv_transfer v \<in> set (transfers d)" "t_senderUserId (rv_transfer v) = u"
    "t_id (rv_transfer v) = rq_transferId req" "t_status (rv_transfer v) = T_COMPLETED"
    "rv_source v \<in> set (wallets d)" "w_id (rv_source v) = t_sourceWalletId (rv_transfer v)"
    "rv_destination v \<in> set (wallets d)" "w_id (rv_destination v) = t_destinationWalletId (rv_transfer v)"
  using assms wallet_pk.lookup_Some [of _ "wallets d"] findRow_SomeD [of _ "transfers d"]
  by (auto simp: reversible_ok_def)

lemma reversal_validates:
  assumes ok: "ledger_sound d" and ids: "transfer_ids_ok d" and rt: "uuid_source rt"
    and v: "reversible_ok d u req v" and allow: "reversal_allowed rt u req v n d"
    and e: "wallets e = wallets (reversal_effect rt u req v n d)"
      "postings e = postings (reversal_effect rt u req v n d)"
      "ledgerTransactions e = ledgerTransactions (reversal_effect rt u req v n d)"
      "transfers e = transfers d" "auditLogs e = auditLogs (reversal_effect rt u req v n d)"
  shows "validate_transferReversal e (newReversal rt u req v (rt_uuid rt 2))"
proof -
  let ?s = "rv_source v" and ?w = "rv_destination v" and ?t = "rv_transfer v"
  note facts = reversible_facts [OF v]
  have n: "normalizeLedgerTransactionInput (rt_isUUID rt) (reversalLedgerInput rt v) = Inr n"
    and fresh: "fresh_ledger (transferGen rt) n d" and wr: "reversal_writable rt u req v d"
    using allow by (auto simp: reversal_allowed_def)
  have ps: "li_postings n = reversalPostings v" "li_currency n = t_currency ?t"
    using normalize_postings [OF n] by (simp_all add: reversalLedgerInput_def)
  have ref: "li_reference n = reversalReference rt"
  proof -
    have "js_trim (reversalReference rt) = reversalReference rt"
      unfolding reversalReference_def using rt
      by (intro reference_trimmed) (auto simp: uuid_source_def keyChar_def isAlnum_def isDigit_def isUpper_def isLower_def)
    then show ?thesis using normalize_reference [OF n] by (simp add: reversalLedgerInput_def)
  qed
  have acc: "w_ledgerAccountId ?s \<noteq> w_ledgerAccountId ?w"
    using normalize_balanced [OF n] ps(1) by (simp add: balanced_input_def reversalPostings_def)
  have uniq: "wallet_pk.unique (wallets d)" using ok by (simp add: ledger_sound_def pairing_ok_def)
  have look: "wallet_pk.lookup (t_sourceWalletId ?t) (wallets e) = Some (credit_wallet (rt_now rt) (li_postings n) ?s)"
    "wallet_pk.lookup (t_destinationWalletId ?t) (wallets e) = Some (credit_wallet (rt_now rt) (li_postings n) ?w)"
    using v e(1) by (simp_all add: credit_lookup reversible_ok_def)
  have tr: "transfer_pk.lookup (t_id ?t) (transfers e) = Some ?t"
    using facts(1) ids e(4) by (simp add: transfer_ids_ok_def transfer_pk.lookup_unique)
  have link: "postings_linked d" using ok by (simp add: ledger_sound_def)
  have own: "postingsOf e (rt_uuid rt 2) = posting_rows (transferGen rt) 1 (rt_uuid rt 2) (reversalPostings v)"
    using effect_postingsOf [OF link fresh, of "rt_uuid rt 2" "rt_now rt"] e(2) ps(1) by simp
  have led: "matching_ledger e (rt_uuid rt 2) (t_currency ?t) (reversalReference rt)"
    using fresh e(3) ref ps(2) lookup_opened [of "transferGen rt" "ledgerTransactions d"]
    by (simp add: matching_ledger_def fresh_ledger_def)
  have two: "two_postings e (rt_uuid rt 2) (Some (w_ledgerAccountId ?s)) (t_amountMinor ?t)
      (Some (w_ledgerAccountId ?w)) (- t_amountMinor ?t)"
    using two_postings_pair [OF acc own [unfolded reversalPostings_def]] .
  have "filter (\<lambda>a. al_reversalId a = Some (rt_uuid rt 1) \<and> al_transferId a = t_id ?t \<and>
      al_actorUserId a = u \<and> al_action a = AUDIT_TRANSFER_REVERSED) (auditLogs d) = []"
    using wr by (auto simp: reversal_writable_def existsRow_iff filter_empty_conv)
  then have audit: "length (filter (\<lambda>a. al_reversalId a = Some (rt_uuid rt 1) \<and> al_transferId a = t_id ?t \<and>
      al_actorUserId a = u \<and> al_action a = AUDIT_TRANSFER_REVERSED) (auditLogs e)) = 1"
    by (simp add: e(5))
  show ?thesis
    using look led two tr audit facts by (simp add: validate_transferReversal_def accountOf_def)
qed

lemma reversal_lookup_new:
  assumes "reversal_writable rt u req v d"
  shows "findRow (\<lambda>r. r_id r = rt_uuid rt 1) (reversals d @ [newReversal rt u req v l]) =
    Some (newReversal rt u req v l)"
proof -
  have "findRow (\<lambda>r. r_id r = rt_uuid rt 1) (reversals d) = None"
    using assms by (auto simp: reversal_writable_def findRow_None existsRow_iff)
  then show ?thesis by (simp add: findRow_append)
qed

lemma reversal_commits:
  assumes ok: "ledger_sound d" and ids: "transfer_ids_ok d" and rt: "uuid_source rt"
    and v: "reversible_ok d u req v" and allow: "reversal_allowed rt u req v n d"
    and i: "i_scope i = REVERSAL_SCOPE" "i_userId i = u" "i_transferId i = None"
      "i_reversalId i = Some (rt_uuid rt 1)"
  shows "commit_checks d ((reversal_effect rt u req v n d)\<lparr>idempotencyRecords := idempotencyRecords d @ [i]\<rparr>)"
    (is "commit_checks d ?e")
proof -
  let ?r = "newReversal rt u req v (rt_uuid rt 2)"
  have n: "normalizeLedgerTransactionInput (rt_isUUID rt) (reversalLedgerInput rt v) = Inr n"
    and pass: "postable d n" and fresh: "fresh_ledger (transferGen rt) n d"
    and wr: "reversal_writable rt u req v d"
    using allow by (auto simp: reversal_allowed_def)
  have led: "validate_ledgerTransaction ?e (sealed_row (rt_now rt) (transferGen rt) n)"
    using ok normalize_balanced [OF n] pass fresh
    by (intro effect_validates [of d "rt_isUUID rt" n "transferGen rt"]) (auto simp: ledger_sound_def)
  have rv: "validate_transferReversal ?e ?r"
    by (rule reversal_validates [OF ok ids rt v allow]) simp_all
  have look: "findRow (\<lambda>r. r_id r = rt_uuid rt 1) (reversals ?e) = Some ?r"
    using reversal_lookup_new [OF wr] by simp
  have idem: "validate_idempotency ?e i"
    using i look by (simp add: validate_idempotency_def REVERSAL_SCOPE_def)
  have "transfer_pk.lookup (t_id (rv_transfer v)) (transfers ?e) = Some (rv_transfer v)"
    using reversible_facts(1) [OF v] ids by (simp add: transfer_ids_ok_def transfer_pk.lookup_unique)
  then have audit: "validate_auditLog ?e (reversalAudit rt u v ?r)"
    using look reversible_facts(2) [OF v] by (simp add: validate_auditLog_def)
  show ?thesis
    using led rv idem audit written_map_same
    by (simp add: commit_checks_def list_all_iff)
qed

section \<open>The contract\<close>

interpretation reversal_work: idempotent_work "''reversal''" REVERSAL_SCOPE includedReversal linkReversal
  "reversalWork rt u req" ledger_sound
  for rt u req
proof
  show "ledger_sound (d\<lparr>idempotencyRecords := ids\<rparr>) = ledger_sound d" for d ids by simp
  show "ledger_sound d \<Longrightarrow> reversalWork rt u req d = (Inl (HttpException s m), d') \<Longrightarrow> d' = d" for d s m d'
    by (rule reversalWork_Inl)
  show "reversalWork rt u req d = (Inl (HttpException s m), d') \<Longrightarrow> m \<noteq> []" for d s m d'
    by (rule speaksD [OF speaks_reversalWork])
  show "idempotencyRecords d' = idempotencyRecords d"
    if "ledger_sound d" "reversalWork rt u req d = (Inr r, d')" for d r d'
    using that by (auto simp: reversalWork_Inr)
  show "includedReversal d' (linkReversal r i) = Some r"
    if "ledger_sound d" "reversalWork rt u req d = (Inr r, d')" for d r d' i
    using that reversal_lookup_new
    by (auto simp: reversalWork_Inr includedReversal_def linkReversal_def reversal_allowed_def)
  show "includedReversal (d\<lparr>idempotencyRecords := ids, settings := cs\<rparr>) i = includedReversal d i" for d ids cs i
    by (simp add: includedReversal_def split: option.split)
qed (simp_all add: linkReversal_def)

section \<open>Outcomes\<close>

definition reversal_claim :: "runtime \<Rightarrow> uuid \<Rightarrow> string \<Rightarrow> reversal_request \<Rightarrow> idempotency_record" where
  "reversal_claim rt u key req = newClaim (rt_uuid rt 0) REVERSAL_SCOPE u key (hashReversalRequest rt req)"

definition after_reversal ::
  "runtime \<Rightarrow> uuid \<Rightarrow> string \<Rightarrow> reversal_request \<Rightarrow> reversible \<Rightarrow> ledger_input \<Rightarrow> db \<Rightarrow> db" where
  "after_reversal rt u key req v n d =
     (reversal_effect rt u req v n d)
       \<lparr>idempotencyRecords := idempotencyRecords d @
          [completed linkReversal (newReversal rt u req v (rt_uuid rt 2)) (reversal_claim rt u key req)],
        settings := []\<rparr>"

lemma reversalsCreate_serve:
  "reversalsCreate rt abort observed u tid hdr reason d =
    (case normalizeIdempotencyKey hdr of Inl e \<Rightarrow> (Inl e, d)
     | Inr key \<Rightarrow> reversal_work.serve rt u (normalizeReversalRequest tid reason) toReversalResponse abort
         observed u key (hashReversalRequest rt (normalizeReversalRequest tid reason)) (rt_uuid rt 0) d)"
  by (simp add: reversalsCreate_protocol op_simps Let_def split: sum.split)

lemma reversalsCreate_outcomes:
  assumes ok: "ledger_sound d" and run: "reversalsCreate rt abort observed u tid hdr reason d = (r, d')"
  defines "req \<equiv> normalizeReversalRequest tid reason"
  shows "d' = d \<or> d' = d\<lparr>settings := []\<rparr> \<or>
    (\<exists>key v n. normalizeIdempotencyKey hdr = Inr key \<and> findClaim REVERSAL_SCOPE u key d = None \<and>
       reversible_ok d u req v \<and> reversal_allowed rt u req v n d \<and>
       r = Inr (toReversalResponse (newReversal rt u req v (rt_uuid rt 2))) \<and>
       d' = after_reversal rt u key req v n d) \<or>
    (\<exists>key s msg. normalizeIdempotencyKey hdr = Inr key \<and> findClaim REVERSAL_SCOPE u key d = None \<and>
       r = Inl (HttpException s msg) \<and> 400 \<le> s \<and> s < 500 \<and> msg \<noteq> [] \<and>
       d' = after_refusal (reversal_claim rt u key req) s msg d)"
proof (cases "normalizeIdempotencyKey hdr")
  case (Inl e)
  then have "d' = d" using run by (simp add: reversalsCreate_serve)
  then show ?thesis by simp
next
  case (Inr key)
  let ?h = "hashReversalRequest rt req"
  from run Inr have "reversal_work.serve rt u req toReversalResponse abort observed u key ?h (rt_uuid rt 0) d = (r, d')"
    by (simp add: reversalsCreate_serve req_def)
  from reversal_work.serve_outcomes [OF ok this] show ?thesis
  proof (elim disjE exE conjE)
    fix x m
    assume none: "findClaim REVERSAL_SCOPE u key d = None"
      and work: "reversalWork rt u req (claimed d REVERSAL_SCOPE u key ?h (rt_uuid rt 0)) = (Inr x, m)"
      and r: "r = Inr (toReversalResponse x)"
      and d': "d' = m\<lparr>idempotencyRecords := idempotencyRecords d @ [completed linkReversal x
        (newClaim (rt_uuid rt 0) REVERSAL_SCOPE u key ?h)], settings := []\<rparr>"
    from work ok obtain v n ids where "reversible_ok d u req v" "reversal_allowed rt u req v n d"
      and t: "x = newReversal rt u req v (rt_uuid rt 2)"
      "m = (reversal_effect rt u req v n d)\<lparr>idempotencyRecords := ids\<rparr>"
      by (auto simp: claimed_def reversalWork_Inr)
    moreover have "d' = after_reversal rt u key req v n d"
      by (simp add: d' t after_reversal_def reversal_claim_def)
    ultimately show ?thesis using none r Inr by blast
  qed (use Inr in \<open>auto simp: reversal_claim_def\<close>)
qed

end
