(* ===== verification/ReversalClaims.thy ===== *)
theory ReversalClaims
  imports ReversalCommit
begin

text \<open>
  The properties of \<open>ReversalsService.create\<close>: success, what it does to the balances, that a
  transfer is reversed at most once and only by its sender, replay, and the invariants.
\<close>

section \<open>A reversal that can be served\<close>

definition reversal_servable ::
  "runtime \<Rightarrow> uuid \<Rightarrow> string \<Rightarrow> reversal_request \<Rightarrow> reversible \<Rightarrow> ledger_input \<Rightarrow> db \<Rightarrow> bool" where
  "reversal_servable rt u key req v n d \<longleftrightarrow>
     findClaim REVERSAL_SCOPE u key d = None \<and>
     claimable d REVERSAL_SCOPE u key (hashReversalRequest rt req) (rt_uuid rt 0) \<and>
     Some (rt_uuid rt 1) \<notin> i_reversalId ` set (idempotencyRecords d) \<and>
     reversible_ok d u req v \<and> reversal_allowed rt u req v n d"

lemma reversalsCreate_serves:
  assumes "ledger_sound d" "transfer_ids_ok d" "uuid_source rt"
    and key: "normalizeIdempotencyKey hdr = Inr key" and req: "normalizeReversalRequest tid reason = req"
    and s: "reversal_servable rt u key req v n d"
  shows "reversalsCreate rt None observed u tid hdr reason d =
    (Inr (toReversalResponse (newReversal rt u req v (rt_uuid rt 2))), after_reversal rt u key req v n d)"
proof -
  let ?r = "newReversal rt u req v (rt_uuid rt 2)" and ?h = "hashReversalRequest rt req"
  have none: "findClaim REVERSAL_SCOPE u key d = None"
    and can: "claimable d REVERSAL_SCOPE u key ?h (rt_uuid rt 0)" using s by (auto simp: reversal_servable_def)
  have work: "reversalWork rt u req (claimed d REVERSAL_SCOPE u key ?h (rt_uuid rt 0)) =
      (Inr ?r, reversal_effect rt u req v n (claimed d REVERSAL_SCOPE u key ?h (rt_uuid rt 0)))"
    using assms(1) s by (subst reversalWork_Inr) (auto simp: claimed_def reversal_servable_def)
  have commit: "commit_checks d ((reversal_effect rt u req v n (claimed d REVERSAL_SCOPE u key ?h (rt_uuid rt 0)))
     \<lparr>idempotencyRecords := idempotencyRecords d @
        [completed linkReversal ?r (newClaim (rt_uuid rt 0) REVERSAL_SCOPE u key ?h)]\<rparr>)"
    using reversal_commits [OF assms(1-3)] s
    by (simp add: claimed_def reversal_servable_def) (simp add: completed_def linkReversal_def)
  have "reversal_work.serve rt u req toReversalResponse None observed u key ?h (rt_uuid rt 0) d =
      (Inr (toReversalResponse ?r), after_reversal rt u key req v n d)"
    using reversal_work.serve_success [OF assms(1) none can work _ _ _ commit,
        where toResponse = toReversalResponse and observed = observed] s
    by (auto simp: idem_shape_def completed_def linkReversal_def reversal_servable_def notin_image
        after_reversal_def reversal_claim_def claimed_def)
  then show ?thesis by (simp add: reversalsCreate_serve key req)
qed

section \<open>Effects\<close>

lemma reversal_postings:
  "reversal_allowed rt u req v n d \<Longrightarrow> li_postings n = reversalPostings v"
  unfolding reversal_allowed_def using normalize_postings by (fastforce simp: reversalLedgerInput_def)

lemma after_reversal_balance:
  assumes ok: "pairing_ok d" and v: "reversible_ok d u req v" and allow: "reversal_allowed rt u req v n d"
  shows "balanceAt wid (after_reversal rt u key req v n d) =
    map_option (\<lambda>y. y + (if wid = w_id (rv_source v) then t_amountMinor (rv_transfer v)
      else if wid = w_id (rv_destination v) then - t_amountMinor (rv_transfer v) else 0)) (balanceAt wid d)"
proof -
  note facts = reversible_facts [OF v]
  let ?x = "- t_amountMinor (rv_transfer v)"
  have ps: "li_postings n = [\<lparr>pi_accountId = w_ledgerAccountId (rv_source v), pi_amountMinor = - ?x\<rparr>,
      \<lparr>pi_accountId = w_ledgerAccountId (rv_destination v), pi_amountMinor = ?x\<rparr>]"
    using reversal_postings [OF allow] by (simp add: reversalPostings_def)
  have "normalizeLedgerTransactionInput (rt_isUUID rt) (reversalLedgerInput rt v) = Inr n"
    using allow by (simp add: reversal_allowed_def)
  then have "w_ledgerAccountId (rv_source v) \<noteq> w_ledgerAccountId (rv_destination v)"
    using normalize_balanced [of "rt_isUUID rt" "reversalLedgerInput rt v" n] ps by (auto simp: balanced_input_def)
  moreover have "w = w'" if "w \<in> set (wallets d)" "w' \<in> set (wallets d)" "w_id w = w_id w'" for w w'
    using ok that by (auto simp: pairing_ok_def wallet_pk.unique_def dest: distinct_map_inj)
  ultimately have ne: "w_id (rv_source v) \<noteq> w_id (rv_destination v)" using facts(5,7) by metis
  have "wallets (after_reversal rt u key req v n d) = map (credit_wallet (rt_now rt) (li_postings n)) (wallets d)"
    by (simp add: after_reversal_def)
  from credited_balance [OF ok facts(5,7) ne ps this] show ?thesis by simp
qed

lemma after_reversal_ok:
  assumes "ledger_ok d" "reversal_allowed rt u req v n d"
  shows "ledger_ok (after_reversal rt u key req v n d)"
proof -
  have "ledger_ok (ledger_effect (rt_now rt) (transferGen rt) n d)"
    using assms normalize_balanced by (intro effect_ledger_ok) (auto simp: reversal_allowed_def)
  then show ?thesis
    by (simp add: ledger_ok_def pairing_ok_def double_entry_def after_reversal_def)
qed

lemma after_reversal_identity:
  "identity_ok (after_reversal rt u key req v n d) = identity_ok d"
  using identity_map [of "credit_wallet (rt_now rt) (li_postings n)" d]
  by (simp add: identity_ok_def after_reversal_def)

lemma reversalsCreate_invariant:
  assumes ok: "ledger_ok d" "identity_ok d" and run: "reversalsCreate rt abort observed u tid hdr reason d = (r, d')"
  shows "ledger_ok d' \<and> identity_ok d'"
  using reversalsCreate_outcomes [OF ledger_ok_sound [OF ok(1)] run]
proof (elim disjE exE conjE)
  fix key v n
  assume "reversal_allowed rt u (normalizeReversalRequest tid reason) v n d"
    "d' = after_reversal rt u key (normalizeReversalRequest tid reason) v n d"
  then show ?thesis using ok by (simp add: after_reversal_ok after_reversal_identity)
qed (use ok in simp_all)

text \<open>A transfer and its reversal.\<close>

lemma transfer_then_reversal:
  assumes ok: "ledger_ok d"
    and t: "transfersCreate rt abort obs u hdr input d = (Inr x, d1)"
      "normalizeIdempotencyKey hdr = Inr key" "findClaim TRANSFER_SCOPE u key d = None"
      "findClaim TRANSFER_SCOPE u key d1 \<noteq> None"
    and v: "reversalsCreate rt' abort' obs' u tid hdr' reason d1 = (Inr y, d2)"
      "normalizeIdempotencyKey hdr' = Inr key'" "findClaim REVERSAL_SCOPE u key' d1 = None"
      "findClaim REVERSAL_SCOPE u key' d2 \<noteq> None"
    and tid: "js_toLowerCase tid = xr_id x"
  shows "balanceAt wid d2 = balanceAt wid d"
proof -
  from transfersCreate_outcomes [OF ledger_ok_sound [OF ok] t(1)] t(2-4)
  obtain req ro n where ro: "routed d u req ro" and al: "transfer_allowed rt u req ro n d"
    and x: "x = toTransferResponse (newTransfer rt u req ro (rt_uuid rt 2))"
    and d1: "d1 = after_transfer rt u key req ro n d"
    by (auto simp: findClaim_def)
  have pair: "pairing_ok d" using ok by (simp add: ledger_ok_def)
  have ok1: "ledger_ok d1" using after_transfer_ok [OF ok al] d1 by simp
  from reversalsCreate_outcomes [OF ledger_ok_sound [OF ok1] v(1)] v(2-4)
  obtain rv m where rv: "reversible_ok d1 u (normalizeReversalRequest tid reason) rv"
    and al': "reversal_allowed rt' u (normalizeReversalRequest tid reason) rv m d1"
    and d2: "d2 = after_reversal rt' u key' (normalizeReversalRequest tid reason) rv m d1"
    by (auto simp: findClaim_def)
  let ?t = "newTransfer rt u req ro (rt_uuid rt 2)"
  have "t_id ?t \<notin> t_id ` set (transfers d)"
    using al by (simp add: transfer_allowed_def transfer_writable_def transfer_fresh_def)
  then have "rv_transfer rv = ?t"
    using rv tid x d1
    by (auto simp: reversible_ok_def normalizeReversalRequest_def Let_def after_transfer_def
        findRow_append toTransferResponse_def notin_image split: option.splits dest!: findRow_SomeD)
  moreover have "w_id (rv_source rv) = t_sourceWalletId ?t" "w_id (rv_destination rv) = t_destinationWalletId ?t"
    using reversible_facts(6,8) [OF rv] \<open>rv_transfer rv = ?t\<close> by simp_all
  moreover have "wallets d1 = map (credit_wallet (rt_now rt) (transferPostings ro req)) (wallets d)"
    using d1 transfer_postings [OF al] by (simp add: after_transfer_def)
  note credited_balance [OF pair routed_facts(1,3,5) [OF ro] transferPostings_def this, of wid]
  moreover have "pairing_ok d1" using ok1 by (simp add: ledger_ok_def)
  note after_reversal_balance [OF this rv al', of wid key']
  ultimately show ?thesis
    unfolding d2 by (cases "balanceAt wid d") auto
qed

section \<open>A concrete reversal\<close>

definition sent0 :: db where
  "sent0 = after_transfer rt0 ''u1'' ''k-1'' request0 route0 ledger0 db0"

definition rt1 :: runtime where
  "rt1 = rt0\<lparr>rt_uuid := (\<lambda>k. [CHR ''h'', char_of (97 + k mod 26)]), rt_now := 2000\<rparr>"

definition reversal0 :: reversal_request where
  "reversal0 = \<lparr>rq_transferId = ''gb'', rq_reason = Some ''sent twice''\<rparr>"

definition reversible0 :: reversible where
  "reversible0 = \<lparr>rv_transfer = newTransfer rt0 ''u1'' request0 route0 (rt_uuid rt0 2),
     rv_source = hd (wallets sent0), rv_destination = hd (tl (wallets sent0))\<rparr>"

definition reversal_ledger0 :: ledger_input where
  "reversal_ledger0 = reversalLedgerInput rt1 reversible0"

definition reversed0 :: db where
  "reversed0 = after_reversal rt1 ''u1'' ''k-2'' reversal0 reversible0 reversal_ledger0 sent0"

lemma uuid_source_rt1: "uuid_source rt1"
proof -
  have "keyChar CHR ''h''" by code_simp
  moreover have "list_all keyChar (rt_uuid rt0 k)" for k using uuid_source_rt0 by (simp add: uuid_source_def)
  ultimately show ?thesis by (simp add: uuid_source_def rt1_def rt0_def)
qed

lemma sent0_ok: "ledger_ok sent0" "identity_ok sent0"
  using transfersCreate_invariant [OF db0_ok db0_identity transfer0_runs] by (simp_all add: sent0_def)

lemma reversal0_simps: "normalizeIdempotencyKey (Some ''k-2'') = Inr ''k-2''"
  "normalizeReversalRequest ''GB'' (Some '' sent twice '') = reversal0"
  by code_simp+

lemma reversal_servable0: "reversal_servable rt1 ''u1'' ''k-2'' reversal0 reversible0 reversal_ledger0 sent0"
  by code_simp

lemma reversed_rows0: "map r_transferId (reversals reversed0) = [''gb'']" "r_transferId ` set (reversals reversed0) = {''gb''}"
  by (simp_all add: reversed0_def after_reversal_def sent0_def after_transfer_def reversible0_def db0_def rt0_ids)

lemma transfer_ids0: "transfer_ids_ok sent0"
  by code_simp

lemma reversal0_runs:
  "reversalsCreate rt1 None observed ''u1'' ''GB'' (Some ''k-2'') (Some '' sent twice '') sent0 =
    (Inr (toReversalResponse (newReversal rt1 ''u1'' reversal0 reversible0 (rt_uuid rt1 2))), reversed0)"
  unfolding reversed0_def
  by (rule reversalsCreate_serves [OF ledger_ok_sound [OF sent0_ok(1)] transfer_ids0 uuid_source_rt1
      reversal0_simps reversal_servable0])

section \<open>Properties\<close>

text \<open>
  C16. A first reversal request that can be served succeeds, and everything it writes (ledger
  transaction, postings, balances, the reversal, audit entry, event, record) commits in one
  transaction that no deferred trigger refuses.
\<close>

theorem reversal_succeeds:
  assumes "ledger_ok d" "transfer_ids_ok d" "uuid_source rt"
    and "normalizeIdempotencyKey hdr = Inr key" "normalizeReversalRequest tid reason = req"
    and "reversal_servable rt u key req v n d"
  shows "reversalsCreate rt None observed u tid hdr reason d =
    (Inr (toReversalResponse (newReversal rt u req v (rt_uuid rt 2))), after_reversal rt u key req v n d)"
  using assms by (intro reversalsCreate_serves ledger_ok_sound)

theorem reversal_succeeds_witness:
  "reversalsCreate rt1 None (\<lambda>_. db0) ''u1'' ''GB'' (Some ''k-2'') (Some '' sent twice '') sent0 =
    (Inr (toReversalResponse (newReversal rt1 ''u1'' reversal0 reversible0 (rt_uuid rt1 2))), reversed0)"
  unfolding reversed0_def
  by (rule reversal_succeeds [OF sent0_ok(1) transfer_ids0 uuid_source_rt1 reversal0_simps reversal_servable0])

text \<open>
  C17. Round trip: a transfer that was made and then reversed leaves every wallet of the
  database with the balance it had before the transfer.
\<close>

theorem reversal_restores_balances:
  assumes "ledger_ok d"
    and "transfersCreate rt abort obs u hdr input d = (Inr x, d1)"
      "normalizeIdempotencyKey hdr = Inr key" "findClaim TRANSFER_SCOPE u key d = None"
      "findClaim TRANSFER_SCOPE u key d1 \<noteq> None"
    and "reversalsCreate rt' abort' obs' u tid hdr' reason d1 = (Inr y, d2)"
      "normalizeIdempotencyKey hdr' = Inr key'" "findClaim REVERSAL_SCOPE u key' d1 = None"
      "findClaim REVERSAL_SCOPE u key' d2 \<noteq> None"
    and "js_toLowerCase tid = xr_id x"
  shows "balanceAt wid d2 = balanceAt wid d"
  using transfer_then_reversal [OF assms] .

theorem reversal_restores_balances_witness:
  "balanceAt ''w1'' reversed0 = balanceAt ''w1'' db0"
proof (rule reversal_restores_balances [OF db0_ok, where u = "''u1''" and obs = "\<lambda>_. db0" and obs' = "\<lambda>_. db0"])
  show "transfersCreate rt0 None (\<lambda>_. db0) ''u1'' (Some ''k-1'') transfer0 db0 =
      (Inr (toTransferResponse (newTransfer rt0 ''u1'' request0 route0 (rt_uuid rt0 2))), sent0)"
    using transfer0_runs by (simp add: sent0_def)
  show "reversalsCreate rt1 None (\<lambda>_. db0) ''u1'' ''GB'' (Some ''k-2'') (Some '' sent twice '') sent0 =
      (Inr (toReversalResponse (newReversal rt1 ''u1'' reversal0 reversible0 (rt_uuid rt1 2))), reversed0)"
    by (rule reversal0_runs)
  show "findClaim TRANSFER_SCOPE ''u1'' ''k-1'' db0 = None" by (rule fresh_key0)
  show "findClaim TRANSFER_SCOPE ''u1'' ''k-1'' sent0 \<noteq> None" by code_simp
  show "findClaim REVERSAL_SCOPE ''u1'' ''k-2'' sent0 = None" by code_simp
  show "findClaim REVERSAL_SCOPE ''u1'' ''k-2'' reversed0 \<noteq> None" by code_simp
  show "js_toLowerCase ''GB'' =
      xr_id (toTransferResponse (newTransfer rt0 ''u1'' request0 route0 (rt_uuid rt0 2)))" by code_simp
qed (rule request0_simps reversal0_simps)+

text \<open>
  C18. A transfer is reversed at most once: the reversals of a database with one reversal per
  transfer still have that property after any call, and once a transfer is reversed no
  further call for it, by anyone, under any key, posts to the ledger.
\<close>

theorem reversal_at_most_once:
  assumes "ledger_ok d" "distinct (map r_transferId (reversals d))"
    and "reversalsCreate rt abort observed u tid hdr reason d = (r, d')"
  shows "distinct (map r_transferId (reversals d')) \<and>
    (js_toLowerCase tid \<in> r_transferId ` set (reversals d) \<longrightarrow>
       reversals d' = reversals d \<and> wallets d' = wallets d \<and> accounts d' = accounts d \<and>
       postings d' = postings d)"
  using reversalsCreate_outcomes [OF ledger_ok_sound [OF assms(1)] assms(3)]
proof (elim disjE exE conjE)
  fix key v n
  assume v: "reversible_ok d u (normalizeReversalRequest tid reason) v"
    and d': "d' = after_reversal rt u key (normalizeReversalRequest tid reason) v n d"
  have "t_id (rv_transfer v) = js_toLowerCase tid"
    using reversible_facts(3) [OF v] by (simp add: normalizeReversalRequest_def Let_def)
  moreover have "t_id (rv_transfer v) \<notin> r_transferId ` set (reversals d)"
    using v by (auto simp: reversible_ok_def existsRow_iff notin_image)
  ultimately show ?thesis using assms(2) d' by (auto simp: after_reversal_def)
qed (use assms(2) in \<open>simp_all add: after_refusal_def\<close>)

theorem reversal_at_most_once_witness:
  "reversals (snd (reversalsCreate rt0 None (\<lambda>_. db0) ''u1'' ''gb'' (Some ''k-3'') None reversed0)) = reversals reversed0"
proof -
  have ok: "ledger_ok reversed0"
    using reversalsCreate_invariant [OF sent0_ok reversal0_runs] by simp
  have "js_toLowerCase ''gb'' = ''gb''" by code_simp
  then have one: "distinct (map r_transferId (reversals reversed0))"
    "js_toLowerCase ''gb'' \<in> r_transferId ` set (reversals reversed0)"
    by (simp_all add: reversed_rows0)
  from reversal_at_most_once [OF ok one(1) prod.collapse [symmetric],
      of rt0 None "\<lambda>_. db0" "''u1''" "''gb''" "Some ''k-3''" None] one(2)
  show ?thesis by blast
qed

lemma reversalsCreate_moves:
  assumes ok: "ledger_ok d" and run: "reversalsCreate rt abort observed u tid hdr reason d = (r, d')"
  shows "(\<forall>wid. balanceAt wid d' = balanceAt wid d) \<or>
    (\<exists>t src dst. t \<in> set (transfers d) \<and> t_id t = js_toLowerCase tid \<and> t_senderUserId t = u \<and>
       t_status t = T_COMPLETED \<and> 0 < t_amountMinor t \<and> w_id src = t_sourceWalletId t \<and> w_id dst = t_destinationWalletId t \<and>
       src \<in> set (wallets d) \<and> dst \<in> set (wallets d) \<and> w_status src = ACTIVE \<and> w_status dst = ACTIVE \<and>
       (\<forall>wid. balanceAt wid d' = map_option (\<lambda>y. y + (if wid = t_sourceWalletId t then t_amountMinor t
          else if wid = t_destinationWalletId t then - t_amountMinor t else 0)) (balanceAt wid d)))"
  using reversalsCreate_outcomes [OF ledger_ok_sound [OF ok] run]
proof (elim disjE exE conjE)
  fix key v n
  assume v: "reversible_ok d u (normalizeReversalRequest tid reason) v"
    and al: "reversal_allowed rt u (normalizeReversalRequest tid reason) v n d"
    and d': "d' = after_reversal rt u key (normalizeReversalRequest tid reason) v n d"
  have "pairing_ok d" using ok by (simp add: ledger_ok_def)
  note after_reversal_balance [OF this v al, of _ key]
  moreover have "t_id (rv_transfer v) = js_toLowerCase tid"
    using reversible_facts(3) [OF v] by (simp add: normalizeReversalRequest_def Let_def)
  moreover have "w_status (rv_source v) = ACTIVE" "w_status (rv_destination v) = ACTIVE"
    using v by (simp_all add: reversible_ok_def)
  moreover have "0 < t_amountMinor (rv_transfer v)" using al by (simp add: reversal_allowed_def reversal_writable_def)
  ultimately show ?thesis
    using reversible_facts [OF v] unfolding d' by metis
qed (auto simp: after_refusal_def balanceAt_def)

text \<open>
  C19. Only the sender of a completed transfer can reverse it, and only while both wallets
  are active; a reversal moves exactly the transferred amount, from the destination back to
  the source. Every other call leaves all balances as they are.
\<close>

theorem reversal_moves_back:
  assumes ok: "ledger_ok d" and run: "reversalsCreate rt abort observed u tid hdr reason d = (r, d')"
  shows "(\<forall>wid. balanceAt wid d' = balanceAt wid d) \<or>
    (\<exists>t src dst. t \<in> set (transfers d) \<and> t_id t = js_toLowerCase tid \<and> t_senderUserId t = u \<and>
       t_status t = T_COMPLETED \<and> 0 < t_amountMinor t \<and> w_id src = t_sourceWalletId t \<and> w_id dst = t_destinationWalletId t \<and>
       src \<in> set (wallets d) \<and> dst \<in> set (wallets d) \<and> w_status src = ACTIVE \<and> w_status dst = ACTIVE \<and>
       (\<forall>wid. balanceAt wid d' = map_option (\<lambda>y. y + (if wid = t_sourceWalletId t then t_amountMinor t
          else if wid = t_destinationWalletId t then - t_amountMinor t else 0)) (balanceAt wid d)))"
  using assms by (rule reversalsCreate_moves)

theorem reversal_moves_back_witness:
  "balanceAt ''w1'' reversed0 = Some 1000"
proof -
  have b: "balanceAt ''w1'' sent0 = Some 750" "balanceAt ''w1'' reversed0 \<noteq> Some 750" by code_simp+
  have t: "transfers sent0 = [newTransfer rt0 ''u1'' request0 route0 (rt_uuid rt0 2)]"
    "t_amountMinor (newTransfer rt0 ''u1'' request0 route0 (rt_uuid rt0 2)) = 250"
    "t_sourceWalletId (newTransfer rt0 ''u1'' request0 route0 (rt_uuid rt0 2)) = ''w1''"
    by (simp add: sent0_def after_transfer_def db0_def, code_simp, code_simp)
  from reversal_moves_back [OF sent0_ok(1) reversal0_runs] show ?thesis
  proof (elim disjE exE conjE)
    fix t src dst
    assume "t \<in> set (transfers sent0)"
      and bal: "\<forall>wid. balanceAt wid reversed0 = map_option (\<lambda>y. y + (if wid = t_sourceWalletId t then t_amountMinor t
          else if wid = t_destinationWalletId t then - t_amountMinor t else 0)) (balanceAt wid sent0)"
    with t have "t_sourceWalletId t = ''w1''" "t_amountMinor t = 250" by auto
    with bal b show ?thesis by simp
  qed (use b in simp)
qed

text \<open>
  A reversal request that was answered and recorded is answered the same way whenever it
  is repeated with the same key, without any change; and every reversal call keeps the
  ledger invariants.
\<close>

theorem reversal_replay:
  assumes ok: "ledger_ok d" "identity_ok d" and none: "findClaim REVERSAL_SCOPE u key d = None"
    and key: "normalizeIdempotencyKey hdr = Inr key"
    and run: "reversalsCreate rt abort observed u tid hdr reason d = (r, d')"
    and stored: "findClaim REVERSAL_SCOPE u key d' \<noteq> None"
  shows "reversalsCreate rt None observed' u tid hdr reason d' = (r, d'\<lparr>settings := []\<rparr>) \<and>
    ledger_ok d' \<and> identity_ok d'"
proof -
  have "reversal_work.serve rt u (normalizeReversalRequest tid reason) toReversalResponse abort observed u key
      (hashReversalRequest rt (normalizeReversalRequest tid reason)) (rt_uuid rt 0) d = (r, d')"
    using run by (simp add: reversalsCreate_serve key)
  from reversal_work.serve_replay [OF ledger_ok_sound [OF ok(1)] none this stored, of d'] show ?thesis
    using reversalsCreate_invariant [OF ok run] by (simp add: reversalsCreate_serve key)
qed

theorem reversal_replay_witness:
  "reversalsCreate rt1 None (\<lambda>_. db0) ''u1'' ''GB'' (Some ''k-2'') (Some '' sent twice '') reversed0 =
    (Inr (toReversalResponse (newReversal rt1 ''u1'' reversal0 reversible0 (rt_uuid rt1 2))), reversed0\<lparr>settings := []\<rparr>)"
proof -
  have "findClaim REVERSAL_SCOPE ''u1'' ''k-2'' sent0 = None"
    "findClaim REVERSAL_SCOPE ''u1'' ''k-2'' reversed0 \<noteq> None" by code_simp+
  from reversal_replay [OF sent0_ok this(1) reversal0_simps(1) reversal0_runs this(2)] show ?thesis by blast
qed

end
