(* ===== verification/PaymentClaims.thy ===== *)
theory PaymentClaims
  imports PaymentCommit TransferClaims
begin

text \<open>
  The properties of settlement: a verified event funds the wallet exactly once, a repeated event
  changes nothing, a terminal payment never changes again, the retry loop is bounded, and every path
  keeps the invariants.
\<close>

section \<open>Repetition\<close>

lemma findRow_put:
  assumes "findRow q ps = Some p" "\<And>x. q (f x) = q x" "payment_pk.unique ps"
  shows "findRow q (payment_pk.put (p_id p) f ps) = Some (f p)"
  using assms unfolding payment_pk.put_def by (subst findRow_updateRows) simp_all

lemma settleBody_seen:
  assumes "findIntent pr ev d = Some p" "event_matches p ev" "findEvidence pr ev d = Some e"
    "pe_payloadHash e = ve_payloadHash ev" "pe_paymentId e = p_id p"
  shows "settleBody rt ev pr d = (Inr (Settled (p_id p) (p_status p)), d)"
  using assms by (simp add: settleBody_def op_simps findIntent_def findEvidence_def event_matches_def)

lemma seen_after:
  assumes "findEvidence pr ev d = None" "providerEvents e = providerEvents d @ [newProviderEvent rt pr p ev]"
  shows "findEvidence pr ev e = Some (newProviderEvent rt pr p ev)"
  using assms by (simp add: findEvidence_def findRow_append)

lemma settles_again:
  assumes ok: "payments_ok d" and s: "settles rt ev pr d r m"
  shows "settleBody rt' ev pr (m\<lparr>settings := cs\<rparr>) = (Inr r, m\<lparr>settings := cs\<rparr>)"
proof -
  obtain p where p: "findIntent pr ev d = Some p" "event_matches p ev" and way:
      "(\<exists>e. findEvidence pr ev d = Some e \<and> pe_payloadHash e = ve_payloadHash ev \<and>
          pe_paymentId e = p_id p \<and> r = Settled (p_id p) (p_status p) \<and> m = d) \<or>
       (findEvidence pr ev d = None \<and> p_status p = ve_status ev \<and>
          r = Settled (p_id p) (p_status p) \<and> m = with_evidence rt pr p ev d) \<or>
       (findEvidence pr ev d = None \<and> r = Settled (p_id p) (ve_status ev) \<and>
          ve_status ev = P_FAILED \<and> m = declined rt pr p ev d) \<or>
       (findEvidence pr ev d = None \<and> r = Settled (p_id p) (ve_status ev) \<and>
          (\<exists>n. ve_status ev = P_SUCCEEDED \<and> m = funded rt pr p ev n d))"
    using s unfolding settles_def by blast
  from way have cases: "(\<exists>e. findEvidence pr ev d = Some e \<and> pe_payloadHash e = ve_payloadHash ev \<and>
          pe_paymentId e = p_id p \<and> r = Settled (p_id p) (p_status p) \<and> m = d) \<or>
       (findEvidence pr ev d = None \<and> providerEvents m = providerEvents d @ [newProviderEvent rt pr p ev] \<and>
          ((payments m = payments d \<and> r = Settled (p_id p) (p_status p)) \<or>
           (\<exists>l. payments m = payment_pk.put (p_id p) (settledAs (ve_status ev) (rt_now rt) l) (payments d) \<and>
                r = Settled (p_id p) (ve_status ev))))"
    by (elim disjE exE conjE) auto
  have uniq: "payment_pk.unique (payments d)" using ok by (simp add: payments_ok_def)
  let ?e = "m\<lparr>settings := cs\<rparr>"
  from cases show ?thesis
  proof (elim disjE exE conjE)
    fix e assume e: "findEvidence pr ev d = Some e" "pe_payloadHash e = ve_payloadHash ev" "pe_paymentId e = p_id p"
      "r = Settled (p_id p) (p_status p)" "m = d"
    then have "findIntent pr ev ?e = Some p" "findEvidence pr ev ?e = Some e"
      using p by (simp_all add: findIntent_def findEvidence_def)
    from settleBody_seen [OF this(1) p(2) this(2) e(2,3)] e show ?thesis by simp
  next
    assume ev: "findEvidence pr ev d = None" "providerEvents m = providerEvents d @ [newProviderEvent rt pr p ev]"
      and "payments m = payments d" "r = Settled (p_id p) (p_status p)"
    moreover have "findEvidence pr ev ?e = Some (newProviderEvent rt pr p ev)"
      using ev by (intro seen_after) simp_all
    moreover have "findIntent pr ev ?e = Some p"
      using p(1) \<open>payments m = payments d\<close> by (simp add: findIntent_def)
    ultimately show ?thesis
      using p(2) settleBody_seen [of pr ev ?e p "newProviderEvent rt pr p ev" rt'] by simp
  next
    fix l assume ev: "findEvidence pr ev d = None" "providerEvents m = providerEvents d @ [newProviderEvent rt pr p ev]"
      and pay: "payments m = payment_pk.put (p_id p) (settledAs (ve_status ev) (rt_now rt) l) (payments d)"
      and r: "r = Settled (p_id p) (ve_status ev)"
    have "findEvidence pr ev ?e = Some (newProviderEvent rt pr p ev)"
      using ev by (intro seen_after) simp_all
    moreover have "findIntent pr ev ?e = Some (settledAs (ve_status ev) (rt_now rt) l p)"
      using p(1) uniq by (simp add: findIntent_def pay findRow_put)
    ultimately show ?thesis
      using p settleBody_seen [of pr ev ?e "settledAs (ve_status ev) (rt_now rt) l p" "newProviderEvent rt pr p ev" rt'] r
      by (simp add: event_matches_def)
  qed
qed

lemma commit_nothing: "commit_checks d d"
  by (auto simp: commit_checks_def list_all_iff existsRow_iff)

lemma settle_replays:
  assumes "books_ok (sa_others sa d)" "settle sa ev pr d = (Inr r, d')"
    and "sa_abort sb = None" "sa_others sb d' = d'"
  shows "settle sb ev pr d' = (Inr r, d')"
proof -
  note ok = books_okD [OF assms(1)]
  from assms(2) obtain m where m: "settles (sa_runtime sa) ev pr (sa_others sa d) r m" "d' = m\<lparr>settings := []\<rparr>"
    using settle_Inr [OF refl ok] by auto
  then have "settleBody (sa_runtime sb) ev pr d' = (Inr r, d')"
    using settles_again [OF ok(2)] by simp
  with assms(3,4) m(2) show ?thesis
    by (simp add: settle_def op_simps prisma_transaction_def commit_nothing)
qed

section \<open>The wallet's balance\<close>

lemma system_account_no_wallet:
  assumes ok: "pairing_ok d" and a: "a \<in> set (accounts d)" "la_systemKey a \<noteq> None"
    and w: "w \<in> set (wallets d)"
  shows "w_ledgerAccountId w \<noteq> la_id a"
proof
  assume "w_ledgerAccountId w = la_id a"
  with ok a w have "wallet_matches w a" by (intro wallet_of_account)
  with ok a show False by (auto simp: pairing_ok_def account_ok_def kind_policy_def wallet_matches_def)
qed

lemma funded_balance:
  assumes ok: "books_ok d" and p: "findIntent pr ev d = Some p" and f: "fundable rt p w a n d"
    and d': "wallets d' = map (credit_wallet now (li_postings n)) (wallets d)"
  shows "balanceAt wid d' =
    map_option (\<lambda>y. y + (if wid = p_walletId p then p_amountMinor p else 0)) (balanceAt wid d)"
proof (cases "wallet_pk.lookup wid (wallets d)")
  case None
  then show ?thesis by (simp add: balanceAt_def d' credit_lookup)
next
  case (Some v)
  have pair: "pairing_ok d" using ok by (simp add: books_ok_def ledger_ok_def)
  have "p \<in> set (payments d)" using findIntent_in [OF p] by simp
  then have "js_trim (p_reference p) = p_reference p"
    using ok by (auto simp: books_ok_def payments_ok_def payment_ok_def)
  note ps = fundable_input(1) [OF f this]
  have w: "wallet_pk.lookup (p_walletId p) (wallets d) = Some w"
    and a: "findRow (\<lambda>a. la_systemKey a = Some (externalClearingAccountKey (p_currency p))) (accounts d) = Some a"
    using f by (simp_all add: fundable_def)
  note wd = wallet_pk.lookup_Some [OF w] and vd = wallet_pk.lookup_Some [OF Some]
  have "w_ledgerAccountId v \<noteq> la_id a"
    using system_account_no_wallet [OF pair] findRow_SomeD [OF a] vd by simp
  moreover have "w_ledgerAccountId w = w_ledgerAccountId v \<longleftrightarrow> wid = p_walletId p"
  proof
    assume "w_ledgerAccountId w = w_ledgerAccountId v"
    then have "w = v" using pair wd vd by (auto simp: pairing_ok_def wallet_account.unique_def dest: distinct_map_inj)
    then show "wid = p_walletId p" using wd vd by simp
  qed (use w Some in simp)
  ultimately have "amountFor (li_postings n) (w_ledgerAccountId v) = (if wid = p_walletId p then p_amountMinor p else 0)"
    by (auto simp: ps amountFor_def)
  then show ?thesis using Some by (simp add: balanceAt_def d' credit_lookup)
qed

section \<open>The retry loop\<close>

text \<open>What an attempt leaves for the next one, and the specification of the loop: the first attempt
  that does not end in a transient error decides.\<close>

fun beforeAttempt :: "(nat \<Rightarrow> settle_attempt) \<Rightarrow> verified_event \<Rightarrow> PaymentProvider \<Rightarrow> db \<Rightarrow> nat \<Rightarrow> db" where
  "beforeAttempt env ev pr d 0 = d"
| "beforeAttempt env ev pr d (Suc k) = snd (settle (env k) ev pr (beforeAttempt env ev pr d k))"

definition attemptResult ::
  "(nat \<Rightarrow> settle_attempt) \<Rightarrow> verified_event \<Rightarrow> PaymentProvider \<Rightarrow> db \<Rightarrow> nat \<Rightarrow> (exn + receipt) \<times> db" where
  "attemptResult env ev pr d k = settle (env k) ev pr (beforeAttempt env ev pr d k)"

definition transientResult :: "(exn + receipt) \<times> db \<Rightarrow> bool" where
  "transientResult r \<longleftrightarrow> (case fst r of Inl e \<Rightarrow> transientError e | Inr _ \<Rightarrow> False)"

lemma settleFrom_step:
  "settleFrom k env ev pr d =
     (if k < 3 then
        (case settle (env k) ev pr d of
           (Inl e, d') \<Rightarrow>
             if \<not> transientError e then (Inl e, d')
             else if k = 2 then (Inl (ServiceUnavailable ''Concurrent payment settlement; retry callback''), d')
             else settleFrom (Suc k) env ev pr d'
         | (Inr r, d') \<Rightarrow> (Inr r, d'))
      else (Inl (ServiceUnavailable ''Retry callback''), d))"
  by (subst settleFrom.simps) (auto simp: tryCatch_def op_simps split: prod.splits sum.splits)

lemma settleFrom_attempt:
  assumes "k < 3"
  shows "settleFrom k env ev pr (beforeAttempt env ev pr d k) =
    (if \<not> transientResult (attemptResult env ev pr d k) then attemptResult env ev pr d k
     else if k = 2 then (Inl (ServiceUnavailable ''Concurrent payment settlement; retry callback''),
       beforeAttempt env ev pr d 3)
     else settleFrom (Suc k) env ev pr (beforeAttempt env ev pr d (Suc k)))"
proof -
  obtain r d' where run: "settle (env k) ev pr (beforeAttempt env ev pr d k) = (r, d')" by fastforce
  have three: "k = 2 \<Longrightarrow> beforeAttempt env ev pr d 3 = d'"
    using run by (simp add: numeral_3_eq_3 numeral_2_eq_2)
  show ?thesis
    using assms run three
    by (cases r) (simp_all add: settleFrom_step [of k] attemptResult_def transientResult_def)
qed

lemma settle_keeps:
  assumes "books_ok (sa_others sa d)"
  shows "books_ok (snd (settle sa ev pr d))"
proof (cases "settle sa ev pr d")
  case (Pair r d')
  show ?thesis
  proof (cases r)
    case (Inl e)
    then show ?thesis using Pair settle_Inl assms by auto
  next
    case (Inr x)
    then obtain m where "settles (sa_runtime sa) ev pr (sa_others sa d) x m" "d' = m\<lparr>settings := []\<rparr>"
      using Pair settle_Inr [OF refl books_okD [OF assms]] by auto
    with Pair settles_books [OF assms] show ?thesis by simp
  qed
qed

lemma settleFrom_keeps:
  assumes "\<And>k e. books_ok e \<Longrightarrow> books_ok (sa_others (env k) e)" and "books_ok d"
  shows "books_ok (snd (settleFrom k env ev pr d))"
  using assms(2)
proof (induction "3 - k" arbitrary: k d)
  case 0
  then show ?case by (subst settleFrom_step) simp
next
  case (Suc n)
  have one: "books_ok (snd (settle (env k) ev pr d))"
    using settle_keeps [of "env k" d] assms(1) Suc.prems by blast
  have "n = 3 - Suc k" using Suc.hyps(2) by simp
  then show ?case
    using one Suc.hyps(1) Suc.prems by (subst settleFrom_step) (auto split: prod.splits sum.splits)
qed

section \<open>Samples\<close>

definition payment0 :: payment where
  "payment0 = \<lparr>p_id = ''y1'', p_userId = ''u1'', p_walletId = ''w1'', p_provider = MOCK,
     p_reference = ''payment:r1'', p_idempotencyKey = ''k-1'', p_requestHash = replicate 64 CHR ''a'',
     p_amountMinor = 500, p_currency = USD, p_status = P_PENDING, p_ledgerTransactionId = None,
     p_createdAt = 3, p_completedAt = None\<rparr>"

definition event0 :: verified_event where
  "event0 = \<lparr>ve_eventId = ''v1'', ve_reference = ''payment:r1'', ve_amountMinor = ''500'',
     ve_currency = USD, ve_status = P_SUCCEEDED, ve_payloadHash = replicate 64 CHR ''b''\<rparr>"

definition dbp0 :: db where
  "dbp0 = db0\<lparr>payments := [payment0]\<rparr>"

definition alone :: "runtime \<Rightarrow> settle_attempt" where
  "alone rt = \<lparr>sa_runtime = rt, sa_abort = None, sa_others = (\<lambda>d. d)\<rparr>"

lemma alone_simps [simp]:
  "sa_runtime (alone rt) = rt" "sa_abort (alone rt) = None" "sa_others (alone rt) d = d"
  by (simp_all add: alone_def)

lemma dbp0_books: "books_ok dbp0"
proof -
  have "ledger_ok dbp0" "identity_ok dbp0"
    using db0_ok db0_identity
    by (simp_all add: dbp0_def ledger_ok_def pairing_ok_def double_entry_def identity_ok_def)
  moreover have "payment_ok dbp0 payment0" by code_simp
  ultimately show ?thesis
    by (simp add: books_ok_def payments_ok_def payments_linked_def payment_pk.unique_def dbp0_def)
      (simp add: payment0_def db0_def)
qed

definition fledger0 :: ledger_input where
  "fledger0 = paymentLedgerInput payment0 ''ax'' wallet1"

lemma fundable0: "fundable rt0 payment0 wallet1 clearing fledger0 dbp0"
  by code_simp

definition paid0 :: db where
  "paid0 = (funded rt0 MOCK payment0 event0 fledger0 dbp0)\<lparr>settings := []\<rparr>"

section \<open>Properties\<close>

text \<open>
  C13. A verified success event for a pending payment credits the payer's wallet with exactly the
  intended amount and no other wallet, and in one commit stores the evidence, the sealed ledger
  transaction, the new status and the outbox event. No deferred trigger can refuse it.
\<close>

theorem settle_funds:
  assumes ok: "books_ok (sa_others sa d)" and run: "sa_abort sa = None"
    and p: "findIntent pr ev (sa_others sa d) = Some p" "event_matches p ev" "p_status p = P_PENDING"
    and ev: "ve_status ev = P_SUCCEEDED" "findEvidence pr ev (sa_others sa d) = None"
      "evidence_writable (sa_runtime sa) ev (sa_others sa d)"
      "outcome_writable (sa_runtime sa) p P_SUCCEEDED (sa_others sa d)"
    and f: "fundable (sa_runtime sa) p w a n (sa_others sa d)"
  shows "settle sa ev pr d = (Inr (Settled (p_id p) P_SUCCEEDED),
      (funded (sa_runtime sa) pr p ev n (sa_others sa d))\<lparr>settings := []\<rparr>) \<and>
    (\<forall>wid. balanceAt wid (snd (settle sa ev pr d)) = map_option
       (\<lambda>y. y + (if wid = p_walletId p then p_amountMinor p else 0)) (balanceAt wid (sa_others sa d)))"
proof -
  have "settles (sa_runtime sa) ev pr (sa_others sa d) (Settled (p_id p) P_SUCCEEDED)
      (funded (sa_runtime sa) pr p ev n (sa_others sa d))"
    using p ev f by (auto simp: settles_def)
  then have "settle sa ev pr d = (Inr (Settled (p_id p) P_SUCCEEDED),
      (funded (sa_runtime sa) pr p ev n (sa_others sa d))\<lparr>settings := []\<rparr>)"
    using settle_Inr [OF refl books_okD [OF ok]] run by blast
  moreover have "balanceAt wid ((funded (sa_runtime sa) pr p ev n (sa_others sa d))\<lparr>settings := []\<rparr>) =
      map_option (\<lambda>y. y + (if wid = p_walletId p then p_amountMinor p else 0)) (balanceAt wid (sa_others sa d))" for wid
    by (rule funded_balance [OF ok p(1) f, of _ "rt_now (sa_runtime sa)"]) simp
  ultimately show ?thesis by (simp only: snd_conv simp_thms)
qed

theorem settle_funds_witness:
  "settle (alone rt0) event0 MOCK dbp0 = (Inr (Settled ''y1'' P_SUCCEEDED), paid0) \<and>
   balanceAt ''w1'' paid0 = Some 1500 \<and> balanceAt ''w2'' paid0 = Some 0"
proof -
  have h: "findIntent MOCK event0 dbp0 = Some payment0" "event_matches payment0 event0"
    "p_status payment0 = P_PENDING" "ve_status event0 = P_SUCCEEDED"
    "findEvidence MOCK event0 dbp0 = None"
    "evidence_writable rt0 event0 dbp0" "outcome_writable rt0 payment0 P_SUCCEEDED dbp0"
    by code_simp+
  have b: "balanceAt ''w1'' dbp0 = Some 1000" "balanceAt ''w2'' dbp0 = Some 0"
    "p_walletId payment0 = ''w1''" "p_amountMinor payment0 = 500" "p_id payment0 = ''y1''" by code_simp+
  note all = settle_funds [of "alone rt0" dbp0 MOCK event0 payment0 wallet1 clearing fledger0, unfolded alone_simps,
      OF dbp0_books refl h(1-7) fundable0, folded paid0_def]
  then have run: "settle (alone rt0) event0 MOCK dbp0 = (Inr (Settled ''y1'' P_SUCCEEDED), paid0)"
    using b(5) by simp
  have "balanceAt wid paid0 = map_option
      (\<lambda>y. y + (if wid = ''w1'' then 500 else 0)) (balanceAt wid dbp0)" for wid
    using all [THEN conjunct2, rule_format, of wid] unfolding run snd_conv b(3,4) .
  then show ?thesis using b run by simp
qed

text \<open>
  C14. Exactly once: after a settlement returned a receipt, delivering the same event again, now or
  by the webhook and the reconciliation at the same time, returns the same receipt and changes nothing.
\<close>

theorem settle_repeat:
  assumes "books_ok (sa_others sa d)" "settle sa ev pr d = (Inr r, d')"
    and "sa_abort sb = None" "sa_others sb d' = d'"
  shows "settle sb ev pr d' = (Inr r, d')"
  using assms by (rule settle_replays)

theorem settle_repeat_witness:
  "settle (alone rt0) event0 MOCK paid0 = (Inr (Settled ''y1'' P_SUCCEEDED), paid0)"
proof -
  have "settle (alone rt0) event0 MOCK dbp0 = (Inr (Settled ''y1'' P_SUCCEEDED), paid0)"
    unfolding paid0_def by code_simp
  from settle_repeat [of "alone rt0" dbp0, OF _ this, of "alone rt0"] dbp0_books show ?thesis by simp
qed

text \<open>
  C15. A terminal payment never changes again, whatever event any caller settles; and an event with
  the other outcome, for that payment, is refused with 409 and leaves the database as it was.
\<close>

theorem settle_terminal:
  assumes ok: "books_ok (sa_others sa d)" and p: "p \<in> set (payments (sa_others sa d))" "p_status p \<noteq> P_PENDING"
  shows "p \<in> set (payments (snd (settle sa ev pr d))) \<and>
    (findIntent pr ev (sa_others sa d) = Some p \<longrightarrow>
       wallets (snd (settle sa ev pr d)) = wallets (sa_others sa d) \<and>
       postings (snd (settle sa ev pr d)) = postings (sa_others sa d) \<and>
       (event_matches p ev \<and> ve_status ev \<noteq> p_status p \<and> findEvidence pr ev (sa_others sa d) = None \<and>
        sa_abort sa = None \<longrightarrow>
          settle sa ev pr d = (Inl (Conflict ''Conflicting terminal provider outcome''), sa_others sa d)))"
proof -
  let ?e = "sa_others sa d"
  have conflict: "settle sa ev pr d = (Inl (Conflict ''Conflicting terminal provider outcome''), ?e)"
    if "findIntent pr ev ?e = Some p" "event_matches p ev" "ve_status ev \<noteq> p_status p"
      "findEvidence pr ev ?e = None" "sa_abort sa = None"
    using that p(2)
    by (auto simp: settle_def op_simps prisma_transaction_def settleBody_def findIntent_def
        findEvidence_def event_matches_def)
  have uniq: "payment_pk.unique (payments ?e)" using ok by (simp add: books_ok_def payments_ok_def)
  show ?thesis
  proof (cases "settle sa ev pr d")
    case (Pair r d')
    show ?thesis
    proof (cases r)
      case (Inl x)
      then show ?thesis using Pair settle_Inl conflict p(1) by auto
    next
      case (Inr x)
      then obtain m where m: "settles (sa_runtime sa) ev pr ?e x m" "d' = m\<lparr>settings := []\<rparr>"
        using Pair settle_Inr [OF refl books_okD [OF ok]] by auto
      have keep: "p \<in> set (payment_pk.put (p_id q) f (payments ?e))"
        if q: "q \<in> set (payments ?e)" "p_status q = P_PENDING" for q f
      proof -
        have "p_id p \<noteq> p_id q"
        proof
          assume "p_id p = p_id q"
          then have "p = q" using uniq p(1) q(1) unfolding payment_pk.unique_def by (metis distinct_map_inj)
          with p(2) q(2) show False by simp
        qed
        with p(1) show ?thesis by (force simp: payment_pk.put_def set_updateRows)
      qed
      have "p \<in> set (payments m)"
        using m(1) p(1) keep unfolding settles_def by (auto dest: findIntent_in)
      moreover have "wallets m = wallets ?e \<and> postings m = postings ?e" if "findIntent pr ev ?e = Some p"
        using m(1) that p(2) unfolding settles_def by auto
      ultimately show ?thesis using Pair m(2) conflict by auto
    qed
  qed
qed

definition declined0 :: verified_event where
  "declined0 = event0\<lparr>ve_eventId := ''v2'', ve_status := P_FAILED\<rparr>"

definition settled0 :: payment where
  "settled0 = settledAs P_SUCCEEDED 1000 (Some ''gb'') payment0"

theorem settle_terminal_witness:
  "settle (alone rt0) declined0 MOCK paid0 = (Inl (Conflict ''Conflicting terminal provider outcome''), paid0)"
proof -
  have "paid0 = snd (settle (alone rt0) event0 MOCK dbp0)" unfolding paid0_def by code_simp
  then have "books_ok paid0" using settle_keeps [of "alone rt0" dbp0 event0 MOCK] dbp0_books by (simp only: alone_simps)
  moreover have "findIntent MOCK declined0 paid0 = Some settled0" "p_status settled0 \<noteq> P_PENDING"
    "event_matches settled0 declined0" "ve_status declined0 \<noteq> p_status settled0"
    "findEvidence MOCK declined0 paid0 = None" by code_simp+
  ultimately show ?thesis
    using settle_terminal [of "alone rt0" paid0 settled0 declined0 MOCK] findIntent_in by auto
qed

text \<open>
  C35. The retry loop is exactly "the first of three attempts that does not end in a transient database
  error decides, otherwise 503": it ends after at most three transactions and never returns a
  transient error.
\<close>

theorem settleVerified_attempts:
  "settleVerified env ev pr d =
     (case find (\<lambda>k. \<not> transientResult (attemptResult env ev pr d k)) [0, 1, 2] of
        Some k \<Rightarrow> attemptResult env ev pr d k
      | None \<Rightarrow> (Inl (ServiceUnavailable ''Concurrent payment settlement; retry callback''),
                 beforeAttempt env ev pr d 3))"
proof -
  have "settleVerified env ev pr d = settleFrom 0 env ev pr (beforeAttempt env ev pr d 0)"
    by (simp add: settleVerified_def)
  then show ?thesis
    using settleFrom_attempt [of 0 env ev pr d] settleFrom_attempt [of 1 env ev pr d]
      settleFrom_attempt [of 2 env ev pr d]
    by (simp add: numeral_2_eq_2)
qed

text \<open>
  Settlement keeps the books: with other writers that keep them too, after the whole retry loop
  the ledger is still double-entry and paired with the wallets, the balances of each currency sum to
  zero, and every payment still has a legal state and evidence that matches it.
\<close>

theorem settleVerified_books:
  assumes "\<And>k e. books_ok e \<Longrightarrow> books_ok (sa_others (env k) e)" and "books_ok d"
  shows "books_ok (snd (settleVerified env ev pr d)) \<and> balanceOf c (snd (settleVerified env ev pr d)) = 0"
proof -
  have "books_ok (snd (settleVerified env ev pr d))"
    unfolding settleVerified_def using assms by (rule settleFrom_keeps)
  then show ?thesis using books_balance by (simp add: books_ok_def ledger_ok_def)
qed

theorem settleVerified_books_witness:
  "balanceOf USD (snd (settleVerified (\<lambda>_. alone rt0) event0 MOCK dbp0)) = 0"
  using settleVerified_books [of "\<lambda>_. alone rt0" dbp0] dbp0_books by simp

end
