(* ===== verification/IntentClaims.thy ===== *)
theory IntentClaims
  imports PaymentAmounts PaymentClaims
begin

text \<open>
  Payment intents and checkouts: creating an intent is idempotent and moves no money, the external
  checkout is initialised at most once per payment, what the two providers accept, and the payment
  listing.
\<close>

section \<open>The transaction that creates an intent\<close>

lemma create_payment_Inr:
  "create_payment p d = (Inr q, d') \<longleftrightarrow>
     q = p \<and> d' = d\<lparr>payments := payments d @ [p]\<rparr> \<and> setting_on ''app.payment_write'' d \<and>
     p_status p = P_PENDING \<and> bigint_ok (p_amountMinor p) \<and> varchar_ok 120 (p_reference p) \<and>
     0 < p_amountMinor p \<and> hex64 (p_requestHash p) \<and> keyPattern (p_idempotencyKey p) \<and> payment_state_ok p \<and>
     \<not> existsRow (\<lambda>q. p_id q = p_id p \<or> p_reference q = p_reference p \<or>
       (p_userId q = p_userId p \<and> p_idempotencyKey q = p_idempotencyKey p)) (payments d) \<and>
     p_userId p \<in> u_id ` set (users d) \<and> p_walletId p \<in> w_id ` set (wallets d)"
  by (auto simp: create_payment_def op_simps existsRow_key)

definition intent_ready :: "bool \<Rightarrow> uuid \<Rightarrow> string \<Rightarrow> string \<Rightarrow> wallet \<Rightarrow> db \<Rightarrow> bool" where
  "intent_ready paystack u walletId amountMinor w d \<longleftrightarrow>
     findRow (\<lambda>w. w_id w = walletId \<and> w_userId w = u) (wallets d) = Some w \<and> w_status w = ACTIVE \<and>
     (paystack \<longrightarrow> validateIntent amountMinor (w_currency w) = Inr ())"

definition intent_writable :: "payment \<Rightarrow> db \<Rightarrow> bool" where
  "intent_writable p d \<longleftrightarrow>
     bigint_ok (p_amountMinor p) \<and> varchar_ok 120 (p_reference p) \<and> 0 < p_amountMinor p \<and>
     hex64 (p_requestHash p) \<and> keyPattern (p_idempotencyKey p) \<and> p_userId p \<in> u_id ` set (users d) \<and>
     \<not> existsRow (\<lambda>q. p_id q = p_id p \<or> p_reference q = p_reference p \<or>
       (p_userId q = p_userId p \<and> p_idempotencyKey q = p_idempotencyKey p)) (payments d)"

lemma newPayment_simps [simp]:
  "p_id (newPayment rt ps u w key h a) = rt_uuid rt 1" "p_userId (newPayment rt ps u w key h a) = u"
  "p_walletId (newPayment rt ps u w key h a) = w_id w" "p_status (newPayment rt ps u w key h a) = P_PENDING"
  "p_provider (newPayment rt ps u w key h a) = (if ps then PAYSTACK else MOCK)"
  "p_amountMinor (newPayment rt ps u w key h a) = a" "p_currency (newPayment rt ps u w key h a) = w_currency w"
  "p_idempotencyKey (newPayment rt ps u w key h a) = key" "p_requestHash (newPayment rt ps u w key h a) = h"
  "p_ledgerTransactionId (newPayment rt ps u w key h a) = None"
  "payment_state_ok (newPayment rt ps u w key h a)"
  by (simp_all add: newPayment_def payment_state_ok_def)

lemma intentBody_Inr:
  "intentBody rt ps u key h wid am a d = (Inr p, d') \<longleftrightarrow>
     (findPayment u key d = Some p \<and> p_requestHash p = h \<and> d' = d) \<or>
     (findPayment u key d = None \<and> (\<exists>w. intent_ready ps u wid am w d \<and>
        p = newPayment rt ps u w key h a \<and> intent_writable p d \<and>
        d' = d\<lparr>settings := ''app.payment_write'' # settings d, payments := payments d @ [p]\<rparr>))"
proof (cases "findPayment u key d")
  case (Some q)
  then show ?thesis by (auto simp: intentBody_def op_simps replayPayment_def split: if_splits)
next
  case None
  show ?thesis
  proof (cases "findRow (\<lambda>w. w_id w = wid \<and> w_userId w = u) (wallets d)")
    case None
    with \<open>findPayment u key d = None\<close> show ?thesis
      by (simp add: intentBody_def op_simps intent_ready_def)
  next
    case (Some w)
    then have "w_id w \<in> w_id ` set (wallets d)" by (auto dest: findRow_SomeD)
    with Some None show ?thesis
      by (auto simp: intentBody_def op_simps intent_ready_def set_config_def create_payment_Inr
          setting_on_def intent_writable_def split: if_splits sum.splits)
  qed
qed

lemma intent_commits:
  assumes ok: "books_ok d" and w: "intent_ready ps u wid am w d"
  shows "commit_checks d (d\<lparr>settings := s, payments := payments d @ [newPayment rt ps u w key h a]\<rparr>)"
proof -
  have wd: "w \<in> set (wallets d)" "w_userId w = u" using w by (auto simp: intent_ready_def dest: findRow_SomeD)
  have "wallet_pk.unique (wallets d)" using ok by (simp add: books_ok_def ledger_ok_def pairing_ok_def)
  with wd have "wallet_pk.lookup (w_id w) (wallets d) = Some w" by (simp add: wallet_pk.lookup_unique)
  with wd show ?thesis
    by (auto simp: commit_checks_def list_all_iff validate_payment_def existsRow_iff)
qed

lemma intent_books:
  assumes ok: "books_ok d" and rt: "uuid_source rt" and w: "intent_ready ps u wid am w d"
    and p: "p = newPayment rt ps u w key h a" "intent_writable p d"
  shows "books_ok (d\<lparr>settings := s, payments := payments d @ [p]\<rparr>)"
proof -
  let ?e = "d\<lparr>settings := s, payments := payments d @ [p]\<rparr>"
  have wd: "w \<in> set (wallets d)" "w_userId w = u" using w by (auto simp: intent_ready_def dest: findRow_SomeD)
  have "wallet_pk.unique (wallets d)" using ok by (simp add: books_ok_def ledger_ok_def pairing_ok_def)
  with wd have look: "wallet_pk.lookup (w_id w) (wallets d) = Some w" by (simp add: wallet_pk.lookup_unique)
  have "list_all keyChar ''payment-''" "list_all keyChar ''payment:''" by code_simp+
  then have trim: "js_trim (p_reference p) = p_reference p"
    using rt reference_trimmed [of "''payment-''" "rt_uuid rt 0"] reference_trimmed [of "''payment:''" "rt_uuid rt 0"]
    by (simp add: p(1) newPayment_def uuid_source_def)
  have same: "payment_ok ?e q = payment_ok d q" for q by (rule payment_ok_same) simp
  have new: "payment_ok d p"
    using p(2) trim look wd by (simp add: payment_ok_def payment_wallet_ok_def p(1) intent_writable_def)
  have val: "validate_providerEvent d x \<Longrightarrow> validate_providerEvent ?e x" for x
    by (auto simp: validate_providerEvent_def existsRow_iff)
  have dist: "p_id p \<notin> p_id ` set (payments d)" "p_reference p \<notin> p_reference ` set (payments d)"
    using p(2) by (auto simp: intent_writable_def existsRow_iff notin_image)
  have "payments_ok ?e"
    using ok new val dist p(1) unfolding payments_ok_def same
    by (auto simp: books_ok_def payments_ok_def payments_linked_def payment_pk.unique_def)
  moreover have "ledger_ok ?e = ledger_ok d" "identity_ok ?e = identity_ok d"
    by (simp_all add: ledger_ok_def pairing_ok_def double_entry_def identity_ok_def)
  ultimately show ?thesis using ok by (simp add: books_ok_def)
qed

text \<open>Every result of \<open>createIntent\<close>: the stored intent, the new one, or nothing but what others did.\<close>

lemma createIntent_outcomes:
  assumes ok: "books_ok d" and run: "createIntent rt ps abort others u key h wid am a d = (r, d')"
  shows "(\<exists>p. r = Inr p \<and> findPayment u key d = Some p \<and> p_requestHash p = h \<and> d' = d\<lparr>settings := []\<rparr>) \<or>
    (\<exists>w p. r = Inr p \<and> findPayment u key d = None \<and> intent_ready ps u wid am w d \<and>
       p = newPayment rt ps u w key h a \<and> intent_writable p d \<and>
       d' = d\<lparr>settings := [], payments := payments d @ [p]\<rparr>) \<or>
    (\<exists>p. r = Inr p \<and> findPayment u key (others d) = Some p \<and> p_requestHash p = h \<and> d' = others d) \<or>
    (\<exists>e. r = Inl e \<and> (d' = d \<or> d' = others d))"
proof (cases "prisma_transaction abort (intentBody rt ps u key h wid am a) d")
  case (Pair x m)
  show ?thesis
  proof (cases x)
    case (Inl e)
    with Pair have "m = d" by (auto dest: prisma_transaction_Inl)
    then show ?thesis
      using run Inl Pair
      by (auto simp: createIntent_def tryCatch_def op_simps replayPayment_def
          split: if_splits option.splits prod.splits)
  next
    case (Inr p)
    with Pair run have r: "r = Inr p" "d' = m" by (simp_all add: createIntent_def tryCatch_def)
    from Pair Inr obtain m' where "intentBody rt ps u key h wid am a d = (Inr p, m')" "m = m'\<lparr>settings := []\<rparr>"
      by (auto simp: prisma_transaction_Inr)
    with r show ?thesis by (auto simp: intentBody_Inr)
  qed
qed

lemma createIntent_books:
  assumes "books_ok d" "uuid_source rt" "books_ok (others d)"
  shows "books_ok (snd (createIntent rt ps abort others u key h wid am a d))"
proof -
  obtain r d' where run: "createIntent rt ps abort others u key h wid am a d = (r, d')" by fastforce
  have "books_ok d'"
    using createIntent_outcomes [OF assms(1) run] assms(1,3)
  proof (elim disjE exE conjE)
    fix w p assume "intent_ready ps u wid am w d" "p = newPayment rt ps u w key h a" "intent_writable p d"
      and "d' = d\<lparr>settings := [], payments := payments d @ [p]\<rparr>"
    with intent_books [OF assms(1,2)] show ?thesis by simp
  qed simp_all
  with run show ?thesis by simp
qed

section \<open>Checkouts\<close>

lemma checkouts_irrelevant [simp]: "books_ok (d\<lparr>checkouts := cs\<rparr>) = books_ok d"
proof -
  have "payment_ok (d\<lparr>checkouts := cs\<rparr>) q = payment_ok d q" for q by (rule payment_ok_same) simp
  then show ?thesis
    by (simp add: books_ok_def payments_ok_def payments_linked_def validate_providerEvent_def ledger_ok_def
        pairing_ok_def double_entry_def identity_ok_def)
qed

lemma claim_checkout_cases:
  "claim_checkout pid now d =
     (if existsRow (\<lambda>c. pc_paymentId c = pid) (checkouts d) then (Inr 0, d)
      else if existsRow (\<lambda>p. p_id p = pid \<and> p_provider p = PAYSTACK) (payments d)
      then (Inr 1, d\<lparr>checkouts := checkouts d @
        [\<lparr>pc_paymentId = pid, pc_checkoutUrl = None, pc_createdAt = now\<rparr>]\<rparr>)
      else (Inl CheckViolation, d))"
  by (simp add: claim_checkout_def op_simps)

lemma update_checkout_state:
  "update_checkout pid url d = (r, d') \<Longrightarrow> \<exists>cs. d' = d\<lparr>checkouts := cs\<rparr> \<and> map pc_paymentId cs = map pc_paymentId (checkouts d)"
  unfolding update_checkout_def
  by (cases "findRow (\<lambda>c. pc_paymentId c = pid) (checkouts d)")
    (auto simp: op_simps map_updateRows split: if_splits intro: exI [of _ "checkouts d"])

lemma initializePaystack_state:
  "initializePaystack rt env p d = (r, d') \<Longrightarrow> \<exists>cs. d' = d\<lparr>checkouts := cs\<rparr>"
proof -
  have self: "\<exists>cs. e = e\<lparr>checkouts := cs\<rparr>" for e :: db by (rule exI [of _ "checkouts e"]) simp
  assume run: "initializePaystack rt env p d = (r, d')"
  show ?thesis
    using run self unfolding initializePaystack_def
    by (auto simp: andThen_apply [of "claim_checkout _ _"] andThen_apply [of "update_checkout _ _"] op_simps
        claim_checkout_cases dest!: update_checkout_state split: option.splits sum.splits if_splits prod.splits)
qed

text \<open>The two ways a call for a registered Paystack payment goes, once it has a claim and before.\<close>

lemma initialize_claimed:
  assumes "paystackAssertEnabled env = Inr ()" "user_pk.lookup (p_userId p) (users d) = Some user"
    and "findRow (\<lambda>c. pc_paymentId c = p_id p) (checkouts d) = Some c"
  shows "initializePaystack rt env p d =
    (if truthy (pc_checkoutUrl c) then Inr (toPaymentResponse p, pc_checkoutUrl c)
     else Inl (ServiceUnavailable
       ''Checkout initialization is pending or uncertain; reconcile this payment reference''), d)"
proof -
  have "existsRow (\<lambda>c. pc_paymentId c = p_id p) (checkouts d)"
    using findRow_SomeD [OF assms(3)] by (auto simp: existsRow_iff)
  then show ?thesis
    using assms by (simp add: initializePaystack_def op_simps andThen_apply [of "claim_checkout _ _"]
        claim_checkout_cases)
qed

lemma findRow_appended:
  "\<not> existsRow q rs \<Longrightarrow> q r \<Longrightarrow> findRow q (rs @ [r]) = Some r"
  by (induction rs) auto

lemma paystackInitialize_Inr:
  "paystackInitialize env ref am cur email = Inr url \<Longrightarrow> checkoutUrlPattern url \<and> length url \<le> 512"
  unfolding paystackInitialize_def
  by (auto simp: ebind_eq_Inr split: option.splits if_splits)

lemma pattern_no_nul:
  assumes "checkoutUrlPattern url"
  shows "no_nul url"
proof -
  let ?n = "length ''https://checkout.paystack.com/''"
  have "take ?n url = ''https://checkout.paystack.com/''" "\<forall>c \<in> set (drop ?n url). isAlnum c \<or> c \<in> {CHR ''_'', CHR ''-''}"
    using assms by (simp_all add: checkoutUrlPattern_def Let_def list_all_iff)
  moreover have "set url = set (take ?n url) \<union> set (drop ?n url)" by (metis append_take_drop_id set_append)
  moreover have "\<not> (isAlnum CHR 0x00 \<or> CHR 0x00 \<in> {CHR ''_'', CHR ''-''})" by (simp add: isAlnum_def isUpper_def isLower_def isDigit_def)
  moreover have "CHR 0x00 \<notin> set ''https://checkout.paystack.com/''" by simp
  ultimately show ?thesis unfolding no_nul_def by (metis Un_iff)
qed

lemma pattern_truthy: "checkoutUrlPattern url \<Longrightarrow> truthy (Some url)"
  by (auto simp: checkoutUrlPattern_def truthy_def Let_def)

definition checkoutRow :: "runtime \<Rightarrow> payment \<Rightarrow> string option \<Rightarrow> payment_checkout" where
  "checkoutRow rt p url = \<lparr>pc_paymentId = p_id p, pc_checkoutUrl = url, pc_createdAt = rt_now rt\<rparr>"

lemma initialize_unclaimed:
  assumes en: "paystackAssertEnabled env = Inr ()" and u: "user_pk.lookup (p_userId p) (users d) = Some user"
    and no: "\<not> existsRow (\<lambda>c. pc_paymentId c = p_id p) (checkouts d)"
    and pay: "existsRow (\<lambda>q. p_id q = p_id p \<and> p_provider q = PAYSTACK) (payments d)"
  shows "initializePaystack rt env p d =
    (case paystackInitialize env (p_reference p) (js_showInt (p_amountMinor p)) (p_currency p) (u_email user) of
       Inl e \<Rightarrow> (Inl e, d\<lparr>checkouts := checkouts d @ [checkoutRow rt p None]\<rparr>)
     | Inr url \<Rightarrow> (Inr (toPaymentResponse p, Some url), d\<lparr>checkouts := checkouts d @ [checkoutRow rt p (Some url)]\<rparr>))"
proof -
  let ?d = "d\<lparr>checkouts := checkouts d @ [checkoutRow rt p None]\<rparr>"
  have "findRow (\<lambda>c. pc_paymentId c = p_id p) (checkouts ?d) = Some (checkoutRow rt p None)"
    using no by (simp add: findRow_appended checkoutRow_def)
  moreover have "updateRows (\<lambda>c. pc_paymentId c = p_id p) f (checkouts d) = checkouts d" for f
    using no by (intro updateRows_none) (auto simp: existsRow_iff)
  ultimately have up: "update_checkout (p_id p) url ?d = (Inr (), d\<lparr>checkouts := checkouts d @ [checkoutRow rt p (Some url)]\<rparr>)"
    if "checkoutUrlPattern url" "length url \<le> 512" for url
    using that pattern_no_nul by (simp add: update_checkout_def op_simps varchar_ok_def varchar_fits_def) (simp add: checkoutRow_def)
  show ?thesis
    using en u no pay up paystackInitialize_Inr
    by (auto simp: initializePaystack_def op_simps andThen_apply [of "claim_checkout _ _"] claim_checkout_cases
        andThen_apply [of "update_checkout _ _"] checkoutRow_def split: sum.split)
qed

lemma paymentsCreate_state:
  assumes "paymentsCreate rt env abort others u hdr input d = (r, d')"
  shows "d' = d \<or> (\<exists>key h wid a q m cs.
    createIntent rt (usePaystack env) abort others u key h wid (cp_amountMinor input) a d = (q, m) \<and>
    d' = m\<lparr>checkouts := cs\<rparr>)"
proof -
  have self: "\<exists>cs. e = e\<lparr>checkouts := cs\<rparr>" for e :: db by (rule exI [of _ "checkouts e"]) simp
  show ?thesis
  proof (cases "\<exists>key a. paymentKey hdr = Inr key \<and> paymentAmount (cp_amountMinor input) = Inr a \<and>
      (if usePaystack env then paystackAssertEnabled env else mockAssertEnabled env) = Inr ()")
    case False
    then have "d' = d"
      using assms by (auto simp: paymentsCreate_def op_simps split: sum.splits)
    then show ?thesis ..
  next
    case True
    then obtain key a where k: "paymentKey hdr = Inr key" "paymentAmount (cp_amountMinor input) = Inr a"
      "(if usePaystack env then paystackAssertEnabled env else mockAssertEnabled env) = Inr ()" by blast
    let ?wid = "js_toLowerCase (cp_walletId input)"
    let ?h = "rt_sha256 rt (paymentDigestInput ?wid (cp_amountMinor input))"
    obtain q m where c: "createIntent rt (usePaystack env) abort others u key ?h ?wid (cp_amountMinor input) a d = (q, m)"
      by fastforce
    have "\<exists>cs. d' = m\<lparr>checkouts := cs\<rparr>"
      using assms self initializePaystack_state k
      by (cases q) (auto simp: paymentsCreate_def Let_def op_simps andThen_apply [of "createIntent _ _ _ _ _ _ _ _ _ _"] c
          simp del: split_paired_All split: if_splits sum.splits)
    with c show ?thesis by blast
  qed
qed

section \<open>Properties\<close>

definition paid_env :: provider_env where
  "paid_env = \<lparr>pv_provider = Some ''paystack'', pv_nodeEnv = None, pv_mockSecret = None,
     pv_paystackKey = Some ''sk_test_a'', pv_hmac256 = (\<lambda>_ _. []), pv_hmac512 = (\<lambda>_ _. []),
     pv_parseBody = (\<lambda>_. None), pv_zodUuid = (\<lambda>_. True), pv_encodeURIComponent = (\<lambda>s. s),
     pv_fetch = (\<lambda>_ _. None)\<rparr>"

definition mock_env :: provider_env where
  "mock_env = paid_env\<lparr>pv_provider := Some ''mock'', pv_mockSecret := Some (replicate 32 CHR ''s''),
     pv_hmac256 := (\<lambda>_ _. replicate 64 CHR ''c''),
     pv_parseBody := (\<lambda>_. Some (JObj [(''eventId'', JStr ''v1''),
       (''reference'', JStr (''payment:'' @ replicate 36 CHR ''a'')), (''amountMinor'', JStr ''500''),
       (''currency'', JStr ''USD''), (''status'', JStr ''SUCCEEDED'')]))\<rparr>"

text \<open>
  Creating a payment never moves money: whatever the request, the provider and the result, no
  wallet, account or posting changes, and the books stay in order.
\<close>

theorem paymentsCreate_no_money:
  assumes "books_ok d" "uuid_source rt"
  shows "wallets (snd (paymentsCreate rt env abort (\<lambda>e. e) u hdr input d)) = wallets d \<and>
    accounts (snd (paymentsCreate rt env abort (\<lambda>e. e) u hdr input d)) = accounts d \<and>
    postings (snd (paymentsCreate rt env abort (\<lambda>e. e) u hdr input d)) = postings d \<and>
    books_ok (snd (paymentsCreate rt env abort (\<lambda>e. e) u hdr input d))"
proof -
  obtain r d' where run: "paymentsCreate rt env abort (\<lambda>e. e) u hdr input d = (r, d')" by fastforce
  from paymentsCreate_state [OF run] show ?thesis
  proof (elim disjE exE conjE)
    fix key h wid a q m cs
    assume c: "createIntent rt (usePaystack env) abort (\<lambda>e. e) u key h wid (cp_amountMinor input) a d = (q, m)"
      and d': "d' = m\<lparr>checkouts := cs\<rparr>"
    have "wallets m = wallets d \<and> accounts m = accounts d \<and> postings m = postings d"
      using createIntent_outcomes [OF assms(1) c] by auto
    moreover have "books_ok m"
      using createIntent_books [of d rt "\<lambda>e. e" "usePaystack env" abort u key h wid "cp_amountMinor input" a] assms c
      by simp
    ultimately show ?thesis using run d' by simp
  qed (use run assms in simp)
qed

definition pay_input0 :: create_payment_input where
  "pay_input0 = \<lparr>cp_walletId = ''W1'', cp_amountMinor = ''250''\<rparr>"

theorem paymentsCreate_no_money_witness:
  "wallets (snd (paymentsCreate rt0 mock_env None (\<lambda>e. e) ''u1'' (Some ''k-9'') pay_input0 dbp0)) = wallets db0 \<and>
   length (payments (snd (paymentsCreate rt0 mock_env None (\<lambda>e. e) ''u1'' (Some ''k-9'') pay_input0 dbp0))) = 2"
proof -
  have "length (payments (snd (paymentsCreate rt0 mock_env None (\<lambda>e. e) ''u1'' (Some ''k-9'') pay_input0 dbp0))) = 2"
    by code_simp
  then show ?thesis
    using paymentsCreate_no_money [OF dbp0_books uuid_source_rt0, of mock_env None "''u1''" "Some ''k-9''" pay_input0]
    by (simp add: dbp0_def)
qed

text \<open>
  One intent per key: after a call that returned a payment, the same key with the same request
  returns that payment again and creates nothing; with another request it is a conflict.
\<close>

theorem createIntent_once:
  assumes ok: "books_ok d" and run: "createIntent rt ps abort others u key h wid am a d = (Inr p, d')"
  shows "createIntent rt' ps' None others' u key h wid' am' a' d' = (Inr p, d'\<lparr>settings := []\<rparr>) \<and>
    (h' \<noteq> h \<longrightarrow> createIntent rt' ps' None others' u key h' wid' am' a' d' =
       (Inl (Conflict ''Idempotency-Key was used with a different payment request''), d'))"
proof -
  have "findPayment u key d' = Some p \<and> p_requestHash p = h"
    using createIntent_outcomes [OF ok run]
  proof (elim disjE exE conjE)
    fix w q assume q: "Inr p = Inr q" "findPayment u key d = None" "q = newPayment rt ps u w key h a"
      "d' = d\<lparr>settings := [], payments := payments d @ [q]\<rparr>"
    then show ?thesis by (simp add: findPayment_def findRow_append)
  qed (auto simp: findPayment_def)
  then show ?thesis
    by (simp add: createIntent_def tryCatch_def prisma_transaction_def intentBody_def op_simps
        replayPayment_def commit_nothing isUniqueViolation_def)
qed

theorem createIntent_once_witness:
  "createIntent rt0 False None (\<lambda>e. e) ''u1'' ''k-1'' (replicate 64 CHR ''a'') ''w1'' ''500'' 500 (dbp0\<lparr>settings := []\<rparr>) =
     (Inr payment0, dbp0\<lparr>settings := []\<rparr>)"
proof -
  have "createIntent rt0 False None (\<lambda>e. e) ''u1'' ''k-1'' (replicate 64 CHR ''a'') ''w1'' ''500'' 500 dbp0 =
      (Inr payment0, dbp0\<lparr>settings := []\<rparr>)" by code_simp
  from createIntent_once [OF dbp0_books this, of rt0 False "\<lambda>e. e" "''w1''" "''500''" 500] show ?thesis by simp
qed

text \<open>
  The external checkout is initialised at most once: after one call for a registered Paystack
  payment, successful or not, the claim is stored, and every later call leaves the database alone
  and answers the same whatever the provider would do, with the first URL if there was one.
\<close>

theorem checkout_once:
  assumes en: "paystackAssertEnabled env = Inr ()" and u: "user_pk.lookup (p_userId p) (users d) = Some user"
    and pay: "existsRow (\<lambda>q. p_id q = p_id p \<and> p_provider q = PAYSTACK) (payments d)"
    and run: "initializePaystack rt env p d = (r, d')"
  shows "existsRow (\<lambda>c. pc_paymentId c = p_id p) (checkouts d') \<and>
    initializePaystack rt' (env\<lparr>pv_fetch := f\<rparr>) p d' = initializePaystack rt' env p d' \<and>
    snd (initializePaystack rt' env p d') = d' \<and>
    (case r of Inr answer \<Rightarrow> fst (initializePaystack rt' env p d') = Inr answer | Inl _ \<Rightarrow> True)"
proof -
  obtain c where c: "findRow (\<lambda>c. pc_paymentId c = p_id p) (checkouts d') = Some c" and us: "users d' = users d"
    and ans: "case r of Inr answer \<Rightarrow> truthy (pc_checkoutUrl c) \<and> answer = (toPaymentResponse p, pc_checkoutUrl c)
      | Inl _ \<Rightarrow> True"
  proof (cases "findRow (\<lambda>c. pc_paymentId c = p_id p) (checkouts d)")
    case (Some c)
    with initialize_claimed [OF en u Some, of rt] run that [of c] show ?thesis by (auto split: if_splits)
  next
    case None
    then have no: "\<not> existsRow (\<lambda>c. pc_paymentId c = p_id p) (checkouts d)"
      by (simp add: findRow_None existsRow_iff)
    have app: "findRow (\<lambda>c. pc_paymentId c = p_id p) (checkouts d @ [checkoutRow rt p x]) = Some (checkoutRow rt p x)" for x
      using no by (simp add: findRow_appended checkoutRow_def)
    show ?thesis
    proof (cases "paystackInitialize env (p_reference p) (js_showInt (p_amountMinor p)) (p_currency p) (u_email user)")
      case (Inl e)
      then show ?thesis
        using initialize_unclaimed [OF en u no pay, of rt] run app [of None] that [of "checkoutRow rt p None"] by auto
    next
      case (Inr url)
      then have "truthy (Some url)" using paystackInitialize_Inr pattern_truthy by blast
      with Inr show ?thesis
        using initialize_unclaimed [OF en u no pay, of rt] run app [of "Some url"]
          that [of "checkoutRow rt p (Some url)"] by (auto simp: checkoutRow_def)
    qed
  qed
  have u': "user_pk.lookup (p_userId p) (users d') = Some user" using u us by simp
  have "paystackAssertEnabled (env\<lparr>pv_fetch := f\<rparr>) = paystackAssertEnabled env"
    by (simp add: paystackAssertEnabled_def cong: option.case_cong if_cong)
  with en have en': "paystackAssertEnabled (env\<lparr>pv_fetch := f\<rparr>) = Inr ()" by simp
  have "existsRow (\<lambda>c. pc_paymentId c = p_id p) (checkouts d')"
    using findRow_SomeD [OF c] by (auto simp: existsRow_iff)
  then show ?thesis
    using initialize_claimed [OF en u' c, of rt'] initialize_claimed [OF en' u' c, of rt'] ans
    by (cases r) auto
qed

definition payment1 :: payment where
  "payment1 = payment0\<lparr>p_id := ''y2'', p_provider := PAYSTACK, p_reference := ''payment-'' @ replicate 36 CHR ''b'',
     p_currency := NGN\<rparr>"

definition dbp1 :: db where
  "dbp1 = db0\<lparr>payments := [payment1]\<rparr>"

theorem checkout_once_witness:
  "snd (initializePaystack rt0 paid_env payment1 dbp1) \<noteq> dbp1 \<and>
   snd (initializePaystack rt0 paid_env payment1 (snd (initializePaystack rt0 paid_env payment1 dbp1))) =
     snd (initializePaystack rt0 paid_env payment1 dbp1)"
proof -
  have h: "paystackAssertEnabled paid_env = Inr ()"
    "user_pk.lookup (p_userId payment1) (users dbp1) = Some user1"
    "existsRow (\<lambda>q. p_id q = p_id payment1 \<and> p_provider q = PAYSTACK) (payments dbp1)" by code_simp+
  have "length (checkouts (snd (initializePaystack rt0 paid_env payment1 dbp1))) \<noteq> length (checkouts dbp1)"
    by code_simp
  moreover obtain r d' where run: "initializePaystack rt0 paid_env payment1 dbp1 = (r, d')" by fastforce
  ultimately show ?thesis
    using checkout_once [OF h run, of rt0] by auto
qed

text \<open>
  Amounts are canonical: the text of an amount that a payment request, a mock event or a Paystack
  verification brings in is the decimal numeral of a positive 64-bit number and is printed back
  unchanged, so the comparison of texts in \<open>settle\<close> compares the numbers.
\<close>

theorem accepted_amounts:
  "(\<forall>s v. paymentAmount s = Inr v \<longrightarrow> 0 < v \<and> v \<le> MAX_MINOR_UNITS \<and> js_showInt v = s) \<and>
   (\<forall>rt env raw ts sig e. mockVerify rt env raw ts sig = Inr e \<longrightarrow> amount_text (ve_amountMinor e)) \<and>
   (\<forall>rt env ref e. paystackReconcile rt env ref = Inr (Some e) \<longrightarrow> amount_text (ve_amountMinor e))"
proof (intro conjI allI impI)
  fix s v assume "paymentAmount s = Inr v"
  then have v: "positiveDecimal 18 s" "js_BigInt s = Some v" "v \<le> MAX_MINOR_UNITS" by (simp_all add: paymentAmount_Inr)
  with positiveDecimal_canonical [OF v(1)] show "0 < v" "v \<le> MAX_MINOR_UNITS" "js_showInt v = s" by auto
next
  fix rt env raw ts sig e assume "mockVerify rt env raw ts sig = Inr e"
  then show "amount_text (ve_amountMinor e)" by (auto simp: mockVerify_Inr dest: parseMockEvent_Some)
next
  fix rt env ref e assume "paystackReconcile rt env ref = Inr (Some e)"
  from paystackReconcile_Some [OF this] obtain data body where
    "parseTransaction body = Some data" "ve_amountMinor e = js_showInt (pt_amount data)"
    by (auto simp: paystackEvidence_def Let_def)
  then show "amount_text (ve_amountMinor e)" using parseTransaction_Some showInt_amount by metis
qed

theorem accepted_amounts_witness:
  "js_showInt 250 = ''250'' \<and> (250::int) \<le> MAX_MINOR_UNITS"
proof -
  have "paymentAmount ''250'' = Inr 250" by code_simp
  with accepted_amounts [THEN conjunct1, rule_format, of "''250''" 250] show ?thesis by simp
qed

text \<open>
  A mock signature binds its message: two accepted deliveries with the same signature, whenever
  and with whatever claimed timestamps, have the same timestamp and body and produce the same event,
  unless HMAC-SHA256 collides on the two signed texts.
\<close>

theorem mock_signature_binds:
  assumes a: "mockVerify rt env b1 (Some t1) (Some s) = Inr e1"
    and b: "mockVerify rt' env b2 (Some t2) (Some s) = Inr e2"
    and hmac: "pv_hmac256 env (the (pv_mockSecret env)) (t1 @ ''.'' @ b1) =
        pv_hmac256 env (the (pv_mockSecret env)) (t2 @ ''.'' @ b2) \<Longrightarrow> t1 @ ''.'' @ b1 = t2 @ ''.'' @ b2"
    and sha: "rt_sha256 rt = rt_sha256 rt'"
  shows "t1 = t2 \<and> b1 = b2 \<and> e1 = e2"
proof -
  note A = a [unfolded mockVerify_Inr] and B = b [unfolded mockVerify_Inr]
  from A obtain m1 where "timestampOf (Some t1) = Some m1" by auto
  moreover from B obtain m2 where "timestampOf (Some t2) = Some m2" by auto
  ultimately have len: "length t1 = length t2" using timestamp_length by metis
  from A B have "t1 @ ''.'' @ b1 = t2 @ ''.'' @ b2" by (intro hmac) auto
  with len have "t1 = t2" "b1 = b2" by simp_all
  with A B sha show ?thesis by auto
qed

theorem mock_signature_binds_witness:
  "mockVerify rt0 mock_env ''x'' (Some ''0000000001'') (Some (''v1='' @ replicate 64 CHR ''c'')) =
   mockVerify (rt0\<lparr>rt_now := 9000\<rparr>) mock_env ''x'' (Some ''0000000001'') (Some (''v1='' @ replicate 64 CHR ''c''))"
proof -
  have "\<exists>e. mockVerify rt0 mock_env ''x'' (Some ''0000000001'') (Some (''v1='' @ replicate 64 CHR ''c'')) = Inr e"
    "\<exists>e. mockVerify (rt0\<lparr>rt_now := 9000\<rparr>) mock_env ''x'' (Some ''0000000001'') (Some (''v1='' @ replicate 64 CHR ''c'')) = Inr e"
    by (rule exI, code_simp)+
  then obtain e1 e2 where
    "mockVerify rt0 mock_env ''x'' (Some ''0000000001'') (Some (''v1='' @ replicate 64 CHR ''c'')) = Inr e1"
    "mockVerify (rt0\<lparr>rt_now := 9000\<rparr>) mock_env ''x'' (Some ''0000000001'') (Some (''v1='' @ replicate 64 CHR ''c'')) = Inr e2"
    by blast
  with mock_signature_binds [OF this] show ?thesis by simp
qed

text \<open>
  Reconciliation is deterministic: two verifications of one reference that report the same
  provider transaction id and amount under the same kind of key produce the identical event, identity
  and payload hash included, whatever else the responses contained; a webhook and a
  reconciliation that race therefore settle the same event.
\<close>

theorem reconcile_deterministic:
  assumes a: "paystackReconcile rt env ref = Inr (Some e1)" and b: "paystackReconcile rt' env' ref = Inr (Some e2)"
    and same: "ve_eventId e1 = ve_eventId e2" "ve_amountMinor e1 = ve_amountMinor e2"
      "startsWith ''sk_test_'' (the (pv_paystackKey env)) = startsWith ''sk_test_'' (the (pv_paystackKey env'))"
      "rt_sha256 rt = rt_sha256 rt'"
  shows "e1 = e2 \<and> ve_status e1 = P_SUCCEEDED \<and> ve_currency e1 = NGN \<and> ve_reference e1 = ref"
proof -
  from paystackReconcile_Some [OF a] obtain d1 where d1: "pt_reference d1 = ref"
    "e1 = paystackEvidence (rt_sha256 rt) (paystackDomain (the (pv_paystackKey env))) d1" by blast
  from paystackReconcile_Some [OF b] obtain d2 where d2: "pt_reference d2 = ref"
    "e2 = paystackEvidence (rt_sha256 rt') (paystackDomain (the (pv_paystackKey env'))) d2" by blast
  have "js_showInt (pt_id d1) = js_showInt (pt_id d2)" "js_showInt (pt_amount d1) = js_showInt (pt_amount d2)"
    using same d1 d2 by (simp_all add: paystackEvidence_def Let_def)
  moreover from this have "pt_id d1 = pt_id d2" "pt_amount d1 = pt_amount d2" by (simp_all add: js_showInt_inject)
  ultimately show ?thesis
    using d1 d2 same by (simp add: paystackEvidence_def Let_def paystackDomain_def)
qed

definition ref0 :: string where
  "ref0 = ''payment-'' @ replicate 36 CHR ''b''"

definition verified0 :: json where
  "verified0 = JObj [(''id'', JInt 7), (''reference'', JStr ref0), (''amount'', JInt 500),
     (''currency'', JStr ''NGN''), (''domain'', JStr ''test''), (''status'', JStr ''success'')]"

definition good_env :: "string \<Rightarrow> provider_env" where
  "good_env extra = paid_env\<lparr>
     pv_parseBody := (\<lambda>_. Some (JObj [(''status'', JBool True), (''message'', JStr extra), (''data'', verified0)])),
     pv_fetch := (\<lambda>_ _. Some \<lparr>hr_ok = True, hr_body = Some [''x'']\<rparr>)\<rparr>"

theorem reconcile_deterministic_witness:
  "paystackReconcile rt0 (good_env ''a'') ref0 = paystackReconcile rt0 (good_env ''b'') ref0"
proof -
  let ?t = "\<lparr>pt_id = 7, pt_reference = ref0, pt_amount = 500, pt_domain = ''test'', pt_status = ''success''\<rparr>"
  have "parseTransaction verified0 = Some ?t" "referencePattern ''payment-'' ref0"
    "paystackDomain ''sk_test_a'' = ''test''" by code_simp+
  moreover have "paystackAssertEnabled (good_env x) = paystackAssertEnabled paid_env" for x
    by (simp add: paystackAssertEnabled_def good_env_def cong: option.case_cong if_cong)
  moreover have "paystackAssertEnabled paid_env = Inr ()" by code_simp
  ultimately have run: "paystackReconcile rt0 (good_env x) ref0 =
      Inr (Some (paystackEvidence (rt_sha256 rt0) ''test'' ?t))" for x
    by (simp add: paystackReconcile_def paystackRequest_def Let_def)
      (simp add: good_env_def paid_env_def jfield_def Let_def)
  then obtain e1 e2 where
    e: "paystackReconcile rt0 (good_env ''a'') ref0 = Inr (Some e1)" "paystackReconcile rt0 (good_env ''b'') ref0 = Inr (Some e2)"
    "ve_eventId e1 = ve_eventId e2" "ve_amountMinor e1 = ve_amountMinor e2" by simp
  have "pv_paystackKey (good_env ''a'') = pv_paystackKey (good_env ''b'')" by (simp add: good_env_def)
  with reconcile_deterministic [OF e] e(1,2) show ?thesis by simp
qed

text \<open>
  Following the cursors of the payment listing over an unchanged database returns every payment
  of the user and of nobody else, each exactly once, newest first.
\<close>

theorem paymentsList_complete:
  assumes "0 < limit" "books_ok d" "\<forall>p \<in> set (payments d). p_id p \<noteq> [] \<and> pgUuid (p_id p) = p_id p" "length (payments d) < n"
  shows "followPages n (\<lambda>c. case fst (paymentsList u limit c d) of Inl _ \<Rightarrow> None | Inr p \<Rightarrow> Some p) None =
    Some (map toPaymentResponse (rev (sort_key (\<lambda>p. (p_createdAt p, p_id p)) (filter (\<lambda>p. p_userId p = u) (payments d)))))"
proof (rule follow_all)
  let ?rows = "filter (\<lambda>p. p_userId p = u) (payments d)"
  show "0 < limit" by fact
  have "distinct (map p_id (payments d))"
    using assms(2) by (simp add: books_ok_def payments_ok_def payment_pk.unique_def)
  then show "distinct (map (snd \<circ> (\<lambda>p. (p_createdAt p, p_id p))) ?rows)"
    by (simp add: comp_def distinct_map_filter)
  show "length ?rows < n" using assms(4) by (meson le_less_trans length_filter_le)
  fix c assume "c = None \<or> (\<exists>r \<in> set ?rows. c = Some (snd (p_createdAt r, p_id r)))"
  then have "(if truthy c then map_option pgUuid c else None) = c" "truthy c \<longrightarrow> existsRow (\<lambda>p. Some (p_id p) = map_option pgUuid c \<and> p_userId p = u) (payments d)"
    using assms(3) by (auto simp: truthy_def existsRow_iff)
  then show "(case fst (paymentsList u limit c d) of Inl _ \<Rightarrow> None | Inr p \<Rightarrow> Some p) =
      Some (makePage (snd \<circ> (\<lambda>p. (p_createdAt p, p_id p))) toPaymentResponse limit
        (findManyDesc (\<lambda>p. (p_createdAt p, p_id p)) (Suc limit) c ?rows))"
    by (simp add: paymentsList_def op_simps comp_def)
qed

theorem paymentsList_complete_witness:
  "followPages 2 (\<lambda>c. case fst (paymentsList ''u1'' 1 c dbp0) of Inl _ \<Rightarrow> None | Inr p \<Rightarrow> Some p) None =
     Some [toPaymentResponse payment0]"
proof -
  have h: "\<forall>p \<in> set (payments dbp0). p_id p \<noteq> [] \<and> pgUuid (p_id p) = p_id p" "length (payments dbp0) < 2"
    "filter (\<lambda>p. p_userId p = ''u1'') (payments dbp0) = [payment0]" by code_simp+
  show ?thesis using paymentsList_complete [OF _ dbp0_books h(1,2), of 1 "''u1''"] h(3) by simp
qed

end
