(* ===== verification/WebhookDelivery.thy ===== *)
theory WebhookDelivery
  imports Webhooks
begin

text \<open>
  \<open>src/webhooks/webhook-delivery.service.ts\<close> and the batch loop of \<open>webhook-worker.service.ts\<close>: the
  life of a delivery. Each transaction is one step on the database; the HTTP request happens between
  two of them, and \<open>others\<close> is what the rest of the system does meanwhile.

  \<open>clock k\<close> is the k-th reading of the database clock within a transaction; \<open>rt_now\<close> is the clock of
  the process. The rows other transactions hold locked, which \<open>SKIP LOCKED\<close> passes over, are \<open>skip\<close>.
\<close>

section \<open>Dates\<close>

definition padded :: "nat \<Rightarrow> int \<Rightarrow> string" where
  "padded n i = (let s = showNat (nat i) in replicate (n - length s) CHR ''0'' @ s)"

text \<open>\<open>Date.prototype.toISOString\<close> in the proleptic Gregorian calendar.\<close>

definition js_toISOString :: "time \<Rightarrow> string" where
  "js_toISOString t =
     (let z = t div 86400000 + 719468; ms = t mod 86400000;
          era = z div 146097; doe = z mod 146097;
          yoe = (doe - doe div 1460 + doe div 36524 - doe div 146096) div 365;
          doy = doe - (365 * yoe + yoe div 4 - yoe div 100);
          mp = (5 * doy + 2) div 153;
          day = doy - (153 * mp + 2) div 5 + 1;
          month = (if mp < 10 then mp + 3 else mp - 9);
          year = yoe + era * 400 + (if month \<le> 2 then 1 else 0)
      in (if 0 \<le> year \<and> year \<le> 9999 then padded 4 year
          else (if year < 0 then ''-'' else ''+'') @ padded 6 \<bar>year\<bar>) @
         ''-'' @ padded 2 month @ ''-'' @ padded 2 day @ ''T'' @
         padded 2 (ms div 3600000) @ '':'' @ padded 2 (ms div 60000 mod 60) @ '':'' @
         padded 2 (ms div 1000 mod 60) @ ''.'' @ padded 3 (ms mod 1000) @ ''Z'')"

fun eventTypeName :: "OutboxEventType \<Rightarrow> string" where
  "eventTypeName PAYMENT_SUCCEEDED = ''PAYMENT_SUCCEEDED''"
| "eventTypeName PAYMENT_FAILED = ''PAYMENT_FAILED''"
| "eventTypeName TRANSFER_COMPLETED = ''TRANSFER_COMPLETED''"
| "eventTypeName TRANSFER_REVERSED = ''TRANSFER_REVERSED''"

section \<open>Claiming\<close>

record webhook_job =
  job_deliveryId :: uuid
  job_leaseToken :: uuid

definition maxAttempts :: nat where
  "maxAttempts = 5"

definition due :: "time \<Rightarrow> webhook_delivery \<Rightarrow> bool" where
  "due now v \<longleftrightarrow>
     (wd_status v = D_PENDING \<and> wd_availableAt v \<le> now) \<or>
     (wd_status v = D_PROCESSING \<and> (case wd_leaseUntil v of None \<Rightarrow> False | Some t \<Rightarrow> t \<le> now))"

definition dueRows :: "time \<Rightarrow> (uuid \<Rightarrow> bool) \<Rightarrow> db \<Rightarrow> webhook_delivery list" where
  "dueRows now skip d =
     take 10 (sort_key (\<lambda>v. (wd_createdAt v, wd_id v))
       (filter (\<lambda>v. due now v \<and> \<not> skip (wd_id v)) (deliveries d)))"

definition abandon :: "time \<Rightarrow> webhook_attempt \<Rightarrow> webhook_attempt" where
  "abandon now a = a\<lparr>wa_status := A_ABANDONED, wa_errorCode := Some ''LEASE_EXPIRED'', wa_completedAt := Some now\<rparr>"

definition lease :: "uuid \<Rightarrow> time \<Rightarrow> webhook_delivery \<Rightarrow> webhook_delivery" where
  "lease token until v = v\<lparr>wd_status := D_PROCESSING, wd_attemptCount := wd_attemptCount v + 1,
     wd_leaseUntil := Some until, wd_leaseToken := Some token\<rparr>"

definition release :: "WebhookDeliveryStatus \<Rightarrow> webhook_delivery \<Rightarrow> webhook_delivery" where
  "release st v = v\<lparr>wd_status := st, wd_leaseUntil := None, wd_leaseToken := None\<rparr>"

definition newAttempt :: "uuid \<Rightarrow> time \<Rightarrow> webhook_delivery \<Rightarrow> webhook_attempt" where
  "newAttempt i now v = \<lparr>wa_id = i, wa_deliveryId = wd_id v, wa_number = wd_attemptCount v + 1,
     wa_status = A_QUEUED, wa_httpStatus = None, wa_errorCode = None, wa_createdAt = now, wa_completedAt = None\<rparr>"

text \<open>The loop body for the k-th row: \<open>None\<close> is \<open>continue\<close>.\<close>

definition claimRow :: "runtime \<Rightarrow> (nat \<Rightarrow> time) \<Rightarrow> nat \<Rightarrow> webhook_delivery \<Rightarrow> (db, webhook_job option) op" where
  "claimRow rt clock k row =
     andThen (updateMany_attempts (\<lambda>a. wa_deliveryId a = wd_id row \<and> openAttempt a) (abandon (rt_now rt))) (\<lambda>_.
     andThen (query (\<lambda>d. subscription_pk.lookup (wd_subscriptionId row) (subscriptions d))) (\<lambda>found.
     andThen (findUniqueOrThrow found) (\<lambda>subscription.
     if \<not> ws_enabled subscription \<or> maxAttempts \<le> wd_attemptCount row
     then andThen (update_delivery (wd_id row)
       (release (if ws_enabled subscription then D_FAILED else D_CANCELLED))) (\<lambda>_. return None)
     else
       andThen (update_delivery (wd_id row) (lease (rt_uuid rt (2 * k)) (clock (k + 1) + 30000))) (\<lambda>_.
       andThen (create_attempt (newAttempt (rt_uuid rt (2 * k + 1)) (rt_now rt) row)) (\<lambda>_.
       return (Some \<lparr>job_deliveryId = wd_id row, job_leaseToken = rt_uuid rt (2 * k)\<rparr>))))))"

fun claimRows ::
  "runtime \<Rightarrow> (nat \<Rightarrow> time) \<Rightarrow> nat \<Rightarrow> webhook_delivery list \<Rightarrow> (db, webhook_job list) op" where
  "claimRows rt clock k [] = return []"
| "claimRows rt clock k (row # rows) =
     andThen (claimRow rt clock k row) (\<lambda>job.
     andThen (claimRows rt clock (k + 1) rows) (\<lambda>jobs.
     return (case job of None \<Rightarrow> jobs | Some j \<Rightarrow> j # jobs)))"

definition claimBatch ::
  "exn option \<Rightarrow> runtime \<Rightarrow> (nat \<Rightarrow> time) \<Rightarrow> (uuid \<Rightarrow> bool) \<Rightarrow> (db, webhook_job list) op" where
  "claimBatch abort rt clock skip =
     prisma_transaction abort
       (andThen (query (dueRows (clock 0) skip)) (\<lambda>rows. claimRows rt clock 0 rows))"

section \<open>Executing\<close>

text \<open>The row of a job while its lease is alive: the clock is read again after the lock.\<close>

definition leased :: "time \<Rightarrow> webhook_job \<Rightarrow> webhook_delivery \<Rightarrow> bool" where
  "leased now job v \<longleftrightarrow> wd_status v = D_PROCESSING \<and> wd_leaseToken v = Some (job_leaseToken job) \<and>
     (case wd_leaseUntil v of None \<Rightarrow> False | Some t \<Rightarrow> now < t)"

definition locked :: "(nat \<Rightarrow> time) \<Rightarrow> webhook_job \<Rightarrow> (db, webhook_delivery option) op" where
  "locked clock job =
     andThen (query (\<lambda>d. findRow (\<lambda>v. wd_id v = job_deliveryId job \<and> leased (clock 0) job v) (deliveries d))) (\<lambda>row.
     return (case row of None \<Rightarrow> None
       | Some v \<Rightarrow> (case wd_leaseUntil v of None \<Rightarrow> None | Some t \<Rightarrow> if clock 1 < t then Some v else None)))"

definition currentAttempt :: "webhook_delivery \<Rightarrow> WebhookAttemptStatus \<Rightarrow> webhook_attempt \<Rightarrow> bool" where
  "currentAttempt v st a \<longleftrightarrow>
     wa_deliveryId a = wd_id v \<and> wa_number a = wd_attemptCount v \<and> wa_status a = st"

type_synonym started = "webhook_delivery \<times> webhook_subscription \<times> outbox_event"

definition startBody :: "runtime \<Rightarrow> (nat \<Rightarrow> time) \<Rightarrow> webhook_job \<Rightarrow> (db, started option) op" where
  "startBody rt clock job =
     andThen (locked clock job) (\<lambda>row.
     case row of
       None \<Rightarrow> return None
     | Some v \<Rightarrow>
         andThen (query (\<lambda>d. subscription_pk.lookup (wd_subscriptionId v) (subscriptions d))) (\<lambda>found.
         andThen (findUniqueOrThrow found) (\<lambda>subscription.
         if \<not> ws_enabled subscription then
           andThen (update_delivery (wd_id v) (release D_CANCELLED)) (\<lambda>_.
           andThen (updateMany_attempts (currentAttempt v A_QUEUED)
             (\<lambda>a. a\<lparr>wa_status := A_CANCELLED, wa_completedAt := Some (rt_now rt)\<rparr>)) (\<lambda>_.
           return None))
         else
           andThen (updateMany_attempts (currentAttempt v A_QUEUED) (\<lambda>a. a\<lparr>wa_status := A_SENDING\<rparr>)) (\<lambda>changed.
           if changed = 0 then return None
           else
             andThen (query (\<lambda>d. event_pk.lookup (wd_outboxEventId v) (outboxEvents d))) (\<lambda>found.
             andThen (findUniqueOrThrow found) (\<lambda>event.
             return (Some (v, subscription, event))))))))"

definition start :: "exn option \<Rightarrow> runtime \<Rightarrow> (nat \<Rightarrow> time) \<Rightarrow> webhook_job \<Rightarrow> (db, started option) op" where
  "start abort rt clock job = prisma_transaction abort (startBody rt clock job)"

record delivery_outcome =
  do_httpStatus :: "nat option"
  do_errorCode :: "string option"
  do_retry :: bool
  do_success :: bool

text \<open>An undefined property of \<open>data\<close> leaves its column as it is.\<close>

definition orKeep :: "'a option \<Rightarrow> 'a option \<Rightarrow> 'a option" where
  "orKeep new old = (case new of None \<Rightarrow> old | Some x \<Rightarrow> Some x)"

definition completeAttempt ::
  "time \<Rightarrow> bool \<Rightarrow> delivery_outcome \<Rightarrow> webhook_attempt \<Rightarrow> webhook_attempt" where
  "completeAttempt now cancelled out a = a\<lparr>
     wa_status := (if cancelled then A_CANCELLED else if do_success out then A_SUCCEEDED else A_FAILED),
     wa_httpStatus := orKeep (do_httpStatus out) (wa_httpStatus a),
     wa_errorCode := orKeep (do_errorCode out) (wa_errorCode a), wa_completedAt := Some now\<rparr>"

text \<open>\<open>1000 * 2 ** (attemptCount - 1)\<close> milliseconds.\<close>

definition backoff :: "nat \<Rightarrow> int" where
  "backoff n = (if n = 0 then 500 else 1000 * 2 ^ (n - 1))"

definition finishedDelivery ::
  "time \<Rightarrow> bool \<Rightarrow> bool \<Rightarrow> delivery_outcome \<Rightarrow> webhook_delivery \<Rightarrow> webhook_delivery" where
  "finishedDelivery now cancelled retry out v =
     (let r = release (if cancelled then D_CANCELLED else if do_success out then D_DELIVERED
                else if retry then D_PENDING else D_FAILED) v
      in if retry then r\<lparr>wd_availableAt := now + backoff (wd_attemptCount v)\<rparr> else r)"

definition finishBody ::
  "runtime \<Rightarrow> (nat \<Rightarrow> time) \<Rightarrow> webhook_job \<Rightarrow> delivery_outcome \<Rightarrow> WebhookAttemptStatus \<Rightarrow> (db, unit) op" where
  "finishBody rt clock job out expected =
     andThen (locked clock job) (\<lambda>row.
     case row of
       None \<Rightarrow> return ()
     | Some v \<Rightarrow>
         andThen (query (\<lambda>d. subscription_pk.lookup (wd_subscriptionId v) (subscriptions d))) (\<lambda>found.
         andThen (findUniqueOrThrow found) (\<lambda>subscription.
         let cancelled = \<not> ws_enabled subscription;
             retry = (\<not> cancelled \<and> do_retry out \<and> wd_attemptCount v < maxAttempts)
         in andThen (updateMany_attempts (currentAttempt v expected)
              (completeAttempt (rt_now rt) cancelled out)) (\<lambda>changed.
            if changed = 0 then return ()
            else update_delivery (wd_id v) (finishedDelivery (rt_now rt) cancelled retry out)))))"

definition finish ::
  "exn option \<Rightarrow> runtime \<Rightarrow> (nat \<Rightarrow> time) \<Rightarrow> webhook_job \<Rightarrow> delivery_outcome \<Rightarrow> WebhookAttemptStatus \<Rightarrow> (db, unit) op" where
  "finish abort rt clock job out expected = prisma_transaction abort (finishBody rt clock job out expected)"

definition deliveryBody :: "webhook_delivery \<Rightarrow> outbox_event \<Rightarrow> string" where
  "deliveryBody v e = js_stringify (JObj
     [(''id'', JStr (e_id e)), (''deliveryId'', JStr (wd_id v)), (''type'', JStr (eventTypeName (e_type e))),
      (''createdAt'', JStr (js_toISOString (e_createdAt e))), (''data'', e_payload e)])"

definition httpOutcome :: "transport_code + nat \<Rightarrow> delivery_outcome" where
  "httpOutcome r =
     (case r of
        Inr status \<Rightarrow> \<lparr>do_httpStatus = Some status, do_errorCode = None,
          do_retry = (status = 408 \<or> status = 429 \<or> 500 \<le> status), do_success = (200 \<le> status \<and> status < 300)\<rparr>
      | Inl why \<Rightarrow> \<lparr>do_httpStatus = None, do_errorCode = Some (codeName why),
          do_retry = (why \<noteq> UNSAFE_ENDPOINT), do_success = False\<rparr>)"

definition signingUnavailable :: delivery_outcome where
  "signingUnavailable = \<lparr>do_httpStatus = None, do_errorCode = Some ''SIGNING_UNAVAILABLE'',
     do_retry = False, do_success = False\<rparr>"

text \<open>Decrypt, sign and send: the outcome of one attempt.\<close>

definition attemptOutcome :: "runtime \<Rightarrow> crypto \<Rightarrow> network \<Rightarrow> started \<Rightarrow> delivery_outcome" where
  "attemptOutcome rt cr net s =
     (case s of (v, subscription, event) \<Rightarrow>
       (case decryptSecret cr (ws_encryptedSecret subscription) of
          Inl _ \<Rightarrow> signingUnavailable
        | Inr secret \<Rightarrow>
            let body = deliveryBody v event; timestamp = js_showInt (rt_now rt div 1000)
            in httpOutcome (send net (ws_url subscription) body
                 [(''Webhook-Id'', wd_id v), (''Webhook-Event-Id'', e_id event),
                  (''Webhook-Timestamp'', timestamp), (''Webhook-Signature'', sign cr secret timestamp body)])))"

record execution =
  ex_startAbort :: "exn option"
  ex_finishAbort :: "exn option"
  ex_startClock :: "nat \<Rightarrow> time"
  ex_finishClock :: "nat \<Rightarrow> time"
  ex_others :: "db \<Rightarrow> db"

definition execute ::
  "execution \<Rightarrow> runtime \<Rightarrow> crypto \<Rightarrow> network \<Rightarrow> webhook_job \<Rightarrow> (db, unit) op" where
  "execute ex rt cr net job =
     andThen (start (ex_startAbort ex) rt (ex_startClock ex) job) (\<lambda>delivery.
     case delivery of
       None \<Rightarrow> return ()
     | Some s \<Rightarrow>
         andThen (modify (ex_others ex)) (\<lambda>_.
         finish (ex_finishAbort ex) rt (ex_finishClock ex) job (attemptOutcome rt cr net s) A_SENDING))"

definition publicationFailed ::
  "exn option \<Rightarrow> runtime \<Rightarrow> (nat \<Rightarrow> time) \<Rightarrow> webhook_job \<Rightarrow> (db, unit) op" where
  "publicationFailed abort rt clock job =
     finish abort rt clock job
       \<lparr>do_httpStatus = None, do_errorCode = Some ''QUEUE_UNAVAILABLE'', do_retry = True, do_success = False\<rparr> A_QUEUED"

text \<open>\<open>publishBatch\<close> of the worker: \<open>queue job\<close> is whether adding to the queue succeeds; the jobs in
  the queue are executed later.\<close>

definition publishJob :: "(webhook_job \<Rightarrow> bool) \<Rightarrow> runtime \<Rightarrow> (nat \<Rightarrow> time) \<Rightarrow> webhook_job \<Rightarrow> (db, unit) op" where
  "publishJob queue rt clock job = (if queue job then return () else publicationFailed None rt clock job)"

definition publishBatch ::
  "bool \<Rightarrow> (webhook_job \<Rightarrow> bool) \<Rightarrow> exn option \<Rightarrow> runtime \<Rightarrow> (nat \<Rightarrow> time) \<Rightarrow> (uuid \<Rightarrow> bool) \<Rightarrow> (db, webhook_job list) op" where
  "publishBatch ready queue abort rt clock skip =
     (if \<not> ready then return []
      else andThen (claimBatch abort rt clock skip) (\<lambda>jobs.
           andThen (forEach (publishJob queue rt clock) jobs) (\<lambda>_. return (filter queue jobs))))"

lemma iso_samples:
  "js_toISOString 0 = ''1970-01-01T00:00:00.000Z''"
  "js_toISOString 951782400123 = ''2000-02-29T00:00:00.123Z''"
  by code_simp+

end
