(* ===== verification/WebhookInvariant.thy ===== *)
theory WebhookInvariant
  imports WebhookDelivery
begin

text \<open>
  The invariant of the webhook tables and its preservation. The transactions of
  \<open>WebhookDelivery\<close> change one delivery with its attempts at a time, so the invariant is stated per
  delivery (\<open>row_ok\<close>) and the lemma \<open>webhooks_ok_local\<close> carries a local change to the database.
\<close>

section \<open>The invariant\<close>

definition closed :: "webhook_attempt \<Rightarrow> bool" where
  "closed a \<longleftrightarrow> \<not> openAttempt a \<and> wa_completedAt a \<noteq> None"

definition lost :: "webhook_attempt \<Rightarrow> bool" where
  "lost a \<longleftrightarrow> closed a \<and> wa_status a \<noteq> A_SUCCEEDED"

text \<open>A delivery with its attempts, oldest first: they are numbered 1 to \<open>attemptCount\<close>; only the last
  may be open, and is exactly while the delivery is processed; only the last may have succeeded, and
  has exactly when the delivery is delivered.\<close>

definition row_ok :: "webhook_delivery \<Rightarrow> webhook_attempt list \<Rightarrow> bool" where
  "row_ok v as \<longleftrightarrow> delivery_row_ok v \<and> map wa_number as = [1..<wd_attemptCount v + 1] \<and>
     (case wd_status v of
        D_PROCESSING \<Rightarrow> (\<exists>old a. as = old @ [a] \<and> openAttempt a \<and> (\<forall>b \<in> set old. lost b))
      | D_DELIVERED \<Rightarrow> (\<exists>old a. as = old @ [a] \<and> closed a \<and> wa_status a = A_SUCCEEDED \<and> (\<forall>b \<in> set old. lost b))
      | _ \<Rightarrow> (\<forall>b \<in> set as. lost b))"

definition enabledFor :: "db \<Rightarrow> webhook_delivery \<Rightarrow> bool" where
  "enabledFor d v \<longleftrightarrow>
     (case subscription_pk.lookup (wd_subscriptionId v) (subscriptions d) of None \<Rightarrow> False | Some s \<Rightarrow> ws_enabled s)"

definition webhooks_ok :: "db \<Rightarrow> bool" where
  "webhooks_ok d \<longleftrightarrow>
     delivery_pk.unique (deliveries d) \<and> subscription_pk.unique (subscriptions d) \<and>
     distinct (map (\<lambda>v. (wd_subscriptionId v, wd_outboxEventId v)) (deliveries d)) \<and>
     (\<forall>a \<in> set (attempts d). wa_deliveryId a \<in> wd_id ` set (deliveries d)) \<and>
     (\<forall>v \<in> set (deliveries d). wd_subscriptionId v \<in> ws_id ` set (subscriptions d) \<and>
        row_ok v (attemptsOf d (wd_id v)) \<and> (wd_status v = D_PROCESSING \<longrightarrow> enabledFor d v))"

lemma webhooks_okD:
  assumes "webhooks_ok d" "v \<in> set (deliveries d)"
  shows "row_ok v (attemptsOf d (wd_id v))" "wd_status v = D_PROCESSING \<Longrightarrow> enabledFor d v"
    "delivery_pk.lookup (wd_id v) (deliveries d) = Some v"
    "\<exists>s. subscription_pk.lookup (wd_subscriptionId v) (subscriptions d) = Some s"
proof -
  show "row_ok v (attemptsOf d (wd_id v))" "wd_status v = D_PROCESSING \<Longrightarrow> enabledFor d v"
    using assms by (simp_all add: webhooks_ok_def)
  show "delivery_pk.lookup (wd_id v) (deliveries d) = Some v"
    using assms by (simp add: webhooks_ok_def delivery_pk.lookup_unique)
  have "subscription_pk.unique (subscriptions d)" using assms(1) by (simp add: webhooks_ok_def)
  moreover obtain s where "s \<in> set (subscriptions d)" "ws_id s = wd_subscriptionId v"
    using assms by (auto simp: webhooks_ok_def)
  ultimately show "\<exists>s. subscription_pk.lookup (wd_subscriptionId v) (subscriptions d) = Some s"
    by (auto simp: subscription_pk.lookup_unique)
qed

lemma same_row:
  assumes "webhooks_ok d" "w \<in> set (deliveries d)" "v \<in> set (deliveries d)" "wd_id w = wd_id v"
  shows "w = v"
proof -
  have "Some w = Some v"
    using webhooks_okD(3) [OF assms(1,2)] webhooks_okD(3) [OF assms(1,3)] by (simp only: assms(4))
  then show ?thesis by simp
qed

text \<open>A change of one delivery and its attempts.\<close>

lemma webhooks_ok_local:
  assumes ok: "webhooks_ok d" and v: "v \<in> set (deliveries d)"
    and f: "wd_id (f v) = wd_id v" "wd_subscriptionId (f v) = wd_subscriptionId v"
      "wd_outboxEventId (f v) = wd_outboxEventId v"
    and d': "deliveries d' = delivery_pk.put (wd_id v) f (deliveries d)" "subscriptions d' = subscriptions d"
      "\<And>w. w \<noteq> wd_id v \<Longrightarrow> attemptsOf d' w = attemptsOf d w"
    and row: "row_ok (f v) (attemptsOf d' (wd_id v))" "wd_status (f v) = D_PROCESSING \<Longrightarrow> enabledFor d v"
  shows "webhooks_ok d'"
proof -
  have uniq: "delivery_pk.unique (deliveries d)" using ok by (simp add: webhooks_ok_def)
  have only: "w = v" if "w \<in> set (deliveries d)" "wd_id w = wd_id v" for w
    using uniq that v by (simp add: delivery_pk.unique_def) (metis distinct_map_inj)
  have put: "deliveries d' = map (\<lambda>w. if w = v then f v else w) (deliveries d)"
    unfolding d'(1) delivery_pk.put_def updateRows_def using only v by (intro map_cong) auto
  have ids: "map wd_id (deliveries d') = map wd_id (deliveries d)"
    "map (\<lambda>v. (wd_subscriptionId v, wd_outboxEventId v)) (deliveries d') =
     map (\<lambda>v. (wd_subscriptionId v, wd_outboxEventId v)) (deliveries d)"
    using f by (simp_all add: put)
  have "wa_deliveryId a \<in> wd_id ` set (deliveries d')" if a: "a \<in> set (attempts d')" for a
  proof (cases "wa_deliveryId a = wd_id v")
    case True
    with v ids(1) show ?thesis by (metis image_eqI list.set_map)
  next
    case False
    have "a \<in> set (attemptsOf d' (wa_deliveryId a))" using a by (simp add: attemptsOf_def)
    then have "a \<in> set (attemptsOf d (wa_deliveryId a))" by (simp only: d'(3) [OF False])
    then have "wa_deliveryId a \<in> wd_id ` set (deliveries d)" using ok by (auto simp: attemptsOf_def webhooks_ok_def)
    with ids(1) show ?thesis by (metis list.set_map)
  qed
  moreover have "wd_subscriptionId w \<in> ws_id ` set (subscriptions d') \<and> row_ok w (attemptsOf d' (wd_id w)) \<and>
      (wd_status w = D_PROCESSING \<longrightarrow> enabledFor d' w)" if w: "w \<in> set (deliveries d')" for w
  proof (cases "w = f v")
    case True
    with ok v f d'(2) row show ?thesis by (auto simp: webhooks_ok_def enabledFor_def)
  next
    case False
    with w put only have "w \<in> set (deliveries d)" "wd_id w \<noteq> wd_id v" by (auto split: if_splits)
    with ok d'(2,3) show ?thesis by (auto simp: webhooks_ok_def enabledFor_def)
  qed
  ultimately show ?thesis
    using ok ids d'(2) by (simp add: webhooks_ok_def delivery_pk.unique_def)
qed

text \<open>Transactions commit without running a deferred trigger: they write none of the checked tables.\<close>

definition same_ledger :: "db \<Rightarrow> db \<Rightarrow> bool" where
  "same_ledger d d' \<longleftrightarrow>
     d'\<lparr>subscriptions := subscriptions d, deliveries := deliveries d, attempts := attempts d\<rparr> = d"

lemma same_ledger_fields:
  assumes "same_ledger d d'"
  shows "users d' = users d" "wallets d' = wallets d" "accounts d' = accounts d"
    "ledgerTransactions d' = ledgerTransactions d" "postings d' = postings d" "transfers d' = transfers d"
    "reversals d' = reversals d" "idempotencyRecords d' = idempotencyRecords d" "auditLogs d' = auditLogs d"
    "payments d' = payments d" "providerEvents d' = providerEvents d" "outboxEvents d' = outboxEvents d"
    "settings d' = settings d"
proof -
  note eq = assms [unfolded same_ledger_def]
  show "users d' = users d" "wallets d' = wallets d" "accounts d' = accounts d"
    "ledgerTransactions d' = ledgerTransactions d" "postings d' = postings d" "transfers d' = transfers d"
    "reversals d' = reversals d" "idempotencyRecords d' = idempotencyRecords d" "auditLogs d' = auditLogs d"
    "payments d' = payments d" "providerEvents d' = providerEvents d" "outboxEvents d' = outboxEvents d"
    "settings d' = settings d"
    by (subst eq [symmetric], simp)+
qed

lemma same_ledger_commit: "same_ledger d d' \<Longrightarrow> commit_checks d d'"
  by (simp add: commit_checks_def same_ledger_fields existsRow_iff list_all_iff) blast

lemma same_ledger_refl: "same_ledger d d"
  by (simp add: same_ledger_def)

lemma same_ledger_trans: "same_ledger a b \<Longrightarrow> same_ledger b c \<Longrightarrow> same_ledger a c"
  by (cases a; cases b; cases c) (simp add: same_ledger_def)

section \<open>The life of one delivery\<close>

text \<open>What can happen to a delivery and its attempts, and which lease it concerns.\<close>

datatype delivery_event = Claimed uuid | GaveUp | Started uuid | Finished uuid | Cancelled

definition cancelAttempt :: "time \<Rightarrow> webhook_attempt \<Rightarrow> webhook_attempt" where
  "cancelAttempt now a = a\<lparr>wa_status := A_CANCELLED, wa_completedAt := Some now\<rparr>"

definition waiting :: "webhook_delivery \<Rightarrow> bool" where
  "waiting v \<longleftrightarrow> wd_status v = D_PENDING \<or> wd_status v = D_PROCESSING"

inductive row_step ::
  "webhook_delivery \<times> webhook_attempt list \<Rightarrow> delivery_event \<Rightarrow> webhook_delivery \<times> webhook_attempt list \<Rightarrow> bool" where
  claim: "waiting v \<Longrightarrow> wd_attemptCount v < maxAttempts \<Longrightarrow>
    row_step (v, as) (Claimed token)
      (lease token until v, updateRows openAttempt (abandon now) as @ [newAttempt i now v])"
| give_up: "waiting v \<Longrightarrow> st = D_FAILED \<or> st = D_CANCELLED \<Longrightarrow>
    row_step (v, as) GaveUp (release st v, updateRows openAttempt (abandon now) as)"
| start: "wd_status v = D_PROCESSING \<Longrightarrow> wd_leaseToken v = Some token \<Longrightarrow> wa_status a = A_QUEUED \<Longrightarrow>
    row_step (v, old @ [a]) (Started token) (v, old @ [a\<lparr>wa_status := A_SENDING\<rparr>])"
| finish: "wd_status v = D_PROCESSING \<Longrightarrow> wd_leaseToken v = Some token \<Longrightarrow> openAttempt a \<Longrightarrow>
    retry = (do_retry out \<and> wd_attemptCount v < maxAttempts) \<Longrightarrow>
    row_step (v, old @ [a]) (Finished token)
      (finishedDelivery now False retry out v, old @ [completeAttempt now False out a])"
| cancel: "waiting v \<Longrightarrow>
    row_step (v, as) Cancelled (release D_CANCELLED v, updateRows openAttempt (cancelAttempt now) as)"

inductive_cases row_step_Started: "row_step x (Started token) y"
inductive_cases row_stepE: "row_step (v, as) e (v', as')"

lemmas row_fields = lease_def release_def finishedDelivery_def Let_def

lemma row_step_keys:
  "row_step x e y \<Longrightarrow> wd_id (fst y) = wd_id (fst x) \<and> wd_subscriptionId (fst y) = wd_subscriptionId (fst x) \<and>
    wd_outboxEventId (fst y) = wd_outboxEventId (fst x)"
  by (induction rule: row_step.induct) (auto simp: row_fields)

lemma row_step_waiting: "row_step x e y \<Longrightarrow> waiting (fst x)"
  by (induction rule: row_step.induct) (auto simp: waiting_def)

lemma lost_closing: "lost (abandon now b)" "lost (cancelAttempt now b)"
  by (simp_all add: lost_def closed_def openAttempt_def abandon_def cancelAttempt_def)

lemma lost_abandoned: "list_all (\<lambda>b. lost b \<or> openAttempt b) as \<Longrightarrow> list_all lost (updateRows openAttempt (abandon now) as)"
  by (induction as) (auto simp: lost_closing)

lemma lost_cancelled: "list_all (\<lambda>b. lost b \<or> openAttempt b) as \<Longrightarrow> list_all lost (updateRows openAttempt (cancelAttempt now) as)"
  by (induction as) (auto simp: lost_closing)

lemma numbers_kept:
  "map wa_number (updateRows openAttempt (abandon now) as) = map wa_number as"
  "map wa_number (updateRows openAttempt (cancelAttempt now) as) = map wa_number as"
  by (simp_all add: map_updateRows abandon_def cancelAttempt_def)

lemma row_waiting_lost:
  assumes "row_ok v as" "waiting v"
  shows "list_all (\<lambda>b. lost b \<or> openAttempt b) as"
proof (cases "wd_status v = D_PENDING")
  case True
  with assms(1) show ?thesis by (simp add: row_ok_def list_all_iff)
next
  case False
  with assms(2) have "wd_status v = D_PROCESSING" by (simp add: waiting_def)
  with assms(1) show ?thesis by (auto simp: row_ok_def list_all_iff)
qed

lemma row_step_ok: "row_step x e y \<Longrightarrow> row_ok (fst x) (snd x) \<Longrightarrow> row_ok (fst y) (snd y)"
proof (induction rule: row_step.induct)
  case (claim v as token until now i)
  then have "\<forall>b \<in> set (updateRows openAttempt (abandon now) as). lost b"
    using lost_abandoned [OF row_waiting_lost] by (simp add: list_all_iff)
  with claim show ?case
    by (simp add: row_ok_def numbers_kept delivery_row_ok_def lease_def newAttempt_def openAttempt_def maxAttempts_def)
next
  case (give_up v st as now)
  then have "\<forall>b \<in> set (updateRows openAttempt (abandon now) as). lost b"
    using lost_abandoned [OF row_waiting_lost] by (simp add: list_all_iff)
  with give_up show ?case
    by (auto simp: row_ok_def numbers_kept delivery_row_ok_def release_def)
next
  case (start v token a old)
  then show ?case by (auto simp: row_ok_def openAttempt_def)
next
  case (finish v token a retry out old now)
  then show ?case
    by (auto simp: row_ok_def delivery_row_ok_def finishedDelivery_def release_def Let_def completeAttempt_def
        lost_def closed_def openAttempt_def)
next
  case (cancel v as now)
  then have "\<forall>b \<in> set (updateRows openAttempt (cancelAttempt now) as). lost b"
    using lost_cancelled [OF row_waiting_lost] by (simp add: list_all_iff)
  with cancel show ?case
    by (auto simp: row_ok_def numbers_kept delivery_row_ok_def release_def)
qed

section \<open>One row step on the database\<close>

definition lifts :: "db \<Rightarrow> uuid \<Rightarrow> delivery_event \<Rightarrow> db \<Rightarrow> bool" where
  "lifts d vid e d' \<longleftrightarrow> (\<exists>v f. v \<in> set (deliveries d) \<and> wd_id v = vid \<and>
     row_step (v, attemptsOf d vid) e (f v, attemptsOf d' vid) \<and>
     deliveries d' = delivery_pk.put vid f (deliveries d) \<and> subscriptions d' = subscriptions d \<and>
     (\<forall>w. w \<noteq> vid \<longrightarrow> attemptsOf d' w = attemptsOf d w) \<and>
     (wd_status (f v) = D_PROCESSING \<longrightarrow> enabledFor d v) \<and> same_ledger d d')"

lemma liftsE:
  assumes "lifts d vid e d'"
  obtains v f where "v \<in> set (deliveries d)" "wd_id v = vid"
    "row_step (v, attemptsOf d vid) e (f v, attemptsOf d' vid)"
    "deliveries d' = delivery_pk.put vid f (deliveries d)" "subscriptions d' = subscriptions d"
    "\<forall>w. w \<noteq> vid \<longrightarrow> attemptsOf d' w = attemptsOf d w"
    "wd_status (f v) = D_PROCESSING \<longrightarrow> enabledFor d v" "same_ledger d d'"
  using assms unfolding lifts_def by (elim exE conjE) (rule that; assumption)

lemma lifts_ok: "lifts d vid e d' \<Longrightarrow> webhooks_ok d \<Longrightarrow> webhooks_ok d'"
proof -
  assume "lifts d vid e d'" and ok: "webhooks_ok d"
  then obtain v f where l: "v \<in> set (deliveries d)" "wd_id v = vid" "row_step (v, attemptsOf d vid) e (f v, attemptsOf d' vid)"
    "deliveries d' = delivery_pk.put vid f (deliveries d)" "subscriptions d' = subscriptions d"
    "\<forall>w. w \<noteq> vid \<longrightarrow> attemptsOf d' w = attemptsOf d w" "wd_status (f v) = D_PROCESSING \<longrightarrow> enabledFor d v"
    by (auto simp: lifts_def)
  show ?thesis
    using row_step_keys [OF l(3)] row_step_ok [OF l(3)] webhooks_okD(1) [OF ok l(1)] l
    by (intro webhooks_ok_local [OF ok l(1), of f d']) simp_all
qed

lemma attemptsOf_update:
  "(\<And>a. wa_deliveryId (f a) = wa_deliveryId a) \<Longrightarrow>
   filter (\<lambda>a. wa_deliveryId a = w) (updateRows p f as) = updateRows p f (filter (\<lambda>a. wa_deliveryId a = w) as)"
  by (induction as) auto

end
