(* ===== verification/WebhookSteps.thy ===== *)
theory WebhookSteps
  imports WebhookInvariant
begin

text \<open>
  Every transaction of the webhook services is a sequence of steps of single deliveries: claiming,
  starting, finishing and disabling, and what a new event or subscription adds.
\<close>

section \<open>Attempts of one delivery\<close>

lemma attempts_of_one:
  assumes "\<And>a. wa_deliveryId (f a) = wa_deliveryId a"
  shows "filter (\<lambda>a. wa_deliveryId a = w) (updateRows (\<lambda>a. wa_deliveryId a = vid \<and> p a) f as) =
    (if w = vid then updateRows p f (filter (\<lambda>a. wa_deliveryId a = vid) as)
     else filter (\<lambda>a. wa_deliveryId a = w) as)"
  using assms by (induction as) auto

lemma row_last:
  assumes "row_ok v as" "wd_status v = D_PROCESSING"
  shows "\<exists>old a. as = old @ [a] \<and> openAttempt a \<and> wa_number a = wd_attemptCount v \<and>
    (\<forall>b \<in> set old. wa_number b \<noteq> wd_attemptCount v)"
proof -
  from assms obtain old a where as: "as = old @ [a]" "openAttempt a" by (auto simp: row_ok_def)
  from assms(1) as have n: "map wa_number old @ [wa_number a] = [1..<wd_attemptCount v + 1]"
    by (simp add: row_ok_def)
  then have pos: "1 \<le> wd_attemptCount v" by (cases "wd_attemptCount v") auto
  then have "[1..<wd_attemptCount v + 1] = [1..<wd_attemptCount v] @ [wd_attemptCount v]" by simp
  with n have "map wa_number old = [1..<wd_attemptCount v]" "wa_number a = wd_attemptCount v" by simp_all
  moreover from this(1) have "wa_number ` set old = {1..<wd_attemptCount v}" by (metis list.set_map set_upt)
  then have "\<forall>b \<in> set old. wa_number b \<in> {1..<wd_attemptCount v}" by blast
  then have "\<forall>b \<in> set old. wa_number b \<noteq> wd_attemptCount v" by auto
  ultimately show ?thesis using as by blast
qed

lemma current_count:
  "length (filter (currentAttempt v st) as) =
   length (filter (\<lambda>a. wa_number a = wd_attemptCount v \<and> wa_status a = st) (filter (\<lambda>a. wa_deliveryId a = wd_id v) as))"
  unfolding filter_filter by (rule arg_cong [OF filter_cong]) (auto simp: currentAttempt_def)

lemma current_update:
  assumes "\<And>a. wa_deliveryId (f a) = wa_deliveryId a"
  shows "filter (\<lambda>a. wa_deliveryId a = w) (updateRows (currentAttempt v st) f as) =
    (if w = wd_id v then updateRows (\<lambda>a. wa_number a = wd_attemptCount v \<and> wa_status a = st) f
       (filter (\<lambda>a. wa_deliveryId a = wd_id v) as)
     else filter (\<lambda>a. wa_deliveryId a = w) as)"
proof -
  have "currentAttempt v st = (\<lambda>a. wa_deliveryId a = wd_id v \<and> (wa_number a = wd_attemptCount v \<and> wa_status a = st))"
    by (simp add: fun_eq_iff currentAttempt_def)
  then show ?thesis using attempts_of_one [OF assms] by simp
qed

lemma last_only:
  assumes "wa_number a = n" "\<forall>b \<in> set old. wa_number b \<noteq> n"
  shows "updateRows (\<lambda>a. wa_number a = n \<and> wa_status a = st) f (old @ [a]) =
      old @ [if wa_status a = st then f a else a]"
    "length (filter (\<lambda>a. wa_number a = n \<and> wa_status a = st) (old @ [a])) = (if wa_status a = st then 1 else 0)"
proof -
  have "updateRows (\<lambda>a. wa_number a = n \<and> wa_status a = st) f old = old"
    using assms(2) by (intro updateRows_none) auto
  with assms(1) show "updateRows (\<lambda>a. wa_number a = n \<and> wa_status a = st) f (old @ [a]) =
      old @ [if wa_status a = st then f a else a]" by simp
  have "filter (\<lambda>a. wa_number a = n \<and> wa_status a = st) old = []" using assms(2) by (auto simp: filter_empty_conv)
  with assms(1) show "length (filter (\<lambda>a. wa_number a = n \<and> wa_status a = st) (old @ [a])) = (if wa_status a = st then 1 else 0)"
    by simp
qed

section \<open>Single writes\<close>

lemma updateMany_attempts_run [op_simps]:
  "andThen (updateMany_attempts p f) g d = g (length (filter p (attempts d))) (d\<lparr>attempts := updateRows p f (attempts d)\<rparr>)"
  by (simp add: updateMany_attempts_def andThen_def op_apply)

lemma update_delivery_run:
  assumes "delivery_pk.lookup vid (deliveries d) = Some v"
  shows "update_delivery vid f d =
    (if delivery_row_ok (f v) then (Inr (), d\<lparr>deliveries := delivery_pk.put vid f (deliveries d)\<rparr>) else (Inl CheckViolation, d))"
  by (simp add: update_delivery_def assms op_apply andThen_steps)

section \<open>Claiming\<close>

lemma claimRow_exact:
  assumes ok: "webhooks_ok d" and v: "v \<in> set (deliveries d)"
    and s: "subscription_pk.lookup (wd_subscriptionId v) (subscriptions d) = Some s"
    and run: "claimRow rt clock k v d = (Inr r, d')" and go: "ws_enabled s" "wd_attemptCount v < maxAttempts"
  shows "r = Some \<lparr>job_deliveryId = wd_id v, job_leaseToken = rt_uuid rt (2 * k)\<rparr> \<and>
    d' = d\<lparr>deliveries := delivery_pk.put (wd_id v) (lease (rt_uuid rt (2 * k)) (clock (k + 1) + 30000)) (deliveries d),
      attempts := updateRows (\<lambda>a. wa_deliveryId a = wd_id v \<and> openAttempt a) (abandon (rt_now rt)) (attempts d) @
        [newAttempt (rt_uuid rt (2 * k + 1)) (rt_now rt) v]\<rparr>"
  using run go webhooks_okD(3) [OF ok v]
    update_delivery_run [of "wd_id v" "d\<lparr>attempts := updateRows (\<lambda>a. wa_deliveryId a = wd_id v \<and> openAttempt a)
      (abandon (rt_now rt)) (attempts d)\<rparr>" v "lease (rt_uuid rt (2 * k)) (clock (k + 1) + 30000)"]
  by (auto simp: claimRow_def s findUniqueOrThrow_def create_attempt_def op_simps split: if_splits)

lemma claimRow_lifts:
  assumes ok: "webhooks_ok d" and v: "v \<in> set (deliveries d)" "waiting v"
    and run: "claimRow rt clock k v d = (Inr r, d')"
  shows "(lifts d (wd_id v) GaveUp d' \<and> r = None) \<or>
    (lifts d (wd_id v) (Claimed (rt_uuid rt (2 * k))) d' \<and>
     r = Some \<lparr>job_deliveryId = wd_id v, job_leaseToken = rt_uuid rt (2 * k)\<rparr>)"
proof -
  obtain s where s: "subscription_pk.lookup (wd_subscriptionId v) (subscriptions d) = Some s"
    using webhooks_okD(4) [OF ok v(1)] by blast
  note look = webhooks_okD(3) [OF ok v(1)]
  let ?as = "updateRows (\<lambda>a. wa_deliveryId a = wd_id v \<and> openAttempt a) (abandon (rt_now rt)) (attempts d)"
  have attempts: "filter (\<lambda>a. wa_deliveryId a = w) ?as =
      (if w = wd_id v then updateRows openAttempt (abandon (rt_now rt)) (attemptsOf d w) else attemptsOf d w)" for w
    by (simp add: attempts_of_one abandon_def attemptsOf_def)
  show ?thesis
  proof (cases "\<not> ws_enabled s \<or> maxAttempts \<le> wd_attemptCount v")
    case True
    let ?f = "release (if ws_enabled s then D_FAILED else D_CANCELLED)"
    let ?d = "d\<lparr>deliveries := delivery_pk.put (wd_id v) ?f (deliveries d), attempts := ?as\<rparr>"
    have "d' = ?d" "r = None"
      using run True look update_delivery_run [of "wd_id v" "d\<lparr>attempts := ?as\<rparr>" v ?f]
      by (auto simp: claimRow_def s findUniqueOrThrow_def op_simps split: if_splits)
    moreover have "row_step (v, attemptsOf d (wd_id v)) GaveUp (?f v, attemptsOf ?d (wd_id v))"
      using row_step.give_up [OF v(2), of "if ws_enabled s then D_FAILED else D_CANCELLED" "attemptsOf d (wd_id v)" "rt_now rt"]
        attempts [of "wd_id v"] by (auto simp: attemptsOf_def)
    ultimately show ?thesis
      using v(1) attempts by (auto simp: lifts_def same_ledger_def release_def attemptsOf_def intro!: exI [of _ v] exI [of _ ?f])
  next
    case False
    let ?f = "lease (rt_uuid rt (2 * k)) (clock (k + 1) + 30000)"
    let ?a = "newAttempt (rt_uuid rt (2 * k + 1)) (rt_now rt) v"
    let ?d = "d\<lparr>deliveries := delivery_pk.put (wd_id v) ?f (deliveries d), attempts := ?as @ [?a]\<rparr>"
    have "d' = ?d" "r = Some \<lparr>job_deliveryId = wd_id v, job_leaseToken = rt_uuid rt (2 * k)\<rparr>"
      using claimRow_exact [OF ok v(1) s run] False by simp_all
    moreover have "row_step (v, attemptsOf d (wd_id v)) (Claimed (rt_uuid rt (2 * k))) (?f v, attemptsOf ?d (wd_id v))"
      using row_step.claim [OF v(2), of "attemptsOf d (wd_id v)" "rt_uuid rt (2 * k)" "clock (k + 1) + 30000" "rt_now rt"
          "rt_uuid rt (2 * k + 1)"] False attempts [of "wd_id v"] by (simp add: attemptsOf_def newAttempt_def)
    moreover have "enabledFor d v" using s False by (simp add: enabledFor_def)
    ultimately show ?thesis
      using v(1) attempts by (auto simp: lifts_def same_ledger_def attemptsOf_def newAttempt_def intro!: exI [of _ v] exI [of _ ?f])
  qed
qed

section \<open>Progress of every delivery\<close>

text \<open>Each delivery is still there, moved by row steps whose claims draw their leases from \<open>T\<close>.\<close>

definition row_steps ::
  "uuid set \<Rightarrow> webhook_delivery \<times> webhook_attempt list \<Rightarrow> webhook_delivery \<times> webhook_attempt list \<Rightarrow> bool" where
  "row_steps T = (\<lambda>x y. \<exists>e. row_step x e y \<and> (\<forall>t. e = Claimed t \<longrightarrow> t \<in> T))\<^sup>*\<^sup>*"

definition progress :: "uuid set \<Rightarrow> db \<Rightarrow> db \<Rightarrow> bool" where
  "progress T d d' \<longleftrightarrow> (\<forall>v \<in> set (deliveries d). \<exists>v' \<in> set (deliveries d').
     wd_id v' = wd_id v \<and> row_steps T (v, attemptsOf d (wd_id v)) (v', attemptsOf d' (wd_id v)))"

lemma row_steps_refl [simp]: "row_steps T x x"
  by (simp add: row_steps_def)

lemma row_steps_trans: "row_steps T x y \<Longrightarrow> row_steps T y z \<Longrightarrow> row_steps T x z"
  unfolding row_steps_def by (rule rtranclp_trans)

lemma row_steps_one: "row_step x e y \<Longrightarrow> (\<And>t. e = Claimed t \<Longrightarrow> t \<in> T) \<Longrightarrow> row_steps T x y"
  unfolding row_steps_def by (rule r_into_rtranclp) blast

lemma row_steps_mono: "row_steps S x y \<Longrightarrow> S \<subseteq> T \<Longrightarrow> row_steps T x y"
  unfolding row_steps_def by (erule rtranclp_mono [THEN predicate2D, rotated]) blast

lemma progress_refl: "progress T d d"
  unfolding progress_def by auto

lemma progressD:
  assumes "progress T d d'" "v \<in> set (deliveries d)"
  obtains v' where "v' \<in> set (deliveries d')" "wd_id v' = wd_id v"
    "row_steps T (v, attemptsOf d (wd_id v)) (v', attemptsOf d' (wd_id v))"
  using assms unfolding progress_def by blast

lemma progress_trans:
  assumes "progress T a b" "progress T b c"
  shows "progress T a c"
  unfolding progress_def
proof
  fix v assume "v \<in> set (deliveries a)"
  from progressD [OF assms(1) this] obtain v1 where v1: "v1 \<in> set (deliveries b)" "wd_id v1 = wd_id v"
    "row_steps T (v, attemptsOf a (wd_id v)) (v1, attemptsOf b (wd_id v))" .
  from progressD [OF assms(2) v1(1)] obtain v2 where v2: "v2 \<in> set (deliveries c)" "wd_id v2 = wd_id v1"
    "row_steps T (v1, attemptsOf b (wd_id v1)) (v2, attemptsOf c (wd_id v1))" .
  show "\<exists>v' \<in> set (deliveries c). wd_id v' = wd_id v \<and> row_steps T (v, attemptsOf a (wd_id v)) (v', attemptsOf c (wd_id v))"
    using v2 row_steps_trans [OF v1(3)] v1(2) by (intro bexI [OF _ v2(1)]) simp
qed

lemma progress_mono: "progress S a b \<Longrightarrow> S \<subseteq> T \<Longrightarrow> progress T a b"
  unfolding progress_def by (meson row_steps_mono)

lemma in_put:
  "w \<in> set rs \<Longrightarrow> wd_id w \<noteq> vid \<Longrightarrow> w \<in> set (delivery_pk.put vid f rs)"
  "v \<in> set rs \<Longrightarrow> wd_id v = vid \<Longrightarrow> f v \<in> set (delivery_pk.put vid f rs)"
  by (auto simp: delivery_pk.put_def set_updateRows image_iff)

lemma lifts_others: "lifts d vid e d' \<Longrightarrow> w \<in> set (deliveries d) \<Longrightarrow> wd_id w \<noteq> vid \<Longrightarrow> w \<in> set (deliveries d')"
  by (erule liftsE) (simp add: in_put)

lemma lifts_row:
  assumes "lifts d (wd_id v) e d'" "webhooks_ok d" "v \<in> set (deliveries d)"
  shows "\<exists>v' \<in> set (deliveries d'). wd_id v' = wd_id v \<and> row_step (v, attemptsOf d (wd_id v)) e (v', attemptsOf d' (wd_id v))"
proof -
  from assms(1) obtain w f where w: "w \<in> set (deliveries d)" "wd_id w = wd_id v"
    "row_step (w, attemptsOf d (wd_id v)) e (f w, attemptsOf d' (wd_id v))"
    "deliveries d' = delivery_pk.put (wd_id v) f (deliveries d)" by (rule liftsE)
  have "w = v" by (rule same_row [OF assms(2) w(1) assms(3) w(2)])
  show ?thesis
  proof (intro bexI [of _ "f v"] conjI)
    show "wd_id (f v) = wd_id v" "row_step (v, attemptsOf d (wd_id v)) e (f v, attemptsOf d' (wd_id v))"
      using w(3) row_step_keys [OF w(3)] by (simp_all add: \<open>w = v\<close>)
    show "f v \<in> set (deliveries d')" unfolding w(4) by (rule in_put(2) [OF assms(3) refl])
  qed
qed

lemma lifts_progress:
  assumes "lifts d vid e d'" "webhooks_ok d" "\<And>t. e = Claimed t \<Longrightarrow> t \<in> T"
  shows "progress T d d'"
  unfolding progress_def
proof
  fix v assume v: "v \<in> set (deliveries d)"
  show "\<exists>v' \<in> set (deliveries d'). wd_id v' = wd_id v \<and> row_steps T (v, attemptsOf d (wd_id v)) (v', attemptsOf d' (wd_id v))"
  proof (cases "wd_id v = vid")
    case True
    with assms(1) have "lifts d (wd_id v) e d'" by simp
    from lifts_row [OF this assms(2) v] show ?thesis using row_steps_one assms(3) by metis
  next
    case False
    with assms(1) have "attemptsOf d' (wd_id v) = attemptsOf d (wd_id v)" by (elim liftsE) simp
    with lifts_others [OF assms(1) v False] show ?thesis by (metis row_steps_refl)
  qed
qed

lemma claimRows_progress:
  "webhooks_ok d \<Longrightarrow> distinct (map wd_id rows) \<Longrightarrow> \<forall>v \<in> set rows. v \<in> set (deliveries d) \<and> waiting v \<Longrightarrow>
   claimRows rt clock k rows d = (Inr jobs, d') \<Longrightarrow>
   webhooks_ok d' \<and> progress (range (rt_uuid rt)) d d' \<and> same_ledger d d'"
proof (induction rows arbitrary: k d jobs)
  case Nil
  then show ?case by (auto simp: op_simps progress_refl same_ledger_refl)
next
  case (Cons v rows)
  from Cons.prems(4) obtain job m js where m: "claimRow rt clock k v d = (Inr job, m)"
    and rest: "claimRows rt clock (k + 1) rows m = (Inr js, d')"
    by (auto simp: op_simps)
  have v: "v \<in> set (deliveries d)" "waiting v" using Cons.prems(3) by simp_all
  from claimRow_lifts [OF Cons.prems(1) v m] obtain e where e: "lifts d (wd_id v) e m"
    "\<And>t. e = Claimed t \<Longrightarrow> t \<in> range (rt_uuid rt)" by blast
  have "\<forall>w \<in> set rows. w \<in> set (deliveries m) \<and> waiting w"
    using Cons.prems(2,3) lifts_others [OF e(1)] by (auto simp: image_iff)
  with Cons.IH [OF lifts_ok [OF e(1) Cons.prems(1)] _ _ rest] Cons.prems(2)
  have "webhooks_ok d'" "progress (range (rt_uuid rt)) m d'" "same_ledger m d'" by simp_all
  moreover have "progress (range (rt_uuid rt)) d m" by (rule lifts_progress [OF e(1) Cons.prems(1) e(2)])
  moreover have "same_ledger d m" using e(1) by (rule liftsE)
  ultimately show ?case by (metis progress_trans same_ledger_trans)
qed

lemma dueRows_sound:
  assumes "webhooks_ok d"
  shows "distinct (map wd_id (dueRows now skip d))"
    "v \<in> set (dueRows now skip d) \<Longrightarrow> v \<in> set (deliveries d) \<and> waiting v \<and> due now v"
proof -
  let ?key = "\<lambda>v. (wd_createdAt v, wd_id v)"
  have "distinct (map wd_id (filter (\<lambda>v. due now v \<and> \<not> skip (wd_id v)) (deliveries d)))"
    using assms by (simp add: webhooks_ok_def delivery_pk.unique_def distinct_map_filter)
  then have "distinct (map wd_id (sort_key ?key (filter (\<lambda>v. due now v \<and> \<not> skip (wd_id v)) (deliveries d))))"
    by (simp add: distinct_map)
  then show "distinct (map wd_id (dueRows now skip d))"
    by (simp add: dueRows_def take_map [symmetric])
  show "v \<in> set (deliveries d) \<and> waiting v \<and> due now v" if "v \<in> set (dueRows now skip d)"
    using in_set_takeD [OF that [unfolded dueRows_def]] by (auto simp: due_def waiting_def)
qed

text \<open>Clearing the settings at commit touches none of this.\<close>

lemma webhook_settings [simp]:
  "attemptsOf (d\<lparr>settings := x\<rparr>) w = attemptsOf d w" "webhooks_ok (d\<lparr>settings := x\<rparr>) = webhooks_ok d"
  "progress T d (d'\<lparr>settings := x\<rparr>) = progress T d d'" "progress T (d\<lparr>settings := x\<rparr>) d' = progress T d d'"
  by (simp_all add: attemptsOf_def webhooks_ok_def enabledFor_def progress_def)

lemma commit_progress:
  assumes run: "prisma_transaction abort body d = (r, d')" and ok: "webhooks_ok d"
    and body: "\<And>x m. body d = (Inr x, m) \<Longrightarrow> webhooks_ok m \<and> progress T d m"
  shows "webhooks_ok d' \<and> progress T d d'"
proof (cases r)
  case (Inl e)
  with run prisma_transaction_Inl ok show ?thesis by (metis progress_refl)
next
  case (Inr x)
  with run obtain m where "body d = (Inr x, m)" "d' = m\<lparr>settings := []\<rparr>" by (auto simp: prisma_transaction_Inr)
  with body show ?thesis by simp
qed

lemma claimBatch_progress:
  assumes "webhooks_ok d" "claimBatch abort rt clock skip d = (r, d')"
  shows "webhooks_ok d' \<and> progress (range (rt_uuid rt)) d d'"
  using assms(2) unfolding claimBatch_def
proof (rule commit_progress [OF _ assms(1)])
  fix jobs m
  assume "andThen (query (dueRows (clock 0) skip)) (claimRows rt clock 0) d = (Inr jobs, m)"
  then have "claimRows rt clock 0 (dueRows (clock 0) skip d) d = (Inr jobs, m)" by (simp add: andThen_steps)
  from claimRows_progress [OF assms(1) _ _ this] dueRows_sound [OF assms(1)]
  show "webhooks_ok m \<and> progress (range (rt_uuid rt)) d m" by blast
qed

section \<open>Starting and finishing\<close>

lemma locked_cases:
  "\<exists>r. locked clock job d = (Inr r, d) \<and> (case r of None \<Rightarrow> True | Some v \<Rightarrow>
     v \<in> set (deliveries d) \<and> wd_id v = job_deliveryId job \<and> leased (clock 0) job v \<and> leased (clock 1) job v)"
  by (auto simp: locked_def op_simps leased_def split: option.splits dest!: findRow_SomeD)

lemma startBody_cases:
  assumes ok: "webhooks_ok d" and run: "startBody rt clock job d = (Inr r, d')"
  shows "(r = None \<and> d' = d) \<or>
    (\<exists>v s e. r = Some (v, s, e) \<and> v \<in> set (deliveries d) \<and> wd_id v = job_deliveryId job \<and> leased (clock 1) job v \<and>
       subscription_pk.lookup (wd_subscriptionId v) (subscriptions d) = Some s \<and> ws_enabled s \<and>
       event_pk.lookup (wd_outboxEventId v) (outboxEvents d) = Some e \<and>
       lifts d (wd_id v) (Started (job_leaseToken job)) d')"
proof -
  obtain row where row: "locked clock job d = (Inr row, d)" and lock: "case row of None \<Rightarrow> True | Some v \<Rightarrow>
     v \<in> set (deliveries d) \<and> wd_id v = job_deliveryId job \<and> leased (clock 0) job v \<and> leased (clock 1) job v"
    using locked_cases by blast
  show ?thesis
  proof (cases row)
    case None
    with run row show ?thesis by (simp add: startBody_def andThen_InrI op_simps)
  next
    case (Some v)
    with lock have v: "v \<in> set (deliveries d)" "wd_id v = job_deliveryId job" "leased (clock 1) job v" by simp_all
    then have st: "wd_status v = D_PROCESSING" "wd_leaseToken v = Some (job_leaseToken job)" by (simp_all add: leased_def)
    obtain s where s: "subscription_pk.lookup (wd_subscriptionId v) (subscriptions d) = Some s" "ws_enabled s"
      using webhooks_okD(2) [OF ok v(1) st(1)] by (auto simp: enabledFor_def split: option.splits)
    from row_last [OF webhooks_okD(1) [OF ok v(1)] st(1)] obtain old a where
      as: "attemptsOf d (wd_id v) = old @ [a]" "openAttempt a" "wa_number a = wd_attemptCount v"
        "\<forall>b \<in> set old. wa_number b \<noteq> wd_attemptCount v" by blast
    let ?d = "d\<lparr>attempts := updateRows (currentAttempt v A_QUEUED) (\<lambda>a. a\<lparr>wa_status := A_SENDING\<rparr>) (attempts d)\<rparr>"
    have count: "length (filter (currentAttempt v A_QUEUED) (attempts d)) = (if wa_status a = A_QUEUED then 1 else 0)"
      using last_only(2) [OF as(3,4)] as(1) by (simp add: current_count attemptsOf_def)
    show ?thesis
    proof (cases "wa_status a = A_QUEUED")
      case False
      then have "filter (currentAttempt v A_QUEUED) (attempts d) = []" using count by simp
      then have "updateRows (currentAttempt v A_QUEUED) (\<lambda>a. a\<lparr>wa_status := A_SENDING\<rparr>) (attempts d) = attempts d"
        by (intro updateRows_none) (auto simp: filter_empty_conv)
      with run row Some s False count show ?thesis
        by (simp add: startBody_def andThen_InrI op_simps findUniqueOrThrow_def)
    next
      case True
      have "attemptsOf ?d w = (if w = wd_id v then old @ [a\<lparr>wa_status := A_SENDING\<rparr>] else attemptsOf d w)" for w
        using as last_only(1) [OF as(3,4), of A_QUEUED] True by (simp add: attemptsOf_def current_update)
      moreover have "row_step (v, attemptsOf d (wd_id v)) (Started (job_leaseToken job)) (v, old @ [a\<lparr>wa_status := A_SENDING\<rparr>])"
        unfolding as(1) using st True by (rule row_step.start)
      moreover have "delivery_pk.put (wd_id v) (\<lambda>v. v) (deliveries d) = deliveries d"
        by (simp add: delivery_pk.put_def updateRows_def)
      ultimately have "lifts d (wd_id v) (Started (job_leaseToken job)) ?d"
        unfolding lifts_def using v(1) webhooks_okD(2) [OF ok v(1)]
        by (intro exI [of _ v] exI [of _ "\<lambda>v. v"]) (simp add: same_ledger_def)
      with run row Some s True count v show ?thesis
        by (auto simp: startBody_def andThen_InrI op_simps findUniqueOrThrow_def split: option.splits)
    qed
  qed
qed

lemma finishBody_cases:
  assumes ok: "webhooks_ok d" and run: "finishBody rt clock job out expected d = (Inr r, d')"
    and ex: "expected = A_QUEUED \<or> expected = A_SENDING"
  shows "d' = d \<or>
    (\<exists>v. v \<in> set (deliveries d) \<and> wd_id v = job_deliveryId job \<and> leased (clock 1) job v \<and>
       lifts d (wd_id v) (Finished (job_leaseToken job)) d')"
proof -
  obtain row where row: "locked clock job d = (Inr row, d)" and lock: "case row of None \<Rightarrow> True | Some v \<Rightarrow>
     v \<in> set (deliveries d) \<and> wd_id v = job_deliveryId job \<and> leased (clock 0) job v \<and> leased (clock 1) job v"
    using locked_cases by blast
  show ?thesis
  proof (cases row)
    case None
    with run row show ?thesis by (simp add: finishBody_def andThen_InrI op_simps)
  next
    case (Some v)
    with lock have v: "v \<in> set (deliveries d)" "wd_id v = job_deliveryId job" "leased (clock 1) job v" by simp_all
    then have st: "wd_status v = D_PROCESSING" "wd_leaseToken v = Some (job_leaseToken job)" by (simp_all add: leased_def)
    obtain s where s: "subscription_pk.lookup (wd_subscriptionId v) (subscriptions d) = Some s" "ws_enabled s"
      using webhooks_okD(2) [OF ok v(1) st(1)] by (auto simp: enabledFor_def split: option.splits)
    from row_last [OF webhooks_okD(1) [OF ok v(1)] st(1)] obtain old a where
      as: "attemptsOf d (wd_id v) = old @ [a]" "openAttempt a" "wa_number a = wd_attemptCount v"
        "\<forall>b \<in> set old. wa_number b \<noteq> wd_attemptCount v" by blast
    let ?retry = "do_retry out \<and> wd_attemptCount v < maxAttempts"
    let ?f = "finishedDelivery (rt_now rt) False ?retry out"
    let ?g = "completeAttempt (rt_now rt) False out"
    let ?m = "d\<lparr>attempts := updateRows (currentAttempt v expected) ?g (attempts d)\<rparr>"
    let ?d = "d\<lparr>deliveries := delivery_pk.put (wd_id v) ?f (deliveries d),
      attempts := updateRows (currentAttempt v expected) ?g (attempts d)\<rparr>"
    have count: "length (filter (currentAttempt v expected) (attempts d)) = (if wa_status a = expected then 1 else 0)"
      using last_only(2) [OF as(3,4)] as(1) by (simp add: current_count attemptsOf_def)
    show ?thesis
    proof (cases "wa_status a = expected")
      case False
      then have "filter (currentAttempt v expected) (attempts d) = []" using count by simp
      then have "updateRows (currentAttempt v expected) ?g (attempts d) = attempts d"
        by (intro updateRows_none) (auto simp: filter_empty_conv)
      with run row Some s False count show ?thesis
        by (simp add: finishBody_def andThen_InrI op_simps findUniqueOrThrow_def)
    next
      case True
      have att: "attemptsOf ?d w = (if w = wd_id v then old @ [?g a] else attemptsOf d w)" for w
        using as last_only(1) [OF as(3,4), of expected] True
        by (simp add: attemptsOf_def current_update completeAttempt_def)
      moreover have "row_step (v, attemptsOf d (wd_id v)) (Finished (job_leaseToken job)) (?f v, old @ [?g a])"
        unfolding as(1) by (rule row_step.finish [OF st as(2) refl])
      moreover have "wd_status (?f v) \<noteq> D_PROCESSING"
        by (simp add: finishedDelivery_def release_def Let_def)
      ultimately have "lifts d (wd_id v) (Finished (job_leaseToken job)) ?d"
        unfolding lifts_def using v(1)
        by (intro exI [of _ v] exI [of _ ?f]) (simp add: same_ledger_def)
      moreover have "d' = ?d"
        using run row Some s True count update_delivery_run [of "wd_id v" ?m v ?f] webhooks_okD(3) [OF ok v(1)]
        by (auto simp: finishBody_def andThen_InrI op_simps findUniqueOrThrow_def split: if_splits)
      ultimately show ?thesis using v by blast
    qed
  qed
qed

lemma start_progress:
  assumes "webhooks_ok d" "start abort rt clock job d = (r, d')"
  shows "webhooks_ok d' \<and> progress T d d'"
  using assms(2) unfolding start_def
proof (rule commit_progress [OF _ assms(1)])
  fix x m assume "startBody rt clock job d = (Inr x, m)"
  from startBody_cases [OF assms(1) this] show "webhooks_ok m \<and> progress T d m"
    using lifts_ok [OF _ assms(1)] lifts_progress [OF _ assms(1)] progress_refl assms(1) by blast
qed

lemma finish_progress:
  assumes "webhooks_ok d" "finish abort rt clock job out expected d = (r, d')" "expected = A_QUEUED \<or> expected = A_SENDING"
  shows "webhooks_ok d' \<and> progress T d d'"
  using assms(2) unfolding finish_def
proof (rule commit_progress [OF _ assms(1)])
  fix x m assume "finishBody rt clock job out expected d = (Inr x, m)"
  from finishBody_cases [OF assms(1) this assms(3)] show "webhooks_ok m \<and> progress T d m"
    using lifts_ok [OF _ assms(1)] lifts_progress [OF _ assms(1)] progress_refl assms(1) by blast
qed

section \<open>Disabling\<close>

lemma attempts_of_set:
  assumes "\<And>a. wa_deliveryId (f a) = wa_deliveryId a"
  shows "filter (\<lambda>a. wa_deliveryId a = w) (updateRows (\<lambda>a. wa_deliveryId a \<in> S \<and> p a) f as) =
    (if w \<in> S then updateRows p f (filter (\<lambda>a. wa_deliveryId a = w) as) else filter (\<lambda>a. wa_deliveryId a = w) as)"
  using assms by (induction as) auto

definition disabled :: "runtime \<Rightarrow> uuid \<Rightarrow> uuid \<Rightarrow> db \<Rightarrow> db" where
  "disabled rt u sid d = d\<lparr>
     subscriptions := updateRows (\<lambda>s. ws_id s = sid \<and> ws_userId s = u) (\<lambda>s. s\<lparr>ws_enabled := False\<rparr>) (subscriptions d),
     deliveries := updateRows (\<lambda>v. wd_subscriptionId v = sid \<and> (wd_status v = D_PENDING \<or> wd_status v = D_PROCESSING))
       (\<lambda>v. v\<lparr>wd_status := D_CANCELLED, wd_leaseUntil := None, wd_leaseToken := None\<rparr>) (deliveries d),
     attempts := updateRows (\<lambda>a. wa_deliveryId a \<in> wd_id ` {v \<in> set (deliveries d). wd_subscriptionId v = sid} \<and> openAttempt a)
       (\<lambda>a. a\<lparr>wa_status := A_CANCELLED, wa_completedAt := Some (rt_now rt)\<rparr>) (attempts d)\<rparr>"

lemma disableBody_run:
  "disableBody rt u sid d = (Inr (), d') \<Longrightarrow> d' = disabled rt u (pgUuid sid) d \<and> existsRow (\<lambda>s. ws_id s = pgUuid sid \<and> ws_userId s = u) (subscriptions d)"
proof -
  assume run: "disableBody rt u sid d = (Inr (), d')"
  let ?f = "\<lambda>v. v\<lparr>wd_status := D_CANCELLED, wd_leaseUntil := None, wd_leaseToken := None\<rparr>"
  have "map wd_id (filter (\<lambda>v. wd_subscriptionId v = pgUuid sid) (updateRows p ?f rs)) =
      map wd_id (filter (\<lambda>v. wd_subscriptionId v = pgUuid sid) rs)" for p rs
    by (induction rs) auto
  from arg_cong [where f = set, OF this]
  have ids: "wd_id ` {v \<in> set (updateRows p ?f (deliveries d)). wd_subscriptionId v = pgUuid sid} =
      wd_id ` {v \<in> set (deliveries d). wd_subscriptionId v = pgUuid sid}" for p by simp
  from run show ?thesis
    by (auto simp: disableBody_def updateMany_deliveries_def op_simps disabled_def ids existsRow_iff filter_empty_conv
        split: if_splits)
qed

lemma disabled_attempts:
  assumes ok: "webhooks_ok d" and v: "v \<in> set (deliveries d)"
  shows "attemptsOf (disabled rt u sid d) (wd_id v) =
    (if wd_subscriptionId v = sid then updateRows openAttempt (cancelAttempt (rt_now rt)) (attemptsOf d (wd_id v))
     else attemptsOf d (wd_id v))"
proof -
  let ?ids = "wd_id ` {v \<in> set (deliveries d). wd_subscriptionId v = sid}"
  have "wd_id v \<in> ?ids \<longleftrightarrow> wd_subscriptionId v = sid"
  proof
    assume "wd_id v \<in> ?ids"
    then obtain w where "w \<in> set (deliveries d)" "wd_subscriptionId w = sid" "wd_id w = wd_id v" by auto
    then show "wd_subscriptionId v = sid"
      using same_row [OF ok _ v] by blast
  qed (use v in blast)
  moreover have "filter (\<lambda>a. wa_deliveryId a = w) (updateRows (\<lambda>a. wa_deliveryId a \<in> S \<and> openAttempt a) (cancelAttempt t) as) =
      (if w \<in> S then updateRows openAttempt (cancelAttempt t) (filter (\<lambda>a. wa_deliveryId a = w) as)
       else filter (\<lambda>a. wa_deliveryId a = w) as)" for w S t as
    by (rule attempts_of_set) (simp add: cancelAttempt_def)
  moreover have "attempts (disabled rt u sid d) = updateRows (\<lambda>a. wa_deliveryId a \<in> ?ids \<and> openAttempt a) (cancelAttempt (rt_now rt)) (attempts d)"
    by (simp add: disabled_def cancelAttempt_def [abs_def])
  ultimately show ?thesis by (simp add: attemptsOf_def)
qed

definition disabledRow :: "uuid \<Rightarrow> webhook_delivery \<Rightarrow> webhook_delivery" where
  "disabledRow sid v = (if wd_subscriptionId v = sid \<and> waiting v then release D_CANCELLED v else v)"

lemma disabled_deliveries: "deliveries (disabled rt u sid d) = map (disabledRow sid) (deliveries d)"
  by (simp add: disabled_def updateRows_def disabledRow_def waiting_def release_def cong: if_cong)

lemma disabled_row:
  assumes ok: "webhooks_ok d" and v: "v \<in> set (deliveries d)"
  shows "row_steps T (v, attemptsOf d (wd_id v)) (disabledRow sid v, attemptsOf (disabled rt u sid d) (wd_id v))"
    "row_ok (disabledRow sid v) (attemptsOf (disabled rt u sid d) (wd_id v))"
proof -
  have step: "row_steps T (v, attemptsOf d (wd_id v)) (disabledRow sid v, attemptsOf (disabled rt u sid d) (wd_id v)) \<and>
    row_ok (disabledRow sid v) (attemptsOf (disabled rt u sid d) (wd_id v))"
  proof (cases "wd_subscriptionId v = sid \<and> waiting v")
    case True
    then have "row_step (v, attemptsOf d (wd_id v)) Cancelled (disabledRow sid v, attemptsOf (disabled rt u sid d) (wd_id v))"
      using row_step.cancel by (simp add: disabled_attempts [OF ok v] disabledRow_def)
    from row_steps_one [OF this] row_step_ok [OF this] webhooks_okD(1) [OF ok v] show ?thesis by simp
  next
    case False
    have "\<forall>a \<in> set (attemptsOf d (wd_id v)). \<not> openAttempt a" if "\<not> waiting v"
      using webhooks_okD(1) [OF ok v] that
      by (auto simp: row_ok_def waiting_def lost_def closed_def split: WebhookDeliveryStatus.splits)
    then have "updateRows openAttempt (cancelAttempt (rt_now rt)) (attemptsOf d (wd_id v)) = attemptsOf d (wd_id v)" if "\<not> waiting v"
      using that by (intro updateRows_none) blast
    with False have "attemptsOf (disabled rt u sid d) (wd_id v) = attemptsOf d (wd_id v)" "disabledRow sid v = v"
      by (auto simp: disabled_attempts [OF ok v] disabledRow_def)
    with webhooks_okD(1) [OF ok v] show ?thesis by simp
  qed
  then show "row_steps T (v, attemptsOf d (wd_id v)) (disabledRow sid v, attemptsOf (disabled rt u sid d) (wd_id v))"
    "row_ok (disabledRow sid v) (attemptsOf (disabled rt u sid d) (wd_id v))" by simp_all
qed

lemma disabledRow_keys [simp]:
  "wd_id (disabledRow sid v) = wd_id v" "wd_subscriptionId (disabledRow sid v) = wd_subscriptionId v"
  "wd_outboxEventId (disabledRow sid v) = wd_outboxEventId v"
  by (simp_all add: disabledRow_def release_def)

lemma disabled_progress:
  assumes ok: "webhooks_ok d"
  shows "webhooks_ok (disabled rt u sid d)" "progress T d (disabled rt u sid d)"
proof -
  let ?d = "disabled rt u sid d"
  show "progress T d ?d"
    unfolding progress_def
  proof
    fix v assume v: "v \<in> set (deliveries d)"
    show "\<exists>v' \<in> set (deliveries ?d). wd_id v' = wd_id v \<and> row_steps T (v, attemptsOf d (wd_id v)) (v', attemptsOf ?d (wd_id v))"
      by (rule bexI [of _ "disabledRow sid v"]) (use disabled_row [OF ok v] v in \<open>simp_all add: disabled_deliveries\<close>)
  qed
  have subs: "map ws_id (subscriptions ?d) = map ws_id (subscriptions d)"
    by (simp add: disabled_def map_updateRows)
  have look: "subscription_pk.lookup w (subscriptions ?d) = subscription_pk.lookup w (subscriptions d)" if "w \<noteq> sid" for w
  proof -
    have "findRow (\<lambda>s. ws_id s = w) (updateRows (\<lambda>s. ws_id s = sid \<and> ws_userId s = u) (\<lambda>s. s\<lparr>ws_enabled := False\<rparr>) ss) =
        findRow (\<lambda>s. ws_id s = w) ss" for ss using that by (induction ss) auto
    then show ?thesis by (simp add: subscription_pk.lookup_def disabled_def)
  qed
  have rows: "row_ok w (attemptsOf ?d (wd_id w))" "wd_subscriptionId w \<in> ws_id ` set (subscriptions ?d)"
    "wd_status w = D_PROCESSING \<longrightarrow> enabledFor ?d w" if "w \<in> set (deliveries ?d)" for w
  proof -
    from that obtain v where v: "v \<in> set (deliveries d)" "w = disabledRow sid v" by (auto simp: disabled_deliveries)
    show "row_ok w (attemptsOf ?d (wd_id w))" using disabled_row(2) [OF ok v(1)] by (simp add: v(2))
    show "wd_subscriptionId w \<in> ws_id ` set (subscriptions ?d)"
    proof -
      have "ws_id ` set (subscriptions ?d) = ws_id ` set (subscriptions d)"
        using arg_cong [where f = set, OF subs] by simp
      moreover have "wd_subscriptionId v \<in> ws_id ` set (subscriptions d)" using ok v(1) by (simp add: webhooks_ok_def)
      ultimately show ?thesis by (simp add: v(2))
    qed
    show "wd_status w = D_PROCESSING \<longrightarrow> enabledFor ?d w"
    proof
      assume p: "wd_status w = D_PROCESSING"
      with v(2) have "w = v" "wd_subscriptionId v \<noteq> sid"
        by (auto simp: disabledRow_def release_def waiting_def split: if_splits)
      with p look webhooks_okD(2) [OF ok v(1)] show "enabledFor ?d w" by (simp add: enabledFor_def)
    qed
  qed
  have "map wa_deliveryId (attempts ?d) = map wa_deliveryId (attempts d)"
    by (simp add: disabled_def map_updateRows)
  from arg_cong [where f = set, OF this]
  have "wa_deliveryId ` set (attempts ?d) = wa_deliveryId ` set (attempts d)" by simp
  moreover have "wa_deliveryId ` set (attempts d) \<subseteq> wd_id ` set (deliveries d)"
    using ok by (simp add: webhooks_ok_def image_subset_iff)
  ultimately have "\<forall>a \<in> set (attempts ?d). wa_deliveryId a \<in> wd_id ` set (deliveries d)" by blast
  moreover have "map wd_id (deliveries ?d) = map wd_id (deliveries d)"
    "map (\<lambda>v. (wd_subscriptionId v, wd_outboxEventId v)) (deliveries ?d) = map (\<lambda>v. (wd_subscriptionId v, wd_outboxEventId v)) (deliveries d)"
    by (simp_all add: disabled_deliveries)
  moreover from arg_cong [where f = set, OF this(1)] have "wd_id ` set (deliveries ?d) = wd_id ` set (deliveries d)" by simp
  ultimately show "webhooks_ok ?d"
    using ok rows subs unfolding webhooks_ok_def delivery_pk.unique_def subscription_pk.unique_def by simp
qed

lemma webhooksDisable_progress:
  assumes "webhooks_ok d" "webhooksDisable abort rt u sid d = (r, d')"
  shows "webhooks_ok d' \<and> progress T d d'"
  using assms(2) unfolding webhooksDisable_def
proof (rule commit_progress [OF _ assms(1)])
  fix x m assume "disableBody rt u sid d = (Inr x, m)"
  then have "m = disabled rt u (pgUuid sid) d" using disableBody_run by simp
  with disabled_progress [OF assms(1)] show "webhooks_ok m \<and> progress T d m" by simp
qed

section \<open>New subscriptions and events\<close>

lemma new_subscription_progress:
  assumes ok: "webhooks_ok d" and new: "ws_id s \<notin> ws_id ` set (subscriptions d)"
  shows "webhooks_ok (d\<lparr>subscriptions := subscriptions d @ [s]\<rparr>) \<and> progress T d (d\<lparr>subscriptions := subscriptions d @ [s]\<rparr>)"
proof
  have "subscription_pk.lookup (wd_subscriptionId v) (subscriptions d @ [s]) = subscription_pk.lookup (wd_subscriptionId v) (subscriptions d)"
    if "v \<in> set (deliveries d)" for v
    using webhooks_okD(4) [OF ok that] by (auto simp: subscription_pk.lookup_def findRow_append)
  then show "webhooks_ok (d\<lparr>subscriptions := subscriptions d @ [s]\<rparr>)"
    using ok new by (simp add: webhooks_ok_def attemptsOf_def enabledFor_def subscription_pk.unique_def)
  show "progress T d (d\<lparr>subscriptions := subscriptions d @ [s]\<rparr>)"
    by (auto simp: progress_def attemptsOf_def)
qed

lemma create_subscription_cases:
  "create_subscription s d = (r, d') \<Longrightarrow>
    d' = d \<or> (ws_id s \<notin> ws_id ` set (subscriptions d) \<and> d' = d\<lparr>subscriptions := subscriptions d @ [s]\<rparr>)"
  by (auto simp: create_subscription_def op_simps existsRow_iff split: if_splits)

lemma webhooksCreate_progress:
  assumes "webhooks_ok d" "webhooksCreate rt cr net u url d = (r, d')"
  shows "webhooks_ok d' \<and> progress T d d'"
proof -
  have "d' = d \<or> (\<exists>s r. create_subscription s d = (r, d'))"
    using assms(2) unfolding webhooksCreate_def andThen_def op_apply require_def ensure_def
    by (simp split: sum.splits if_splits prod.splits; blast)
  then have "d' = d \<or> (\<exists>s. ws_id s \<notin> ws_id ` set (subscriptions d) \<and> d' = d\<lparr>subscriptions := subscriptions d @ [s]\<rparr>)"
    using create_subscription_cases by blast
  then show ?thesis using assms(1) progress_refl new_subscription_progress by blast
qed

lemma fan_out_rows:
  "\<exists>new. deliveries (fan_out_webhook_event gen now e d) = deliveries d @ new \<and>
    (\<forall>v \<in> set new. wd_status v = D_PENDING \<and> wd_attemptCount v = 0 \<and> wd_leaseToken v = None \<and> wd_leaseUntil v = None \<and>
       wd_id v \<in> range gen \<and> wd_outboxEventId v = e_id e \<and> wd_subscriptionId v \<in> ws_id ` set (subscriptions d) \<and>
       (wd_subscriptionId v, e_id e) \<notin> (\<lambda>v. (wd_subscriptionId v, wd_outboxEventId v)) ` set (deliveries d)) \<and>
    (subscription_pk.unique (subscriptions d) \<and> inj gen \<longrightarrow> distinct (map wd_id new) \<and> distinct (map wd_subscriptionId new))"
proof -
  let ?subs = "filter (\<lambda>s. ws_userId s = e_actorUserId e \<and> ws_enabled s \<and>
      \<not> existsRow (\<lambda>v. wd_subscriptionId v = ws_id s \<and> wd_outboxEventId v = e_id e) (deliveries d)) (subscriptions d)"
  let ?new = "map (\<lambda>(k, s). \<lparr>wd_id = gen k, wd_subscriptionId = ws_id s,
      wd_outboxEventId = e_id e, wd_status = D_PENDING, wd_attemptCount = 0,
      wd_availableAt = now, wd_leaseUntil = None, wd_leaseToken = None,
      wd_createdAt = now\<rparr>) (zip [0..<length ?subs] ?subs)"
  have ids: "map wd_id ?new = map gen [0..<length ?subs]"
    by (rule nth_equalityI) (simp_all add: case_prod_beta)
  have subs: "map wd_subscriptionId ?new = map ws_id ?subs"
    by (rule nth_equalityI) (simp_all add: case_prod_beta)
  have 1: "distinct (map wd_id ?new)" if "inj gen"
    using that by (simp only: ids distinct_map) (simp add: inj_on_def)
  have 2: "distinct (map wd_subscriptionId ?new)" if "subscription_pk.unique (subscriptions d)"
    using that by (simp only: subs) (simp add: subscription_pk.unique_def distinct_map_filter)
  have 3: "\<forall>v \<in> set ?new. wd_status v = D_PENDING \<and> wd_attemptCount v = 0 \<and> wd_leaseToken v = None \<and> wd_leaseUntil v = None \<and>
       wd_id v \<in> range gen \<and> wd_outboxEventId v = e_id e \<and> wd_subscriptionId v \<in> ws_id ` set (subscriptions d) \<and>
       (wd_subscriptionId v, e_id e) \<notin> (\<lambda>v. (wd_subscriptionId v, wd_outboxEventId v)) ` set (deliveries d)"
  proof
    fix v assume "v \<in> set ?new"
    then obtain k s where v: "v = \<lparr>wd_id = gen k, wd_subscriptionId = ws_id s, wd_outboxEventId = e_id e,
        wd_status = D_PENDING, wd_attemptCount = 0, wd_availableAt = now, wd_leaseUntil = None, wd_leaseToken = None,
        wd_createdAt = now\<rparr>" and "(k, s) \<in> set (zip [0..<length ?subs] ?subs)" by auto
    then have "s \<in> set ?subs" by (meson set_zip_rightD)
    with v show "wd_status v = D_PENDING \<and> wd_attemptCount v = 0 \<and> wd_leaseToken v = None \<and> wd_leaseUntil v = None \<and>
       wd_id v \<in> range gen \<and> wd_outboxEventId v = e_id e \<and> wd_subscriptionId v \<in> ws_id ` set (subscriptions d) \<and>
       (wd_subscriptionId v, e_id e) \<notin> (\<lambda>v. (wd_subscriptionId v, wd_outboxEventId v)) ` set (deliveries d)"
      by (auto simp: existsRow_iff)
  qed
  have 4: "deliveries (fan_out_webhook_event gen now e d) = deliveries d @ ?new"
    by (simp add: fan_out_webhook_event_def Let_def)
  show ?thesis
  proof (intro exI conjI impI)
    show "deliveries (fan_out_webhook_event gen now e d) = deliveries d @ ?new" by (rule 4)
  qed (rule 3, (use 1 2 in blast)+)
qed

text \<open>New rows for one event keep the pairs of subscription and event distinct.\<close>

lemma fan_out_pairs:
  fixes new :: "webhook_delivery list"
  defines "pr \<equiv> \<lambda>v :: webhook_delivery. (wd_subscriptionId v, wd_outboxEventId v)"
  assumes old: "distinct (map pr rows)" and dist: "distinct (map wd_subscriptionId new)"
    and new: "\<forall>v \<in> set new. wd_outboxEventId v = i \<and> (wd_subscriptionId v, i) \<notin> pr ` set rows"
  shows "distinct (map pr (rows @ new))"
proof -
  have "distinct (map pr new)" using dist by (simp add: distinct_map inj_on_def pr_def)
  moreover have "pr v \<notin> pr ` set rows" if "v \<in> set new" for v
  proof -
    from bspec [OF new that] have "pr v = (wd_subscriptionId v, i)" by (simp add: pr_def)
    with bspec [OF new that] show ?thesis by (simp only: simp_thms)
  qed
  then have "pr ` set rows \<inter> pr ` set new = {}" by (intro equals0I) (elim IntE imageE, metis imageI)
  ultimately show ?thesis using old by (simp add: Int_commute)
qed

lemma fan_out_progress:
  assumes ok: "webhooks_ok d" and gen: "inj gen" "range gen \<inter> wd_id ` set (deliveries d) = {}"
  shows "webhooks_ok (fan_out_webhook_event gen now e d) \<and> progress T d (fan_out_webhook_event gen now e d)"
proof -
  let ?d = "fan_out_webhook_event gen now e d"
  have uniq: "subscription_pk.unique (subscriptions d)" using ok by (simp add: webhooks_ok_def)
  obtain new where d': "deliveries ?d = deliveries d @ new"
    and new: "\<forall>v \<in> set new. wd_status v = D_PENDING \<and> wd_attemptCount v = 0 \<and> wd_leaseToken v = None \<and> wd_leaseUntil v = None \<and>
       wd_id v \<in> range gen \<and> wd_outboxEventId v = e_id e \<and> wd_subscriptionId v \<in> ws_id ` set (subscriptions d) \<and>
       (wd_subscriptionId v, e_id e) \<notin> (\<lambda>v. (wd_subscriptionId v, wd_outboxEventId v)) ` set (deliveries d)"
    and dist: "subscription_pk.unique (subscriptions d) \<and> inj gen \<longrightarrow>
       distinct (map wd_id new) \<and> distinct (map wd_subscriptionId new)"
    using fan_out_rows [of gen now e d] by (elim exE conjE) (rule that; assumption)
  have dist: "distinct (map wd_id new)" "distinct (map wd_subscriptionId new)" using dist uniq gen(1) by simp_all
  have same: "subscriptions ?d = subscriptions d" "attempts ?d = attempts d"
    by (simp_all add: fan_out_webhook_event_def Let_def)
  then have att: "attemptsOf ?d w = attemptsOf d w" "enabledFor ?d v = enabledFor d v" for w v
    by (simp_all add: attemptsOf_def enabledFor_def)
  have "attemptsOf d (wd_id v) = []" if "v \<in> set new" for v
  proof -
    have "wd_id v \<notin> wd_id ` set (deliveries d)" using new that gen(2) by blast
    moreover have "wa_deliveryId a \<in> wd_id ` set (deliveries d)" if "a \<in> set (attempts d)" for a
      using ok that by (simp add: webhooks_ok_def)
    ultimately have "wa_deliveryId a \<noteq> wd_id v" if "a \<in> set (attempts d)" for a using that by metis
    then show ?thesis by (auto simp: attemptsOf_def filter_empty_conv)
  qed
  then have rows: "row_ok v (attemptsOf ?d (wd_id v)) \<and> wd_subscriptionId v \<in> ws_id ` set (subscriptions d) \<and>
      wd_status v \<noteq> D_PROCESSING" if "v \<in> set new" for v
    using new that by (simp add: att row_ok_def delivery_row_ok_def)
  have ids: "wd_id ` set new \<inter> wd_id ` set (deliveries d) = {}" using new gen(2) by blast
  define pr where "pr = (\<lambda>v :: webhook_delivery. (wd_subscriptionId v, wd_outboxEventId v))"
  have "distinct (map pr (deliveries d))" using ok by (simp add: webhooks_ok_def pr_def)
  then have "distinct (map pr (deliveries ?d))"
    unfolding d' pr_def using dist(2) new by (intro fan_out_pairs [of _ _ "e_id e"]) simp_all
  moreover have "delivery_pk.unique (deliveries ?d)"
    using ok ids dist(1) by (simp add: webhooks_ok_def d' delivery_pk.unique_def Int_commute)
  moreover have "\<forall>v \<in> set (deliveries ?d). wd_subscriptionId v \<in> ws_id ` set (subscriptions ?d) \<and>
      row_ok v (attemptsOf ?d (wd_id v)) \<and> (wd_status v = D_PROCESSING \<longrightarrow> enabledFor ?d v)"
    using ok rows unfolding d' same att webhooks_ok_def set_append ball_Un by simp
  moreover have "\<forall>a \<in> set (attempts ?d). wa_deliveryId a \<in> wd_id ` set (deliveries ?d)"
    using ok by (simp add: webhooks_ok_def same d' image_Un)
  ultimately have "webhooks_ok ?d"
    using ok by (simp add: webhooks_ok_def same pr_def)
  moreover have "progress T d ?d" by (auto simp: progress_def d' att)
  ultimately show ?thesis ..
qed

section \<open>Runs\<close>

text \<open>One transaction of the webhook services, or of the services that add an event. A random UUID is a
  new one.\<close>

inductive webhook_step :: "runtime \<Rightarrow> db \<Rightarrow> db \<Rightarrow> bool" for rt where
  claim: "claimBatch abort rt clock skip d = (r, d') \<Longrightarrow> webhook_step rt d d'"
| start: "start abort rt clock job d = (r, d') \<Longrightarrow> webhook_step rt d d'"
| finish: "finish abort rt clock job out expected d = (r, d') \<Longrightarrow> expected = A_QUEUED \<or> expected = A_SENDING \<Longrightarrow>
    webhook_step rt d d'"
| disable: "webhooksDisable abort rt u sid d = (r, d') \<Longrightarrow> webhook_step rt d d'"
| create: "webhooksCreate rt cr net u url d = (r, d') \<Longrightarrow> webhook_step rt d d'"
| event: "inj gen \<Longrightarrow> range gen \<inter> wd_id ` set (deliveries d) = {} \<Longrightarrow>
    webhook_step rt d (fan_out_webhook_event gen now e d)"

text \<open>Any number of steps whose UUIDs are in \<open>T\<close>.\<close>

definition webhook_run :: "uuid set \<Rightarrow> db \<Rightarrow> db \<Rightarrow> bool" where
  "webhook_run T = (\<lambda>d d'. \<exists>rt. range (rt_uuid rt) \<subseteq> T \<and> webhook_step rt d d')\<^sup>*\<^sup>*"

lemma webhook_step_progress:
  "webhook_step rt d d' \<Longrightarrow> webhooks_ok d \<Longrightarrow> webhooks_ok d' \<and> progress (range (rt_uuid rt)) d d'"
  by (induction rule: webhook_step.induct)
    (rule claimBatch_progress start_progress finish_progress webhooksDisable_progress
      webhooksCreate_progress fan_out_progress; assumption)+

lemma webhook_run_progress:
  assumes "webhook_run T d d'" "webhooks_ok d"
  shows "webhooks_ok d' \<and> progress T d d'"
  using assms(1) unfolding webhook_run_def
proof (induction rule: rtranclp_induct)
  case base
  show ?case using assms(2) progress_refl by blast
next
  case (step m d')
  then obtain rt where "range (rt_uuid rt) \<subseteq> T" "webhook_step rt m d'" by blast
  with step.IH webhook_step_progress show ?case by (blast intro: progress_trans progress_mono)
qed

end
