(* ===== verification/Outbox.thy ===== *)
theory Outbox
  imports Webhooks
begin

text \<open>
  \<open>src/async/async-worker.service.ts\<close> (polling the outbox and publishing to the notification queue) and
  \<open>src/async/notification.service.ts\<close> (what a queued job does).

  The queue of BullMQ is an argument: a state of any type with an operation that adds a job under an
  id and may throw. The state of the worker is the database and the queue.
\<close>

section \<open>The outbox table\<close>

definition event_row_ok :: "outbox_event \<Rightarrow> bool" where
  "event_row_ok e \<longleftrightarrow>
     (case e_status e of
        O_PENDING \<Rightarrow> e_lockedAt e = None \<and> e_publishedAt e = None
      | O_PROCESSING \<Rightarrow> e_lockedAt e \<noteq> None \<and> e_publishedAt e = None
      | O_PUBLISHED \<Rightarrow> e_lockedAt e = None \<and> e_publishedAt e \<noteq> None)"

definition update_event :: "uuid \<Rightarrow> (outbox_event \<Rightarrow> outbox_event) \<Rightarrow> (db, unit) op" where
  "update_event eid f =
     andThen (query (\<lambda>d. event_pk.lookup eid (outboxEvents d))) (\<lambda>old.
     case old of
       None \<Rightarrow> raise P2025
     | Some e \<Rightarrow>
         andThen (require (case e_lastError (f e) of None \<Rightarrow> True | Some m \<Rightarrow> varchar_fits 500 m) OutOfRange) (\<lambda>_.
         andThen (require (event_row_ok (f e)) CheckViolation) (\<lambda>_.
         modify (\<lambda>d. d\<lparr>outboxEvents := event_pk.put eid f (outboxEvents d)\<rparr>))))"

section \<open>The worker\<close>

definition dispatchable :: "time \<Rightarrow> outbox_event \<Rightarrow> bool" where
  "dispatchable now e \<longleftrightarrow>
     (e_status e = O_PENDING \<and> e_availableAt e \<le> now) \<or>
     (e_status e = O_PROCESSING \<and> (case e_lockedAt e of None \<Rightarrow> False | Some t \<Rightarrow> t < now - 300000))"

definition candidates :: "time \<Rightarrow> (uuid \<Rightarrow> bool) \<Rightarrow> db \<Rightarrow> outbox_event list" where
  "candidates now skip d =
     take 25 (sort_key e_createdAt (filter (\<lambda>e. dispatchable now e \<and> \<not> skip (e_id e)) (outboxEvents d)))"

definition lockEvent :: "time \<Rightarrow> outbox_event \<Rightarrow> outbox_event" where
  "lockEvent now e = e\<lparr>e_status := O_PROCESSING, e_lockedAt := Some now, e_lastError := None\<rparr>"

text \<open>One statement: the candidates that are not locked elsewhere are locked, and returned as they are now.\<close>

definition claimEvents :: "time \<Rightarrow> (uuid \<Rightarrow> bool) \<Rightarrow> (db, outbox_event list) op" where
  "claimEvents now skip =
     andThen (query (candidates now skip)) (\<lambda>events.
     andThen (require (list_all (\<lambda>e. event_row_ok (lockEvent now e)) events) CheckViolation) (\<lambda>_.
     andThen (modify (\<lambda>d. d\<lparr>outboxEvents := updateRows (\<lambda>e. e_id e \<in> set (map e_id events)) (lockEvent now) (outboxEvents d)\<rparr>)) (\<lambda>_.
     return (map (lockEvent now) events))))"

text \<open>What can be thrown: an \<open>Error\<close> with its name, or anything else.\<close>

datatype thrown = ErrorNamed string | NotAnError

fun errorMessage :: "thrown \<Rightarrow> string" where
  "errorMessage (ErrorNamed name) = name"
| "errorMessage NotAnError = ''Queue publishing error''"

record 'q publish_env =
  pub_add :: "uuid \<Rightarrow> 'q \<Rightarrow> thrown option \<times> 'q"
  pub_now :: time
  pub_databaseError :: "exn option"
  pub_retryError :: "exn option"
  pub_exnName :: "exn \<Rightarrow> string"

definition onDb :: "(db, 'a) op \<Rightarrow> (db \<times> 'q, 'a) op" where
  "onDb m = (\<lambda>(d, q). case m d of (r, d') \<Rightarrow> (r, (d', q)))"

text \<open>\<open>Math.min(2 ** Math.min(event.attempts, 6) * 1_000, 60_000)\<close>\<close>

definition retryDelay :: "nat \<Rightarrow> int" where
  "retryDelay n = min (2 ^ min n 6 * 1000) 60000"

definition publishedEvent :: "time \<Rightarrow> outbox_event \<Rightarrow> outbox_event" where
  "publishedEvent now e = e\<lparr>e_status := O_PUBLISHED, e_lockedAt := None, e_publishedAt := Some now\<rparr>"

definition retriedEvent :: "time \<Rightarrow> int \<Rightarrow> string \<Rightarrow> outbox_event \<Rightarrow> outbox_event" where
  "retriedEvent now delay message e = e\<lparr>e_status := O_PENDING, e_attempts := e_attempts e + 1,
     e_availableAt := now + delay, e_lockedAt := None, e_lastError := Some (take 500 message)\<rparr>"

definition retryLater :: "'q publish_env \<Rightarrow> outbox_event \<Rightarrow> string \<Rightarrow> (db \<times> 'q, unit) op" where
  "retryLater env event message =
     onDb (unlessError (pub_retryError env)
       (update_event (e_id event) (retriedEvent (pub_now env) (retryDelay (e_attempts event)) message)))"

definition publish :: "'q publish_env \<Rightarrow> outbox_event \<Rightarrow> (db \<times> 'q, unit) op" where
  "publish env event = (\<lambda>(d, q).
     case pub_add env (e_id event) q of
       (Some err, q') \<Rightarrow> retryLater env event (errorMessage err) (d, q')
     | (None, q') \<Rightarrow>
         tryCatch
           (onDb (unlessError (pub_databaseError env) (update_event (e_id event) (publishedEvent (pub_now env)))))
           (\<lambda>e. retryLater env event (pub_exnName env e)) (d, q'))"

text \<open>The heartbeat, a key in the Redis of the queue that says when a batch was last completed; writing it may fail.\<close>

definition writeHeartbeat :: "('q \<Rightarrow> exn option \<times> 'q) \<Rightarrow> (db \<times> 'q, unit) op" where
  "writeHeartbeat beat = (\<lambda>(d, q).
     case beat q of
       (None, q') \<Rightarrow> (Inr (), (d, q'))
     | (Some err, q') \<Rightarrow> (Inl err, (d, q')))"

text \<open>A batch; an error ends it and is only logged.\<close>

definition dispatchBatch ::
  "exn option \<Rightarrow> (uuid \<Rightarrow> 'q publish_env) \<Rightarrow> ('q \<Rightarrow> exn option \<times> 'q) \<Rightarrow> time \<Rightarrow> (uuid \<Rightarrow> bool) \<Rightarrow>
   (db \<times> 'q, unit) op" where
  "dispatchBatch claimError env beat now skip =
     tryCatch
       (andThen (onDb (unlessError claimError (claimEvents now skip))) (\<lambda>events.
        andThen (forEach (\<lambda>e. publish (env (e_id e)) e) events) (\<lambda>_.
        writeHeartbeat beat)))
       (\<lambda>_. return ())"

text \<open>\<open>dispatchOnce\<close>: nothing while stopping, or while a dispatch is on its way.\<close>

record worker =
  wk_stopping :: bool
  wk_dispatching :: bool

definition dispatchOnce ::
  "worker \<Rightarrow> exn option \<Rightarrow> (uuid \<Rightarrow> 'q publish_env) \<Rightarrow> ('q \<Rightarrow> exn option \<times> 'q) \<Rightarrow> time \<Rightarrow> (uuid \<Rightarrow> bool) \<Rightarrow>
   (db \<times> 'q, unit) op" where
  "dispatchOnce wk claimError env beat now skip =
     (if wk_stopping wk \<or> wk_dispatching wk then return () else dispatchBatch claimError env beat now skip)"

section \<open>Notifications\<close>

record notification_content =
  nc_type :: NotificationType
  nc_subject :: string
  nc_body :: string

fun notificationContent :: "OutboxEventType \<Rightarrow> uuid \<Rightarrow> notification_content" where
  "notificationContent TRANSFER_COMPLETED i = \<lparr>nc_type = N_TRANSFER_COMPLETED,
     nc_subject = ''Transfer completed'', nc_body = ''Your transfer '' @ i @ '' completed successfully.''\<rparr>"
| "notificationContent TRANSFER_REVERSED i = \<lparr>nc_type = N_TRANSFER_REVERSED,
     nc_subject = ''Transfer reversed'', nc_body = ''Your transfer reversal '' @ i @ '' completed successfully.''\<rparr>"
| "notificationContent PAYMENT_SUCCEEDED i = \<lparr>nc_type = N_PAYMENT_SUCCEEDED,
     nc_subject = ''Payment succeeded'', nc_body = ''Your payment '' @ i @ '' funded your wallet successfully.''\<rparr>"
| "notificationContent PAYMENT_FAILED i = \<lparr>nc_type = N_PAYMENT_FAILED,
     nc_subject = ''Payment failed'', nc_body = ''Your payment '' @ i @ '' failed. Your wallet was not credited.''\<rparr>"

definition create_notification :: "notification \<Rightarrow> (db, notification) op" where
  "create_notification n =
     andThen (require (varchar_fits 160 (n_subject n) \<and> varchar_fits 500 (n_body n)) OutOfRange) (\<lambda>_.
     andThen (query (\<lambda>d. existsRow (\<lambda>m. n_id m = n_id n \<or> n_outboxEventId m = n_outboxEventId n) (notifications d))) (\<lambda>dup.
     andThen (require (\<not> dup) P2002) (\<lambda>_.
     andThen (query (\<lambda>d. existsRow (\<lambda>e. e_id e = n_outboxEventId n) (outboxEvents d) \<and>
       existsRow (\<lambda>u. u_id u = n_userId n) (users d))) (\<lambda>fk.
     andThen (require fk P2003) (\<lambda>_.
     andThen (modify (\<lambda>d. d\<lparr>notifications := notifications d @ [n]\<rparr>)) (\<lambda>_.
     return n))))))"

definition newNotification :: "runtime \<Rightarrow> outbox_event \<Rightarrow> notification" where
  "newNotification rt e =
     (let c = notificationContent (e_type e) (e_aggregateId e)
      in \<lparr>n_id = rt_uuid rt 0, n_outboxEventId = e_id e, n_userId = e_actorUserId e, n_type = nc_type c,
          n_subject = nc_subject c, n_body = nc_body c, n_createdAt = rt_now rt\<rparr>)"

definition persistForEvent :: "runtime \<Rightarrow> uuid \<Rightarrow> (db, notification) op" where
  "persistForEvent rt eventId =
     andThen (query (\<lambda>d. event_pk.lookup eventId (outboxEvents d))) (\<lambda>found.
     andThen (findUniqueOrThrow found) (\<lambda>event.
     andThen (query (\<lambda>d. findRow (\<lambda>n. n_outboxEventId n = e_id event) (notifications d))) (\<lambda>existing.
     case existing of
       Some n \<Rightarrow> return n
     | None \<Rightarrow> create_notification (newNotification rt event))))"

end
