(* ===== verification/System.thy ===== *)
theory System
  imports Api AuthClaims ReversalClaims IntentClaims WebhookSteps Outbox "HOL-Library.Sublist"
begin

text \<open>
  The program as a whole: a run is any sequence of calls of the API and of the two workers on one
  database, with any other calls between the transactions of a call. The books (ledger, identities,
  payments) hold in every reachable state, and what was recorded is never rewritten.
\<close>

section \<open>What a call may do to the books\<close>

text \<open>Identity, owner, currency and ledger account of a wallet: what never changes.\<close>

definition walletIdentity :: "wallet \<Rightarrow> uuid \<times> uuid \<times> Currency \<times> uuid" where
  "walletIdentity w = (w_id w, w_userId w, w_currency w, w_ledgerAccountId w)"

definition history :: "db \<Rightarrow> db \<Rightarrow> bool" where
  "history d d' \<longleftrightarrow> prefix (users d) (users d') \<and>
     prefix (map walletIdentity (wallets d)) (map walletIdentity (wallets d')) \<and>
     prefix (ledgerTransactions d) (ledgerTransactions d') \<and> prefix (postings d) (postings d') \<and>
     prefix (transfers d) (transfers d') \<and> prefix (reversals d) (reversals d') \<and>
     prefix (auditLogs d) (auditLogs d') \<and> prefix (idempotencyRecords d) (idempotencyRecords d') \<and>
     prefix (providerEvents d) (providerEvents d') \<and>
     (\<forall>p \<in> set (payments d). p_status p \<noteq> P_PENDING \<longrightarrow> p \<in> set (payments d'))"

definition keeps :: "db \<Rightarrow> db \<Rightarrow> bool" where
  "keeps d d' \<longleftrightarrow> (books_ok d \<longrightarrow> books_ok d' \<and> history d d')"

text \<open>No wallet loses money; most calls are steady, the others move it.\<close>

definition noDebit :: "db \<Rightarrow> db \<Rightarrow> bool" where
  "noDebit d d' \<longleftrightarrow>
     (\<forall>wid x. balanceAt wid d = Some x \<longrightarrow> (\<exists>y. balanceAt wid d' = Some y \<and> x \<le> y))"

definition steady :: "db \<Rightarrow> db \<Rightarrow> bool" where
  "steady d d' \<longleftrightarrow> (books_ok d \<longrightarrow> books_ok d' \<and> history d d' \<and> noDebit d d')"

text \<open>The tables of the books as they were.\<close>

definition untouched :: "db \<Rightarrow> db \<Rightarrow> bool" where
  "untouched d d' \<longleftrightarrow> users d' = users d \<and> wallets d' = wallets d \<and> accounts d' = accounts d \<and>
     ledgerTransactions d' = ledgerTransactions d \<and> postings d' = postings d \<and>
     transfers d' = transfers d \<and> reversals d' = reversals d \<and> auditLogs d' = auditLogs d \<and>
     idempotencyRecords d' = idempotencyRecords d \<and> payments d' = payments d \<and>
     providerEvents d' = providerEvents d"

lemma history_refl: "history d d"
  by (simp add: history_def)

lemma history_trans: "history a b \<Longrightarrow> history b c \<Longrightarrow> history a c"
  unfolding history_def by (meson prefix_order.trans)

lemma keeps_refl: "keeps d d"
  by (simp add: keeps_def history_refl)

lemma keeps_trans: "keeps a b \<Longrightarrow> keeps b c \<Longrightarrow> keeps a c"
  unfolding keeps_def using history_trans by blast

lemma noDebit_refl: "noDebit d d"
  by (simp add: noDebit_def)

lemma noDebitI: "(\<And>wid. balanceAt wid d' = balanceAt wid d) \<Longrightarrow> noDebit d d'"
  by (simp add: noDebit_def)

lemma noDebit_trans: "noDebit a b \<Longrightarrow> noDebit b c \<Longrightarrow> noDebit a c"
  unfolding noDebit_def by (meson order_trans)

lemma steady_refl: "steady d d"
  by (simp add: steady_def history_refl noDebit_refl)

lemma steady_trans: "steady a b \<Longrightarrow> steady b c \<Longrightarrow> steady a c"
  unfolding steady_def using history_trans noDebit_trans by blast

lemma steady_keeps: "steady d d' \<Longrightarrow> keeps d d'"
  by (simp add: steady_def keeps_def)

lemma untouched_trans: "untouched a b \<Longrightarrow> untouched b c \<Longrightarrow> untouched a c"
  by (simp add: untouched_def)

lemma payments_frame:
  assumes "payments_ok d" "payments d' = payments d" "providerEvents d' = providerEvents d"
    and "set (ledgerTransactions d) \<subseteq> set (ledgerTransactions d')"
    and "\<And>p. payment_ok d p \<Longrightarrow> payment_ok d' p"
  shows "payments_ok d'"
proof -
  have "payments_linked d'" using assms(1,2,4) unfolding payments_ok_def payments_linked_def by (metis subsetD)
  with assms(1,2,3,5) show ?thesis by (simp add: payments_ok_def validate_providerEvent_def)
qed

lemma untouched_steady:
  assumes "untouched d d'"
  shows "steady d d'"
proof -
  note same = assms [unfolded untouched_def]
  have "ledger_ok d' = ledger_ok d" "identity_ok d' = identity_ok d"
    unfolding ledger_ok_def pairing_ok_def double_entry_def identity_ok_def by (simp_all only: same)
  moreover have "payments_ok d \<Longrightarrow> payments_ok d'"
    by (rule payments_frame) (simp_all only: same payment_ok_same [of d' d] order_refl)
  moreover have "history d d'" unfolding history_def by (simp add: same)
  moreover have "noDebit d d'" by (rule noDebitI) (simp add: balanceAt_def same)
  ultimately show ?thesis by (simp add: steady_def books_ok_def)
qed

section \<open>Sequences of such steps\<close>

text \<open>\<open>within P m\<close>: whatever \<open>m\<close> answers, the states before and after are related by \<open>P\<close>.\<close>

definition within :: "(db \<Rightarrow> db \<Rightarrow> bool) \<Rightarrow> (db, 'a) op \<Rightarrow> bool" where
  "within P m \<longleftrightarrow> (\<forall>d. P d (snd (m d)))"

lemma withinD: "within P m \<Longrightarrow> m d = (r, d') \<Longrightarrow> P d d'"
  unfolding within_def by (metis snd_conv)

text \<open>A relation that is reflexive, transitive and does not see the session settings is kept by code whose
  parts keep it.\<close>

locale step_relation =
  fixes P :: "db \<Rightarrow> db \<Rightarrow> bool"
  assumes refl: "P d d"
    and trans: "P a b \<Longrightarrow> P b c \<Longrightarrow> P a c"
    and settings: "P a b \<Longrightarrow> P a (b\<lparr>settings := s\<rparr>)"
begin

lemma within_andThen:
  assumes m: "within P m" and f: "\<And>x. within P (f x)"
  shows "within P (andThen m f)"
  unfolding within_def
proof
  fix d
  obtain r e where run: "m d = (r, e)" by (cases "m d")
  with m have "P d e" by (simp add: withinD)
  moreover have "P e (snd (f x e))" for x using f by (simp add: within_def)
  ultimately show "P d (snd (andThen m f d))" using trans run by (cases r) (auto simp: andThen_def)
qed

lemma within_tryCatch:
  assumes m: "within P m" and h: "\<And>e. within P (h e)"
  shows "within P (tryCatch m h)"
  unfolding within_def
proof
  fix d
  obtain r e where run: "m d = (r, e)" by (cases "m d")
  with m have "P d e" by (simp add: withinD)
  moreover have "P e (snd (h x e))" for x using h by (simp add: within_def)
  ultimately show "P d (snd (tryCatch m h d))" using trans run by (cases r) (auto simp: tryCatch_def)
qed

lemma within_readonly:
  "within P (return x)" "within P (raise e)" "within P (query f)" "within P (require c e)" "within P (lift r)"
  by (simp_all add: within_def op_simps lift_def refl)

lemma within_transaction:
  assumes m: "within P m"
  shows "within P (prisma_transaction abort m)"
  unfolding within_def
proof
  fix d
  obtain r e where run: "m d = (r, e)" by (cases "m d")
  with m have "P d e" by (simp add: withinD)
  then have "P d (e\<lparr>settings := []\<rparr>)" by (rule settings)
  with refl run show "P d (snd (prisma_transaction abort m d))"
    by (cases r) (simp_all add: prisma_transaction_def split: option.split)
qed

lemma within_cases:
  "within P a \<Longrightarrow> (\<And>y. within P (f y)) \<Longrightarrow> within P (case x of None \<Rightarrow> a | Some y \<Rightarrow> f y)"
  "(\<And>u v. within P (g u v)) \<Longrightarrow> within P (case z of (u, v) \<Rightarrow> g u v)"
  "(\<And>e. within P (h e)) \<Longrightarrow> (\<And>y. within P (k y)) \<Longrightarrow> within P (case r of Inl e \<Rightarrow> h e | Inr y \<Rightarrow> k y)"
  "within P a \<Longrightarrow> within P b \<Longrightarrow> within P (if c then a else b)"
  "within P (m v) \<Longrightarrow> within P (let y = v in m y)"
  by (simp_all split: option.split prod.split sum.split)

lemma within_modify: "(\<And>d. P d (f d)) \<Longrightarrow> within P (modify f)"
  by (simp add: within_def op_simps)

lemmas steps = within_andThen within_tryCatch within_readonly within_transaction within_cases

end

interpretation untouched: step_relation untouched
  by unfold_locales (simp_all add: untouched_def)

text \<open>A relation that allows every steady step.\<close>

locale calls = step_relation +
  assumes steady: "steady d d' \<Longrightarrow> P d d'"
begin

lemma within_steady: "within steady m \<Longrightarrow> within P m"
  unfolding within_def using steady by blast

lemma within_untouched: "within untouched m \<Longrightarrow> within P m"
  unfolding within_def using steady untouched_steady by blast

end

interpretation books: calls keeps
proof unfold_locales
  show "keeps a b \<Longrightarrow> keeps a (b\<lparr>settings := s\<rparr>)" for a b s by (simp add: keeps_def history_def)
qed (rule keeps_refl, erule (1) keeps_trans, erule steady_keeps)

interpretation quiet: calls steady
proof unfold_locales
  show "steady a b \<Longrightarrow> steady a (b\<lparr>settings := s\<rparr>)" for a b s
    by (simp add: steady_def history_def noDebit_def balanceAt_def)
qed (rule steady_refl, erule (1) steady_trans, assumption)

section \<open>Calls that leave the books alone\<close>

lemma untouched_writes:
  "within untouched (modify (\<lambda>d. d\<lparr>subscriptions := f1 d\<rparr>))" "within untouched (modify (\<lambda>d. d\<lparr>deliveries := f2 d\<rparr>))"
  "within untouched (modify (\<lambda>d. d\<lparr>attempts := f3 d\<rparr>))" "within untouched (modify (\<lambda>d. d\<lparr>beneficiaries := f4 d\<rparr>))"
  "within untouched (modify (\<lambda>d. d\<lparr>outboxEvents := f5 d\<rparr>))" "within untouched (modify (\<lambda>d. d\<lparr>notifications := f6 d\<rparr>))"
  "within untouched (modify (\<lambda>d. d\<lparr>checkouts := f7 d\<rparr>))"
  by (simp_all add: within_def op_simps untouched_def)

lemmas untouched_steps = untouched.steps untouched_writes

lemma webhook_writes:
  "within untouched (updateMany_attempts p f)" "within untouched (updateMany_deliveries q g)"
  "within untouched (update_delivery vid g)" "within untouched (create_attempt a)" "within untouched (findUniqueOrThrow x)"
  "within untouched (create_subscription s)"
  unfolding updateMany_attempts_def updateMany_deliveries_def update_delivery_def create_attempt_def
    findUniqueOrThrow_def create_subscription_def
  by (intro untouched_steps)+

lemma claimRows_untouched: "within untouched (claimRows rt clock k rows)"
proof (induction rows arbitrary: k)
  case (Cons row rows)
  show ?case unfolding claimRows.simps claimRow_def by (intro untouched_steps webhook_writes Cons.IH)
qed (simp add: untouched.steps)

lemma webhook_calls_untouched:
  "within untouched (claimBatch abort rt clock skip)" "within untouched (start abort rt clock job)"
  "within untouched (finish abort rt clock job out expected)" "within untouched (webhooksDisable abort rt u sid)"
  "within untouched (webhooksCreate rt cr net u url)"
  unfolding claimBatch_def start_def startBody_def finish_def finishBody_def locked_def webhooksDisable_def
    disableBody_def webhooksCreate_def
  by (intro untouched_steps webhook_writes claimRows_untouched)+

lemma webhook_untouched: "webhook_step rt d d' \<Longrightarrow> untouched d d'"
  by (erule webhook_step.cases)
    ((hypsubst, drule withinD [OF webhook_calls_untouched(1)] withinD [OF webhook_calls_untouched(2)]
      withinD [OF webhook_calls_untouched(3)] withinD [OF webhook_calls_untouched(4)]
      withinD [OF webhook_calls_untouched(5)], assumption)+, simp add: untouched_def)

text \<open>A poll of the outbox keeps what its statements keep.\<close>

context step_relation
begin

lemma publish_within:
  assumes pub: "\<And>err i now. within P (unlessError err (update_event i (publishedEvent now)))"
    and retry: "\<And>err i now delay m. within P (unlessError err (update_event i (retriedEvent now delay m)))"
    and run: "publish env e (d, q) = (r, (d', q'))"
  shows "P d d'"
  using run unfolding publish_def retryLater_def onDb_def tryCatch_def
  by (auto split: prod.splits option.splits sum.splits dest!: withinD [OF pub] withinD [OF retry] intro: trans)

lemma dispatch_within:
  assumes pub: "\<And>err i now. within P (unlessError err (update_event i (publishedEvent now)))"
    and retry: "\<And>err i now delay m. within P (unlessError err (update_event i (retriedEvent now delay m)))"
    and claim: "within P (unlessError claimError (claimEvents now skip))"
    and run: "dispatchOnce wk claimError env beat now skip (d, q) = (r, (d', q'))"
  shows "P d d'"
proof -
  have each: "forEach (\<lambda>e. publish (env (e_id e)) e) es (d, q) = (r, (d', q')) \<Longrightarrow> P d d'" for es d q r d' q'
  proof (induction es arbitrary: d q)
    case (Cons e es)
    then show ?case
      by (auto simp: andThen_def split: prod.splits sum.splits dest!: publish_within [OF pub retry] intro: trans)
  qed (simp add: op_simps refl)
  show ?thesis
    using run unfolding dispatchOnce_def dispatchBatch_def writeHeartbeat_def tryCatch_def andThen_def onDb_def
    by (auto simp: op_simps refl split: if_splits prod.splits sum.splits option.splits
        dest!: withinD [OF claim] each intro: trans)
qed

end

lemma outbox_untouched:
  "within untouched (unlessError err (update_event i f))" "within untouched (unlessError err (claimEvents now skip))"
  unfolding unlessError_def update_event_def claimEvents_def by (intro untouched_steps)+

lemma dispatch_untouched: "dispatchOnce wk claimError env beat now skip (d, q) = (r, (d', q')) \<Longrightarrow> untouched d d'"
  by (rule untouched.dispatch_within [OF outbox_untouched(1) outbox_untouched(1) outbox_untouched(2)])

lemma notify_untouched: "within untouched (persistForEvent rt i)"
  unfolding persistForEvent_def findUniqueOrThrow_def create_notification_def by (intro untouched_steps)

section \<open>Calls that write the books\<close>

lemma prefix_wallet:
  assumes "prefix (map walletIdentity ws) (map walletIdentity vs)" "wallet_pk.lookup k ws = Some w"
  shows "\<exists>v. wallet_pk.lookup k vs = Some v \<and> walletIdentity v = walletIdentity w"
  using assms
proof (induction ws arbitrary: vs)
  case (Cons x ws)
  then obtain y ys where vs: "vs = y # ys" "walletIdentity y = walletIdentity x"
    "prefix (map walletIdentity ws) (map walletIdentity ys)" by (cases vs) auto
  then have "w_id y = w_id x" by (simp add: walletIdentity_def)
  with Cons vs show ?case by (auto simp: wallet_pk.lookup_def split: if_splits)
qed (simp add: wallet_pk.lookup_def)

lemma keepsI:
  assumes books: "ledger_ok d \<Longrightarrow> identity_ok d \<Longrightarrow> ledger_ok d' \<and> identity_ok d'" and hist: "history d d'"
    and same: "payments d' = payments d" "providerEvents d' = providerEvents d"
  shows "keeps d d'"
proof -
  have pre: "prefix (map walletIdentity (wallets d)) (map walletIdentity (wallets d'))"
    "set (ledgerTransactions d) \<subseteq> set (ledgerTransactions d')"
    using hist by (auto simp: history_def dest: set_mono_prefix)
  have "payment_ok d' p" if "payment_ok d p" for p
    using that prefix_wallet [OF pre(1), of "p_walletId p"]
    by (fastforce simp: payment_ok_def payment_wallet_ok_def walletIdentity_def split: option.splits)
  then have "payments_ok d \<Longrightarrow> payments_ok d'" using payments_frame same pre(2) by blast
  with books hist show ?thesis by (simp add: keeps_def books_ok_def)
qed

lemma steadyI: "keeps d d' \<Longrightarrow> noDebit d d' \<Longrightarrow> steady d d'"
  by (simp add: steady_def keeps_def)

lemma credited_identity [simp]: "walletIdentity (credit_wallet now ps w) = walletIdentity w"
  by (simp add: walletIdentity_def)

text \<open>A wallet that is opened does not change the others.\<close>

lemma opened_noDebit:
  "wallets d' = wallets d @ ws \<Longrightarrow> noDebit d d'"
  by (auto simp: noDebit_def balanceAt_def wallet_pk.lookup_def findRow_append split: option.splits)

lemma register_steady: "within steady (createWithInitialWallet rt abort input)"
  unfolding within_def
proof
  fix d
  obtain r d' where run: "createWithInitialWallet rt abort input d = (r, d')" by (meson surj_pair)
  show "steady d (snd (createWithInitialWallet rt abort input d))"
  proof (cases r)
    case (Inl e)
    with run have "d' = d" unfolding createWithInitialWallet_def by (auto dest: prisma_transaction_Inl)
    with run steady_refl show ?thesis by simp
  next
    case (Inr x)
    obtain su w where x: "x = (su, w)" by (cases x)
    have "keeps d d'" "noDebit d d'" if "ledger_ok d"
      using register_Inr [OF that run [unfolded Inr x]] register_invariant [OF _ _ run]
      by (auto intro!: keepsI opened_noDebit simp: history_def opened_wallet_def)
    with run show ?thesis by (auto simp: steady_def keeps_def books_ok_def)
  qed
qed

lemma walletsCreate_outcomes:
  assumes ok: "ledger_ok d" and run: "walletsCreate rt abort u c d = (r, d')"
  shows "d' = d \<or> d' = (opened_wallet rt 0 u c d)\<lparr>settings := []\<rparr>"
proof (cases "abort = None")
  case True
  then show ?thesis
    using ok run walletsCreate_result [of d rt u c] by (auto simp: ledger_ok_def split: if_splits)
next
  case False
  then show ?thesis
    using run by (auto simp: walletsCreate_def tryCatch_def prisma_transaction_def andThen_def op_simps
        split: option.splits if_splits)
qed

lemma open_wallet_steady: "within steady (walletsCreate rt abort u c)"
  unfolding within_def
proof
  fix d
  obtain r d' where run: "walletsCreate rt abort u c d = (r, d')" by (meson surj_pair)
  note opened = walletsCreate_outcomes [OF _ run]
  have "keeps d d'" if "ledger_ok d"
    using opened [OF that] create_wallet_invariant [OF _ _ run] keeps_refl
    by (auto intro!: keepsI simp: history_def opened_wallet_def)
  moreover have "noDebit d d'" if "ledger_ok d"
    using opened [OF that]
  proof
    assume "d' = (opened_wallet rt 0 u c d)\<lparr>settings := []\<rparr>"
    then have "wallets d' = wallets d @ [new_wallet (rt_uuid rt (Suc 0)) u (rt_uuid rt 0) c (rt_now rt)]"
      by (simp add: opened_wallet_def)
    then show ?thesis by (rule opened_noDebit)
  qed (simp add: noDebit_refl)
  ultimately show "steady d (snd (walletsCreate rt abort u c d))"
    using run by (auto simp: steady_def keeps_def books_ok_def)
qed

lemma close_wallet_steady: "within steady (walletsClose rt abort seen u wid)"
  unfolding within_def
proof
  fix d
  obtain r d' where run: "walletsClose rt abort seen u wid d = (r, d')" by (meson surj_pair)
  have same: "map walletIdentity (wallet_pk.put k (\<lambda>v. v\<lparr>w_status := st, w_updatedAt := now\<rparr>) ws) = map walletIdentity ws"
    for k st now ws by (simp add: wallet_pk.put_def map_updateRows walletIdentity_def)
  have bal: "map_option w_currentBalanceMinor (wallet_pk.lookup j (wallet_pk.put k (\<lambda>v. v\<lparr>w_status := st, w_updatedAt := now\<rparr>) ws)) =
      map_option w_currentBalanceMinor (wallet_pk.lookup j ws)" for j k st now ws
    by (simp add: wallet_pk.lookup_put option.map_comp comp_def)
  have "keeps d d'"
    using close_cases [OF run] close_invariant [OF _ _ run] keeps_refl [of d]
    by (auto intro!: keepsI simp: history_def same)
  moreover have "noDebit d d'"
    using close_cases [OF run] by (intro noDebitI) (auto simp: balanceAt_def bal)
  ultimately have "steady d d'" by (rule steadyI)
  with run show "steady d (snd (walletsClose rt abort seen u wid d))" by simp
qed

lemma transfer_keeps: "within keeps (transfersCreate rt abort observed u hdr input)"
  unfolding within_def
proof
  fix d
  obtain r d' where run: "transfersCreate rt abort observed u hdr input d = (r, d')" by (meson surj_pair)
  have "keeps d d'" if ok: "ledger_ok d"
    using transfersCreate_outcomes [OF ledger_ok_sound [OF ok] run] transfersCreate_invariant [OF _ _ run] keeps_refl [of d]
    by (auto intro!: keepsI simp: history_def after_transfer_def after_refusal_def comp_def)
  with run show "keeps d (snd (transfersCreate rt abort observed u hdr input d))" by (auto simp: keeps_def books_ok_def)
qed

lemma reversal_keeps: "within keeps (reversalsCreate rt abort observed u tid hdr reason)"
  unfolding within_def
proof
  fix d
  obtain r d' where run: "reversalsCreate rt abort observed u tid hdr reason d = (r, d')" by (meson surj_pair)
  have "keeps d d'" if ok: "ledger_ok d"
    using reversalsCreate_outcomes [OF ledger_ok_sound [OF ok] run] reversalsCreate_invariant [OF _ _ run] keeps_refl [of d]
    by (auto intro!: keepsI simp: history_def after_reversal_def after_refusal_def comp_def)
  with run show "keeps d (snd (reversalsCreate rt abort observed u tid hdr reason d))" by (auto simp: keeps_def books_ok_def)
qed

text \<open>The transaction of an intent alone: what \<open>createIntent\<close> does when it does not fail.\<close>

lemma intent_steady:
  assumes rt: "uuid_source rt"
  shows "within steady (prisma_transaction abort (intentBody rt ps u key h wid am a))"
  unfolding within_def
proof
  fix d
  let ?m = "prisma_transaction abort (intentBody rt ps u key h wid am a)"
  obtain r d' where run: "?m d = (r, d')" by (meson surj_pair)
  show "steady d (snd (?m d))"
  proof (cases r)
    case (Inl e)
    with run have "d' = d" by (auto dest: prisma_transaction_Inl)
    with run show ?thesis by (simp add: steady_refl)
  next
    case (Inr p)
    with run have create: "createIntent rt ps abort (\<lambda>e. e) u key h wid am a d = (Inr p, d')"
      by (simp add: createIntent_def tryCatch_def)
    have "books_ok d' \<and> history d d' \<and> noDebit d d'" if ok: "books_ok d"
      using createIntent_outcomes [OF ok create] createIntent_books [where others = "\<lambda>e. e", OF ok rt ok, of ps abort u key h wid am a]
        create noDebit_refl [of d]
      by (auto simp: history_def noDebit_def balanceAt_def)
    with run show ?thesis by (simp add: steady_def)
  qed
qed

text \<open>A payment that has an outcome is not changed by the settlement of another one.\<close>

lemma settled_elsewhere:
  assumes "payment_pk.unique ps" "p \<in> set ps" "p_status p = P_PENDING" "q \<in> set ps" "p_status q \<noteq> P_PENDING"
  shows "q \<in> set (payment_pk.put (p_id p) f ps)"
proof -
  have "p_id q \<noteq> p_id p" using assms unfolding payment_pk.unique_def by (metis distinct_map_inj)
  with assms(4) show ?thesis by (auto simp: payment_pk.put_def set_updateRows)
qed

lemma settles_steady:
  assumes ok: "books_ok d" and s: "settles rt ev pr d r d'"
  shows "steady d d'"
proof -
  from s obtain p where p: "findIntent pr ev d = Some p"
    and out: "d' = d \<or> d' = with_evidence rt pr p ev d \<or>
      p_status p = P_PENDING \<and> (d' = declined rt pr p ev d \<or> (\<exists>w a n. fundable rt p w a n d \<and> d' = funded rt pr p ev n d))"
    by (auto simp: settles_def)
  have uniq: "payment_pk.unique (payments d)" and pos: "0 \<le> p_amountMinor p"
    using ok findIntent_in [OF p] by (auto simp: books_ok_def payments_ok_def payment_ok_def)
  note elsewhere = settled_elsewhere [OF uniq conjunct1 [OF findIntent_in [OF p]]]
  have "history d d'"
    using out by (elim disjE conjE exE) (simp_all add: history_def comp_def elsewhere)
  moreover have "noDebit d d'"
    using out
  proof (elim disjE conjE exE)
    fix w a n assume f: "fundable rt p w a n d" and d': "d' = funded rt pr p ev n d"
    have "wallets d' = map (credit_wallet (rt_now rt) (li_postings n)) (wallets d)" by (simp add: d')
    note funded_balance [OF ok p f this]
    with pos show ?thesis by (auto simp: noDebit_def)
  qed (rule noDebitI, simp add: balanceAt_def)+
  ultimately show ?thesis using settles_books [OF ok s] by (simp add: steady_def)
qed

lemma settle_transaction_steady:
  "within steady (prisma_transaction abort (settleBody rt ev pr))"
  unfolding within_def
proof
  fix d
  let ?sa = "\<lparr>sa_runtime = rt, sa_abort = abort, sa_others = \<lambda>e. e\<rparr>"
  have eq: "settle ?sa ev pr d = prisma_transaction abort (settleBody rt ev pr) d"
    by (simp add: settle_def op_simps)
  obtain r d' where run: "settle ?sa ev pr d = (r, d')" by (meson surj_pair)
  have "steady d d'" if ok: "books_ok d"
  proof (cases r)
    case (Inl x)
    with run settle_Inl [of ?sa ev pr d x d'] show ?thesis by (simp add: steady_refl)
  next
    case (Inr x)
    then obtain m where m: "settles rt ev pr d x m" "d' = m\<lparr>settings := []\<rparr>"
      using run settle_Inr [of d ?sa d, OF _ books_okD [OF ok]] by auto
    from settles_steady [OF ok m(1)] show ?thesis unfolding m(2) by (rule quiet.settings)
  qed
  with run eq show "steady d (snd (prisma_transaction abort (settleBody rt ev pr) d))"
    by (auto simp: steady_def)
qed

section \<open>Whole calls, with others in between\<close>

lemma beneficiary_writes:
  "within untouched (create_beneficiary b)" "within untouched (update_beneficiary bid f)" "within untouched (withWallet b)"
  unfolding create_beneficiary_def update_beneficiary_def withWallet_def by (intro untouched_steps)+

lemma checkout_untouched: "within untouched (initializePaystack rt env p)"
  unfolding initializePaystack_def claim_checkout_def update_checkout_def by (intro untouched_steps)

text \<open>A relation that every transaction of the services keeps is kept by every route, whatever the requests that
  the route lets in between do to it.\<close>

locale transactions = step_relation +
  assumes registers: "within P (createWithInitialWallet rt abort input)"
    and opens: "within P (walletsCreate rt abort u c)"
    and closes: "within P (walletsClose rt abort seen u wid)"
    and intends: "uuid_source rt \<Longrightarrow> within P (prisma_transaction abort (intentBody rt ps u key h wid am a))"
    and checks_out: "within P (initializePaystack rt env p)"
    and settles: "within P (prisma_transaction abort (settleBody rt ev pr))"
    and addresses: "within P (create_beneficiary b)" "within P (update_beneficiary bid change)" "within P (withWallet b)"
    and subscribes: "within P (webhooksCreate rt cr net u url)" "within P (webhooksDisable abort rt u sid)"
begin

lemma register_within:
  assumes "\<And>e. P e (others e)"
  shows "within P (register scrypt jwt rt salt others abort input)"
  unfolding register_def createAccount_def findByEmailWithPassword_def
  by (intro steps within_modify assms registers)

lemma beneficiaries_within:
  assumes "\<And>k e. P e (others k e)"
  shows "within P (beneficiariesCreate rt others u wid label)" "within P (beneficiariesRemove rt others u bid)"
  unfolding beneficiariesCreate_def insertBeneficiary_def beneficiariesRemove_def
  by (intro steps within_modify assms addresses)+

lemma payments_within:
  assumes rt: "uuid_source rt" and "\<And>e. P e (others e)"
  shows "within P (paymentsCreate rt env abort others u hdr input)"
  unfolding paymentsCreate_def createIntent_def
  by (intro steps within_modify assms intends [OF rt] checks_out)

lemma settlement_within:
  assumes "\<And>k e. P e (sa_others (env k) e)"
  shows "within P (settleVerified env ev pr)"
proof -
  have "within P (settleFrom k env ev pr)" for k
  proof (induction "3 - k" arbitrary: k)
    case 0
    then have "settleFrom k env ev pr = raise (ServiceUnavailable ''Retry callback'')" by (subst settleFrom.simps) simp
    then show ?case by (simp add: steps)
  next
    case (Suc n)
    then have "within P (settleFrom (Suc k) env ev pr)" by simp
    then show ?case
      unfolding settleFrom.simps [of k] settle_def
      by (intro steps within_modify assms settles)
  qed
  then show ?thesis by (simp add: settleVerified_def)
qed

lemma callbacks_within:
  assumes "\<And>k e. P e (sa_others (env k) e)"
  shows "within P (paymentsReceive env pv body ts sig)" "within P (receivePaystack env pv body sig)"
    "within P (paymentsReconcile env pv u pid)"
  unfolding paymentsReceive_def receivePaystack_def paymentsReconcile_def paymentsFindOne_def
  by (intro steps settlement_within assms)+

text \<open>Reads leave everything as it is.\<close>

lemma reads_within:
  "within P (walletsFindAllForUser u)" "within P (walletsFindOneForUser u wid)" "within P (beneficiariesFindAll u)"
  "within P (transfersFindAllForUser u)" "within P (transfersFindOneForUser u tid)" "within P (reversalsFindOneForUser u tid)"
  "within P (auditFindAllForUser u limit cursor)" "within P (paymentsList u limit cursor)" "within P (paymentsFindOne u pid)"
  "within P (paymentsEvents u pid limit cursor)" "within P (webhooksList u)" "within P (webhooksDeliveries u sid limit cursor)"
  "within P (getProfile u)" "within P (login scrypt jwt now input)"
  unfolding walletsFindAllForUser_def walletsFindOneForUser_def beneficiariesFindAll_def transfersFindAllForUser_def
    transfersFindOneForUser_def reversalsFindOneForUser_def auditFindAllForUser_def paymentsList_def paymentsFindOne_def
    paymentsEvents_def webhooksList_def webhooksDeliveries_def getProfile_def login_def findSafeById_def
    findByEmailWithPassword_def
  by (intro steps)+

text \<open>The guards.\<close>

lemma guard_within:
  assumes "\<And>k e. P e (ap_others ap k e)" "\<And>u. within P (f u)"
  shows "within P (guarded ap f)"
  unfolding guarded_def canActivate_def authenticate_def unlessError_def findSafeById_def
  by (intro steps within_modify assms)

lemma api_parts_within:
  "within P m \<Longrightarrow> within P (mapResponse g m)" "within P m \<Longrightarrow> within P (withUuid ap s m)"
  unfolding mapResponse_def withUuid_def by (intro steps; assumption)+

lemma rate_within: "within P m \<Longrightarrow> within P (authRateGuard ap m)"
  unfolding authRateGuard_def by (auto split: rate_reply.split intro!: steps)

text \<open>Every route; the two that move money between wallets are given separately.\<close>

lemma handle_within:
  assumes rt: "uuid_source (ap_runtime ap)" and others: "\<And>k e. P e (ap_others ap k e)"
    and settlement: "\<And>k e. P e (sa_others (ap_settlement ap k) e)"
    and transfer: "\<And>input rt abort observed u hdr. route = TransfersRoute (CreateTransfer input) \<Longrightarrow>
      within P (transfersCreate rt abort observed u hdr input)"
    and reversal: "\<And>tid reason rt abort observed u hdr. route = ReversalsRoute (CreateReversal tid reason) \<Longrightarrow>
      within P (reversalsCreate rt abort observed u tid hdr reason)"
  shows "within P (handle ap route)"
proof -
  note guard = guard_within [OF others] api_parts_within rate_within reads_within
  note calls = opens closes subscribes register_within [OF others] beneficiaries_within [OF others] payments_within [OF rt others]
    callbacks_within [OF settlement]
  show ?thesis
  proof (cases route)
    case (AuthRoute r)
    then show ?thesis by (cases r) (simp_all add: guard calls)
  next
    case (WalletsRoute r)
    then show ?thesis by (cases r) (simp_all add: guard calls)
  next
    case (BeneficiariesRoute r)
    then show ?thesis by (cases r) (simp_all add: guard calls)
  next
    case (TransfersRoute r)
    then show ?thesis using transfer by (cases r) (simp_all add: guard)
  next
    case (ReversalsRoute r)
    then show ?thesis using reversal by (cases r) (simp_all add: guard)
  next
    case (AuditRoute limit cursor)
    then show ?thesis by (simp add: auditController_def guard)
  next
    case (PaymentsRoute r)
    then show ?thesis by (cases r) (simp_all add: guard calls)
  next
    case (CallbackRoute r)
    then show ?thesis by (cases r) (simp_all add: guard calls)
  next
    case (WebhooksRoute r)
    then show ?thesis by (cases r) (simp_all add: guard calls)
  qed
qed

end

sublocale calls < transactions P
  by unfold_locales (intro within_steady register_steady open_wallet_steady close_wallet_steady settle_transaction_steady
    intent_steady; assumption | intro within_untouched checkout_untouched beneficiary_writes webhook_calls_untouched)+

section \<open>Runs\<close>

text \<open>
  A run of the program: requests (with their own parts of other runs in between), steps of the webhook
  services, polls of the outbox (whose queue is a list of job ids here) and notification jobs.
\<close>

inductive system_run :: "db \<Rightarrow> db \<Rightarrow> bool" where
  idle: "system_run d d"
| later: "system_run d e \<Longrightarrow> system_run e f \<Longrightarrow> system_run d f"
| request: "uuid_source (ap_runtime ap) \<Longrightarrow> (\<forall>k e. system_run e (ap_others ap k e)) \<Longrightarrow>
    (\<forall>k e. system_run e (sa_others (ap_settlement ap k) e)) \<Longrightarrow> handle ap route d = (r, d') \<Longrightarrow> system_run d d'"
| webhooks: "webhook_step rt d d' \<Longrightarrow> system_run d d'"
| outbox: "dispatchOnce wk claimError env beat now skip (d, q :: uuid list) = (r, (d', q')) \<Longrightarrow> system_run d d'"
| notify: "persistForEvent rt i d = (r, d') \<Longrightarrow> system_run d d'"

lemma system_run_keeps: "system_run d d' \<Longrightarrow> keeps d d'"
proof (induction rule: system_run.induct)
  case (idle d)
  show ?case by (rule keeps_refl)
next
  case (later d e f)
  then show ?case by (blast intro: keeps_trans)
next
  case (request ap route d r d')
  have "within keeps (handle ap route)"
    using request by (intro books.handle_within transfer_keeps reversal_keeps) blast+
  then show ?case using \<open>handle ap route d = (r, d')\<close> by (rule withinD)
next
  case (webhooks rt d d')
  then show ?case by (intro books.steady untouched_steady webhook_untouched)
next
  case (outbox wk claimError env now skip d q r d' q')
  then show ?case by (intro books.steady untouched_steady) (rule dispatch_untouched)
next
  case (notify rt i d r d')
  then show ?case using withinD [OF notify_untouched] by (blast intro: books.steady untouched_steady)
qed

text \<open>What the books say of a wallet.\<close>

lemma books_wallet:
  assumes "books_ok d" "w \<in> set (wallets d)"
  shows "0 \<le> w_currentBalanceMinor w \<and> w_currentBalanceMinor w = postedTo d (w_ledgerAccountId w)"
proof -
  have ok: "pairing_ok d" "double_entry d" using assms(1) by (simp_all add: books_ok_def ledger_ok_def)
  then obtain a where a: "a \<in> set (accounts d)" "wallet_matches w a" "account_ok a"
    using assms(2) unfolding pairing_ok_def by blast
  moreover have "la_balanceMinor a = postedTo d (la_id a)" using ok(2) a(1) by (simp add: double_entry_def)
  ultimately show ?thesis
    by (auto simp: wallet_matches_def account_ok_def kind_policy_def balance_policy_def)
qed

text \<open>Only the two routes can take money out of a wallet.\<close>

lemma debit_routes:
  assumes rt: "uuid_source (ap_runtime ap)" and alone: "\<And>k e. ap_others ap k e = e" "\<And>k e. sa_others (ap_settlement ap k) e = e"
    and ok: "books_ok d" and run: "handle ap route d = (r, d')"
    and debit: "balanceAt wid d = Some x" "balanceAt wid d' = Some y" "y < x"
  shows "(\<exists>input. route = TransfersRoute (CreateTransfer input)) \<or> (\<exists>tid reason. route = ReversalsRoute (CreateReversal tid reason))"
proof (rule ccontr)
  assume "\<not> ?thesis"
  then have "within steady (handle ap route)"
    using rt alone by (intro quiet.handle_within) (auto simp: steady_refl)
  with run ok have "noDebit d d'" by (auto simp: steady_def dest: withinD)
  with debit show False unfolding noDebit_def by (metis linorder_not_le option.inject)
qed

text \<open>The request carries a bearer token that verifies, under the configured secret, as an access token of a
  user in the database.\<close>

definition authenticatedAs :: "api \<Rightarrow> db \<Rightarrow> user \<Rightarrow> bool" where
  "authenticatedAs ap d u \<longleftrightarrow> u \<in> set (users d) \<and>
     (\<exists>token payload. extractBearerToken (ap_authorization ap) = Inr token \<and>
        jwt_verify (ap_jwt ap) token (jwt_secret (ap_jwt ap)) [''HS256''] JWT_ISSUER JWT_AUDIENCE (rt_now (ap_runtime ap)) =
          Inr payload \<and>
        vp_type payload = Some ''access'' \<and> (\<exists>sub. vp_sub payload = Some sub \<and> pgUuid sub = u_id u))"

lemma guarded_run:
  assumes run: "guarded ap f d = (r, d')"
  shows "(\<exists>m. r = Inl (Unauthorized m) \<and> d' = d) \<or>
    (\<exists>u. authenticatedAs ap d u \<and> f (u_id u) (ap_others ap 0 d) = (r, d'))"
proof -
  obtain q e where g: "canActivate (ap_jwt ap) (rt_now (ap_runtime ap)) (ap_guardError ap) (ap_authorization ap) d = (q, e)"
    by (meson surj_pair)
  note facts = canActivate_cases [OF g]
  show ?thesis
  proof (cases q)
    case (Inl err)
    with run g facts show ?thesis by (auto simp: guarded_def andThen_def)
  next
    case (Inr caller)
    with facts obtain u where t: "authenticatedAs ap d u" "caller = \<lparr>au_id = u_id u, au_email = u_email u\<rparr>" "e = d"
      by (auto simp: authenticatedAs_def)
    with run g Inr have "f (u_id u) (ap_others ap 0 d) = (r, d')" by (simp add: guarded_def andThen_def op_simps)
    with t show ?thesis by blast
  qed
qed

lemma protected_guarded: "\<not> open_route route \<Longrightarrow> \<exists>f. handle ap route = guarded ap f"
proof (cases route)
  case (AuthRoute r)
  moreover assume "\<not> open_route route"
  ultimately show ?thesis by (cases r) auto
next
  case (WalletsRoute r)
  then show ?thesis by (cases r) auto
next
  case (BeneficiariesRoute r)
  then show ?thesis by (cases r) auto
next
  case (TransfersRoute r)
  then show ?thesis by (cases r) auto
next
  case (ReversalsRoute r)
  then show ?thesis by (cases r) auto
next
  case (AuditRoute limit cursor)
  then show ?thesis by (auto simp: auditController_def)
next
  case (PaymentsRoute r)
  then show ?thesis by (cases r) auto
next
  case (WebhooksRoute r)
  then show ?thesis by (cases r) auto
qed simp

lemma mapResponse_state: "mapResponse g m d = (r, d') \<Longrightarrow> \<exists>q. m d = (q, d')"
  by (auto simp: mapResponse_def andThen_def op_simps split: prod.splits sum.splits)

lemma withUuid_state: "withUuid ap s m d = (r, d') \<Longrightarrow> d' = d \<or> m d = (r, d')"
  by (auto simp: withUuid_def andThen_def op_simps split: if_splits)

text \<open>What the two routes take.\<close>

lemma transfer_debit:
  assumes ok: "ledger_ok d" and alone: "ap_others ap 0 d = d"
    and run: "handle ap (TransfersRoute (CreateTransfer input)) d = (r, d')"
    and debit: "balanceAt wid d = Some x" "balanceAt wid d' = Some y" "y < x"
  shows "\<exists>u req w. authenticatedAs ap d u \<and> normalizeTransferRequest input = Inr req \<and>
    w \<in> set (wallets d) \<and> w_id w = wid \<and> w_userId w = u_id u \<and> y = x - tr_amountMinor req"
proof -
  have changed: "\<not> (\<forall>wid. balanceAt wid d' = balanceAt wid d)" and ran: "d' \<noteq> d" using debit by fastforce+
  have "guarded ap (\<lambda>u. mapResponse TransferR (transfersCreate (ap_runtime ap) (ap_abort ap) (ap_observed ap) u
      (ap_idempotencyKey ap) input)) d = (r, d')" using run by simp
  from guarded_run [OF this] ran alone obtain u where u: "authenticatedAs ap d u"
    and "mapResponse TransferR (transfersCreate (ap_runtime ap) (ap_abort ap) (ap_observed ap) (u_id u)
      (ap_idempotencyKey ap) input) d = (r, d')" by auto
  then obtain q where "transfersCreate (ap_runtime ap) (ap_abort ap) (ap_observed ap) (u_id u) (ap_idempotencyKey ap) input d = (q, d')"
    by (blast dest: mapResponse_state)
  from transfersCreate_moves [OF ok this] show ?thesis
  proof (elim disjE exE conjE)
    fix req src dst
    assume req: "normalizeTransferRequest input = Inr req" "src \<in> set (wallets d)" "w_userId src = u_id u"
        "0 < tr_amountMinor req"
      and bal: "\<forall>wid. balanceAt wid d' = map_option (\<lambda>y. y + (if wid = w_id src then - tr_amountMinor req
        else if wid = w_id dst then tr_amountMinor req else 0)) (balanceAt wid d)"
    from bal [rule_format, of wid] debit req(4) have "wid = w_id src" "y = x - tr_amountMinor req"
      by (auto split: if_splits)
    with u req show ?thesis by blast
  qed (use changed in blast)
qed

lemma reversal_debit:
  assumes ok: "ledger_ok d" and alone: "ap_others ap 0 d = d"
    and run: "handle ap (ReversalsRoute (CreateReversal tid reason)) d = (r, d')"
    and debit: "balanceAt wid d = Some x" "balanceAt wid d' = Some y" "y < x"
  shows "\<exists>u t. authenticatedAs ap d u \<and> t \<in> set (transfers d) \<and> t_id t = js_toLowerCase tid \<and>
    t_senderUserId t = u_id u \<and> t_status t = T_COMPLETED \<and>
    wid = t_destinationWalletId t \<and> y = x - t_amountMinor t"
proof -
  have changed: "\<not> (\<forall>wid. balanceAt wid d' = balanceAt wid d)" and ran: "d' \<noteq> d" using debit by fastforce+
  have "guarded ap (\<lambda>u. withUuid ap tid (mapResponse ReversalR (reversalsCreate (ap_runtime ap) (ap_abort ap) (ap_observed ap) u
      tid (ap_idempotencyKey ap) reason))) d = (r, d')" using run by simp
  from guarded_run [OF this] ran alone obtain u where u: "authenticatedAs ap d u"
    and "withUuid ap tid (mapResponse ReversalR (reversalsCreate (ap_runtime ap) (ap_abort ap) (ap_observed ap) (u_id u)
      tid (ap_idempotencyKey ap) reason)) d = (r, d')" by auto
  then obtain q where
    "reversalsCreate (ap_runtime ap) (ap_abort ap) (ap_observed ap) (u_id u) tid (ap_idempotencyKey ap) reason d = (q, d')"
    using ran by (blast dest: withUuid_state mapResponse_state)
  from reversalsCreate_moves [OF ok this] show ?thesis
  proof (elim disjE exE conjE)
    fix t src dst
    assume t: "t \<in> set (transfers d)" "t_id t = js_toLowerCase tid" "t_senderUserId t = u_id u" "t_status t = T_COMPLETED"
      and pos: "0 < t_amountMinor t"
      and bal: "\<forall>wid. balanceAt wid d' = map_option (\<lambda>y. y + (if wid = t_sourceWalletId t then t_amountMinor t
        else if wid = t_destinationWalletId t then - t_amountMinor t else 0)) (balanceAt wid d)"
    from bal [rule_format, of wid] debit pos have "wid = t_destinationWalletId t \<and> y = x - t_amountMinor t"
      by (auto split: if_splits)
    with u t show ?thesis by blast
  qed (use changed in blast)
qed

end
