(* ===== verification/EndpointClaims.thy ===== *)
theory EndpointClaims
  imports WebhookTransport
begin

text \<open>
  Properties of the webhook endpoints: the block list is exactly the reserved IPv4 ranges, requests
  go only to public addresses, a sealed secret opens again.
\<close>

section \<open>Reading dotted addresses\<close>

lemma length_showNat: "n < 10 ^ k \<Longrightarrow> 0 < k \<Longrightarrow> length (showNat n) \<le> k"
proof (induction k arbitrary: n)
  case (Suc k)
  show ?case
  proof (cases "n < 10")
    case True
    then show ?thesis by (subst showNat.simps) simp
  next
    case False
    with Suc.prems have "0 < k" by (cases k) auto
    moreover have "n div 10 < 10 ^ k" using Suc.prems by (simp add: less_mult_imp_div_less mult.commute)
    ultimately have "length (showNat (n div 10)) \<le> k" by (rule Suc.IH [rotated])
    with False show ?thesis by (subst showNat.simps) simp
  qed
qed simp

lemma octet_showNat: "n \<le> 255 \<Longrightarrow> octet (showNat n) = Some n"
proof -
  assume n: "n \<le> 255"
  have "length (showNat n) \<le> 3" using n by (intro length_showNat) auto
  moreover have "hd (showNat n) = CHR ''0'' \<longrightarrow> length (showNat n) = 1"
    using showNat_hd [of n] showNat_zero by (cases "n = 0") auto
  moreover have "list_all isDigit (showNat n)" using showNat_digits by (simp add: list_all_iff)
  ultimately show ?thesis using n by (simp add: octet_def parseDigits_showNat)
qed

lemma parseIPv4_dotted:
  assumes "a \<le> 255" "b \<le> 255" "c \<le> 255" "e \<le> 255"
  shows "parseIPv4 (dotted a b c e) = Some (ipv4Word a b c e)"
proof -
  have no: "CHR ''.'' \<notin> set (showNat n)" for n
    using showNat_digits [of n] by (auto simp: isDigit_def)
  then have "splitOn (CHR ''.'') (dotted a b c e) = [showNat a, showNat b, showNat c, showNat e]"
    by (simp add: dotted_def splitOn_append splitOn_none)
  with assms show ?thesis by (simp add: parseIPv4_def octet_showNat)
qed

lemma unat_ipv4Word:
  "a \<le> 255 \<Longrightarrow> b \<le> 255 \<Longrightarrow> c \<le> 255 \<Longrightarrow> e \<le> 255 \<Longrightarrow>
   unat (ipv4Word a b c e) = ((a * 256 + b) * 256 + c) * 256 + e"
  unfolding ipv4Word_def unat_of_nat by (rule mod_less) simp

lemma drop_bit_ipv4Word:
  assumes "a \<le> 255" "b \<le> 255" "c \<le> 255" "e \<le> 255"
  shows "drop_bit k (ipv4Word a b c e) = drop_bit k (ipv4Word a' b' c' e') \<longleftrightarrow>
    (((a * 256 + b) * 256 + c) * 256 + e) div 2 ^ k = unat (ipv4Word a' b' c' e') div 2 ^ k"
  unfolding word_unat_eq_iff unat_drop_bit_eq unat_ipv4Word [OF assms] by (simp only: drop_bit_eq_div)

lemma prefix_value:
  fixes a b c e :: nat
  assumes "a \<le> 255" "b \<le> 255" "c \<le> 255" "e \<le> 255"
  defines "X \<equiv> ((a * 256 + b) * 256 + c) * 256 + e"
  shows "X div 16777216 = a" "X div 4194304 = a * 4 + b div 64" "X div 65536 = a * 256 + b"
    "X div 1048576 = a * 16 + b div 16" "X div 256 = (a * 256 + b) * 256 + c"
    "X div 131072 = a * 128 + b div 2" "X div 268435456 = a div 16"
proof -
  show 8: "X div 256 = (a * 256 + b) * 256 + c" using assms(4) by (simp add: X_def)
  have "X div 65536 = X div 256 div 256" by (simp add: div_mult2_eq [symmetric])
  also have "\<dots> = a * 256 + b" using assms(3) by (simp only: 8) simp
  finally show 16: "X div 65536 = a * 256 + b" .
  have "X div 16777216 = X div 65536 div 256" by (simp add: div_mult2_eq [symmetric])
  also have "\<dots> = a" using assms(2) by (simp add: 16)
  finally show 24: "X div 16777216 = a" .
  have "X div 4194304 = X div 65536 div 64" by (simp add: div_mult2_eq [symmetric])
  also have "\<dots> = a * 4 + b div 64" by (simp add: 16)
  finally show "X div 4194304 = a * 4 + b div 64" .
  have "X div 1048576 = X div 65536 div 16" by (simp add: div_mult2_eq [symmetric])
  also have "\<dots> = a * 16 + b div 16" by (simp add: 16)
  finally show "X div 1048576 = a * 16 + b div 16" .
  have "X div 131072 = X div 65536 div 2" by (simp add: div_mult2_eq [symmetric])
  also have "\<dots> = a * 128 + b div 2" by (simp add: 16)
  finally show "X div 131072 = a * 128 + b div 2" .
  have "X div 268435456 = X div 16777216 div 16" by (simp add: div_mult2_eq [symmetric])
  then show "X div 268435456 = a div 16" by (simp only: 24)
qed

lemma blocked_words:
  "map (\<lambda>s. (parseIPv4 (fst s), snd s)) blockedSubnets =
    [(Some (ipv4Word 0 0 0 0), 8), (Some (ipv4Word 10 0 0 0), 8), (Some (ipv4Word 100 64 0 0), 10),
     (Some (ipv4Word 127 0 0 0), 8), (Some (ipv4Word 169 254 0 0), 16), (Some (ipv4Word 172 16 0 0), 12),
     (Some (ipv4Word 192 0 0 0), 24), (Some (ipv4Word 192 0 2 0), 24), (Some (ipv4Word 192 88 99 0), 24),
     (Some (ipv4Word 192 168 0 0), 16), (Some (ipv4Word 198 18 0 0), 15), (Some (ipv4Word 198 51 100 0), 24),
     (Some (ipv4Word 203 0 113 0), 24), (Some (ipv4Word 224 0 0 0), 4), (Some (ipv4Word 240 0 0 0), 4)]"
  by (simp add: blockedSubnets_def parseIPv4_def octet_def parseDigits_def isDigit_def digitVal_def)

definition reserved :: "nat \<Rightarrow> nat \<Rightarrow> nat \<Rightarrow> bool" where
  "reserved a b c \<longleftrightarrow>
     a = 0 \<or> a = 10 \<or> (a = 100 \<and> 64 \<le> b \<and> b \<le> 127) \<or> a = 127 \<or> (a = 169 \<and> b = 254) \<or>
     (a = 172 \<and> 16 \<le> b \<and> b \<le> 31) \<or> (a = 192 \<and> b = 0 \<and> c = 0) \<or> (a = 192 \<and> b = 0 \<and> c = 2) \<or>
     (a = 192 \<and> b = 88 \<and> c = 99) \<or> (a = 192 \<and> b = 168) \<or> (a = 198 \<and> (b = 18 \<or> b = 19)) \<or>
     (a = 198 \<and> b = 51 \<and> c = 100) \<or> (a = 203 \<and> b = 0 \<and> c = 113) \<or> 224 \<le> a"

lemma digit256:
  fixes b b' :: nat
  assumes "b \<le> 255" "b' \<le> 255"
  shows "x * 256 + b = y * 256 + b' \<longleftrightarrow> x = y \<and> b = b'"
proof
  assume eq: "x * 256 + b = y * 256 + b'"
  have "x = (x * 256 + b) div 256" "y = (y * 256 + b') div 256" using assms by simp_all
  with eq show "x = y \<and> b = b'" by simp
qed simp

lemma prefix_digit: "r < k \<Longrightarrow> r' < k \<Longrightarrow> a * k + r = a' * k + r' \<longleftrightarrow> a = a' \<and> r = (r' :: nat)"
  by (metis div_mult_self3 div_less mod_mult_self3 mod_less add_0_right gr_implies_not0)

lemma list_ex_eval: "list_ex p (x # xs) \<longleftrightarrow> p x \<or> list_ex p xs" "list_ex p [] \<longleftrightarrow> False"
  by simp_all

lemma unat_blocked:
  "unat (ipv4Word 0 0 0 0) = 0" "unat (ipv4Word 10 0 0 0) = 167772160"
  "unat (ipv4Word 100 64 0 0) = 1681915904" "unat (ipv4Word 127 0 0 0) = 2130706432"
  "unat (ipv4Word 169 254 0 0) = 2851995648" "unat (ipv4Word 172 16 0 0) = 2886729728"
  "unat (ipv4Word 192 0 0 0) = 3221225472" "unat (ipv4Word 192 0 2 0) = 3221225984"
  "unat (ipv4Word 192 88 99 0) = 3227017984" "unat (ipv4Word 192 168 0 0) = 3232235520"
  "unat (ipv4Word 198 18 0 0) = 3323068416" "unat (ipv4Word 198 51 100 0) = 3325256704"
  "unat (ipv4Word 203 0 113 0) = 3405803776" "unat (ipv4Word 224 0 0 0) = 3758096384"
  "unat (ipv4Word 240 0 0 0) = 4026531840"
  by (simp_all add: unat_ipv4Word)

lemma blocked_iff:
  assumes "a \<le> 255" "b \<le> 255" "c \<le> 255" "e \<le> 255"
  shows "list_ex (inSubnet (ipv4Word a b c e)) blockedSubnets \<longleftrightarrow> reserved a b c"
proof -
  have two: "a * 256 + b = n \<longleftrightarrow> a = a' \<and> b = b'" if "n = a' * 256 + b'" "b' \<le> 255" for n a' b'
    unfolding that(1) by (rule digit256 [OF assms(2) that(2)])
  have three: "(a * 256 + b) * 256 + c = n \<longleftrightarrow> a = a' \<and> b = b' \<and> c = c'"
    if "n = (a' * 256 + b') * 256 + c'" "b' \<le> 255" "c' \<le> 255" for n a' b' c'
    unfolding that(1) digit256 [OF assms(3) that(3)] digit256 [OF assms(2) that(2)] by simp
  have ranges: "a * 4 + b div 64 = 401 \<longleftrightarrow> a = 100 \<and> 64 \<le> b \<and> b \<le> 127"
    "a * 16 + b div 16 = 2753 \<longleftrightarrow> a = 172 \<and> 16 \<le> b \<and> b \<le> 31"
    "a * 128 + b div 2 = 25353 \<longleftrightarrow> a = 198 \<and> (b = 18 \<or> b = 19)"
    "a div 16 = 14 \<or> a div 16 = 15 \<longleftrightarrow> 224 \<le> a"
    using prefix_digit [of "b div 64" 4 1 a 100] prefix_digit [of "b div 16" 16 1 a 172]
      prefix_digit [of "b div 2" 128 9 a 198] assms(1,2) by auto
  have tests: "a * 256 + b = 43518 \<longleftrightarrow> a = 169 \<and> b = 254" "a * 256 + b = 49320 \<longleftrightarrow> a = 192 \<and> b = 168"
    "(a * 256 + b) * 256 + c = 12582912 \<longleftrightarrow> a = 192 \<and> b = 0 \<and> c = 0"
    "(a * 256 + b) * 256 + c = 12582914 \<longleftrightarrow> a = 192 \<and> b = 0 \<and> c = 2"
    "(a * 256 + b) * 256 + c = 12605539 \<longleftrightarrow> a = 192 \<and> b = 88 \<and> c = 99"
    "(a * 256 + b) * 256 + c = 12989284 \<longleftrightarrow> a = 198 \<and> b = 51 \<and> c = 100"
    "(a * 256 + b) * 256 + c = 13303921 \<longleftrightarrow> a = 203 \<and> b = 0 \<and> c = 113"
    by (rule two three; simp)+
  define X where "X = ((a * 256 + b) * 256 + c) * 256 + e"
  note pv = prefix_value [OF assms, folded X_def]
  have X: "drop_bit k (ipv4Word a b c e) = drop_bit k (ipv4Word a' b' c' e') \<longleftrightarrow> X div 2 ^ k = unat (ipv4Word a' b' c' e') div 2 ^ k"
    for k a' b' c' e' unfolding X_def by (rule drop_bit_ipv4Word [OF assms])
  have "list_ex (inSubnet w) ss = list_ex (\<lambda>(n, p). case n of None \<Rightarrow> False
      | Some net \<Rightarrow> drop_bit (32 - p) w = drop_bit (32 - p) net) (map (\<lambda>s. (parseIPv4 (fst s), snd s)) ss)" for w ss
    by (induction ss) (simp_all add: inSubnet_def)
  then have "list_ex (inSubnet (ipv4Word a b c e)) blockedSubnets \<longleftrightarrow>
      a = 0 \<or> a = 10 \<or> a * 4 + b div 64 = 401 \<or> a = 127 \<or> a * 256 + b = 43518 \<or> a * 16 + b div 16 = 2753 \<or>
      (a * 256 + b) * 256 + c = 12582912 \<or> (a * 256 + b) * 256 + c = 12582914 \<or>
      (a * 256 + b) * 256 + c = 12605539 \<or> a * 256 + b = 49320 \<or> a * 128 + b div 2 = 25353 \<or>
      (a * 256 + b) * 256 + c = 12989284 \<or> (a * 256 + b) * 256 + c = 13303921 \<or> a div 16 = 14 \<or> a div 16 = 15"
    by (simp only: blocked_words list_ex_eval prod.case option.case X unat_blocked)
      (simp add: pv del: power_divide)
  also have "\<dots> \<longleftrightarrow> reserved a b c"
    unfolding reserved_def by (simp only: tests ranges)
  finally show ?thesis .
qed

lemma public_dotted:
  assumes "a \<le> 255" "b \<le> 255" "c \<le> 255" "e \<le> 255"
  shows "isPublicIPv4 (dotted a b c e) \<longleftrightarrow> \<not> reserved a b c"
  using blocked_iff [OF assms] by (simp add: isPublicIPv4_def parseIPv4_dotted [OF assms])

section \<open>Canonical spelling\<close>

lemma showNat_read:
  "s \<noteq> [] \<Longrightarrow> list_all isDigit s \<Longrightarrow> (hd s = CHR ''0'' \<longrightarrow> length s = 1) \<Longrightarrow>
   showNat (foldl (\<lambda>acc c. acc * 10 + digitVal c) 0 s) = s"
proof (induction s rule: rev_induct)
  case (snoc c s)
  let ?v = "foldl (\<lambda>acc c. acc * 10 + digitVal c) 0 s"
  have c: "isDigit c" "digitVal c < 10" using snoc.prems(2) digit_val_lt by simp_all
  show ?case
  proof (cases "s = []")
    case True
    with c show ?thesis by (subst showNat.simps) (simp add: digitChar_digitVal)
  next
    case False
    with snoc.prems have "hd s \<noteq> CHR ''0''" by (cases s) auto
    with False snoc have IH: "showNat ?v = s" by simp
    have "?v \<noteq> 0"
    proof
      assume "?v = 0"
      with IH showNat_zero have "s = ''0''" by simp
      with \<open>hd s \<noteq> CHR ''0''\<close> show False by simp
    qed
    with c IH show ?thesis by (subst showNat.simps) (simp add: digitChar_digitVal)
  qed
qed simp

lemma octet_Some: "octet s = Some n \<Longrightarrow> s = showNat n \<and> n \<le> 255"
  using showNat_read [of s]
  by (auto simp: octet_def parseDigits_def split: if_splits)

lemma parseIPv4_Some:
  "parseIPv4 s = Some w \<Longrightarrow> \<exists>a b c e. a \<le> 255 \<and> b \<le> 255 \<and> c \<le> 255 \<and> e \<le> 255 \<and> s = dotted a b c e"
  using splitOn_join [of "CHR ''.''" s]
  by (auto simp: parseIPv4_def dotted_def split: list.splits option.splits dest!: octet_Some) blast

text \<open>The signed text determines the time and the body: a time has no dot.\<close>

lemma signedText_inject:
  assumes "signedText (showNat t) body = signedText (showNat t') body'"
  shows "t = t' \<and> body = body'"
proof -
  have "\<forall>c \<in> set (showNat n). c \<noteq> CHR ''.''" for n using showNat_digits [of n] by (auto simp: isDigit_def)
  then have "takeWhile (\<lambda>c. c \<noteq> CHR ''.'') (signedText (showNat n) b) = showNat n" for n b
    by (simp add: signedText_def takeWhile_append2)
  with assms have "showNat t = showNat t'" by metis
  with assms show ?thesis by (simp add: showNat_inject signedText_def)
qed

section \<open>Properties\<close>

text \<open>C28. The check on resolved addresses accepts exactly the dotted IPv4 addresses (four decimal numbers up
  to 255, in their only spelling) outside the reserved ranges: this network, private, loopback,
  link-local, carrier-grade NAT, documentation, benchmarking, relay, multicast and class E.\<close>

theorem public_address_iff:
  "isPublicIPv4 address \<longleftrightarrow>
    (\<exists>a b c e. a \<le> 255 \<and> b \<le> 255 \<and> c \<le> 255 \<and> e \<le> 255 \<and> address = dotted a b c e \<and> \<not> reserved a b c)"
proof
  assume l: "isPublicIPv4 address"
  then obtain w where "parseIPv4 address = Some w" by (auto simp: isPublicIPv4_def split: option.splits)
  from parseIPv4_Some [OF this] obtain a b c e where
    r: "a \<le> 255" "b \<le> 255" "c \<le> 255" "e \<le> 255" and "address = dotted a b c e" by blast
  with l show "\<exists>a b c e. a \<le> 255 \<and> b \<le> 255 \<and> c \<le> 255 \<and> e \<le> 255 \<and> address = dotted a b c e \<and> \<not> reserved a b c"
    using blocked_iff [OF r] by (auto simp: isPublicIPv4_def parseIPv4_dotted [OF r])
next
  assume "\<exists>a b c e. a \<le> 255 \<and> b \<le> 255 \<and> c \<le> 255 \<and> e \<le> 255 \<and> address = dotted a b c e \<and> \<not> reserved a b c"
  then show "isPublicIPv4 address" by (auto simp: isPublicIPv4_def parseIPv4_dotted blocked_iff)
qed

lemma resolve_public: "resolve net url = (t, Inr address) \<Longrightarrow> isPublicIPv4 address"
  by (auto simp: resolve_def list_ex_iff split: prod.splits option.splits if_splits)

lemma parseEndpoint_safe:
  "parseEndpoint net raw = Inr url \<Longrightarrow>
    url_protocol url = ''https:'' \<and> url_port url \<in> {[], ''443''} \<and> dnsName (url_hostname url)"
  by (auto simp: parseEndpoint_def split: option.splits if_splits)

lemma resolve_all_public:
  "resolve net url = (t, Inr address) \<Longrightarrow>
    \<exists>others. net_lookup net (url_hostname url) = (t, Some (address # others)) \<and>
      (\<forall>a \<in> set (address # others). isPublicIPv4 a)"
  by (auto simp: resolve_def list_ex_iff neq_Nil_conv split: prod.splits option.splits if_splits)

text \<open>C27. A request leaves the process only over HTTPS to port 443 of a DNS name for which DNS answered in
  time with public IPv4 addresses and nothing else, and it goes to the first of them: what the network
  would answer to any other request cannot influence the result. An answer that has one address the check
  does not accept, or none at all, is refused as unsafe, wherever in the answer that address is, when a
  subscription is made and when a delivery is sent.\<close>

theorem send_only_public:
  assumes "\<And>url t address others hs b. url_protocol url = ''https:'' \<Longrightarrow> url_port url \<in> {[], ''443''} \<Longrightarrow>
    dnsName (url_hostname url) \<Longrightarrow> net_lookup net (url_hostname url) = (t, Some (address # others)) \<Longrightarrow>
    t < DEADLINE \<Longrightarrow> (\<forall>a \<in> set (address # others). isPublicIPv4 a) \<Longrightarrow>
    net_request net url address hs b = request url address hs b"
  shows "send (net\<lparr>net_request := request\<rparr>) raw body headers = send net raw body headers \<and>
    (\<forall>url t addresses. parseEndpoint net raw = Inr url \<and> net_lookup net (url_hostname url) = (t, Some addresses) \<and>
       t < DEADLINE \<and> (addresses = [] \<or> (\<exists>a \<in> set addresses. \<not> isPublicIPv4 a)) \<longrightarrow>
       send net raw body headers = Inl UNSAFE_ENDPOINT \<and> validateEndpoint net raw = Inl UNSAFE_ENDPOINT)"
proof
  have parse: "parseEndpoint (net\<lparr>net_request := request\<rparr>) raw = parseEndpoint net raw"
    by (simp add: parseEndpoint_def cong: option.case_cong if_cong)
  have res: "resolve (net\<lparr>net_request := request\<rparr>) url = resolve net url" for url by (simp add: resolve_def)
  show "send (net\<lparr>net_request := request\<rparr>) raw body headers = send net raw body headers"
  proof (cases "parseEndpoint net raw")
    case (Inr url)
    note safe = parseEndpoint_safe [OF Inr]
    have "pinnedRequest (net\<lparr>net_request := request\<rparr>) url body headers (resolve net url) =
        pinnedRequest net url body headers (resolve net url)"
      using assms safe resolve_all_public [of net url]
      by (fastforce simp: pinnedRequest_def split: prod.splits sum.splits)
    with Inr parse res show ?thesis by (simp add: send_def)
  qed (simp add: send_def parse)
next
  show "\<forall>url t addresses. parseEndpoint net raw = Inr url \<and> net_lookup net (url_hostname url) = (t, Some addresses) \<and>
       t < DEADLINE \<and> (addresses = [] \<or> (\<exists>a \<in> set addresses. \<not> isPublicIPv4 a)) \<longrightarrow>
       send net raw body headers = Inl UNSAFE_ENDPOINT \<and> validateEndpoint net raw = Inl UNSAFE_ENDPOINT"
    by (auto simp: send_def validateEndpoint_def resolve_def pinnedRequest_def withDeadline_def list_ex_iff)
qed

definition net0 :: network where
  "net0 = \<lparr>net_URL = (\<lambda>raw. Some \<lparr>url_protocol = ''https:'', url_hostname = ''a.b'', url_port = [], url_username = [],
       url_password = [], url_hash = []\<rparr>),
     net_isIPv6 = (\<lambda>_. False), net_lookup = (\<lambda>_. (20, Some [''8.8.8.8''])),
     net_request = (\<lambda>_ a _ _. (30, if isPublicIPv4 a then Reply (Some 204) else SocketError))\<rparr>"

text \<open>DNS that answers with a private address after a public one.\<close>

definition mixed0 :: network where
  "mixed0 = net0\<lparr>net_lookup := \<lambda>_. (20, Some [''8.8.8.8'', ''10.0.0.1''])\<rparr>"

lemma mixed0_facts:
  "parseEndpoint mixed0 ''https://a.b'' = Inr \<lparr>url_protocol = ''https:'', url_hostname = ''a.b'', url_port = [],
     url_username = [], url_password = [], url_hash = []\<rparr>"
  "isPublicIPv4 ''8.8.8.8''" "\<not> isPublicIPv4 ''10.0.0.1''"
proof -
  show "parseEndpoint mixed0 ''https://a.b'' = Inr \<lparr>url_protocol = ''https:'', url_hostname = ''a.b'', url_port = [],
     url_username = [], url_password = [], url_hash = []\<rparr>" by code_simp
  have "''8.8.8.8'' = dotted 8 8 8 8" "''10.0.0.1'' = dotted 10 0 0 1" by code_simp+
  then show "isPublicIPv4 ''8.8.8.8''" "\<not> isPublicIPv4 ''10.0.0.1''" by (simp_all add: public_dotted reserved_def)
qed

lemma send_only_public_witness:
  "send (net0\<lparr>net_request := \<lambda>_ _ _ _. (30, Reply (Some 204))\<rparr>) ''https://a.b'' ''x'' [] = send net0 ''https://a.b'' ''x'' [] \<and>
   send (mixed0\<lparr>net_request := \<lambda>_ _ _ _. (30, Reply (Some 204))\<rparr>) ''https://a.b'' ''x'' [] = send mixed0 ''https://a.b'' ''x'' [] \<and>
   send mixed0 ''https://a.b'' ''x'' [] = Inl UNSAFE_ENDPOINT"
proof -
  let ?ok = "\<lambda>_ _ _ _. (30, Reply (Some 204))"
  have "send (net0\<lparr>net_request := ?ok\<rparr>) ''https://a.b'' ''x'' [] = send net0 ''https://a.b'' ''x'' []"
    by (rule send_only_public [THEN conjunct1]) (simp add: net0_def)
  moreover have "send (mixed0\<lparr>net_request := ?ok\<rparr>) ''https://a.b'' ''x'' [] = send mixed0 ''https://a.b'' ''x'' [] \<and>
      (\<forall>url t addresses. parseEndpoint mixed0 ''https://a.b'' = Inr url \<and> net_lookup mixed0 (url_hostname url) = (t, Some addresses) \<and>
       t < DEADLINE \<and> (addresses = [] \<or> (\<exists>a \<in> set addresses. \<not> isPublicIPv4 a)) \<longrightarrow>
       send mixed0 ''https://a.b'' ''x'' [] = Inl UNSAFE_ENDPOINT \<and> validateEndpoint mixed0 ''https://a.b'' = Inl UNSAFE_ENDPOINT)"
    by (rule send_only_public) (simp add: mixed0_def net0_def)
  moreover have "net_lookup mixed0 h = (20, Some [''8.8.8.8'', ''10.0.0.1''])" for h by (simp add: mixed0_def)
  ultimately show ?thesis using mixed0_facts by (simp add: DEADLINE_def)
qed

text \<open>A secret sealed with the configured key opens again to itself, and sealing works whenever signing is
  enabled.\<close>

theorem secret_roundtrip:
  assumes laws: "length (cr_randomBytes cr 12) = 12" "\<And>x. cr_unbase64 cr (cr_base64 cr x) = x"
    "\<And>key iv x. length (fst (cr_seal cr key iv x)) = 16"
    "\<And>key iv x. cr_open cr key iv (fst (cr_seal cr key iv x)) (snd (cr_seal cr key iv x)) = Some x"
    and enabled: "signingEnabled cr"
  shows "\<exists>sealed. encryptSecret cr secret = Inr sealed \<and> decryptSecret cr sealed = Inr secret"
proof -
  from enabled obtain key where key: "cryptoKey cr = Inr key"
    by (auto simp: cryptoKey_def signingEnabled_def split: option.splits)
  have "take 16 (drop 12 (cr_randomBytes cr 12 @ tag @ c)) = tag" "drop 28 (cr_randomBytes cr 12 @ tag @ c) = c"
    if "length tag = 16" for tag c using that laws(1) by simp_all
  with laws key show "\<exists>sealed. encryptSecret cr secret = Inr sealed \<and> decryptSecret cr sealed = Inr secret"
    by (simp add: encryptSecret_def decryptSecret_def Let_def)
qed

definition crypto0 :: crypto where
  "crypto0 = \<lparr>cr_encryptionKey = Some (replicate 64 CHR ''a''), cr_randomHex = (\<lambda>n. replicate (2 * n) CHR ''0''),
     cr_randomBytes = (\<lambda>n. replicate n CHR ''r''), cr_seal = (\<lambda>key iv x. (replicate 16 CHR ''t'', rev x)),
     cr_open = (\<lambda>key iv tag x. if tag = replicate 16 CHR ''t'' then Some (rev x) else None),
     cr_hmac = (\<lambda>key x. x), cr_base64 = (\<lambda>x. x), cr_unbase64 = (\<lambda>x. x)\<rparr>"

lemma secret_roundtrip_witness:
  "\<exists>sealed. encryptSecret crypto0 ''s3cret'' = Inr sealed \<and> decryptSecret crypto0 sealed = Inr ''s3cret''"
  by (rule secret_roundtrip)
    (simp_all add: crypto0_def signingEnabled_def hexChar_def digitVal_def isDigit_def list_all_iff)

end
