(* ===== verification/ApiSamples.thy ===== *)
theory ApiSamples
  imports System EndpointClaims IntentClaims
begin

text \<open>
  A sample process: its surroundings, sound books, and a transfer request of an authenticated user.
\<close>

definition api0 :: api where
  "api0 = \<lparr>ap_jwt = jwt0, ap_scrypt = scrypt0, ap_salt = replicate 16 CHR ''s'', ap_rate = Count 1, ap_rateLimit = 60,
     ap_guardError = None, ap_authorization = Some (''Bearer '' @ toBase64url ''u1'' @ ''.'' @ toBase64url ''access''),
     ap_idempotencyKey = Some ''k-1'', ap_isUuid = (\<lambda>_. True), ap_runtime = rt0, ap_abort = None,
     ap_others = (\<lambda>_ d. d), ap_observed = (\<lambda>_. db0), ap_provider = mock_env, ap_settlement = (\<lambda>_. alone rt0),
     ap_crypto = crypto0, ap_network = net0\<rparr>"

lemma db0_books: "books_ok db0"
  using db0_ok db0_identity
  by (simp add: books_ok_def payments_ok_def payments_linked_def payment_pk.unique_def) (simp add: db0_def)

lemma caller0:
  "canActivate jwt0 1000 None (Some (''Bearer '' @ toBase64url ''u1'' @ ''.'' @ toBase64url ''access'')) db0 =
    (Inr \<lparr>au_id = ''u1'', au_email = ''a@b.c''\<rparr>, db0)"
  by code_simp

lemma request0_runs:
  "handle api0 (TransfersRoute (CreateTransfer transfer0)) db0 =
    (Inr (TransferR (toTransferResponse (newTransfer rt0 ''u1'' request0 route0 (rt_uuid rt0 2)))),
     after_transfer rt0 ''u1'' ''k-1'' request0 route0 ledger0 db0)"
proof -
  have now: "rt_now rt0 = 1000" by (simp add: rt0_def)
  show ?thesis
    using caller0 transfer0_runs
    by (simp add: api0_def guarded_def mapResponse_def andThen_def modify_def return_def now)
qed

lemma run0: "system_run db0 (after_transfer rt0 ''u1'' ''k-1'' request0 route0 ledger0 db0)"
proof (rule system_run.request [OF _ _ _ request0_runs])
  show "uuid_source (ap_runtime api0)" using uuid_source_rt0 by (simp add: api0_def)
qed (simp_all add: api0_def system_run.idle)

end
