(* ===== verification/RequestClaims.thy ===== *)
theory RequestClaims
  imports Requests ApiSamples
begin

text \<open>
  What the validation pipe guarantees to the services and to the database behind them, and a
  registration from the body of the request to its response.
\<close>

section \<open>Accepted fields\<close>

lemma stringField_Some: "stringField f p v = Some s \<Longrightarrow> p s \<and> (\<exists>t. s = f t)"
  by (auto simp: stringField_def split: option.splits json.splits if_splits)

lemma optionalField_Some: "optionalField f p v = Some r \<Longrightarrow> r = None \<or> (\<exists>t. r = Some (f t) \<and> p (f t))"
  by (auto simp: optionalField_def dest: stringField_Some split: if_splits)

lemma validated_Inr: "validated pp known body r = Inr x \<longleftrightarrow> r = Some x \<and> list_all (\<lambda>kv. fst kv \<in> set known) body"
  by (auto simp: validated_def split: option.splits)

lemma validated_Inl: "validated pp known body r = Inl e \<Longrightarrow> \<exists>m. e = BadRequest m"
  by (auto simp: validated_def split: option.splits if_splits)

definition amount_given :: "string \<Rightarrow> bool" where
  "amount_given s \<longleftrightarrow> (\<exists>v. 0 < v \<and> js_BigInt s = Some v \<and> js_showInt v = s)"

lemma amountField_given: "amountField v = Some s \<Longrightarrow> amount_given s"
  using positiveDecimal_canonical [of 18 s]
  by (auto simp: amountField_def amount_given_def dest!: stringField_Some)

definition trimmed :: "string \<Rightarrow> bool" where
  "trimmed s \<longleftrightarrow> s \<noteq> [] \<and> js_trim s = s \<and> s = sql_btrim s"

lemma trimmed_field: "lengthIn (Suc 0) n (js_trim s) \<Longrightarrow> trimmed (js_trim s)"
  by (auto simp: lengthIn_def trimmed_def sql_btrim_trimmed)

section \<open>What each route gets\<close>

text \<open>Column widths and checks of the database are stated with its own predicates.\<close>

fun route_ok :: "pipe \<Rightarrow> route_of \<Rightarrow> bool" where
  "route_ok pp (AuthRoute (Register i)) \<longleftrightarrow>
     pp_isEmail pp (ri_email i) \<and> ri_email i = js_toLowerCase (sql_btrim (ri_email i)) \<and>
     normalizeEmail (ri_email i) = ri_email i \<and> varchar_fits 320 (ri_email i) \<and>
     12 \<le> length (ri_password i) \<and> length (ri_password i) \<le> 256 \<and>
     trimmed (ri_firstName i) \<and> varchar_fits 80 (ri_firstName i) \<and> trimmed (ri_lastName i) \<and> varchar_fits 80 (ri_lastName i)"
| "route_ok pp (AuthRoute (Login i)) \<longleftrightarrow> normalizeEmail (li_email i) = li_email i \<and> length (li_password i) \<le> 256"
| "route_ok pp (BeneficiariesRoute (CreateBeneficiary w l)) \<longleftrightarrow> pp_isUUID pp ''4'' w \<and> varchar_fits 80 l \<and> label_ok l"
| "route_ok pp (TransfersRoute (CreateTransfer i)) \<longleftrightarrow>
     pp_isUUID pp ''4'' (ct_sourceWalletId i) \<and> amount_given (ct_amountMinor i) \<and>
     (\<forall>w. ct_destinationWalletId i = Some w \<longrightarrow> pp_isUUID pp ''4'' w) \<and>
     (\<forall>b. ct_beneficiaryId i = Some b \<longrightarrow> pp_isUUID pp ''4'' b)"
| "route_ok pp (ReversalsRoute (CreateReversal t reason)) \<longleftrightarrow> (\<forall>s. reason = Some s \<longrightarrow> trimmed s \<and> varchar_fits 255 s)"
| "route_ok pp (AuditRoute limit cursor) \<longleftrightarrow> limit \<in> {1..100}"
| "route_ok pp (PaymentsRoute (CreatePayment i)) \<longleftrightarrow> pp_isUUID pp ''all'' (cp_walletId i) \<and> amount_given (cp_amountMinor i)"
| "route_ok pp (PaymentsRoute (ListPayments limit cursor)) \<longleftrightarrow> limit \<in> {1..100}"
| "route_ok pp (PaymentsRoute (ListEvents t limit cursor)) \<longleftrightarrow> limit \<in> {1..100}"
| "route_ok pp (WebhooksRoute (CreateWebhook url)) \<longleftrightarrow> varchar_fits 2048 url"
| "route_ok pp (WebhooksRoute (ListDeliveries t limit cursor)) \<longleftrightarrow> limit \<in> {1..100}"
| "route_ok pp _ \<longleftrightarrow> True"

lemma registerDto_ok:
  assumes "registerDto pp body = Inr i"
  shows "route_ok pp (AuthRoute (Register i))"
proof -
  have "stringField normalizeEmail (\<lambda>s. pp_isEmail pp s \<and> length s \<le> 320) (map_of body ''email'') = Some (ri_email i)"
    "stringField id (lengthIn 12 256) (map_of body ''password'') = Some (ri_password i)"
    "stringField js_trim (lengthIn 1 80) (map_of body ''firstName'') = Some (ri_firstName i)"
    "stringField js_trim (lengthIn 1 80) (map_of body ''lastName'') = Some (ri_lastName i)"
    using assms by (auto simp: registerDto_def validated_Inr split: option.splits)
  note fields = this [THEN stringField_Some]
  from fields(1) have "pp_isEmail pp (ri_email i)" "varchar_fits 320 (ri_email i)"
    "normalizeEmail (ri_email i) = ri_email i" "ri_email i = js_toLowerCase (sql_btrim (ri_email i))"
    using normalizeEmail_canonical by (auto simp: varchar_fits_def normalizeEmail_idem)
  moreover from fields(2) have "12 \<le> length (ri_password i)" "length (ri_password i) \<le> 256" by (simp_all add: lengthIn_def)
  moreover from fields(3,4) have "trimmed (ri_firstName i)" "varchar_fits 80 (ri_firstName i)" "trimmed (ri_lastName i)" "varchar_fits 80 (ri_lastName i)"
    using trimmed_field [of 80] by (auto simp: varchar_fits_def lengthIn_def)
  ultimately show ?thesis by simp
qed

lemma bodies_ok:
  "loginDto pp body = Inr j \<Longrightarrow> route_ok pp (AuthRoute (Login j))"
  "createBeneficiaryDto pp body = Inr (w, l) \<Longrightarrow> route_ok pp (BeneficiariesRoute (CreateBeneficiary w l))"
  "createReversalDto pp body = Inr reason \<Longrightarrow> route_ok pp (ReversalsRoute (CreateReversal t reason))"
  "createPaymentDto pp body = Inr p \<Longrightarrow> route_ok pp (PaymentsRoute (CreatePayment p))"
  "createWebhookDto pp body = Inr url \<Longrightarrow> route_ok pp (WebhooksRoute (CreateWebhook url))"
proof -
  show "loginDto pp body = Inr j \<Longrightarrow> route_ok pp (AuthRoute (Login j))"
    by (auto simp: loginDto_def validated_Inr normalizeEmail_idem dest!: stringField_Some split: option.splits)
  show "createBeneficiaryDto pp body = Inr (w, l) \<Longrightarrow> route_ok pp (BeneficiariesRoute (CreateBeneficiary w l))"
    using trimmed_field [of 80]
    by (auto simp: createBeneficiaryDto_def validated_Inr lengthIn_def varchar_fits_def label_ok_def trimmed_def Suc_le_eq
        dest!: stringField_Some split: option.splits)
  show "createReversalDto pp body = Inr reason \<Longrightarrow> route_ok pp (ReversalsRoute (CreateReversal t reason))"
    using trimmed_field [of 255]
    by (auto simp: createReversalDto_def validated_Inr varchar_fits_def lengthIn_def dest!: optionalField_Some)
  show "createPaymentDto pp body = Inr p \<Longrightarrow> route_ok pp (PaymentsRoute (CreatePayment p))"
    by (auto simp: createPaymentDto_def validated_Inr dest!: stringField_Some amountField_given split: option.splits)
  show "createWebhookDto pp body = Inr url \<Longrightarrow> route_ok pp (WebhooksRoute (CreateWebhook url))"
    by (auto simp: createWebhookDto_def validated_Inr varchar_fits_def dest!: stringField_Some)
qed

lemma createTransferDto_ok: "createTransferDto pp body = Inr i \<Longrightarrow> route_ok pp (TransfersRoute (CreateTransfer i))"
  by (auto simp: createTransferDto_def validated_Inr
      dest!: stringField_Some optionalField_Some amountField_given split: option.splits)

lemma pageDto_ok: "pageDto pp q = Inr (limit, cursor) \<Longrightarrow> limit \<in> {1..100}"
  by (cases "parameterOf ''limit'' q") (auto simp: pageDto_def split: option.splits if_splits)

lemma parseRequest_ok: "parseRequest pp e = Inr route \<Longrightarrow> route_ok pp route"
  using registerDto_ok bodies_ok createTransferDto_ok pageDto_ok
  by (cases e) (fastforce simp: ebind_eq_Inr)+

lemma parseRequest_refused: "parseRequest pp e = Inl err \<Longrightarrow> \<exists>m. err = BadRequest m"
proof (cases e)
  case (PostTransfers body)
  assume "parseRequest pp e = Inl err"
  with PostTransfers show ?thesis by (auto simp: createTransferDto_def ebind_eq_Inl dest: validated_Inl)
qed (auto simp: ebind_eq_Inl registerDto_def loginDto_def createWalletDto_def createBeneficiaryDto_def createReversalDto_def
  createPaymentDto_def createWebhookDto_def pageDto_def dest: validated_Inl split: option.splits if_splits prod.splits)

lemma handleRequest_refused:
  assumes "parseRequest pp e = Inl err" and run: "handleRequest ap pp e d = (r, d')"
  shows "(\<exists>s m. r = Inl (HttpException s m) \<and> s \<in> {400, 401, 429, 503}) \<and> (d' = d \<or> d' = ap_others ap 0 d)"
proof -
  from parseRequest_refused [OF assms(1)] obtain m where err: "err = BadRequest m" by blast
  have "authRateGuard ap (raise err) d = (r, d') \<or> guarded ap (\<lambda>_. raise err) d = (r, d')"
    using run assms(1) by (cases e) (simp_all add: handleRequest_def)
  then show ?thesis
  proof
    assume "authRateGuard ap (raise err) d = (r, d')"
    then show ?thesis by (auto simp: authRateGuard_def err raise_def split: rate_reply.splits if_splits)
  next
    assume "guarded ap (\<lambda>_. raise err) d = (r, d')"
    from guarded_run [OF this] show ?thesis by (auto simp: err raise_def)
  qed
qed

section \<open>The properties\<close>


text \<open>
  C32. A registration whose body passes the pipe is served: unless the address is taken, it returns
  a token and the new user, in the canonical spelling of the given address, and neither a
  column width nor a check of the database can refuse what the pipe accepted. The one exception is U+0000, which
  the pipe lets through in a name and no text column of PostgreSQL takes: then nothing is written, and the
  error is not an HTTP exception, so the caller gets status 500. Relied on: \<open>scrypt\<close> returns keys of
  the requested length, tokens can be signed, and drawn ids are fresh.
\<close>

theorem registration_served:
  assumes body: "registerDto pp body = Inr input"
    and rate: "ap_rate ap = Count n" "n \<le> ap_rateLimit ap"
    and ok: "ledger_ok (ap_others ap 0 d)" "\<forall>k. rt_uuid (ap_runtime ap) k \<notin> u_id ` set (users (ap_others ap 0 d)) \<and>
      rt_uuid (ap_runtime ap) k \<notin> la_id ` set (accounts (ap_others ap 0 d)) \<and>
      rt_uuid (ap_runtime ap) k \<notin> w_id ` set (wallets (ap_others ap 0 d)) \<and>
      rt_uuid (ap_runtime ap) k \<notin> w_userId ` set (wallets (ap_others ap 0 d))"
    and free: "ri_email input \<notin> u_email ` set (users d)" "ri_email input \<notin> u_email ` set (users (ap_others ap 0 d))"
    and key: "derive (ap_scrypt ap) (ri_password input) (ap_salt ap) = Inr key" "length key = KEY_LENGTH" "length (ap_salt ap) = 16"
    and sign: "\<forall>u. \<exists>t. issueAccessToken (ap_jwt ap) (rt_now (ap_runtime ap)) u = Inr t"
    and alive: "ap_abort ap = None"
  shows "if no_nul (ri_email input) \<and> no_nul (ri_firstName input) \<and> no_nul (ri_lastName input)
    then \<exists>res d'. handleRequest ap pp (PostRegister body) d = (Inr (RegisterR res), d') \<and>
      su_email (ar_user res) = ri_email input \<and> su_firstName (ar_user res) = ri_firstName input
    else \<exists>e. handleRequest ap pp (PostRegister body) d = (Inl e, ap_others ap 0 d) \<and> (\<forall>s m. e \<noteq> HttpException s m)"
proof -
  let ?e = "ap_others ap 0 d" and ?rt = "ap_runtime ap"
  let ?acc = "newAccount input (encodeHash (ap_salt ap) key)"
  have fits: "normalizeEmail (ri_email input) = ri_email input" "varchar_fits 320 (ri_email input)"
    "js_trim (ri_firstName input) = ri_firstName input" "varchar_fits 80 (ri_firstName input)"
    "js_trim (ri_lastName input) = ri_lastName input" "varchar_fits 80 (ri_lastName input)"
    using registerDto_ok [OF body] by (simp_all add: trimmed_def)
  have fresh: "findByEmailWithPassword (normalizeEmail (ri_email input)) d = (Inr None, d)"
    using free(1) by (auto simp: findByEmailWithPassword_def query_def fits(1) findRow_None image_iff)
  show ?thesis
  proof (cases "no_nul (ri_email input) \<and> no_nul (ri_firstName input) \<and> no_nul (ri_lastName input)")
    case plain: True
    let ?c = "case cu_currency ?acc of None \<Rightarrow> USD | Some c \<Rightarrow> c"
    have "can_open ?rt 1 (rt_uuid ?rt 0) ?c (?e\<lparr>users := users ?e @ [registered_user ?rt ?acc]\<rparr>)"
      using ok(2) by (auto simp: can_open_def registered_user_def)
    from registration_runs [OF ok(1) this] obtain w d' where
      "createWithInitialWallet ?rt None ?acc ?e = (Inr (toSafeUser (registered_user ?rt ?acc), w), d')"
      using ok(2) free(2) fits plain length_encodeHash [OF key(3,2)]
      by (auto simp: newAccount_def varchar_ok_def varchar_fits_def encodeHash_no_nul)
    moreover obtain t where "issueAccessToken (ap_jwt ap) (rt_now ?rt) (toSafeUser (registered_user ?rt ?acc)) = Inr t"
      using sign by blast
    ultimately have "register (ap_scrypt ap) (ap_jwt ap) ?rt (ap_salt ap) (ap_others ap 0) None input d =
        (Inr \<lparr>ar_token = t, ar_user = toSafeUser (registered_user ?rt ?acc), rr_initialWallet = toWalletResponse w\<rparr>, d')"
      using fresh key(1)
      by (simp add: register_def createAccount_def hashPassword_def andThen_def tryCatch_def lift_def op_simps)
    then have "handle ap (AuthRoute (Register input)) d =
        (Inr (RegisterR \<lparr>ar_token = t, ar_user = toSafeUser (registered_user ?rt ?acc), rr_initialWallet = toWalletResponse w\<rparr>), d')"
      using rate alive by (simp add: authRateGuard_def mapResponse_def andThen_def return_def)
    with plain show ?thesis
      using body fits by (auto simp: handleRequest_def toSafeUser_def registered_user_def newAccount_def)
  next
    case bad: False
    then have "createWithInitialWallet ?rt None ?acc ?e = (Inl OutOfRange, ?e)"
      using fits by (intro registration_refused) (auto simp: newAccount_def varchar_ok_def)
    then have "register (ap_scrypt ap) (ap_jwt ap) ?rt (ap_salt ap) (ap_others ap 0) None input d = (Inl OutOfRange, ?e)"
      using fresh key(1)
      by (simp add: register_def createAccount_def hashPassword_def andThen_def tryCatch_def lift_def op_simps isUniqueViolation_def)
    then have "handle ap (AuthRoute (Register input)) d = (Inl OutOfRange, ?e)"
      using rate alive by (simp add: authRateGuard_def mapResponse_def andThen_def return_def)
    then have "handleRequest ap pp (PostRegister body) d = (Inl OutOfRange, ?e)" using body by (simp add: handleRequest_def)
    with bad show ?thesis by (simp only: if_False) blast
  qed
qed

section \<open>Witnesses\<close>

definition pipe0 :: pipe where
  "pipe0 = \<lparr>pp_isEmail = (\<lambda>s. CHR ''@'' \<in> set s), pp_isUUID = (\<lambda>_ s. s \<noteq> []), pp_message = (\<lambda>_. ''Bad Request''),
     pp_queryMessage = (\<lambda>_. ''Bad Request'')\<rparr>"

definition body0 :: "(string \<times> json) list" where
  "body0 = [(''email'', JStr '' New@B.c''), (''password'', JStr ''correct-horse''), (''firstName'', JStr '' N ''),
     (''lastName'', JStr ''U''), (''currency'', JNull)]"

lemma pipe_samples:
  "parseRequest pipe0 (PostLogin (body0 @ [(''role'', JStr ''admin'')])) = Inl (BadRequest ''Bad Request'')"
  "parseRequest pipe0 (GetAudit [(''limit'', ''2e1''), (''cursor'', ''c'')]) = Inr (AuditRoute 20 (Some ''c''))"
  "parseRequest pipe0 (GetAudit [(''limit'', ''101'')]) = Inl (BadRequest ''Bad Request'')"
  "parseRequest pipe0 (GetAudit [(''limit'', ''5''), (''limit'', ''5'')]) = Inl (BadRequest ''Bad Request'')"
  "parseRequest pipe0 (PostPayments [(''walletId'', JStr ''w''), (''amountMinor'', JStr ''0x10'')]) = Inl (BadRequest ''Bad Request'')"
  by code_simp+

lemma body0_input: "registerDto pipe0 body0 =
  Inr \<lparr>ri_email = ''new@b.c'', ri_password = ''correct-horse'', ri_firstName = ''N'', ri_lastName = ''U'', ri_currency = None\<rparr>"
  by code_simp


text \<open>The same body with U+0000 in the first name.\<close>

definition bodyNul :: "(string \<times> json) list" where
  "bodyNul = [(''email'', JStr ''new@b.c''), (''password'', JStr ''correct-horse''), (''firstName'', JStr [CHR ''A'', CHR 0x00]),
     (''lastName'', JStr ''U''), (''currency'', JNull)]"

lemma bodyNul_input: "registerDto pipe0 bodyNul =
  Inr \<lparr>ri_email = ''new@b.c'', ri_password = ''correct-horse'', ri_firstName = [CHR ''A'', CHR 0x00], ri_lastName = ''U'', ri_currency = None\<rparr>"
  by code_simp

lemma registration_served_witness:
  "(\<exists>res d'. handleRequest api0 pipe0 (PostRegister body0) db0 = (Inr (RegisterR res), d') \<and> su_email (ar_user res) = ''new@b.c'') \<and>
   (\<exists>e. handleRequest api0 pipe0 (PostRegister bodyNul) db0 = (Inl e, db0))"
proof -
  obtain key where key: "derive scrypt0 ''correct-horse'' (replicate 16 CHR ''s'') = Inr key"
    by (simp add: derive_def scrypt0_def)
  note served = registration_served [where pp = pipe0 and ap = api0 and n = 1 and d = db0 and key = key]
  have nuls: "no_nul ''new@b.c''" "no_nul ''N''" "no_nul ''U''" "\<not> no_nul [CHR ''A'', CHR 0x00]" by (simp_all add: no_nul_def)
  have "\<exists>res d'. handleRequest api0 pipe0 (PostRegister body0) db0 = (Inr (RegisterR res), d') \<and>
    su_email (ar_user res) = ''new@b.c'' \<and> su_firstName (ar_user res) = ''N''"
    using served [OF body0_input] db0_ok key scrypt0_length [OF key] nuls
    by (simp add: api0_def issueAccessToken_def jwt0_def) (simp add: db0_def sample_defs)
  moreover have "\<exists>e. handleRequest api0 pipe0 (PostRegister bodyNul) db0 = (Inl e, db0)"
    using served [OF bodyNul_input] db0_ok key scrypt0_length [OF key] nuls
    by (simp add: api0_def issueAccessToken_def jwt0_def) (auto simp: db0_def sample_defs)
  ultimately show ?thesis by blast
qed

end
