(* ===== verification/Configuration.thy ===== *)
theory Configuration
  imports Providers WebhookTransport JsNumber
begin

text \<open>
  \<open>src/config/env.validation.ts\<close>: the environment that the process is started with, and what
  \<open>src/main.ts\<close> reads from it. Values of the environment are strings, as in \<open>process.env\<close>.

  The combinators of \<open>zod\<close> are the functions of the first section; the texts that \<open>zod\<close> itself
  reports for a field, and the URL parser, are arguments.
\<close>

section \<open>Fields\<close>

text \<open>\<open>z.coerce.number().int().min(lo).max(hi).default(v)\<close>\<close>

definition coercedInt :: "int \<Rightarrow> int \<Rightarrow> int \<Rightarrow> string option \<Rightarrow> int option" where
  "coercedInt lo hi v value =
     (case value of
        None \<Rightarrow> Some v
      | Some s \<Rightarrow> (case integerValue (js_Number s) of
                     None \<Rightarrow> None
                   | Some n \<Rightarrow> if lo \<le> n \<and> n \<le> hi then Some n else None))"

text \<open>\<open>z.enum(names).default(v)\<close>, a required string, and a string with a default.\<close>

definition enumOr :: "string list \<Rightarrow> string \<Rightarrow> string option \<Rightarrow> string option" where
  "enumOr names v value = (case value of None \<Rightarrow> Some v | Some s \<Rightarrow> if s \<in> set names then Some s else None)"

definition requiredString :: "(string \<Rightarrow> bool) \<Rightarrow> string option \<Rightarrow> string option" where
  "requiredString p value = (case value of None \<Rightarrow> None | Some s \<Rightarrow> if p s then Some s else None)"

definition stringOr :: "(string \<Rightarrow> bool) \<Rightarrow> string \<Rightarrow> string option \<Rightarrow> string option" where
  "stringOr p v value = (case value of None \<Rightarrow> Some v | Some s \<Rightarrow> if p s then Some s else None)"

text \<open>\<open>z.string()...optional()\<close>; the outer option is acceptance.\<close>

definition optionalString :: "(string \<Rightarrow> bool) \<Rightarrow> string option \<Rightarrow> string option option" where
  "optionalString p value = (case value of None \<Rightarrow> Some None | Some s \<Rightarrow> if p s then Some (Some s) else None)"

definition blankIsMissing :: "string option \<Rightarrow> string option" where
  "blankIsMissing value = (if value = Some [] then None else value)"

definition exampleJwtSecret :: string where
  "exampleJwtSecret = ''replace-with-at-least-32-random-characters''"

section \<open>The schema\<close>

record environment =
  cf_AUTH_RATE_LIMIT :: int
  cf_API_DOCS_ENABLED :: "string option"
  cf_METRICS_TOKEN :: "string option"
  cf_PAYMENT_PROVIDER :: string
  cf_PAYSTACK_SECRET_KEY :: "string option"
  cf_MOCK_PROVIDER_WEBHOOK_SECRET :: "string option"
  cf_NODE_ENV :: string
  cf_PORT :: int
  cf_DATABASE_URL :: string
  cf_JWT_ACCESS_SECRET :: string
  cf_JWT_ACCESS_TTL_SECONDS :: int
  cf_CORS_ORIGIN :: string
  cf_LOG_LEVEL :: string
  cf_WEBHOOK_ENCRYPTION_KEY :: "string option"
  cf_REDIS_URL :: string
  cf_OUTBOX_POLL_INTERVAL_MS :: int

definition environmentFields :: "(string \<Rightarrow> js_url option) \<Rightarrow> (string \<Rightarrow> string option) \<Rightarrow> environment option" where
  "environmentFields parseURL env =
     Option.bind (coercedInt 1 10000 60 (env ''AUTH_RATE_LIMIT'')) (\<lambda>rateLimit.
     Option.bind (optionalString (\<lambda>s. s \<in> {''true'', ''false''}) (env ''API_DOCS_ENABLED'')) (\<lambda>docs.
     Option.bind (optionalString (\<lambda>s. 32 \<le> length s) (blankIsMissing (env ''METRICS_TOKEN''))) (\<lambda>metrics.
     Option.bind (enumOr [''disabled'', ''mock'', ''paystack''] ''disabled'' (env ''PAYMENT_PROVIDER'')) (\<lambda>provider.
     Option.bind (optionalString paystackKeyFormat (blankIsMissing (env ''PAYSTACK_SECRET_KEY''))) (\<lambda>paystackKey.
     Option.bind (optionalString (\<lambda>s. 32 \<le> length s) (blankIsMissing (env ''MOCK_PROVIDER_WEBHOOK_SECRET''))) (\<lambda>mockSecret.
     Option.bind (enumOr [''development'', ''test'', ''production''] ''development'' (env ''NODE_ENV'')) (\<lambda>nodeEnv.
     Option.bind (coercedInt 1 65535 3000 (env ''PORT'')) (\<lambda>port.
     Option.bind (requiredString (\<lambda>s. s \<noteq> []) (env ''DATABASE_URL'')) (\<lambda>databaseUrl.
     Option.bind (requiredString (\<lambda>s. 32 \<le> length s \<and> s \<noteq> exampleJwtSecret) (env ''JWT_ACCESS_SECRET'')) (\<lambda>jwtSecret.
     Option.bind (coercedInt 60 86400 900 (env ''JWT_ACCESS_TTL_SECONDS'')) (\<lambda>ttl.
     Option.bind (stringOr (\<lambda>s. s \<noteq> []) ''http://localhost:3000'' (env ''CORS_ORIGIN'')) (\<lambda>cors.
     Option.bind (enumOr [''fatal'', ''error'', ''warn'', ''info'', ''debug'', ''trace'', ''silent''] ''info'' (env ''LOG_LEVEL'')) (\<lambda>logLevel.
     Option.bind (optionalString (\<lambda>k. length k = 64 \<and> list_all hexChar k) (blankIsMissing (env ''WEBHOOK_ENCRYPTION_KEY''))) (\<lambda>encryptionKey.
     Option.bind (stringOr (\<lambda>s. parseURL s \<noteq> None) ''redis://localhost:6380'' (env ''REDIS_URL'')) (\<lambda>redisUrl.
     Option.bind (coercedInt 100 60000 1000 (env ''OUTBOX_POLL_INTERVAL_MS'')) (\<lambda>poll.
     Some \<lparr>cf_AUTH_RATE_LIMIT = rateLimit, cf_API_DOCS_ENABLED = docs, cf_METRICS_TOKEN = metrics,
       cf_PAYMENT_PROVIDER = provider, cf_PAYSTACK_SECRET_KEY = paystackKey,
       cf_MOCK_PROVIDER_WEBHOOK_SECRET = mockSecret, cf_NODE_ENV = nodeEnv, cf_PORT = port,
       cf_DATABASE_URL = databaseUrl, cf_JWT_ACCESS_SECRET = jwtSecret, cf_JWT_ACCESS_TTL_SECONDS = ttl,
       cf_CORS_ORIGIN = cors, cf_LOG_LEVEL = logLevel, cf_WEBHOOK_ENCRYPTION_KEY = encryptionKey,
       cf_REDIS_URL = redisUrl, cf_OUTBOX_POLL_INTERVAL_MS = poll\<rparr>))))))))))))))))"

text \<open>\<open>url.origin\<close>, for a URL whose scheme has an authority.\<close>

definition js_origin :: "js_url \<Rightarrow> string" where
  "js_origin u = url_protocol u @ ''//'' @ url_hostname u @ (if url_port u = [] then [] else CHR '':'' # url_port u)"

definition httpsOrigin :: "(string \<Rightarrow> js_url option) \<Rightarrow> string \<Rightarrow> bool" where
  "httpsOrigin parseURL value \<longleftrightarrow>
     (case parseURL value of None \<Rightarrow> False | Some url \<Rightarrow> url_protocol url = ''https:'' \<and> js_origin url = value)"

text \<open>The checks across fields, as paths and messages in the order they are added.\<close>

definition environmentIssues :: "(string \<Rightarrow> js_url option) \<Rightarrow> environment \<Rightarrow> (string \<times> string) list" where
  "environmentIssues parseURL c =
     (if cf_NODE_ENV c = ''production'' \<and> \<not> list_all (httpsOrigin parseURL) (map js_trim (splitOn (CHR '','') (cf_CORS_ORIGIN c)))
      then [(''CORS_ORIGIN'', ''Production requires explicit HTTPS origins without paths'')] else []) @
     (if cf_PAYMENT_PROVIDER c = ''paystack'' \<and> \<not> truthy (cf_PAYSTACK_SECRET_KEY c)
      then [(''PAYSTACK_SECRET_KEY'', ''Paystack secret key is required'')] else []) @
     (if cf_NODE_ENV c \<noteq> ''production'' \<and> (case cf_PAYSTACK_SECRET_KEY c of None \<Rightarrow> False | Some k \<Rightarrow> startsWith ''sk_live_'' k)
      then [(''PAYSTACK_SECRET_KEY'', ''Live Paystack keys require production mode'')] else []) @
     (if cf_PAYMENT_PROVIDER c = ''mock'' \<and> cf_NODE_ENV c = ''production''
      then [(''PAYMENT_PROVIDER'', ''Mock payments cannot be enabled in production'')] else []) @
     (if cf_PAYMENT_PROVIDER c = ''mock'' \<and> \<not> truthy (cf_MOCK_PROVIDER_WEBHOOK_SECRET c)
      then [(''MOCK_PROVIDER_WEBHOOK_SECRET'', ''A private mock webhook secret is required'')] else [])"

definition issueText :: "string \<times> string \<Rightarrow> string" where
  "issueText issue = fst issue @ '': '' @ snd issue"

text \<open>\<open>report\<close> is the text of the issues when a field is not as its schema says.\<close>

definition validateEnvironment ::
  "(string \<Rightarrow> js_url option) \<Rightarrow> ((string \<Rightarrow> string option) \<Rightarrow> string) \<Rightarrow> (string \<Rightarrow> string option) \<Rightarrow> exn + environment" where
  "validateEnvironment parseURL report env =
     (case environmentFields parseURL env of
        None \<Rightarrow> Inl (OtherError (''Invalid environment configuration: '' @ report env))
      | Some c \<Rightarrow>
          let issues = environmentIssues parseURL c in
          if issues \<noteq> [] then Inl (OtherError (''Invalid environment configuration: '' @ js_join ''; '' (map issueText issues)))
          else Inr c)"

section \<open>The start of the server\<close>

definition allowedOrigins :: "environment \<Rightarrow> string list" where
  "allowedOrigins c = filter (\<lambda>s. s \<noteq> []) (map js_trim (splitOn (CHR '','') (cf_CORS_ORIGIN c)))"

definition docsEnabled :: "environment \<Rightarrow> bool" where
  "docsEnabled c \<longleftrightarrow> cf_API_DOCS_ENABLED c = Some ''true'' \<or>
     (cf_API_DOCS_ENABLED c \<noteq> Some ''false'' \<and> cf_NODE_ENV c \<noteq> ''production'')"

text \<open>What the framework is told: the prefix of every route, the header that is set on every response (those of \<open>helmet\<close>
  apart), the origins that browsers may call from, the paths of the documentation, and where to listen.\<close>

record server =
  sv_prefix :: string
  sv_responseHeader :: "string \<times> string"
  sv_origins :: "string list"
  sv_credentials :: bool
  sv_docs :: "(string \<times> string) option"
  sv_port :: int
  sv_host :: string

definition bootstrap :: "environment \<Rightarrow> server" where
  "bootstrap c =
     \<lparr>sv_prefix = ''api/v1'', sv_responseHeader = (''Cache-Control'', ''no-store''), sv_origins = allowedOrigins c,
      sv_credentials = False, sv_docs = (if docsEnabled c then Some (''docs'', ''docs-json'') else None),
      sv_port = cf_PORT c, sv_host = ''0.0.0.0''\<rparr>"

text \<open>A start that throws (\<open>None\<close>: something that is not an \<open>Error\<close>) ends the process with a message and exit code 1.\<close>

definition startupFailure :: "string option \<Rightarrow> string \<times> nat" where
  "startupFailure message =
     (''Application failed to start: '' @ (case message of None \<Rightarrow> ''Unknown startup error'' | Some m \<Rightarrow> m) @ [char_of (10 :: nat)], 1)"

section \<open>What a validated environment promises\<close>

lemma coercedInt_Some: "coercedInt lo hi v value = Some n \<Longrightarrow> lo \<le> v \<Longrightarrow> v \<le> hi \<Longrightarrow> lo \<le> n \<and> n \<le> hi"
  by (auto simp: coercedInt_def split: option.splits if_splits)

lemma enumOr_Some: "enumOr names v value = Some s \<Longrightarrow> v \<in> set names \<Longrightarrow> s \<in> set names"
  by (auto simp: enumOr_def split: option.splits if_splits)

lemma requiredString_Some: "requiredString p value = Some s \<Longrightarrow> p s"
  by (auto simp: requiredString_def split: option.splits if_splits)

lemma optionalString_Some: "optionalString p value = Some r \<Longrightarrow> \<forall>s. r = Some s \<longrightarrow> p s"
  by (auto simp: optionalString_def split: option.splits if_splits)

definition environment_ok :: "environment \<Rightarrow> bool" where
  "environment_ok c \<longleftrightarrow>
     1 \<le> cf_AUTH_RATE_LIMIT c \<and> cf_AUTH_RATE_LIMIT c \<le> 10000 \<and> 1 \<le> cf_PORT c \<and> cf_PORT c \<le> 65535 \<and>
     60 \<le> cf_JWT_ACCESS_TTL_SECONDS c \<and> cf_JWT_ACCESS_TTL_SECONDS c \<le> 86400 \<and>
     100 \<le> cf_OUTBOX_POLL_INTERVAL_MS c \<and> cf_OUTBOX_POLL_INTERVAL_MS c \<le> 60000 \<and>
     cf_NODE_ENV c \<in> {''development'', ''test'', ''production''} \<and>
     cf_PAYMENT_PROVIDER c \<in> {''disabled'', ''mock'', ''paystack''} \<and>
     32 \<le> length (cf_JWT_ACCESS_SECRET c) \<and> cf_JWT_ACCESS_SECRET c \<noteq> exampleJwtSecret \<and>
     (\<forall>k. cf_PAYSTACK_SECRET_KEY c = Some k \<longrightarrow> paystackKeyFormat k) \<and>
     (\<forall>s. cf_MOCK_PROVIDER_WEBHOOK_SECRET c = Some s \<longrightarrow> 32 \<le> length s) \<and>
     (\<forall>s. cf_METRICS_TOKEN c = Some s \<longrightarrow> 32 \<le> length s) \<and>
     (\<forall>k. cf_WEBHOOK_ENCRYPTION_KEY c = Some k \<longrightarrow> length k = 64 \<and> list_all hexChar k)"

lemma bind_SomeE: "Option.bind x f = Some c \<Longrightarrow> (\<And>v. x = Some v \<Longrightarrow> f v = Some c \<Longrightarrow> P) \<Longrightarrow> P"
  by (cases x) auto

lemma environmentFields_Some:
  "environmentFields parseURL env = Some c \<Longrightarrow>
     coercedInt 1 10000 60 (env ''AUTH_RATE_LIMIT'') = Some (cf_AUTH_RATE_LIMIT c) \<and>
     optionalString (\<lambda>s. 32 \<le> length s) (blankIsMissing (env ''METRICS_TOKEN'')) = Some (cf_METRICS_TOKEN c) \<and>
     enumOr [''disabled'', ''mock'', ''paystack''] ''disabled'' (env ''PAYMENT_PROVIDER'') = Some (cf_PAYMENT_PROVIDER c) \<and>
     optionalString paystackKeyFormat (blankIsMissing (env ''PAYSTACK_SECRET_KEY'')) = Some (cf_PAYSTACK_SECRET_KEY c) \<and>
     optionalString (\<lambda>s. 32 \<le> length s) (blankIsMissing (env ''MOCK_PROVIDER_WEBHOOK_SECRET'')) = Some (cf_MOCK_PROVIDER_WEBHOOK_SECRET c) \<and>
     enumOr [''development'', ''test'', ''production''] ''development'' (env ''NODE_ENV'') = Some (cf_NODE_ENV c) \<and>
     coercedInt 1 65535 3000 (env ''PORT'') = Some (cf_PORT c) \<and>
     requiredString (\<lambda>s. 32 \<le> length s \<and> s \<noteq> exampleJwtSecret) (env ''JWT_ACCESS_SECRET'') = Some (cf_JWT_ACCESS_SECRET c) \<and>
     coercedInt 60 86400 900 (env ''JWT_ACCESS_TTL_SECONDS'') = Some (cf_JWT_ACCESS_TTL_SECONDS c) \<and>
     optionalString (\<lambda>k. length k = 64 \<and> list_all hexChar k) (blankIsMissing (env ''WEBHOOK_ENCRYPTION_KEY'')) = Some (cf_WEBHOOK_ENCRYPTION_KEY c) \<and>
     coercedInt 100 60000 1000 (env ''OUTBOX_POLL_INTERVAL_MS'') = Some (cf_OUTBOX_POLL_INTERVAL_MS c)"
  unfolding environmentFields_def
  by ((erule bind_SomeE)+, simp only: option.inject, hypsubst, simp only: environment.simps simp_thms)

lemma environmentFields_ok:
  assumes "environmentFields parseURL env = Some c"
  shows "environment_ok c"
  using environmentFields_Some [OF assms] unfolding environment_ok_def
  by (elim conjE) (drule coercedInt_Some enumOr_Some requiredString_Some optionalString_Some; simp)+

text \<open>\<open>ConfigService.get\<close>: the validated value, or else what the process environment has, which for a
  blank secret is the empty string.\<close>

definition config_get :: "string option \<Rightarrow> string option \<Rightarrow> bool" where
  "config_get validated v \<longleftrightarrow> v = validated \<or> (validated = None \<and> v = Some [])"

definition configured :: "environment \<Rightarrow> provider_env \<Rightarrow> bool" where
  "configured c p \<longleftrightarrow> pv_provider p = Some (cf_PAYMENT_PROVIDER c) \<and> pv_nodeEnv p = Some (cf_NODE_ENV c) \<and>
     config_get (cf_MOCK_PROVIDER_WEBHOOK_SECRET c) (pv_mockSecret p) \<and>
     config_get (cf_PAYSTACK_SECRET_KEY c) (pv_paystackKey p)"

lemma mockAssertEnabled_configured:
  assumes ok: "environment_ok c" "environmentIssues parseURL c = []" and p: "configured c p"
  shows "mockAssertEnabled p = Inr () \<longleftrightarrow> cf_PAYMENT_PROVIDER c = ''mock''"
proof (cases "cf_PAYMENT_PROVIDER c = ''mock''")
  case True
  with ok(2) have "cf_NODE_ENV c \<noteq> ''production''" "truthy (cf_MOCK_PROVIDER_WEBHOOK_SECRET c)"
    by (simp_all add: environmentIssues_def split: if_splits)
  with True ok(1) p show ?thesis
    by (cases "cf_MOCK_PROVIDER_WEBHOOK_SECRET c")
      (auto simp: mockAssertEnabled_def configured_def config_get_def environment_ok_def truthy_def)
qed (use p in \<open>simp add: mockAssertEnabled_def configured_def\<close>)

lemma paystackAssertEnabled_configured:
  assumes ok: "environment_ok c" "environmentIssues parseURL c = []" and p: "configured c p"
  shows "paystackAssertEnabled p = Inr () \<longleftrightarrow> cf_PAYMENT_PROVIDER c = ''paystack''"
proof (cases "cf_PAYMENT_PROVIDER c = ''paystack''")
  case True
  with ok(2) have "truthy (cf_PAYSTACK_SECRET_KEY c)"
    "cf_NODE_ENV c \<noteq> ''production'' \<Longrightarrow> \<not> (case cf_PAYSTACK_SECRET_KEY c of None \<Rightarrow> False | Some k \<Rightarrow> startsWith ''sk_live_'' k)"
    by (simp_all add: environmentIssues_def split: if_splits)
  with True ok(1) p show ?thesis
    by (cases "cf_PAYSTACK_SECRET_KEY c")
      (auto simp: paystackAssertEnabled_def configured_def config_get_def environment_ok_def truthy_def)
qed (use p in \<open>auto simp: paystackAssertEnabled_def configured_def split: option.splits\<close>)

text \<open>
  C40. A process only starts with an environment of the right types and ranges, with secrets of full length and
  not the documented example. In production every origin that may read responses is an HTTPS origin and the mock
  provider is off, and the documentation is served only when it was asked for. The guards of the payment providers never fire for the provider that was
  chosen, and always fire for the others; webhooks are signed exactly when a key was configured.
\<close>

theorem environment_sound:
  assumes "validateEnvironment parseURL report env = Inr c"
  shows "environment_ok c \<and>
    (cf_NODE_ENV c = ''production'' \<longrightarrow> cf_PAYMENT_PROVIDER c \<noteq> ''mock'' \<and>
       (\<forall>s. s \<in> set (sv_origins (bootstrap c)) \<longrightarrow>
         (\<exists>u. parseURL s = Some u \<and> url_protocol u = ''https:'' \<and> js_origin u = s)) \<and>
       (sv_docs (bootstrap c) \<noteq> None \<longrightarrow> cf_API_DOCS_ENABLED c = Some ''true'')) \<and>
    (\<forall>p. configured c p \<longrightarrow> (mockAssertEnabled p = Inr () \<longleftrightarrow> cf_PAYMENT_PROVIDER c = ''mock'') \<and>
       (paystackAssertEnabled p = Inr () \<longleftrightarrow> cf_PAYMENT_PROVIDER c = ''paystack'')) \<and>
    (\<forall>cr. config_get (cf_WEBHOOK_ENCRYPTION_KEY c) (cr_encryptionKey cr) \<longrightarrow>
       (signingEnabled cr \<longleftrightarrow> cf_WEBHOOK_ENCRYPTION_KEY c \<noteq> None))"
proof -
  have c: "environmentFields parseURL env = Some c" "environmentIssues parseURL c = []"
    using assms by (auto simp: validateEnvironment_def Let_def split: option.splits if_splits)
  note ok = environmentFields_ok [OF c(1)]
  have prod: "cf_PAYMENT_PROVIDER c \<noteq> ''mock''" "list_all (httpsOrigin parseURL) (map js_trim (splitOn (CHR '','') (cf_CORS_ORIGIN c)))"
    if "cf_NODE_ENV c = ''production''"
    using c(2) that by (simp_all add: environmentIssues_def split: if_splits)
  have origins: "\<exists>u. parseURL s = Some u \<and> url_protocol u = ''https:'' \<and> js_origin u = s"
    if "cf_NODE_ENV c = ''production''" "s \<in> set (sv_origins (bootstrap c))" for s
    using prod(2) [OF that(1)] that(2) by (auto simp: bootstrap_def allowedOrigins_def httpsOrigin_def list_all_iff split: option.splits)
  have "signingEnabled cr \<longleftrightarrow> cf_WEBHOOK_ENCRYPTION_KEY c \<noteq> None"
    if "config_get (cf_WEBHOOK_ENCRYPTION_KEY c) (cr_encryptionKey cr)" for cr
    using that ok by (cases "cf_WEBHOOK_ENCRYPTION_KEY c") (auto simp: config_get_def signingEnabled_def environment_ok_def)
  moreover have "cf_API_DOCS_ENABLED c = Some ''true''" if "cf_NODE_ENV c = ''production''" "sv_docs (bootstrap c) \<noteq> None"
    using that by (auto simp: bootstrap_def docsEnabled_def split: if_splits)
  ultimately show ?thesis using ok prod(1) origins
      mockAssertEnabled_configured [OF ok c(2)] paystackAssertEnabled_configured [OF ok c(2)] by blast
qed

section \<open>Samples\<close>

definition env0 :: "string \<Rightarrow> string option" where
  "env0 = [''NODE_ENV'' \<mapsto> ''production'', ''PORT'' \<mapsto> '' 8080 '', ''DATABASE_URL'' \<mapsto> ''postgresql://db'',
     ''JWT_ACCESS_SECRET'' \<mapsto> ''a-secure-test-secret-of-more-than-32'', ''CORS_ORIGIN'' \<mapsto> ''https://a.b, https://c.d:8443'',
     ''PAYMENT_PROVIDER'' \<mapsto> ''paystack'', ''PAYSTACK_SECRET_KEY'' \<mapsto> ''sk_live_fixture'', ''METRICS_TOKEN'' \<mapsto> '''']"

definition url_of :: "string \<Rightarrow> js_url option" where
  "url_of s = (if s = ''https://a.b'' then Some \<lparr>url_protocol = ''https:'', url_hostname = ''a.b'', url_port = [],
       url_username = [], url_password = [], url_hash = []\<rparr>
     else if s = ''https://c.d:8443'' then Some \<lparr>url_protocol = ''https:'', url_hostname = ''c.d'', url_port = ''8443'',
       url_username = [], url_password = [], url_hash = []\<rparr> else None)"

definition config0 :: environment where
  "config0 = \<lparr>cf_AUTH_RATE_LIMIT = 60, cf_API_DOCS_ENABLED = None, cf_METRICS_TOKEN = None,
     cf_PAYMENT_PROVIDER = ''paystack'', cf_PAYSTACK_SECRET_KEY = Some ''sk_live_fixture'',
     cf_MOCK_PROVIDER_WEBHOOK_SECRET = None, cf_NODE_ENV = ''production'', cf_PORT = 8080,
     cf_DATABASE_URL = ''postgresql://db'', cf_JWT_ACCESS_SECRET = ''a-secure-test-secret-of-more-than-32'',
     cf_JWT_ACCESS_TTL_SECONDS = 900, cf_CORS_ORIGIN = ''https://a.b, https://c.d:8443'', cf_LOG_LEVEL = ''info'',
     cf_WEBHOOK_ENCRYPTION_KEY = None, cf_REDIS_URL = ''redis://localhost:6380'', cf_OUTBOX_POLL_INTERVAL_MS = 1000\<rparr>"

lemma config0_valid: "validateEnvironment url_of (\<lambda>_. []) env0 = Inr config0"
  by code_simp

theorem environment_sound_witness:
  "environment_ok config0 \<and> cf_PAYMENT_PROVIDER config0 \<noteq> ''mock'' \<and>
   (\<exists>u. url_of ''https://c.d:8443'' = Some u \<and> js_origin u = ''https://c.d:8443'')"
proof -
  have "cf_NODE_ENV config0 = ''production''" by (simp add: config0_def)
  moreover have "''https://c.d:8443'' \<in> set (sv_origins (bootstrap config0))" by code_simp
  ultimately show ?thesis using environment_sound [OF config0_valid] by blast
qed

lemma environment_samples:
  "validateEnvironment url_of (\<lambda>_. []) (env0(''CORS_ORIGIN'' \<mapsto> ''http://a.b'', ''PAYMENT_PROVIDER'' \<mapsto> ''mock'')) =
     Inl (OtherError (''Invalid environment configuration: CORS_ORIGIN: Production requires explicit HTTPS origins without paths; '' @
       ''PAYMENT_PROVIDER: Mock payments cannot be enabled in production; '' @
       ''MOCK_PROVIDER_WEBHOOK_SECRET: A private mock webhook secret is required''))"
  "environmentFields url_of (env0(''PORT'' \<mapsto> ''0'')) = None" "environmentFields url_of (env0(''PORT'' \<mapsto> ''1.5'')) = None"
  "environmentFields url_of (env0(''JWT_ACCESS_SECRET'' \<mapsto> exampleJwtSecret)) = None"
  by code_simp+

end
