(* ===== verification/Workers.thy ===== *)
theory Workers
  imports Outbox
begin

text \<open>
  The life of the two polling services, \<open>src/async/async-worker.service.ts\<close> and
  \<open>src/webhooks/webhook-worker.service.ts\<close>: start, the polling timer, one batch at a time, and shutdown.
  JavaScript runs one piece of code at a time, up to its next \<open>await\<close>; the pieces are the steps of
  \<open>poll_step\<close>, in any order that the awaited promises and the timer allow. What a batch does to the
  database is \<open>dispatchBatch\<close> in \<open>Outbox\<close> and \<open>publishBatch\<close> in \<open>WebhookDelivery\<close>.
\<close>

section \<open>State\<close>

datatype init_phase = Uninitialised | AwaitingFirst | Initialised

datatype destroy_phase = Alive | Draining | Closed

text \<open>\<open>po_pending\<close> is that \<open>dispatchDone\<close> (\<open>dispatch\<close> in the webhook service) is not \<open>undefined\<close>;
  \<open>po_batch\<close> that a batch has been entered and not left, which the async service has as its field
  \<open>dispatching\<close>; \<open>po_running\<close> counts the batches that are in flight.\<close>

record poller =
  po_queue :: bool
  po_timer :: bool
  po_stopping :: bool
  po_pending :: bool
  po_batch :: bool
  po_running :: nat
  po_init :: init_phase
  po_destroy :: destroy_phase

definition poller0 :: poller where
  "poller0 = \<lparr>po_queue = False, po_timer = False, po_stopping = False, po_pending = False, po_batch = False,
     po_running = 0, po_init = Uninitialised, po_destroy = Alive\<rparr>"

definition enterBatch :: "poller \<Rightarrow> poller" where
  "enterBatch s = s\<lparr>po_batch := True, po_running := po_running s + 1\<rparr>"

section \<open>The services\<close>

text \<open>The code up to the first \<open>await\<close>: of \<open>dispatchBatch\<close>, \<open>dispatchOnce\<close> and \<open>onModuleInit\<close>.\<close>

definition asyncBatch :: "poller \<Rightarrow> poller" where
  "asyncBatch s = (if po_batch s \<or> \<not> po_queue s then s else enterBatch s)"

definition asyncDispatchOnce :: "poller \<Rightarrow> poller" where
  "asyncDispatchOnce s =
     (if po_stopping s then s else if po_pending s then s else (asyncBatch s)\<lparr>po_pending := True\<rparr>)"

definition asyncInit :: "poller \<Rightarrow> poller" where
  "asyncInit s = (asyncDispatchOnce (s\<lparr>po_queue := True\<rparr>))\<lparr>po_init := AwaitingFirst\<rparr>"

definition webhookDispatchOnce :: "poller \<Rightarrow> poller" where
  "webhookDispatchOnce s =
     (if po_stopping s \<or> \<not> po_queue s then s else if po_pending s then s else (enterBatch s)\<lparr>po_pending := True\<rparr>)"

definition webhookInit :: "bool \<Rightarrow> poller \<Rightarrow> poller" where
  "webhookInit enabled s =
     (if \<not> enabled then s\<lparr>po_init := Initialised\<rparr>
      else (webhookDispatchOnce (s\<lparr>po_queue := True\<rparr>))\<lparr>po_init := AwaitingFirst\<rparr>)"

text \<open>\<open>onModuleDestroy\<close> before its first \<open>await\<close>; the rest closes the connections once \<open>dispatchDone\<close> has settled.\<close>

definition destroyWorker :: "poller \<Rightarrow> poller" where
  "destroyWorker s = s\<lparr>po_stopping := True, po_timer := False, po_destroy := Draining\<rparr>"

record polling_service =
  sv_init :: "poller \<Rightarrow> poller"
  sv_dispatchOnce :: "poller \<Rightarrow> poller"

definition asyncService :: polling_service where
  "asyncService = \<lparr>sv_init = asyncInit, sv_dispatchOnce = asyncDispatchOnce\<rparr>"

definition webhookService :: "bool \<Rightarrow> polling_service" where
  "webhookService enabled = \<lparr>sv_init = webhookInit enabled, sv_dispatchOnce = webhookDispatchOnce\<rparr>"

inductive poll_step :: "polling_service \<Rightarrow> poller \<Rightarrow> poller \<Rightarrow> bool" for sv where
  init: "po_init s = Uninitialised \<Longrightarrow> poll_step sv s (sv_init sv s)"
| initialised: "po_init s = AwaitingFirst \<Longrightarrow> \<not> po_pending s \<Longrightarrow>
    poll_step sv s (s\<lparr>po_timer := True, po_init := Initialised\<rparr>)"
| tick: "po_timer s \<Longrightarrow> poll_step sv s (sv_dispatchOnce sv s)"
| leave: "po_batch s \<Longrightarrow> poll_step sv s (s\<lparr>po_batch := False, po_running := po_running s - 1\<rparr>)"
| settled: "po_pending s \<Longrightarrow> \<not> po_batch s \<Longrightarrow> poll_step sv s (s\<lparr>po_pending := False\<rparr>)"
| destroy: "po_destroy s = Alive \<Longrightarrow> poll_step sv s (destroyWorker s)"
| close: "po_destroy s = Draining \<Longrightarrow> \<not> po_pending s \<Longrightarrow> poll_step sv s (s\<lparr>po_destroy := Closed\<rparr>)"

inductive poll_run :: "polling_service \<Rightarrow> poller \<Rightarrow> poller \<Rightarrow> bool" for sv where
  poll_refl: "poll_run sv s s"
| poll_more: "poll_run sv s t \<Longrightarrow> poll_step sv t u \<Longrightarrow> poll_run sv s u"

section \<open>One batch at a time\<close>

definition poll_ok :: "poller \<Rightarrow> bool" where
  "poll_ok s \<longleftrightarrow> po_running s = (if po_batch s then 1 else 0) \<and> (po_batch s \<longrightarrow> po_pending s \<and> po_queue s) \<and>
     (po_stopping s \<longleftrightarrow> po_destroy s \<noteq> Alive) \<and> (po_destroy s = Closed \<longrightarrow> \<not> po_pending s)"

text \<open>What a polling service owes: a dispatch does nothing while stopping or while one is pending, else it
  may enter a batch, and says so; the start dispatches once, if the service is enabled.\<close>

locale single_flight =
  fixes sv :: polling_service
  assumes idle: "po_stopping s \<or> po_pending s \<Longrightarrow> sv_dispatchOnce sv s = s"
    and starts: "\<not> po_stopping s \<Longrightarrow> \<not> po_pending s \<Longrightarrow> \<not> po_batch s \<Longrightarrow>
      sv_dispatchOnce sv s = s \<or> sv_dispatchOnce sv s = s\<lparr>po_pending := True\<rparr> \<or>
      (po_queue s \<and> sv_dispatchOnce sv s = (enterBatch s)\<lparr>po_pending := True\<rparr>)"
    and begins: "sv_init sv s = s\<lparr>po_init := Initialised\<rparr> \<or>
      sv_init sv s = (sv_dispatchOnce sv (s\<lparr>po_queue := True\<rparr>))\<lparr>po_init := AwaitingFirst\<rparr>"
begin

lemma dispatch_ok:
  assumes ok: "poll_ok s"
  shows "poll_ok (sv_dispatchOnce sv s)"
proof (cases "po_stopping s \<or> po_pending s")
  case False
  then have idle: "\<not> po_stopping s" "\<not> po_pending s" by simp_all
  with ok have batch: "\<not> po_batch s" by (simp add: poll_ok_def)
  have "poll_ok (s\<lparr>po_pending := True\<rparr>)" "po_queue s \<Longrightarrow> poll_ok ((enterBatch s)\<lparr>po_pending := True\<rparr>)"
    using ok idle batch by (simp_all add: poll_ok_def enterBatch_def)
  with ok starts [OF idle batch] show ?thesis by metis
qed (use ok idle in simp)

lemma init_ok:
  assumes "poll_ok s"
  shows "poll_ok (sv_init sv s)"
proof -
  have phase: "poll_ok u \<Longrightarrow> poll_ok (u\<lparr>po_init := p\<rparr>)" for u :: poller and p by (simp add: poll_ok_def)
  have "poll_ok (s\<lparr>po_queue := True\<rparr>)" using assms by (simp add: poll_ok_def)
  with phase [OF assms] phase [OF dispatch_ok] begins [of s] show ?thesis by metis
qed

lemma step_ok: "poll_step sv s t \<Longrightarrow> poll_ok s \<Longrightarrow> poll_ok t"
proof (induction rule: poll_step.induct)
  case (init s)
  from init(2) show ?case by (rule init_ok)
next
  case (tick s)
  from tick(2) show ?case by (rule dispatch_ok)
qed (auto simp: poll_ok_def destroyWorker_def split: if_splits)

lemma run_ok: "poll_run sv s t \<Longrightarrow> poll_ok s \<Longrightarrow> poll_ok t"
  by (induction rule: poll_run.induct) (auto intro: step_ok)

lemma closed_init:
  assumes "po_stopping s"
  shows "po_stopping (sv_init sv s) \<and> po_destroy (sv_init sv s) = po_destroy s"
  using begins [of s] idle [of "s\<lparr>po_queue := True\<rparr>"] assms by auto

lemma closed_step: "poll_step sv s t \<Longrightarrow> poll_ok s \<Longrightarrow> po_destroy s = Closed \<Longrightarrow> po_destroy t = Closed"
proof (induction rule: poll_step.induct)
  case (init s)
  then show ?case using closed_init [of s] by (simp add: poll_ok_def)
next
  case (tick s)
  then show ?case using idle [of s] by (simp add: poll_ok_def)
qed (auto simp: destroyWorker_def)

lemma closed_run: "poll_run sv s t \<Longrightarrow> poll_ok s \<Longrightarrow> po_destroy s = Closed \<Longrightarrow> po_destroy t = Closed"
  by (induction rule: poll_run.induct) (auto intro: closed_step run_ok)

lemma drained:
  assumes "po_destroy s = Draining" "\<not> po_batch s"
  shows "\<exists>t. poll_run sv s t \<and> po_destroy t = Closed"
proof (cases "po_pending s")
  case True
  let ?t = "s\<lparr>po_pending := False\<rparr>"
  have "poll_run sv s ?t" by (rule poll_more [OF poll_refl poll_step.settled [OF True assms(2)]])
  from poll_more [OF this poll_step.close] assms show ?thesis by fastforce
next
  case False
  from poll_more [OF poll_refl poll_step.close [OF assms(1) False]] show ?thesis by fastforce
qed

lemma run_trans: "poll_run sv t u \<Longrightarrow> poll_run sv s t \<Longrightarrow> poll_run sv s u"
  by (induction rule: poll_run.induct) (auto intro: poll_more)

lemma shuts_down:
  assumes "po_destroy s = Draining"
  shows "\<exists>t. poll_run sv s t \<and> po_destroy t = Closed"
proof (cases "po_batch s")
  case True
  let ?t = "s\<lparr>po_batch := False, po_running := po_running s - 1\<rparr>"
  have run: "poll_run sv s ?t" by (rule poll_more [OF poll_refl poll_step.leave [OF True]])
  have "po_destroy ?t = Draining" "\<not> po_batch ?t" using assms by simp_all
  from drained [OF this] run_trans [OF _ run] show ?thesis by blast
qed (use assms drained in blast)

end

interpretation async_worker: single_flight asyncService
  by unfold_locales (auto simp: asyncService_def asyncDispatchOnce_def asyncBatch_def asyncInit_def)

interpretation webhook_worker: single_flight "webhookService enabled" for enabled
  by unfold_locales (auto simp: webhookService_def webhookDispatchOnce_def webhookInit_def)

section \<open>The property\<close>

lemma poller0_ok: "poll_ok poller0"
  by (simp add: poll_ok_def poller0_def)

text \<open>What a reachable state satisfies, for any service that keeps the contract.\<close>

context single_flight begin

lemma stopping_idle:
  assumes "po_stopping s"
  shows "po_running (sv_dispatchOnce sv s) = po_running s \<and> po_running (sv_init sv s) = po_running s"
  using begins [of s] idle [of s] idle [of "s\<lparr>po_queue := True\<rparr>"] assms by auto

lemma reachable_facts:
  assumes "poll_run sv poller0 s"
  shows "po_running s \<le> 1 \<and>
    (po_stopping s \<longrightarrow> po_running (sv_dispatchOnce sv s) = po_running s \<and> po_running (sv_init sv s) = po_running s) \<and>
    (po_destroy s = Draining \<longrightarrow> (\<exists>t. poll_run sv s t \<and> po_destroy t = Closed)) \<and>
    (po_destroy s = Closed \<longrightarrow> (\<forall>t. poll_run sv s t \<longrightarrow> po_running t = 0))"
proof -
  have ok: "poll_ok s" by (rule run_ok [OF assms poller0_ok])
  moreover have "po_running t = 0" if "po_destroy s = Closed" "poll_run sv s t" for t
    using closed_run [OF that(2) ok that(1)] run_ok [OF that(2) ok] by (auto simp: poll_ok_def)
  ultimately show ?thesis using stopping_idle [of s] shuts_down [of s] by (auto simp: poll_ok_def)
qed

end

text \<open>
  C26. Each of the two polling services has at most one batch in flight, whatever the order of timer ticks, settled
  promises, start and shutdown. From the moment \<open>onModuleDestroy\<close> is called no batch is begun, not even by a
  start that is still on its way; the shutdown can always finish; and once it has, nothing is in flight ever again.
\<close>

theorem workers_single_flight:
  assumes "sv = asyncService \<or> sv = webhookService enabled" "poll_run sv poller0 s"
  shows "po_running s \<le> 1 \<and>
    (po_stopping s \<longrightarrow> po_running (sv_dispatchOnce sv s) = po_running s \<and> po_running (sv_init sv s) = po_running s) \<and>
    (po_destroy s = Draining \<longrightarrow> (\<exists>t. poll_run sv s t \<and> po_destroy t = Closed)) \<and>
    (po_destroy s = Closed \<longrightarrow> (\<forall>t. poll_run sv s t \<longrightarrow> po_running t = 0))"
  using assms async_worker.reachable_facts webhook_worker.reachable_facts by blast

theorem workers_single_flight_witness:
  "po_running (destroyWorker (asyncInit poller0)) = 1 \<and>
   (\<exists>t. poll_run asyncService (destroyWorker (asyncInit poller0)) t \<and> po_destroy t = Closed)"
proof -
  have "poll_step asyncService poller0 (sv_init asyncService poller0)"
    by (rule poll_step.init) (simp add: poller0_def)
  then have "poll_run asyncService poller0 (asyncInit poller0)"
    using poll_more [OF poll_refl] by (simp add: asyncService_def)
  moreover have "poll_step asyncService (asyncInit poller0) (destroyWorker (asyncInit poller0))"
    by (rule poll_step.destroy) code_simp
  ultimately have "poll_run asyncService poller0 (destroyWorker (asyncInit poller0))" by (rule poll_more)
  moreover have "po_running (destroyWorker (asyncInit poller0)) = 1" "po_destroy (destroyWorker (asyncInit poller0)) = Draining"
    by code_simp+
  ultimately show ?thesis using workers_single_flight by blast
qed

end
