(* ===== verification/OutboxClaims.thy ===== *)
theory OutboxClaims
  imports Outbox Samples
begin

text \<open>
  Properties of the outbox worker and of the notifications: an event is published at least once and
  notified exactly once, a failed publication is retried within bounds.
\<close>

section \<open>The invariant\<close>

text \<open>\<open>holds q\<close> are the ids the queue has accepted: adding never forgets one, and an add that does not throw
  accepts its id; the heartbeat forgets none either.\<close>

definition accepts :: "('q \<Rightarrow> uuid set) \<Rightarrow> 'q publish_env \<Rightarrow> bool" where
  "accepts holds env \<longleftrightarrow> (\<forall>i q. holds q \<subseteq> holds (snd (pub_add env i q)) \<and>
     (fst (pub_add env i q) = None \<longrightarrow> i \<in> holds (snd (pub_add env i q))))"

definition beats :: "('q \<Rightarrow> uuid set) \<Rightarrow> ('q \<Rightarrow> exn option \<times> 'q) \<Rightarrow> bool" where
  "beats holds beat \<longleftrightarrow> (\<forall>q. holds q \<subseteq> holds (snd (beat q)))"

definition outbox_ok :: "('q \<Rightarrow> uuid set) \<Rightarrow> db \<times> 'q \<Rightarrow> bool" where
  "outbox_ok holds s \<longleftrightarrow> event_pk.unique (outboxEvents (fst s)) \<and>
     (\<forall>e \<in> set (outboxEvents (fst s)). event_row_ok e \<and> (e_status e = O_PUBLISHED \<longrightarrow> e_id e \<in> holds (snd s)))"

definition same_fact :: "outbox_event \<Rightarrow> outbox_event \<Rightarrow> bool" where
  "same_fact e e' \<longleftrightarrow> e_id e' = e_id e \<and> e_type e' = e_type e \<and> e_aggregateType e' = e_aggregateType e \<and>
     e_aggregateId e' = e_aggregateId e \<and> e_actorUserId e' = e_actorUserId e \<and> e_payload e' = e_payload e \<and>
     e_createdAt e' = e_createdAt e"

lemma same_event:
  assumes "event_pk.unique es" "e \<in> set es" "e' \<in> set es" "e_id e = e_id e'"
  shows "e = e'"
  using assms unfolding event_pk.unique_def by (metis distinct_map_inj)

lemma put_event: "event_pk.unique es \<Longrightarrow> e \<in> set es \<Longrightarrow>
  set (event_pk.put (e_id e) f es) = insert (f e) (set es - {e})"
  unfolding event_pk.put_def set_updateRows using same_event [of es] by (auto simp: image_iff) metis

definition settled :: "time \<Rightarrow> int \<Rightarrow> outbox_event \<Rightarrow> outbox_event \<Rightarrow> bool" where
  "settled now delay e e' \<longleftrightarrow> e' = publishedEvent now e \<or> (\<exists>m. e' = retriedEvent now delay m e)"

lemma settled_fact:
  "settled now delay e e' \<Longrightarrow> event_row_ok e \<Longrightarrow> e_status e = O_PROCESSING \<Longrightarrow>
    same_fact e e' \<and> event_row_ok e' \<and> e_status e' \<noteq> O_PROCESSING"
  by (auto simp: settled_def same_fact_def publishedEvent_def retriedEvent_def event_row_ok_def)

lemma update_event_run:
  assumes "event_pk.unique (outboxEvents d)" "e \<in> set (outboxEvents d)" "event_row_ok (f e)"
    "case e_lastError (f e) of None \<Rightarrow> True | Some m \<Rightarrow> varchar_fits 500 m"
  shows "update_event (e_id e) f d = (Inr (), d\<lparr>outboxEvents := event_pk.put (e_id e) f (outboxEvents d)\<rparr>)"
proof -
  have "event_pk.lookup (e_id e) (outboxEvents d) = Some e"
    using assms(1,2) by (simp add: event_pk.lookup_unique)
  with assms(3,4) show ?thesis by (simp add: update_event_def op_apply andThen_steps)
qed

text \<open>What publishing a locked event does to the tables and the queue.\<close>

lemma publish_effect:
  assumes ok: "outbox_ok holds (d, q)" and acc: "accepts holds env"
    and e: "e \<in> set (outboxEvents d)" "e_status e = O_PROCESSING"
      "case e_lastError e of None \<Rightarrow> True | Some m \<Rightarrow> varchar_fits 500 m"
    and ev: "e_id ev = e_id e" "e_attempts ev = e_attempts e"
    and run: "publish env ev (d, q) = (r, (d', q'))"
  shows "holds q \<subseteq> holds q' \<and>
    ((d' = d \<and> pub_retryError env \<noteq> None) \<or> (r = Inr () \<and> (\<exists>f. d' = d\<lparr>outboxEvents := event_pk.put (e_id e) f (outboxEvents d)\<rparr> \<and>
       settled (pub_now env) (retryDelay (e_attempts e)) e (f e) \<and> (e_status (f e) = O_PUBLISHED \<longrightarrow> e_id e \<in> holds q'))))"
proof -
  have uniq: "event_pk.unique (outboxEvents d)" and row: "event_row_ok e" using ok e(1) by (auto simp: outbox_ok_def)
  obtain err q1 where add: "pub_add env (e_id e) q = (err, q1)" by fastforce
  with acc have holds: "holds q \<subseteq> holds q1" "err = None \<Longrightarrow> e_id e \<in> holds q1"
    unfolding accepts_def by (metis fst_conv snd_conv)+
  let ?p = "publishedEvent (pub_now env)" and ?r = "\<lambda>m. retriedEvent (pub_now env) (retryDelay (e_attempts e)) m"
  have up: "update_event (e_id e) ?p d = (Inr (), d\<lparr>outboxEvents := event_pk.put (e_id e) ?p (outboxEvents d)\<rparr>)"
    by (rule update_event_run [OF uniq e(1)]) (use row e in \<open>simp_all add: publishedEvent_def event_row_ok_def\<close>)
  have re: "update_event (e_id e) (?r m) d = (Inr (), d\<lparr>outboxEvents := event_pk.put (e_id e) (?r m) (outboxEvents d)\<rparr>)" for m
    by (rule update_event_run [OF uniq e(1)]) (use row e in \<open>simp_all add: retriedEvent_def event_row_ok_def varchar_fits_def\<close>)
  have later: "retryLater env ev m (d, q1) = (case pub_retryError env of Some x \<Rightarrow> (Inl x, (d, q1))
      | None \<Rightarrow> (Inr (), (d\<lparr>outboxEvents := event_pk.put (e_id e) (?r m) (outboxEvents d)\<rparr>, q1)))" for m
    using re [of m] by (simp add: retryLater_def onDb_def unlessError_def ev op_apply split: option.splits)
  have retried: "e_status (?r m e) \<noteq> O_PUBLISHED" for m by (simp add: retriedEvent_def)
  show ?thesis
  proof (cases err)
    case (Some x)
    with run add later [of "errorMessage x"] show ?thesis
      using holds(1) retried by (auto simp: publish_def ev settled_def split: option.splits)
  next
    case None
    show ?thesis
    proof (cases "pub_databaseError env")
      case None
      with run add \<open>err = None\<close> up holds show ?thesis
        by (auto simp: publish_def ev tryCatch_def onDb_def unlessError_def settled_def)
    next
      case (Some x)
      with run add None later [of "pub_exnName env x"] show ?thesis
        using holds(1) retried
        by (auto simp: publish_def ev tryCatch_def onDb_def unlessError_def op_apply settled_def split: option.splits)
    qed
  qed
qed

section \<open>A batch\<close>

text \<open>From \<open>s\<close> to \<open>s'\<close>, where only the events of \<open>evs\<close> may have been settled.\<close>

definition batch ::
  "('q \<Rightarrow> uuid set) \<Rightarrow> (uuid \<Rightarrow> 'q publish_env) \<Rightarrow> outbox_event list \<Rightarrow> db \<times> 'q \<Rightarrow> db \<times> 'q \<Rightarrow> bool" where
  "batch holds env evs s s' \<longleftrightarrow> outbox_ok holds s' \<and> holds (snd s) \<subseteq> holds (snd s') \<and>
     (\<exists>es. fst s' = (fst s)\<lparr>outboxEvents := es\<rparr> \<and> map e_id es = map e_id (outboxEvents (fst s)) \<and>
        (\<forall>e \<in> set (outboxEvents (fst s)). if e \<in> set evs
           then \<exists>e' \<in> set es. (e' = e \<and> (\<exists>e \<in> set evs. pub_retryError (env (e_id e)) \<noteq> None)) \<or>
             settled (pub_now (env (e_id e))) (retryDelay (e_attempts e)) e e'
           else e \<in> set es))"

lemma batch_nil: "outbox_ok holds s \<Longrightarrow> batch holds env [] s s"
  unfolding batch_def by (auto intro!: exI [of _ "outboxEvents (fst s)"])

lemma publish_ok:
  assumes ok: "outbox_ok holds (d, q)" and acc: "accepts holds env"
    and e: "e \<in> set (outboxEvents d)" "e_status e = O_PROCESSING" "e_lastError e = None"
    and run: "publish env e (d, q) = (r, (d', q'))"
  shows "outbox_ok holds (d', q') \<and> holds q \<subseteq> holds q' \<and> (\<exists>es. d' = d\<lparr>outboxEvents := es\<rparr> \<and>
    map e_id es = map e_id (outboxEvents d) \<and> (\<forall>x \<in> set (outboxEvents d). x \<noteq> e \<longrightarrow> x \<in> set es) \<and>
    (\<exists>e' \<in> set es. (e' = e \<and> pub_retryError env \<noteq> None) \<or> (r = Inr () \<and> settled (pub_now env) (retryDelay (e_attempts e)) e e')))"
proof -
  have uniq: "event_pk.unique (outboxEvents d)" and rows: "\<forall>e \<in> set (outboxEvents d). event_row_ok e \<and> (e_status e = O_PUBLISHED \<longrightarrow> e_id e \<in> holds q)"
    using ok by (simp_all add: outbox_ok_def)
  from publish_effect [OF ok acc e(1,2) _ refl refl run] e(3) have hq: "holds q \<subseteq> holds q'"
    and eff: "(d' = d \<and> pub_retryError env \<noteq> None) \<or> (r = Inr () \<and> (\<exists>f. d' = d\<lparr>outboxEvents := event_pk.put (e_id e) f (outboxEvents d)\<rparr> \<and>
       settled (pub_now env) (retryDelay (e_attempts e)) e (f e) \<and> (e_status (f e) = O_PUBLISHED \<longrightarrow> e_id e \<in> holds q')))" by simp_all
  show ?thesis
  proof (cases "d' = d \<and> pub_retryError env \<noteq> None")
    case True
    with hq uniq rows e(1) show ?thesis
      by (auto simp: outbox_ok_def intro!: exI [of _ "outboxEvents d"])
  next
    case False
    with eff obtain f where f: "r = Inr ()" "d' = d\<lparr>outboxEvents := event_pk.put (e_id e) f (outboxEvents d)\<rparr>"
      "settled (pub_now env) (retryDelay (e_attempts e)) e (f e)" "e_status (f e) = O_PUBLISHED \<longrightarrow> e_id e \<in> holds q'" by blast
    note fact = settled_fact [OF f(3) _ e(2)]
    have fe: "event_row_ok (f e)" "e_id (f e) = e_id e" using fact rows e(1) by (auto simp: same_fact_def)
    note set = put_event [OF uniq e(1), of f]
    have ids: "map e_id (event_pk.put (e_id e) f (outboxEvents d)) = map e_id (outboxEvents d)"
      unfolding event_pk.put_def updateRows_def using same_event [OF uniq _ e(1)] fe(2) by (auto simp: comp_def)
    then have "event_pk.unique (event_pk.put (e_id e) f (outboxEvents d))" using uniq by (simp add: event_pk.unique_def)
    with set rows hq fe f(4) have "outbox_ok holds (d', q')" by (auto simp: outbox_ok_def f(2))
    with hq ids f set show ?thesis by (intro conjI exI [of _ "event_pk.put (e_id e) f (outboxEvents d)"]) auto
  qed
qed

text \<open>One event published, then the rest of the batch.\<close>

lemma batch_cons:
  assumes ok: "outbox_ok holds (d, q)" and e: "e \<in> set (outboxEvents d)" and evs: "distinct (e # evs)"
      "\<forall>x \<in> set evs. x \<in> set (outboxEvents d)"
    and m: "holds q \<subseteq> holds q1" "m = d\<lparr>outboxEvents := es\<rparr>" "map e_id es = map e_id (outboxEvents d)"
      "\<forall>x \<in> set (outboxEvents d). x \<noteq> e \<longrightarrow> x \<in> set es"
    and e': "e' \<in> set es" "e_id e' = e_id e" "(e' = e \<and> pub_retryError (env (e_id e)) \<noteq> None) \<or>
       settled (pub_now (env (e_id e))) (retryDelay (e_attempts e)) e e'"
    and rest: "batch holds env evs (m, q1) s'"
  shows "batch holds env (e # evs) (d, q) s'"
proof -
  from rest obtain es2 where es2: "fst s' = m\<lparr>outboxEvents := es2\<rparr>" "map e_id es2 = map e_id es"
    "\<forall>x \<in> set es. if x \<in> set evs
         then \<exists>x' \<in> set es2. (x' = x \<and> (\<exists>e \<in> set evs. pub_retryError (env (e_id e)) \<noteq> None)) \<or>
           settled (pub_now (env (e_id x))) (retryDelay (e_attempts x)) x x'
         else x \<in> set es2" and s': "outbox_ok holds s'" "holds q1 \<subseteq> holds (snd s')"
    unfolding batch_def using m(2) by auto
  have "e' \<notin> set evs"
  proof
    assume "e' \<in> set evs"
    with evs(2) have "e' \<in> set (outboxEvents d)" by blast
    with ok e e'(2) have "e' = e" using same_event by (fastforce simp: outbox_ok_def)
    with \<open>e' \<in> set evs\<close> evs(1) show False by simp
  qed
  with es2(3) e'(1) have e2: "e' \<in> set es2" by auto
  have "if x \<in> set (e # evs)
         then \<exists>x' \<in> set es2. (x' = x \<and> (\<exists>e \<in> set (e # evs). pub_retryError (env (e_id e)) \<noteq> None)) \<or>
           settled (pub_now (env (e_id x))) (retryDelay (e_attempts x)) x x'
         else x \<in> set es2" if x: "x \<in> set (outboxEvents d)" for x
  proof (cases "x = e")
    case True
    with e2 e'(3) show ?thesis by auto
  next
    case False
    with m(4) x have "x \<in> set es" by blast
    with es2(3) have "if x \<in> set evs
         then \<exists>x' \<in> set es2. (x' = x \<and> (\<exists>e \<in> set evs. pub_retryError (env (e_id e)) \<noteq> None)) \<or>
           settled (pub_now (env (e_id x))) (retryDelay (e_attempts x)) x x'
         else x \<in> set es2" by blast
    with False show ?thesis by (auto split: if_splits)
  qed
  moreover have "fst s' = d\<lparr>outboxEvents := es2\<rparr>" "map e_id es2 = map e_id (outboxEvents d)"
    using es2(1,2) m(2,3) by simp_all
  ultimately show ?thesis
    using s' m(1) unfolding batch_def fst_conv snd_conv by blast
qed

lemma publish_batch:
  "outbox_ok holds s \<Longrightarrow> \<forall>i. accepts holds (env i) \<Longrightarrow> distinct evs \<Longrightarrow>
   \<forall>e \<in> set evs. e \<in> set (outboxEvents (fst s)) \<and> e_status e = O_PROCESSING \<and> e_lastError e = None \<Longrightarrow>
   forEach (\<lambda>e. publish (env (e_id e)) e) evs s = (r, s') \<Longrightarrow> batch holds env evs s s'"
proof (induction evs arbitrary: s)
  case Nil
  then show ?case by (simp add: batch_nil op_apply)
next
  case (Cons e evs)
  obtain d q where s: "s = (d, q)" by fastforce
  obtain r1 m q1 where run: "publish (env (e_id e)) e (d, q) = (r1, (m, q1))" by (metis prod.exhaust)
  from Cons.prems have e: "e \<in> set (outboxEvents d)" "e_status e = O_PROCESSING" "e_lastError e = None"
    and ok: "outbox_ok holds (d, q)" by (simp_all add: s)
  from publish_ok [OF ok _ e run] Cons.prems(2) obtain es e' where
    m: "outbox_ok holds (m, q1)" "holds q \<subseteq> holds q1" "m = d\<lparr>outboxEvents := es\<rparr>" "map e_id es = map e_id (outboxEvents d)"
      "\<forall>x \<in> set (outboxEvents d). x \<noteq> e \<longrightarrow> x \<in> set es" and e': "e' \<in> set es"
      "(e' = e \<and> pub_retryError (env (e_id e)) \<noteq> None) \<or>
       (r1 = Inr () \<and> settled (pub_now (env (e_id e))) (retryDelay (e_attempts e)) e e')" by blast
  show ?case
  proof (cases r1)
    case (Inl x)
    with Cons.prems(5) run have "s' = (m, q1)" by (simp add: s andThen_def)
    moreover from Inl e' have "pub_retryError (env (e_id e)) \<noteq> None" "e' = e" by auto
    ultimately show ?thesis
      using m e'(1) unfolding batch_def s by (auto intro!: exI [of _ es] bexI)
  next
    case (Inr u)
    with Cons.prems(5) run have rest: "forEach (\<lambda>e. publish (env (e_id e)) e) evs (m, q1) = (r, s')" by (simp add: s andThen_def)
    have "\<forall>x \<in> set evs. x \<in> set (outboxEvents (fst (m, q1))) \<and> e_status x = O_PROCESSING \<and> e_lastError x = None"
      using Cons.prems(3,4) m(3,5) by (auto simp: s)
    from Cons.IH [OF m(1) Cons.prems(2) _ this rest] Cons.prems(3) have IH: "batch holds env evs (m, q1) s'" by simp
    have "e_id e' = e_id e"
      using e'(2) settled_fact [of "pub_now (env (e_id e))" "retryDelay (e_attempts e)" e e'] ok e
      by (auto simp: outbox_ok_def same_fact_def)
    moreover have "(e' = e \<and> pub_retryError (env (e_id e)) \<noteq> None) \<or>
        settled (pub_now (env (e_id e))) (retryDelay (e_attempts e)) e e'" using e'(2) by blast
    ultimately show ?thesis
      unfolding s using Cons.prems(3,4) by (intro batch_cons [OF ok e(1) _ _ m(2-5) e'(1) _ _ IH]) (simp_all add: s)
  qed
qed

section \<open>Claiming\<close>

lemma candidates_sound:
  assumes "e \<in> set (candidates now skip d)"
  shows "e \<in> set (outboxEvents d)" "e_status e \<noteq> O_PUBLISHED"
  using in_set_takeD [OF assms [unfolded candidates_def]] by (auto simp: dispatchable_def)

lemma candidates_distinct: "event_pk.unique (outboxEvents d) \<Longrightarrow> distinct (candidates now skip d)"
  by (simp add: candidates_def event_pk.unique_def distinct_map)

lemma lockEvent_simps [simp]:
  "e_id (lockEvent now e) = e_id e" "e_status (lockEvent now e) = O_PROCESSING" "e_lastError (lockEvent now e) = None"
  "e_attempts (lockEvent now e) = e_attempts e"
  by (simp_all add: lockEvent_def)

definition claimedDb :: "time \<Rightarrow> (uuid \<Rightarrow> bool) \<Rightarrow> db \<Rightarrow> db" where
  "claimedDb now skip d = d\<lparr>outboxEvents := map (\<lambda>e. if e \<in> set (candidates now skip d) then lockEvent now e else e) (outboxEvents d)\<rparr>"

lemma claimEvents_run:
  assumes ok: "outbox_ok holds (d, q)"
  shows "claimEvents now skip d = (Inr (map (lockEvent now) (candidates now skip d)), claimedDb now skip d)"
    "outbox_ok holds (claimedDb now skip d, q)"
proof -
  have uniq: "event_pk.unique (outboxEvents d)" using ok by (simp add: outbox_ok_def)
  have rows: "event_row_ok (lockEvent now e)" if "e \<in> set (candidates now skip d)" for e
    using candidates_sound [OF that] ok
    by (cases "e_status e") (auto simp: outbox_ok_def event_row_ok_def lockEvent_def)
  have "e_id e \<in> e_id ` set (candidates now skip d) \<longleftrightarrow> e \<in> set (candidates now skip d)" if "e \<in> set (outboxEvents d)" for e
  proof
    assume "e_id e \<in> e_id ` set (candidates now skip d)"
    then obtain x where x: "x \<in> set (candidates now skip d)" "e_id e = e_id x" by blast
    with same_event [OF uniq that candidates_sound(1) [OF x(1)]] show "e \<in> set (candidates now skip d)" by simp
  qed simp
  then have "updateRows (\<lambda>e. e_id e \<in> set (map e_id (candidates now skip d))) (lockEvent now) (outboxEvents d) =
      outboxEvents (claimedDb now skip d)"
    unfolding updateRows_def claimedDb_def by (auto intro!: map_cong)
  with rows show "claimEvents now skip d = (Inr (map (lockEvent now) (candidates now skip d)), claimedDb now skip d)"
    by (simp add: claimEvents_def op_apply andThen_steps list_all_iff) (simp add: claimedDb_def)
  have "map e_id (outboxEvents (claimedDb now skip d)) = map e_id (outboxEvents d)"
    by (simp add: claimedDb_def)
  with uniq have "event_pk.unique (outboxEvents (claimedDb now skip d))" by (simp only: event_pk.unique_def)
  with ok rows show "outbox_ok holds (claimedDb now skip d, q)"
    by (auto simp: outbox_ok_def claimedDb_def)
qed

lemma batch_later: "batch holds env evs s t \<Longrightarrow> holds (snd t) \<subseteq> holds q \<Longrightarrow> batch holds env evs s (fst t, q)"
  unfolding batch_def outbox_ok_def fst_conv snd_conv by blast

lemma dispatchBatch_run:
  assumes ok: "outbox_ok holds (d, q)" and acc: "\<forall>i. accepts holds (env i)"
    and beat: "beats holds beat" and run: "dispatchBatch None env beat now skip (d, q) = (r, s')"
  shows "r = Inr ()" "batch holds env (map (lockEvent now) (candidates now skip d)) (claimedDb now skip d, q) s'"
proof -
  let ?evs = "map (lockEvent now) (candidates now skip d)"
  have uniq: "event_pk.unique (outboxEvents d)" using ok by (simp add: outbox_ok_def)
  obtain r1 s1 where body: "forEach (\<lambda>e. publish (env (e_id e)) e) ?evs (claimedDb now skip d, q) = (r1, s1)" by (meson surj_pair)
  have claim: "onDb (unlessError None (claimEvents now skip)) (d, q) = (Inr ?evs, (claimedDb now skip d, q))"
    by (simp add: onDb_def unlessError_def claimEvents_run(1) [OF ok])
  from body claim run show "r = Inr ()"
    by (cases r1) (auto simp: dispatchBatch_def tryCatch_def andThen_def op_apply split: prod.splits sum.splits)
  have last: "s' = s1 \<or> s' = (fst s1, snd (beat (snd s1)))"
    using body claim run
    by (cases r1) (auto simp: dispatchBatch_def tryCatch_def andThen_def writeHeartbeat_def op_apply split: prod.splits sum.splits option.splits)
  have "distinct ?evs"
  proof -
    have "inj_on (lockEvent now) (set (candidates now skip d))"
      using same_event [OF uniq] candidates_sound(1) by (intro inj_onI) (metis lockEvent_simps(1))
    with candidates_distinct [OF uniq] show ?thesis by (simp add: distinct_map)
  qed
  moreover have "\<forall>e \<in> set ?evs. e \<in> set (outboxEvents (fst (claimedDb now skip d, q))) \<and> e_status e = O_PROCESSING \<and> e_lastError e = None"
    using candidates_sound(1) by (auto simp: claimedDb_def image_iff)
  ultimately have "batch holds env ?evs (claimedDb now skip d, q) s1"
    using publish_batch [OF claimEvents_run(2) [OF ok] acc _ _ body] by blast
  then show "batch holds env ?evs (claimedDb now skip d, q) s'"
    using last beat by (elim disjE) (simp_all add: batch_later beats_def)
qed

lemma filter_findRow:
  "findRow (\<lambda>n. n_outboxEventId n = i) ns = Some n \<Longrightarrow> distinct (map n_outboxEventId ns) \<Longrightarrow>
    filter (\<lambda>n. n_outboxEventId n = i) ns = [n]"
  by (induction ns) (auto simp: filter_empty_conv notin_image split: if_splits)

section \<open>Properties\<close>

lemma retryDelay_bounds: "1000 \<le> retryDelay n \<and> retryDelay n \<le> 60000"
proof -
  have "(2 :: int) ^ 0 \<le> 2 ^ min n 6" by (rule power_increasing) simp_all
  then show ?thesis by (simp add: retryDelay_def)
qed

text \<open>A sample: one event, and a queue that is the list of accepted ids.\<close>

definition fact1 :: outbox_event where
  "fact1 = new_outboxEvent ''e1'' 10 TRANSFER_COMPLETED ''Transfer'' (replicate 36 CHR ''t'') ''u1'' JNull"

definition dbo :: db where
  "dbo = db0\<lparr>outboxEvents := [fact1]\<rparr>"

definition envo :: "uuid list publish_env" where
  "envo = \<lparr>pub_add = (\<lambda>i q. (None, i # q)), pub_now = 2000, pub_databaseError = None, pub_retryError = None,
     pub_exnName = (\<lambda>_. ''Error'')\<rparr>"

lemma dbo_ok: "outbox_ok set (dbo, [])"
  by (simp add: outbox_ok_def event_pk.unique_def event_row_ok_def dbo_def fact1_def new_outboxEvent_def)

definition beato :: "uuid list \<Rightarrow> exn option \<times> uuid list" where
  "beato q = (None, q)"

lemma beato_beats: "beats set beato"
  by (simp add: beats_def beato_def)

lemma envo_accepts: "\<forall>i. accepts set ((\<lambda>_. envo) i)"
  by (auto simp: accepts_def envo_def)

text \<open>C24. Polling the outbox keeps, whatever fails (the claim, the queue, a write): an event marked published has
  been accepted by the queue, no event disappears or changes what it says, a published event is never
  touched again, nothing but the outbox is written, and no error leaves the poll.\<close>

theorem outbox_at_least_once:
  assumes ok: "outbox_ok holds (d, q)" and acc: "\<forall>i. accepts holds (env i)" and beat: "beats holds beat"
    and run: "dispatchBatch claimError env beat now skip (d, q) = (r, (d', q'))"
  shows "r = Inr () \<and> outbox_ok holds (d', q') \<and> holds q \<subseteq> holds q' \<and> (\<exists>es. d' = d\<lparr>outboxEvents := es\<rparr>) \<and>
    map e_id (outboxEvents d') = map e_id (outboxEvents d) \<and>
    (\<forall>e. e \<in> set (outboxEvents d) \<longrightarrow> (\<exists>e' \<in> set (outboxEvents d'). same_fact e e' \<and> (e_status e = O_PUBLISHED \<longrightarrow> e' = e)))"
proof (cases claimError)
  case (Some x)
  with run have "r = Inr ()" "d' = d" "q' = q"
    by (auto simp: dispatchBatch_def tryCatch_def andThen_def onDb_def unlessError_def op_apply)
  with ok show ?thesis by (auto simp: same_fact_def intro!: exI [of _ "outboxEvents d"])
next
  case None
  note run' = dispatchBatch_run [OF ok acc beat run [unfolded None]]
  let ?evs = "map (lockEvent now) (candidates now skip d)"
  from run'(2) obtain es where es: "d' = (claimedDb now skip d)\<lparr>outboxEvents := es\<rparr>"
    "map e_id es = map e_id (outboxEvents (claimedDb now skip d))" "outbox_ok holds (d', q')" "holds q \<subseteq> holds q'"
    and rows: "\<forall>e \<in> set (outboxEvents (claimedDb now skip d)). if e \<in> set ?evs
       then \<exists>e' \<in> set es. (e' = e \<and> (\<exists>e \<in> set ?evs. pub_retryError (env (e_id e)) \<noteq> None)) \<or>
         settled (pub_now (env (e_id e))) (retryDelay (e_attempts e)) e e'
       else e \<in> set es" unfolding batch_def by auto
  have "\<exists>e' \<in> set es. same_fact e e' \<and> (e_status e = O_PUBLISHED \<longrightarrow> e' = e)" if e: "e \<in> set (outboxEvents d)" for e
  proof (cases "e \<in> set (candidates now skip d)")
    case True
    then have m: "lockEvent now e \<in> set (outboxEvents (claimedDb now skip d))" "lockEvent now e \<in> set ?evs"
      using e by (auto simp: claimedDb_def image_iff)
    from bspec [OF rows m(1), unfolded if_P [OF m(2)]] obtain e' where "e' \<in> set es" "e' = lockEvent now e \<or>
        settled (pub_now (env (e_id (lockEvent now e)))) (retryDelay (e_attempts (lockEvent now e))) (lockEvent now e) e'" by blast
    moreover have "event_row_ok (lockEvent now e)"
      using claimEvents_run(2) [OF ok] m(1) by (auto simp: outbox_ok_def)
    ultimately have "same_fact e e'" using settled_fact by (fastforce simp: same_fact_def lockEvent_def)
    with candidates_sound(2) [OF True] \<open>e' \<in> set es\<close> show ?thesis by blast
  next
    case False
    then have m: "e \<in> set (outboxEvents (claimedDb now skip d))" using e by (auto simp: claimedDb_def image_iff)
    show ?thesis
    proof (cases "e \<in> set ?evs")
      case False
      with rows m have "e \<in> set es" by auto
      then show ?thesis by (auto simp: same_fact_def)
    next
      case True
      then obtain c where c: "c \<in> set (candidates now skip d)" "e = lockEvent now c" by auto
      with same_event [of "outboxEvents d" e c] e candidates_sound(1) [OF c(1)] ok have "e = c" by (auto simp: outbox_ok_def)
      with c(1) False show ?thesis by simp
    qed
  qed
  with es run'(1) show ?thesis by (auto simp: claimedDb_def comp_def cong: if_cong)
qed

lemma outbox_at_least_once_witness:
  "\<exists>r d' q'. dispatchBatch None (\<lambda>_. envo) beato 1000 (\<lambda>_. False) (dbo, []) = (r, (d', q')) \<and> r = Inr () \<and> outbox_ok set (d', q')"
proof -
  obtain r d' q' where run: "dispatchBatch None (\<lambda>_. envo) beato 1000 (\<lambda>_. False) (dbo, []) = (r, (d', q'))"
    by (metis surj_pair)
  from outbox_at_least_once [OF dbo_ok envo_accepts beato_beats run] run show ?thesis by blast
qed

text \<open>C25. When the database accepts its writes, every event of a batch is settled by the end of it, whatever the
  queue does: published and accepted by the queue, or pending again with one more attempt and due
  between one second and one minute after the failure.\<close>

theorem outbox_progress:
  assumes ok: "outbox_ok holds (d, q)" and acc: "\<forall>i. accepts holds (env i)" and beat: "beats holds beat"
    and fine: "\<forall>i. pub_retryError (env i) = None"
    and run: "dispatchBatch None env beat now skip (d, q) = (r, (d', q'))" and e: "e \<in> set (candidates now skip d)"
  shows "\<exists>e' \<in> set (outboxEvents d'). same_fact e e' \<and>
    ((e_status e' = O_PUBLISHED \<and> e_id e \<in> holds q') \<or>
     (e_status e' = O_PENDING \<and> e_attempts e' = e_attempts e + 1 \<and>
      pub_now (env (e_id e)) + 1000 \<le> e_availableAt e' \<and> e_availableAt e' \<le> pub_now (env (e_id e)) + 60000))"
proof -
  let ?evs = "map (lockEvent now) (candidates now skip d)"
  from dispatchBatch_run(2) [OF ok acc beat run] obtain es where d': "d' = (claimedDb now skip d)\<lparr>outboxEvents := es\<rparr>" and okd: "outbox_ok holds (d', q')"
    and rows: "\<forall>e \<in> set (outboxEvents (claimedDb now skip d)). if e \<in> set ?evs
       then \<exists>e' \<in> set es. (e' = e \<and> (\<exists>e \<in> set ?evs. pub_retryError (env (e_id e)) \<noteq> None)) \<or>
         settled (pub_now (env (e_id e))) (retryDelay (e_attempts e)) e e'
       else e \<in> set es" unfolding batch_def by auto
  have es: "outboxEvents d' = es" "outbox_ok holds (d', q')" using d' okd by simp_all
  have m: "lockEvent now e \<in> set (outboxEvents (claimedDb now skip d))" "lockEvent now e \<in> set ?evs"
    using e candidates_sound(1) [OF e] by (auto simp: claimedDb_def image_iff)
  from bspec [OF rows m(1), unfolded if_P [OF m(2)]] fine obtain e' where e': "e' \<in> set es"
    "settled (pub_now (env (e_id e))) (retryDelay (e_attempts e)) (lockEvent now e) e'" by auto
  have "event_row_ok (lockEvent now e)" using claimEvents_run(2) [OF ok] m(1) by (auto simp: outbox_ok_def)
  with settled_fact [OF e'(2)] have fact: "same_fact e e'" by (simp add: same_fact_def lockEvent_def)
  moreover have "e_id e \<in> holds q'" if "e_status e' = O_PUBLISHED"
    using es e'(1) that fact by (auto simp: outbox_ok_def same_fact_def)
  moreover have "e_status e' = O_PUBLISHED \<or> (e_status e' = O_PENDING \<and> e_attempts e' = e_attempts e + 1 \<and>
      e_availableAt e' = pub_now (env (e_id e)) + retryDelay (e_attempts e))"
    using e'(2) by (auto simp: settled_def publishedEvent_def retriedEvent_def)
  ultimately show ?thesis using e'(1) es(1) retryDelay_bounds [of "e_attempts e"] by auto
qed

lemma outbox_progress_witness:
  "\<exists>d' q'. snd (dispatchBatch None (\<lambda>_. envo) beato 1000 (\<lambda>_. False) (dbo, [])) = (d', q') \<and>
    (\<exists>e' \<in> set (outboxEvents d'). same_fact fact1 e' \<and> e_status e' \<noteq> O_PROCESSING)"
proof -
  obtain r d' q' where run: "dispatchBatch None (\<lambda>_. envo) beato 1000 (\<lambda>_. False) (dbo, []) = (r, (d', q'))"
    by (metis surj_pair)
  have "\<forall>i. pub_retryError ((\<lambda>_. envo) i) = None" by (simp add: envo_def)
  moreover have "fact1 \<in> set (candidates 1000 (\<lambda>_. False) dbo)"
    by (simp add: candidates_def dispatchable_def dbo_def fact1_def new_outboxEvent_def)
  ultimately have "\<exists>e' \<in> set (outboxEvents d'). same_fact fact1 e' \<and>
    ((e_status e' = O_PUBLISHED \<and> e_id fact1 \<in> set q') \<or>
     (e_status e' = O_PENDING \<and> e_attempts e' = e_attempts fact1 + 1 \<and>
      pub_now envo + 1000 \<le> e_availableAt e' \<and> e_availableAt e' \<le> pub_now envo + 60000))"
    using outbox_progress [OF dbo_ok envo_accepts beato_beats _ run] by blast
  with run show ?thesis by (auto intro!: bexI)
qed

text \<open>Each event is notified exactly once: the job for an event ends with exactly one notification for it,
  addressed to its actor, and running the job again, under whatever ids and clock, returns that
  notification and changes nothing.\<close>

lemma notification_once:
  assumes uniq: "distinct (map n_outboxEventId (notifications d))" and e: "event_pk.lookup i (outboxEvents d) = Some e"
    and user: "e_actorUserId e \<in> u_id ` set (users d)" and len: "length (e_aggregateId e) \<le> 36"
    and fresh: "rt_uuid rt 0 \<notin> n_id ` set (notifications d)"
  shows "\<exists>n d'. persistForEvent rt i d = (Inr n, d') \<and> filter (\<lambda>n. n_outboxEventId n = i) (notifications d') = [n] \<and>
    distinct (map n_outboxEventId (notifications d')) \<and>
    (filter (\<lambda>n. n_outboxEventId n = i) (notifications d) = [] \<longrightarrow> n = newNotification rt e) \<and>
    (\<forall>rt'. persistForEvent rt' i d' = (Inr n, d'))"
proof -
  from event_pk.lookup_Some [OF e] have i: "e \<in> set (outboxEvents d)" "e_id e = i" by simp_all
  show ?thesis
  proof (cases "findRow (\<lambda>n. n_outboxEventId n = i) (notifications d)")
    case (Some n)
    then have run: "persistForEvent rt' i d = (Inr n, d)" for rt'
      using e i(2) by (simp add: persistForEvent_def findUniqueOrThrow_def op_simps)
    moreover have "filter (\<lambda>n. n_outboxEventId n = i) (notifications d) = [n]"
      using Some uniq by (rule filter_findRow)
    ultimately show ?thesis using uniq by auto
  next
    case None
    let ?n = "newNotification rt e" and ?d = "d\<lparr>notifications := notifications d @ [newNotification rt e]\<rparr>"
    have no: "\<forall>m \<in> set (notifications d). n_outboxEventId m \<noteq> i" using None by (simp add: findRow_None)
    have n: "n_outboxEventId ?n = i" "n_id ?n = rt_uuid rt 0" "n_userId ?n = e_actorUserId e"
      using i(2) by (simp_all add: newNotification_def Let_def)
    have "length (n_subject ?n) \<le> 160" "length (n_body ?n) \<le> 500"
      using len by (cases "e_type e"; simp add: newNotification_def Let_def)+
    with no n fresh user i None e have run: "persistForEvent rt i d = (Inr ?n, ?d)"
      by (auto simp: persistForEvent_def findUniqueOrThrow_def create_notification_def varchar_fits_def op_simps existsRow_iff image_iff)
    have "persistForEvent rt' i ?d = (Inr ?n, ?d)" for rt'
      using e i(2) n(1) None by (simp add: persistForEvent_def findUniqueOrThrow_def op_simps findRow_append)
    moreover have "filter (\<lambda>n. n_outboxEventId n = i) (notifications d) = []" using no by (simp add: filter_empty_conv)
    ultimately show ?thesis using run n(1) no uniq by (intro exI [of _ ?n] exI [of _ ?d]) auto
  qed
qed

lemma notification_sample:
  "\<exists>n d'. persistForEvent rt0 ''e1'' dbo = (Inr n, d') \<and> n = newNotification rt0 fact1 \<and>
    persistForEvent (rt0\<lparr>rt_now := 9\<rparr>) ''e1'' d' = (Inr n, d')"
proof -
  have "distinct (map n_outboxEventId (notifications dbo))" "event_pk.lookup ''e1'' (outboxEvents dbo) = Some fact1"
    "e_actorUserId fact1 \<in> u_id ` set (users dbo)" "length (e_aggregateId fact1) \<le> 36"
    "rt_uuid rt0 0 \<notin> n_id ` set (notifications dbo)" "filter (\<lambda>n. n_outboxEventId n = ''e1'') (notifications dbo) = []"
    by (simp_all add: event_pk.lookup_def dbo_def fact1_def new_outboxEvent_def sample_defs)
  from notification_once [OF this(1-5)] this(6) show ?thesis by blast
qed

end
