(* ===== verification/Monitoring.thy ===== *)
theory Monitoring
  imports OutboxClaims JsNumber
begin

text \<open>
  \<open>src/health\<close>: the probes of the process and its dependencies, and the metrics, which only the holder
  of the metrics token can read. The layout of the metrics as text and the uptime of the process are left out: a reply is the record
  of the values that the database and the heartbeat determine.
\<close>

section \<open>Probes\<close>

record readiness_response =
  rd_status :: string
  rd_database :: string
  rd_redis :: string
  rd_timestamp :: time

record liveness_response =
  lv_status :: string
  lv_service :: string
  lv_timestamp :: time

definition liveness :: "time \<Rightarrow> liveness_response" where
  "liveness now = \<lparr>lv_status = ''ok'', lv_service = ''fintech-transaction-platform'', lv_timestamp = now\<rparr>"

text \<open>\<open>up\<close>: whether the query and the ping both succeed.\<close>

definition readiness :: "bool \<Rightarrow> time \<Rightarrow> exn + readiness_response" where
  "readiness up now =
     (if up then Inr \<lparr>rd_status = ''ok'', rd_database = ''up'', rd_redis = ''up'', rd_timestamp = now\<rparr>
      else Inl (ServiceUnavailable ''unavailable''))"

definition health :: "bool \<Rightarrow> time \<Rightarrow> exn + readiness_response" where
  "health up now = readiness up now"

section \<open>Metrics\<close>

record gauges =
  gg_outboxPending :: nat
  gg_webhookFailed :: nat
  gg_paymentPending :: nat
  gg_pollAgeSeconds :: js_number
  gg_notificationUnpersisted :: nat

text \<open>\<open>(Date.now() - n) / 1000\<close> in doubles, \<open>Math.max(0, x)\<close> and \<open>Number.isFinite(x) ? x : -1\<close>.\<close>

definition doubleOf :: "int \<Rightarrow> int \<Rightarrow> js_number" where
  "doubleOf n d = toDouble (n < 0) \<bar>n\<bar> d"

fun secondsSince :: "time \<Rightarrow> js_number \<Rightarrow> js_number" where
  "secondsSince now NaN = NaN"
| "secondsSince now (Infinite negative) = Infinite (\<not> negative)"
| "secondsSince now (Dyadic n k) =
     (case doubleOf (now * 2 ^ k - n) (2 ^ k) of Dyadic m j \<Rightarrow> doubleOf m (1000 * 2 ^ j) | x \<Rightarrow> x)"

fun maxZero :: "js_number \<Rightarrow> js_number" where
  "maxZero NaN = NaN"
| "maxZero (Infinite negative) = (if negative then Dyadic 0 0 else Infinite False)"
| "maxZero (Dyadic n k) = (if n < 0 then Dyadic 0 0 else Dyadic n k)"

fun finiteOr :: "js_number \<Rightarrow> js_number" where
  "finiteOr (Dyadic n k) = Dyadic n k"
| "finiteOr _ = Dyadic (- 1) 0"

definition pollAge :: "time \<Rightarrow> string option \<Rightarrow> js_number" where
  "pollAge now heartbeat =
     finiteOr (if truthy heartbeat then maxZero (secondsSince now (js_Number (the heartbeat))) else Dyadic (- 1) 0)"

definition countRows :: "('a \<Rightarrow> bool) \<Rightarrow> 'a list \<Rightarrow> nat" where
  "countRows p rows = length (filter p rows)"

text \<open>Events that no notification refers to (the left join with a missing right side).\<close>

definition unnotified :: "db \<Rightarrow> outbox_event \<Rightarrow> bool" where
  "unnotified d e \<longleftrightarrow> \<not> existsRow (\<lambda>n. n_outboxEventId n = e_id e) (notifications d)"

definition readGauges :: "time \<Rightarrow> string option \<Rightarrow> db \<Rightarrow> gauges" where
  "readGauges now heartbeat d =
     \<lparr>gg_outboxPending = countRows (\<lambda>e. e_status e \<in> {O_PENDING, O_PROCESSING}) (outboxEvents d),
      gg_webhookFailed = countRows (\<lambda>v. wd_status v = D_FAILED) (deliveries d),
      gg_paymentPending = countRows (\<lambda>p. p_status p = P_PENDING) (payments d),
      gg_pollAgeSeconds = pollAge now heartbeat,
      gg_notificationUnpersisted = countRows (unnotified d) (outboxEvents d)\<rparr>"

text \<open>\<open>redis\<close> is what the read of the heartbeat gives, or its error.\<close>

definition metrics ::
  "(string \<Rightarrow> string) \<Rightarrow> string option \<Rightarrow> string option \<Rightarrow> exn + string option \<Rightarrow> time \<Rightarrow> (db, gauges) op" where
  "metrics sha256 token authorization redis now =
     andThen (require (truthy token) (ServiceUnavailable ''Metrics are disabled'')) (\<lambda>_.
     andThen (require (truthy authorization \<and> sha256 (the authorization) = sha256 (''Bearer '' @ the token))
       (Unauthorized ''Unauthorized'')) (\<lambda>_.
     tryCatch
       (andThen (lift redis) (\<lambda>heartbeat. query (readGauges now heartbeat)))
       (\<lambda>_. raise (ServiceUnavailable ''Metrics dependencies unavailable''))))"

lemma gauge_samples:
  "pollAge 5000 (Some ''3250'') = Dyadic 7 2" "pollAge 5000 (Some ''9000'') = Dyadic 0 0"
  "pollAge 5000 (Some ''x'') = Dyadic (- 1) 0" "pollAge 5000 None = Dyadic (- 1) 0"
  by code_simp+

section \<open>What the metrics say\<close>

lemma metrics_run:
  assumes "metrics sha256 token authorization redis now d = (r, d')"
  shows "d' = d \<and> (\<forall>g. r = Inr g \<longrightarrow> truthy token \<and> truthy authorization \<and>
    sha256 (the authorization) = sha256 (''Bearer '' @ the token) \<and> (\<exists>h. g = readGauges now h d))"
  using assms by (auto simp: metrics_def andThen_def lift_def tryCatch_def op_simps split: if_splits sum.splits prod.splits)

lemma count_less:
  assumes "x \<in> set rows" "p x" "\<not> q x" "\<And>y. y \<in> set rows \<Longrightarrow> q y \<Longrightarrow> p y"
  shows "countRows q rows < countRows p rows"
proof -
  have sub: "filter q rows = filter q (filter p rows)" using assms(4) by (auto intro: filter_cong)
  have "length (filter q (filter p rows)) < length (filter p rows)"
    using assms(1-3) by (intro length_filter_less [of x]) auto
  then show ?thesis by (simp add: countRows_def sub)
qed

text \<open>
  The metrics are read-only and private: a reply with values was authorised by a header with the
  digest of the configured token, and its gauges are those of the database as it was. The gauge of missing notifications
  shows the work of the notification job: each job for an event that was not yet notified lowers it.
\<close>

theorem metrics_sound:
  assumes run: "metrics sha256 token authorization redis now d = (r, d')"
  shows "d' = d \<and> (\<forall>g. r = Inr g \<longrightarrow>
     truthy token \<and> truthy authorization \<and> sha256 (the authorization) = sha256 (''Bearer '' @ the token) \<and>
     (\<forall>rt e n f. e \<in> set (outboxEvents d) \<and> unnotified d e \<and> persistForEvent rt (e_id e) d = (Inr n, f) \<longrightarrow>
        gg_notificationUnpersisted (readGauges now None f) < gg_notificationUnpersisted g))"
proof -
  have "gg_notificationUnpersisted (readGauges now None f) < gg_notificationUnpersisted (readGauges now h d)"
    if e: "e \<in> set (outboxEvents d)" "unnotified d e" and job: "persistForEvent rt (e_id e) d = (Inr n, f)" for rt e n f h
  proof -
    from job obtain x where x: "event_pk.lookup (e_id e) (outboxEvents d) = Some x"
      by (auto simp: persistForEvent_def findUniqueOrThrow_def op_simps split: option.splits)
    then have id: "e_id x = e_id e" using event_pk.lookup_Some by blast
    with e(2) have none: "findRow (\<lambda>n. n_outboxEventId n = e_id x) (notifications d) = None"
      by (auto simp: unnotified_def existsRow_iff findRow_None)
    have "n_outboxEventId (newNotification rt x) = e_id e" by (simp add: newNotification_def Let_def id)
    then have "n_outboxEventId n = e_id e" "f = d\<lparr>notifications := notifications d @ [n]\<rparr>"
      using job x none by (auto simp: persistForEvent_def findUniqueOrThrow_def create_notification_def op_simps split: if_splits)
    then show ?thesis
      using e by (auto simp: readGauges_def unnotified_def existsRow_iff intro!: count_less)
  qed
  with metrics_run [OF run] show ?thesis by blast
qed

end
