(* ===== verification/LedgerAudit.thy ===== *)
theory LedgerAudit
  imports ApiSamples Monitoring
begin

text \<open>
  The operator's audit, \<open>scripts/audit-ledger.mjs\<close>: five counting queries over one read-only snapshot, and an exit
  code. A group by a primary key has one group per row; a join is a filter on the pairs of rows.
\<close>

section \<open>The queries\<close>

definition unbalancedOrUnsealed :: "db \<Rightarrow> ledger_transaction \<Rightarrow> bool" where
  "unbalancedOrUnsealed d t \<longleftrightarrow> lt_sealedAt t = None \<or> length (postingsOf d (lt_id t)) < 2 \<or>
     (\<Sum>p \<leftarrow> postingsOf d (lt_id t). lp_amountMinor p) \<noteq> 0"

definition accountMismatch :: "db \<Rightarrow> ledger_account \<Rightarrow> bool" where
  "accountMismatch d a \<longleftrightarrow> la_balanceMinor a \<noteq> (\<Sum>p \<leftarrow> filter (\<lambda>p. lp_accountId p = la_id a) (postings d). lp_amountMinor p)"

definition walletMismatch :: "wallet \<times> ledger_account \<Rightarrow> bool" where
  "walletMismatch = (\<lambda>(w, a). la_id a = w_ledgerAccountId w \<and>
     (w_currentBalanceMinor w \<noteq> la_balanceMinor a \<or> w_currency w \<noteq> la_currency a \<or> w_currentBalanceMinor w < 0))"

definition currencyMismatch :: "(ledger_posting \<times> ledger_account) \<times> ledger_transaction \<Rightarrow> bool" where
  "currencyMismatch = (\<lambda>((p, a), t). la_id a = lp_accountId p \<and> lt_id t = lp_ledgerTransactionId p \<and>
     la_currency a \<noteq> lt_currency t)"

definition missingLedger :: "db \<Rightarrow> payment \<Rightarrow> bool" where
  "missingLedger d p \<longleftrightarrow> p_status p = P_SUCCEEDED \<and>
     (case Option.bind (p_ledgerTransactionId p) (\<lambda>i. ltx_pk.lookup i (ledgerTransactions d)) of
        None \<Rightarrow> True
      | Some t \<Rightarrow> lt_sealedAt t = None \<or> lt_reference t \<noteq> p_reference p)"

record audit_row =
  ar_check :: string
  ar_failures :: string

definition auditRow :: "string \<Rightarrow> ('a \<Rightarrow> bool) \<Rightarrow> 'a list \<Rightarrow> audit_row" where
  "auditRow name p rows = \<lparr>ar_check = name, ar_failures = showNat (countRows p rows)\<rparr>"

definition auditRows :: "db \<Rightarrow> audit_row list" where
  "auditRows d =
     [auditRow ''unbalanced_or_unsealed_transactions'' (unbalancedOrUnsealed d) (ledgerTransactions d),
      auditRow ''account_snapshot_mismatch'' (accountMismatch d) (accounts d),
      auditRow ''wallet_snapshot_mismatch'' walletMismatch (List.product (wallets d) (accounts d)),
      auditRow ''posting_currency_mismatch'' currencyMismatch
        (List.product (List.product (postings d) (accounts d)) (ledgerTransactions d)),
      auditRow ''successful_payment_missing_ledger'' (missingLedger d) (payments d)]"

definition auditExitCode :: "db \<Rightarrow> nat" where
  "auditExitCode d = (if list_ex (\<lambda>row. ar_failures row \<noteq> ''0'') (auditRows d) then 1 else 0)"

section \<open>What a clean audit means\<close>

text \<open>What the keys of the tables and the foreign keys give.\<close>

definition keys_ok :: "db \<Rightarrow> bool" where
  "keys_ok d \<longleftrightarrow> account_pk.unique (accounts d) \<and> ltx_pk.unique (ledgerTransactions d) \<and>
     distinct (map lt_reference (ledgerTransactions d)) \<and> distinct (map lp_id (postings d)) \<and>
     (\<forall>p \<in> set (postings d). lp_accountId p \<in> la_id ` set (accounts d) \<and>
        lp_ledgerTransactionId p \<in> lt_id ` set (ledgerTransactions d)) \<and>
     (\<forall>w \<in> set (wallets d). w_ledgerAccountId w \<in> la_id ` set (accounts d))"

definition snapshots_ok :: "db \<Rightarrow> bool" where
  "snapshots_ok d \<longleftrightarrow> (\<forall>w \<in> set (wallets d). \<exists>a \<in> set (accounts d). la_id a = w_ledgerAccountId w \<and>
     la_balanceMinor a = w_currentBalanceMinor w \<and> la_currency a = w_currency w \<and> 0 \<le> w_currentBalanceMinor w)"

definition successes_funded :: "db \<Rightarrow> bool" where
  "successes_funded d \<longleftrightarrow> (\<forall>p \<in> set (payments d). p_status p = P_SUCCEEDED \<longrightarrow>
     (\<exists>t \<in> set (ledgerTransactions d). funded_by p t \<and> lt_sealedAt t \<noteq> None))"

lemma showNat_is_zero: "showNat n = ''0'' \<longleftrightarrow> n = 0"
  using showNat_inject [of n 0] showNat_zero by simp

lemma countRows_zero: "countRows p rows = 0 \<longleftrightarrow> (\<forall>r \<in> set rows. \<not> p r)"
  by (simp add: countRows_def filter_empty_conv)

lemma auditRow_clean: "ar_failures (auditRow name p rows) = ''0'' \<longleftrightarrow> (\<forall>r \<in> set rows. \<not> p r)"
  by (simp add: auditRow_def showNat_is_zero countRows_zero)

lemma auditExit_clean:
  "auditExitCode d = 0 \<longleftrightarrow>
     (\<forall>t \<in> set (ledgerTransactions d). \<not> unbalancedOrUnsealed d t) \<and> (\<forall>a \<in> set (accounts d). \<not> accountMismatch d a) \<and>
     (\<forall>w \<in> set (wallets d). \<forall>a \<in> set (accounts d). \<not> walletMismatch (w, a)) \<and>
     (\<forall>p \<in> set (postings d). \<forall>a \<in> set (accounts d). \<forall>t \<in> set (ledgerTransactions d). \<not> currencyMismatch ((p, a), t)) \<and>
     (\<forall>p \<in> set (payments d). \<not> missingLedger d p)"
  by (simp add: auditExitCode_def auditRows_def auditRow_clean)

lemma posted_filter: "(\<Sum>p \<leftarrow> filter (\<lambda>p. lp_accountId p = i) ps. lp_amountMinor p) =
    (\<Sum>p \<leftarrow> ps. if lp_accountId p = i then lp_amountMinor p else (0 :: int))"
  by (induction ps) simp_all

lemma currencies_clean:
  assumes k: "keys_ok d"
  shows "(\<forall>p \<in> set (postings d). \<forall>a \<in> set (accounts d). \<forall>t \<in> set (ledgerTransactions d). \<not> currencyMismatch ((p, a), t)) \<longleftrightarrow>
    (\<forall>p \<in> set (postings d). \<exists>t \<in> set (ledgerTransactions d). \<exists>a \<in> set (accounts d).
       lt_id t = lp_ledgerTransactionId p \<and> la_id a = lp_accountId p \<and> la_currency a = lt_currency t)"
proof (intro ball_cong refl)
  fix p assume "p \<in> set (postings d)"
  with k obtain a t where row: "a \<in> set (accounts d)" "la_id a = lp_accountId p"
    "t \<in> set (ledgerTransactions d)" "lt_id t = lp_ledgerTransactionId p" by (auto simp: keys_ok_def)
  have "b = a" if "b \<in> set (accounts d)" "la_id b = lp_accountId p" for b
    using k row that unfolding keys_ok_def account_pk.unique_def by (metis distinct_map_inj)
  moreover have "u = t" if "u \<in> set (ledgerTransactions d)" "lt_id u = lp_ledgerTransactionId p" for u
    using k row that unfolding keys_ok_def ltx_pk.unique_def by (metis distinct_map_inj)
  ultimately have "(\<forall>a \<in> set (accounts d). \<forall>t \<in> set (ledgerTransactions d). \<not> currencyMismatch ((p, a), t)) \<longleftrightarrow>
      la_currency a = lt_currency t"
    and "(\<exists>t \<in> set (ledgerTransactions d). \<exists>a \<in> set (accounts d).
      lt_id t = lp_ledgerTransactionId p \<and> la_id a = lp_accountId p \<and> la_currency a = lt_currency t) \<longleftrightarrow>
      la_currency a = lt_currency t"
    using row unfolding currencyMismatch_def prod.case by blast+
  then show "(\<forall>a \<in> set (accounts d). \<forall>t \<in> set (ledgerTransactions d). \<not> currencyMismatch ((p, a), t)) \<longleftrightarrow>
    (\<exists>t \<in> set (ledgerTransactions d). \<exists>a \<in> set (accounts d).
       lt_id t = lp_ledgerTransactionId p \<and> la_id a = lp_accountId p \<and> la_currency a = lt_currency t)" by blast
qed

lemma wallets_clean:
  assumes k: "keys_ok d"
  shows "(\<forall>w \<in> set (wallets d). \<forall>a \<in> set (accounts d). \<not> walletMismatch (w, a)) \<longleftrightarrow> snapshots_ok d"
  unfolding snapshots_ok_def
proof (intro ball_cong refl)
  fix w assume "w \<in> set (wallets d)"
  with k obtain a where row: "a \<in> set (accounts d)" "la_id a = w_ledgerAccountId w" by (auto simp: keys_ok_def)
  have "b = a" if "b \<in> set (accounts d)" "la_id b = w_ledgerAccountId w" for b
    using k row that unfolding keys_ok_def account_pk.unique_def by (metis distinct_map_inj)
  then have "(\<forall>a \<in> set (accounts d). \<not> walletMismatch (w, a)) \<longleftrightarrow> \<not> walletMismatch (w, a)"
    and "(\<exists>a \<in> set (accounts d). la_id a = w_ledgerAccountId w \<and> la_balanceMinor a = w_currentBalanceMinor w \<and>
       la_currency a = w_currency w \<and> 0 \<le> w_currentBalanceMinor w) \<longleftrightarrow> la_balanceMinor a = w_currentBalanceMinor w \<and>
       la_currency a = w_currency w \<and> 0 \<le> w_currentBalanceMinor w"
    using row unfolding walletMismatch_def prod.case by blast+
  moreover have "\<not> walletMismatch (w, a) \<longleftrightarrow> la_balanceMinor a = w_currentBalanceMinor w \<and>
       la_currency a = w_currency w \<and> 0 \<le> w_currentBalanceMinor w"
    using row(2) by (auto simp: walletMismatch_def)
  ultimately show "(\<forall>a \<in> set (accounts d). \<not> walletMismatch (w, a)) \<longleftrightarrow>
    (\<exists>a \<in> set (accounts d). la_id a = w_ledgerAccountId w \<and> la_balanceMinor a = w_currentBalanceMinor w \<and>
       la_currency a = w_currency w \<and> 0 \<le> w_currentBalanceMinor w)" by blast
qed

lemma missingLedger_iff:
  assumes k: "keys_ok d"
  shows "missingLedger d p \<longleftrightarrow> p_status p = P_SUCCEEDED \<and>
    \<not> (\<exists>t \<in> set (ledgerTransactions d). funded_by p t \<and> lt_sealedAt t \<noteq> None)"
proof (cases "p_ledgerTransactionId p")
  case (Some i)
  have uniq: "ltx_pk.unique (ledgerTransactions d)" using k by (simp add: keys_ok_def)
  show ?thesis
  proof (cases "ltx_pk.lookup i (ledgerTransactions d)")
    case None
    then have "lt_id t \<noteq> i" if "t \<in> set (ledgerTransactions d)" for t
      using that by (simp add: ltx_pk.lookup_def findRow_None)
    with Some None show ?thesis by (auto simp: missingLedger_def funded_by_def)
  next
    case (Some t)
    with uniq have "u \<in> set (ledgerTransactions d) \<and> lt_id u = i \<longleftrightarrow> u = t" for u
      using ltx_pk.lookup_unique [OF uniq, of i u] by auto
    then have "(\<exists>u \<in> set (ledgerTransactions d). funded_by p u \<and> lt_sealedAt u \<noteq> None) \<longleftrightarrow>
        lt_reference t = p_reference p \<and> lt_sealedAt t \<noteq> None"
      unfolding funded_by_def \<open>p_ledgerTransactionId p = Some i\<close> option.inject by metis
    then show ?thesis
      using Some \<open>p_ledgerTransactionId p = Some i\<close> by (auto simp: missingLedger_def)
  qed
qed (simp add: missingLedger_def funded_by_def)

text \<open>C37. The audit is exact. On tables whose keys hold, its exit code is zero if and only if every ledger
  transaction is sealed and balances to zero over at least two postings in the currency of their accounts, every
  account shows the sum of its postings, every wallet shows the balance and currency of its account and is
  not negative, and every successful payment has a sealed ledger transaction of its own reference.\<close>

theorem audit_exact:
  assumes "keys_ok d"
  shows "auditExitCode d = 0 \<longleftrightarrow> double_entry d \<and> snapshots_ok d \<and> successes_funded d"
proof -
  have "(\<forall>t \<in> set (ledgerTransactions d). \<not> unbalancedOrUnsealed d t) \<longleftrightarrow>
      (\<forall>t \<in> set (ledgerTransactions d). lt_sealedAt t \<noteq> None \<and> 2 \<le> length (postingsOf d (lt_id t)) \<and>
        (\<Sum>p \<leftarrow> postingsOf d (lt_id t). lp_amountMinor p) = 0)"
    by (auto simp: unbalancedOrUnsealed_def not_less)
  moreover have "(\<forall>p \<in> set (payments d). \<not> missingLedger d p) \<longleftrightarrow> successes_funded d"
    using missingLedger_iff [OF assms] by (auto simp: successes_funded_def)
  moreover have "(\<forall>a \<in> set (accounts d). \<not> accountMismatch d a) \<longleftrightarrow>
      (\<forall>a \<in> set (accounts d). la_balanceMinor a = postedTo d (la_id a))"
    by (simp add: accountMismatch_def posted_filter)
  ultimately show ?thesis
    using assms unfolding auditExit_clean currencies_clean [OF assms] wallets_clean [OF assms] double_entry_def keys_ok_def
    by blast
qed

section \<open>The audit of a running system\<close>

lemma books_keys: "books_ok d \<Longrightarrow> keys_ok d"
  unfolding books_ok_def ledger_ok_def pairing_ok_def double_entry_def keys_ok_def wallet_matches_def
  by (auto simp: image_iff) metis+

lemma books_funded: "books_ok d \<Longrightarrow> successes_funded d"
  unfolding successes_funded_def
proof (intro ballI impI)
  fix p assume ok: "books_ok d" and p: "p \<in> set (payments d)" "p_status p = P_SUCCEEDED"
  then have "payment_state_ok p" by (simp add: books_ok_def payments_ok_def payment_ok_def)
  then have "p_ledgerTransactionId p \<noteq> None" using p(2) by (simp add: payment_state_ok_def)
  with ok p(1) obtain t where "t \<in> set (ledgerTransactions d)" "funded_by p t"
    unfolding books_ok_def payments_ok_def payments_linked_def by auto
  with ok show "\<exists>t \<in> set (ledgerTransactions d). funded_by p t \<and> lt_sealedAt t \<noteq> None"
    by (auto simp: books_ok_def ledger_ok_def double_entry_def)
qed

lemma books_snapshots: "books_ok d \<Longrightarrow> snapshots_ok d"
  unfolding snapshots_ok_def
proof
  fix w assume ok: "books_ok d" and w: "w \<in> set (wallets d)"
  then obtain a where "a \<in> set (accounts d)" "wallet_matches w a"
    unfolding books_ok_def ledger_ok_def pairing_ok_def by blast
  with books_wallet [OF ok w] show "\<exists>a \<in> set (accounts d). la_id a = w_ledgerAccountId w \<and>
      la_balanceMinor a = w_currentBalanceMinor w \<and> la_currency a = w_currency w \<and> 0 \<le> w_currentBalanceMinor w"
    by (auto simp: wallet_matches_def)
qed

text \<open>C5. The audit never finds anything: on every state that the program reaches from sound books, by any
  requests, callbacks, polls and jobs in any order, all five counts are 0 and the exit code is 0.\<close>

theorem audit_always_clean:
  assumes "books_ok d" "system_run d d'"
  shows "map ar_failures (auditRows d') = replicate 5 ''0'' \<and> auditExitCode d' = 0"
proof -
  have ok: "books_ok d'" using system_run_keeps [OF assms(2)] assms(1) by (simp add: keeps_def)
  then have k: "keys_ok d'" by (rule books_keys)
  have "double_entry d'" using ok by (simp add: books_ok_def ledger_ok_def)
  with ok have exit: "auditExitCode d' = 0"
    using books_funded books_snapshots by (simp add: audit_exact [OF k])
  then have "\<forall>row \<in> set (auditRows d'). ar_failures row = ''0''"
    by (auto simp: auditExitCode_def list_ex_iff split: if_splits)
  with exit show ?thesis by (simp add: auditRows_def numeral_eq_Suc)
qed

section \<open>Witnesses\<close>

text \<open>A snapshot somebody tampered with: one unit more on every account.\<close>

definition tampered :: db where
  "tampered = db0\<lparr>accounts := map (\<lambda>a. a\<lparr>la_balanceMinor := la_balanceMinor a + 1\<rparr>) (accounts db0)\<rparr>"

theorem audit_exact_witness:
  "auditExitCode db0 = 0 \<and> auditExitCode tampered = 1 \<and> double_entry db0 \<and> snapshots_ok db0 \<and>
   \<not> (double_entry tampered \<and> snapshots_ok tampered \<and> successes_funded tampered)"
proof -
  have "keys_ok db0" using db0_books by (rule books_keys)
  moreover from this have "keys_ok tampered" by (simp add: keys_ok_def tampered_def account_pk.unique_def ltx_pk.unique_def image_image comp_def)
  moreover have "auditExitCode db0 = 0" "auditExitCode tampered = 1" by code_simp+
  ultimately show ?thesis using audit_exact [of db0] audit_exact [of tampered] by simp
qed

theorem audit_always_clean_witness:
  "auditExitCode (after_transfer rt0 ''u1'' ''k-1'' request0 route0 ledger0 db0) = 0"
  using audit_always_clean [OF db0_books run0] by blast

end
