(* ===== verification/Announcements.thy ===== *)
theory Announcements
  imports ApiSamples OutboxClaims
begin

text \<open>
  The services and the two workers together: whatever happened to money (a transfer, a reversal, a payment
  that succeeded or failed) is announced by exactly one outbox event, which nothing in the program loses or alters, and
  which ends in exactly one notification to the user it concerns.
\<close>

section \<open>What happened, and what was said about it\<close>

fun happened :: "db \<Rightarrow> OutboxEventType \<Rightarrow> uuid \<Rightarrow> uuid \<Rightarrow> bool" where
  "happened d TRANSFER_COMPLETED i u = existsRow (\<lambda>t. t_id t = i \<and> t_senderUserId t = u) (transfers d)"
| "happened d TRANSFER_REVERSED i u = existsRow (\<lambda>r. r_id r = i \<and> r_actorUserId r = u) (reversals d)"
| "happened d PAYMENT_SUCCEEDED i u = existsRow (\<lambda>p. p_id p = i \<and> p_userId p = u \<and> p_status p = P_SUCCEEDED) (payments d)"
| "happened d PAYMENT_FAILED i u = existsRow (\<lambda>p. p_id p = i \<and> p_userId p = u \<and> p_status p = P_FAILED) (payments d)"

definition tells :: "outbox_event \<Rightarrow> OutboxEventType \<Rightarrow> uuid \<Rightarrow> uuid \<Rightarrow> bool" where
  "tells e ty i u \<longleftrightarrow> e_type e = ty \<and> e_aggregateId e = i \<and> e_actorUserId e = u"

definition notifies :: "notification \<Rightarrow> outbox_event \<Rightarrow> bool" where
  "notifies n e \<longleftrightarrow> n_outboxEventId n = e_id e \<and> n_userId n = e_actorUserId e \<and>
     (let c = notificationContent (e_type e) (e_aggregateId e)
      in n_type n = nc_type c \<and> n_subject n = nc_subject c \<and> n_body n = nc_body c)"

definition subjectOf :: "outbox_event \<Rightarrow> OutboxEventType \<times> uuid" where
  "subjectOf e = (e_type e, e_aggregateId e)"

definition announced :: "db \<Rightarrow> bool" where
  "announced d \<longleftrightarrow> event_pk.unique (outboxEvents d) \<and> distinct (map subjectOf (outboxEvents d)) \<and>
     (\<forall>e \<in> set (outboxEvents d). e_actorUserId e \<in> u_id ` set (users d)) \<and>
     (\<forall>ty i u. happened d ty i u \<longrightarrow> (\<exists>e \<in> set (outboxEvents d). tells e ty i u)) \<and>
     distinct (map n_outboxEventId (notifications d)) \<and>
     (\<forall>n \<in> set (notifications d). \<exists>e \<in> set (outboxEvents d). notifies n e)"

text \<open>What was said stays said: the events keep their content, the notifications are kept.\<close>

definition said :: "db \<Rightarrow> db \<Rightarrow> bool" where
  "said d d' \<longleftrightarrow> (\<forall>e \<in> set (outboxEvents d). \<exists>e' \<in> set (outboxEvents d'). same_fact e e') \<and>
     prefix (notifications d) (notifications d')"

definition reports :: "db \<Rightarrow> db \<Rightarrow> bool" where
  "reports d d' \<longleftrightarrow> (books_ok d \<and> announced d \<longrightarrow> books_ok d' \<and> announced d' \<and> said d d')"

lemma same_fact_refl [simp]: "same_fact e e"
  by (simp add: same_fact_def)

lemma same_fact_in: "e \<in> A \<Longrightarrow> \<exists>e' \<in> A. same_fact e e'"
  using same_fact_refl by blast

lemma same_fact_trans: "same_fact a b \<Longrightarrow> same_fact b c \<Longrightarrow> same_fact a c"
  by (simp add: same_fact_def)

lemma same_fact_says:
  "same_fact e e' \<Longrightarrow> tells e' ty i u = tells e ty i u \<and> notifies n e' = notifies n e \<and> subjectOf e' = subjectOf e \<and>
     e_id e' = e_id e \<and> e_actorUserId e' = e_actorUserId e"
  by (simp add: same_fact_def tells_def notifies_def subjectOf_def)

lemma said_refl: "said d d"
  unfolding said_def using same_fact_refl by blast

lemma said_trans: "said a b \<Longrightarrow> said b c \<Longrightarrow> said a c"
  unfolding said_def by (meson same_fact_trans prefix_order.trans)

lemma happened_same:
  "transfers d' = transfers d \<Longrightarrow> reversals d' = reversals d \<Longrightarrow> payments d' = payments d \<Longrightarrow>
   happened d' ty i u = happened d ty i u"
  by (cases ty) simp_all

text \<open>The session settings do not matter.\<close>

lemma announced_settings [simp]: "announced (d\<lparr>settings := s\<rparr>) = announced d"
proof -
  have "happened (d\<lparr>settings := s\<rparr>) ty i u = happened d ty i u" for ty i u by (rule happened_same) simp_all
  then show ?thesis by (simp add: announced_def)
qed

interpretation reports: step_relation reports
proof unfold_locales
  show "reports d d" for d by (simp add: reports_def said_refl)
  show "reports a b \<Longrightarrow> reports b c \<Longrightarrow> reports a c" for a b c unfolding reports_def using said_trans by blast
  show "reports a b \<Longrightarrow> reports a (b\<lparr>settings := s\<rparr>)" for a b s by (simp add: reports_def said_def)
qed

section \<open>Steps that tell nothing new\<close>

text \<open>The events are those of before, perhaps with another delivery status; nothing new happened.\<close>

lemma nothing_new:
  assumes a: "announced d" and ev: "list_all2 same_fact (outboxEvents d) (outboxEvents d')"
    and n: "notifications d' = notifications d" and u: "set (users d) \<subseteq> set (users d')"
    and h: "\<And>ty i u. happened d' ty i u \<Longrightarrow> happened d ty i u"
  shows "announced d' \<and> said d d'"
proof -
  have to: "\<exists>e' \<in> set (outboxEvents d'). same_fact e e'" if "e \<in> set (outboxEvents d)" for e
    using ev that by (induction rule: list_all2_induct) auto
  have old: "\<exists>e \<in> set (outboxEvents d). same_fact e e'" if "e' \<in> set (outboxEvents d')" for e'
    using ev that by (induction rule: list_all2_induct) auto
  have eq: "map e_id (outboxEvents d') = map e_id (outboxEvents d)" "map subjectOf (outboxEvents d') = map subjectOf (outboxEvents d)"
    using ev by (induction rule: list_all2_induct) (simp_all add: same_fact_says)
  have "\<exists>e \<in> set (outboxEvents d'). tells e ty i u" if "happened d' ty i u" for ty i u
    using a h [OF that] to same_fact_says unfolding announced_def by meson
  moreover have "\<exists>e \<in> set (outboxEvents d'). notifies m e" if "m \<in> set (notifications d')" for m
    using a that to same_fact_says unfolding announced_def n by meson
  moreover have "e_actorUserId e \<in> u_id ` set (users d')" if "e \<in> set (outboxEvents d')" for e
    using a old [OF that] u same_fact_says unfolding announced_def by (metis image_mono subsetD)
  ultimately have "announced d'" using a by (simp add: announced_def n eq event_pk.unique_def)
  with to n show ?thesis by (simp add: said_def)
qed

lemma same_tables:
  assumes "announced d" "outboxEvents d' = outboxEvents d" "notifications d' = notifications d" "set (users d) \<subseteq> set (users d')"
    and "transfers d' = transfers d" "reversals d' = reversals d" "payments d' = payments d"
  shows "announced d' \<and> said d d'"
  using assms happened_same [of d' d] by (intro nothing_new) (simp_all add: list_all2_refl)

text \<open>\<open>aside\<close>: neither the books nor the outbox nor the notifications.\<close>

definition aside :: "db \<Rightarrow> db \<Rightarrow> bool" where
  "aside d d' \<longleftrightarrow> untouched d d' \<and> outboxEvents d' = outboxEvents d \<and> notifications d' = notifications d"

interpretation aside: step_relation aside
  by unfold_locales (simp_all add: aside_def untouched_def)

lemma aside_reports:
  assumes "aside d d'"
  shows "reports d d'"
proof -
  have un: "untouched d d'" and ev: "outboxEvents d' = outboxEvents d" "notifications d' = notifications d"
    using assms by (simp_all add: aside_def)
  then have "announced d' \<and> said d d'" if "announced d"
    using that by (intro same_tables) (simp_all add: untouched_def)
  moreover have "books_ok d \<Longrightarrow> books_ok d'" using untouched_steady [OF un] by (simp add: steady_def)
  ultimately show ?thesis by (simp add: reports_def)
qed

lemma aside_writes:
  "within aside (modify (\<lambda>d. d\<lparr>subscriptions := f1 d\<rparr>))" "within aside (modify (\<lambda>d. d\<lparr>deliveries := f2 d\<rparr>))"
  "within aside (modify (\<lambda>d. d\<lparr>attempts := f3 d\<rparr>))" "within aside (modify (\<lambda>d. d\<lparr>beneficiaries := f4 d\<rparr>))"
  "within aside (modify (\<lambda>d. d\<lparr>checkouts := f5 d\<rparr>))"
  by (simp_all add: within_def op_simps aside_def untouched_def)

lemmas aside_steps = aside.steps aside_writes

lemma aside_tables:
  "within aside (updateMany_attempts p f)" "within aside (updateMany_deliveries q g)"
  "within aside (update_delivery vid g)" "within aside (create_attempt a)" "within aside (findUniqueOrThrow x)"
  "within aside (create_subscription s)" "within aside (create_beneficiary b)" "within aside (update_beneficiary bid h)"
  "within aside (withWallet b)" "within aside (initializePaystack rt env pay)"
  unfolding updateMany_attempts_def updateMany_deliveries_def update_delivery_def create_attempt_def findUniqueOrThrow_def
    create_subscription_def create_beneficiary_def update_beneficiary_def withWallet_def initializePaystack_def
    claim_checkout_def update_checkout_def
  by (intro aside_steps)+

lemma claimRows_aside: "within aside (claimRows rt clock k rows)"
proof (induction rows arbitrary: k)
  case (Cons row rows)
  show ?case unfolding claimRows.simps claimRow_def by (intro aside_steps aside_tables Cons.IH)
qed (simp add: aside.steps)

lemma webhook_calls_aside:
  "within aside (claimBatch abort rt clock skip)" "within aside (start abort rt clock job)"
  "within aside (finish abort rt clock job out expected)" "within aside (webhooksDisable abort rt u sid)"
  "within aside (webhooksCreate rt cr net u url)"
  unfolding claimBatch_def start_def startBody_def finish_def finishBody_def locked_def webhooksDisable_def
    disableBody_def webhooksCreate_def
  by (intro aside_steps aside_tables claimRows_aside)+

lemma within_aside: "within aside m \<Longrightarrow> within reports m"
  unfolding within_def using aside_reports by blast

lemma webhook_reports: "webhook_step rt d d' \<Longrightarrow> reports d d'"
  by (rule aside_reports, erule webhook_step.cases)
    ((hypsubst, drule withinD [OF webhook_calls_aside(1)] withinD [OF webhook_calls_aside(2)]
      withinD [OF webhook_calls_aside(3)] withinD [OF webhook_calls_aside(4)]
      withinD [OF webhook_calls_aside(5)], assumption)+, simp add: aside_def untouched_def)

section \<open>Steps that announce\<close>

text \<open>One event more, for the one thing that happened.\<close>

lemma new_event:
  assumes a: "announced d" and ev: "outboxEvents d' = outboxEvents d @ [e]"
    and fresh: "\<not> existsRow (\<lambda>f. e_id f = e_id e \<or> (e_type f = e_type e \<and> e_aggregateId f = e_aggregateId e)) (outboxEvents d)"
    and n: "notifications d' = notifications d" and u: "users d' = users d" "e_actorUserId e \<in> u_id ` set (users d)"
    and h: "\<And>ty i u. happened d' ty i u \<Longrightarrow> happened d ty i u \<or> tells e ty i u"
  shows "announced d' \<and> said d d'"
proof -
  have "\<exists>f \<in> set (outboxEvents d'). tells f ty i u" if "happened d' ty i u" for ty i u
    using a h [OF that] unfolding announced_def ev by auto
  moreover have "\<exists>f \<in> set (outboxEvents d'). notifies m f" if "m \<in> set (notifications d')" for m
    using a that unfolding announced_def n ev by auto
  moreover have "event_pk.unique (outboxEvents d')" "distinct (map subjectOf (outboxEvents d'))"
    using a fresh by (auto simp: announced_def ev event_pk.unique_def existsRow_iff subjectOf_def)
  ultimately have "announced d'" using a u by (simp add: announced_def n ev)
  moreover have "said d d'" unfolding said_def ev n by (auto intro: same_fact_in)
  ultimately show ?thesis by simp
qed

text \<open>One notification more, for an event that has none.\<close>

lemma new_notification:
  assumes a: "announced d" and e: "e \<in> set (outboxEvents d)" "notifies n e"
    and fresh: "\<forall>m \<in> set (notifications d). n_outboxEventId m \<noteq> n_outboxEventId n"
    and d': "d' = d\<lparr>notifications := notifications d @ [n]\<rparr>"
  shows "announced d' \<and> said d d'"
proof -
  have "happened d' ty i u = happened d ty i u" for ty i u by (rule happened_same) (simp_all add: d')
  then have "announced d'" using a e fresh by (auto simp: announced_def d')
  moreover have "said d d'" unfolding said_def d' by (auto intro: same_fact_in)
  ultimately show ?thesis by simp
qed

section \<open>The transactions of the services\<close>

lemma within_reports:
  assumes "within keeps m" "\<And>d r d'. books_ok d \<Longrightarrow> announced d \<Longrightarrow> m d = (r, d') \<Longrightarrow> announced d' \<and> said d d'"
  shows "within reports m"
  unfolding within_def
proof
  fix d
  obtain r d' where run: "m d = (r, d')" by (meson surj_pair)
  have "keeps d d'" using assms(1) run by (rule withinD)
  with assms(2) [OF _ _ run] run show "reports d (snd (m d))" by (simp add: reports_def keeps_def)
qed

lemma steady_within: "within steady m \<Longrightarrow> within keeps m"
  unfolding within_def using steady_keeps by blast

lemma unchanged: "announced d \<Longrightarrow> d' = d \<or> d' = d\<lparr>settings := []\<rparr> \<Longrightarrow> announced d' \<and> said d d'"
  using said_refl [of d] by (auto simp: said_def)

lemma refused: "announced d \<Longrightarrow> announced (after_refusal c s m d) \<and> said d (after_refusal c s m d)"
  by (rule same_tables) (simp_all add: after_refusal_def)

lemma register_reports: "within reports (createWithInitialWallet rt abort input)"
proof (rule within_reports [OF steady_within [OF register_steady]])
  fix d r d' assume ok: "books_ok d" "announced d" and run: "createWithInitialWallet rt abort input d = (r, d')"
  have led: "ledger_ok d" using ok by (simp add: books_ok_def)
  show "announced d' \<and> said d d'"
  proof (cases r)
    case (Inl e)
    with run have "d' = d" unfolding createWithInitialWallet_def by (auto dest: prisma_transaction_Inl)
    with ok unchanged show ?thesis by blast
  next
    case (Inr x)
    obtain su w where "x = (su, w)" by (cases x)
    with Inr run have "createWithInitialWallet rt abort input d = (Inr (su, w), d')" by simp
    from register_Inr [OF led this] show ?thesis
      by (intro same_tables [OF ok(2)]) (auto simp: opened_wallet_def)
  qed
qed

lemma open_wallet_reports: "within reports (walletsCreate rt abort u c)"
proof (rule within_reports [OF steady_within [OF open_wallet_steady]])
  fix d r d' assume ok: "books_ok d" "announced d" and run: "walletsCreate rt abort u c d = (r, d')"
  have "ledger_ok d" using ok by (simp add: books_ok_def)
  from walletsCreate_outcomes [OF this run] show "announced d' \<and> said d d'"
  proof
    assume d': "d' = (opened_wallet rt 0 u c d)\<lparr>settings := []\<rparr>"
    show ?thesis by (rule same_tables [OF ok(2)]) (simp_all add: d' opened_wallet_def)
  qed (use ok unchanged in blast)
qed

lemma close_wallet_reports: "within reports (walletsClose rt abort seen u wid)"
proof (rule within_reports [OF steady_within [OF close_wallet_steady]])
  fix d r d' assume ok: "books_ok d" "announced d" and run: "walletsClose rt abort seen u wid d = (r, d')"
  have "outboxEvents d' = outboxEvents d" "notifications d' = notifications d" "users d' = users d"
    "transfers d' = transfers d" "reversals d' = reversals d" "payments d' = payments d"
    using close_cases [OF run] by auto
  then show "announced d' \<and> said d d'"
    by (intro same_tables [OF ok(2)]) simp_all
qed

lemma existsRow_append [simp]: "existsRow p (xs @ ys) \<longleftrightarrow> existsRow p xs \<or> existsRow p ys"
  by (auto simp: existsRow_iff)

lemma intent_reports:
  assumes rt: "uuid_source rt"
  shows "within reports (prisma_transaction abort (intentBody rt ps u key h wid am a))"
proof (rule within_reports [OF steady_within [OF intent_steady [OF rt]]])
  fix d r d' assume ok: "books_ok d" "announced d"
    and run: "prisma_transaction abort (intentBody rt ps u key h wid am a) d = (r, d')"
  show "announced d' \<and> said d d'"
  proof (cases r)
    case (Inl e)
    with run have "d' = d" by (auto dest: prisma_transaction_Inl)
    with ok unchanged show ?thesis by blast
  next
    case (Inr p)
    with run have "createIntent rt ps abort (\<lambda>e. e) u key h wid am a d = (Inr p, d')"
      by (simp add: createIntent_def tryCatch_def)
    from createIntent_outcomes [OF ok(1) this] show ?thesis
    proof (elim disjE exE conjE)
      fix w q assume q: "q = newPayment rt ps u w key h a" and d': "d' = d\<lparr>settings := [], payments := payments d @ [q]\<rparr>"
      have "happened d ty i v" if "happened d' ty i v" for ty i v
        using that by (cases ty) (auto simp: d' q newPayment_def existsRow_iff)
      then show ?thesis by (intro nothing_new [OF ok(2)]) (simp_all add: d' list_all2_refl)
    qed (use ok unchanged in blast)+
  qed
qed

text \<open>A settled payment is announced by the event that is stored with its outcome.\<close>

lemma outcome_announced:
  assumes a: "announced d" and p: "payment_pk.unique (payments d)" "p \<in> set (payments d)"
    and out: "outcome_writable rt p st d" "st = P_SUCCEEDED \<or> st = P_FAILED"
    and d': "outboxEvents d' = outboxEvents d @ [paymentEvent rt p st]" "notifications d' = notifications d"
      "users d' = users d" "transfers d' = transfers d" "reversals d' = reversals d"
      "payments d' = payment_pk.put (p_id p) (settledAs st now l) (payments d)"
  shows "announced d' \<and> said d d'"
proof (rule new_event [OF a d'(1)])
  have ev: "e_id (paymentEvent rt p st) = rt_uuid rt 4" "e_aggregateId (paymentEvent rt p st) = p_id p"
    "e_type (paymentEvent rt p st) = (if st = P_SUCCEEDED then PAYMENT_SUCCEEDED else PAYMENT_FAILED)"
    "e_actorUserId (paymentEvent rt p st) = p_userId p"
    by (simp_all add: paymentEvent_def new_outboxEvent_def)
  show "\<not> existsRow (\<lambda>f. e_id f = e_id (paymentEvent rt p st) \<or> (e_type f = e_type (paymentEvent rt p st) \<and>
      e_aggregateId f = e_aggregateId (paymentEvent rt p st))) (outboxEvents d)"
    "e_actorUserId (paymentEvent rt p st) \<in> u_id ` set (users d)"
    using out(1) by (simp_all add: outcome_writable_def ev)
  have pay: "q = settledAs st now l p \<or> q \<in> set (payments d)" if "q \<in> set (payments d')" for q
    using put_members [OF p] that unfolding d'(6) by blast
  show "happened d ty i u \<or> tells (paymentEvent rt p st) ty i u" if "happened d' ty i u" for ty i u
    using that out(2) by (cases ty) (auto simp: tells_def ev d'(4,5) existsRow_iff dest!: pay)
qed (use d' in simp_all)

lemma settlement_reports: "within reports (prisma_transaction abort (settleBody rt ev pr))"
proof (rule within_reports [OF steady_within [OF settle_transaction_steady]])
  fix d r d' assume ok: "books_ok d" "announced d" and run: "prisma_transaction abort (settleBody rt ev pr) d = (r, d')"
  show "announced d' \<and> said d d'"
  proof (cases r)
    case (Inl e)
    with run have "d' = d" by (auto dest: prisma_transaction_Inl)
    with ok unchanged show ?thesis by blast
  next
    case (Inr x)
    with run obtain m where m: "settles rt ev pr d x m" "d' = m\<lparr>settings := []\<rparr>"
      using settleBody_Inr [OF books_okD [OF ok(1)]] by (auto simp: prisma_transaction_Inr)
    from m(1) obtain p where p: "findIntent pr ev d = Some p"
      and out: "m = d \<or> m = with_evidence rt pr p ev d \<or>
        outcome_writable rt p (ve_status ev) d \<and> (ve_status ev = P_FAILED \<and> m = declined rt pr p ev d \<or>
          ve_status ev = P_SUCCEEDED \<and> (\<exists>w a n. fundable rt p w a n d \<and> m = funded rt pr p ev n d))"
      by (auto simp: settles_def)
    have pin: "p \<in> set (payments d)" "payment_pk.unique (payments d)"
      using findIntent_in [OF p] ok(1) by (auto simp: books_ok_def payments_ok_def)
    have "announced m \<and> said d m"
      using out
    proof (elim disjE conjE exE)
      show "m = d \<Longrightarrow> ?thesis" using ok(2) said_refl by simp
      show "m = with_evidence rt pr p ev d \<Longrightarrow> ?thesis"
        by (rule same_tables [OF ok(2)]) (simp_all add: with_evidence_def)
      show ?thesis if "outcome_writable rt p (ve_status ev) d" "ve_status ev = P_FAILED" "m = declined rt pr p ev d"
        using that by (intro outcome_announced [OF ok(2) pin(2,1), of rt P_FAILED m "rt_now rt" None])
          (simp_all add: declined_def with_outcome_def with_evidence_def)
      show ?thesis if "outcome_writable rt p (ve_status ev) d" "ve_status ev = P_SUCCEEDED" "m = funded rt pr p ev n d" for n
        using that by (intro outcome_announced [OF ok(2) pin(2,1), of rt P_SUCCEEDED m "rt_now rt" "Some (rt_uuid rt 1)"])
          (simp_all add: funded_def with_outcome_def with_evidence_def ledger_effect_def)
    qed
    then show ?thesis by (simp add: m(2) said_def)
  qed
qed

lemma transfer_reports: "within reports (transfersCreate rt abort observed u hdr input)"
proof (rule within_reports [OF transfer_keeps])
  fix d r d' assume ok: "books_ok d" "announced d" and run: "transfersCreate rt abort observed u hdr input d = (r, d')"
  have led: "ledger_ok d" using ok(1) by (simp add: books_ok_def)
  from transfersCreate_outcomes [OF ledger_ok_sound [OF led] run] show "announced d' \<and> said d d'"
  proof (elim disjE exE conjE)
    fix key req ro n assume can: "transfer_allowed rt u req ro n d" and d': "d' = after_transfer rt u key req ro n d"
    let ?t = "newTransfer rt u req ro (rt_uuid rt 2)"
    have happens: "happened d ty i v \<or> tells (transferEvent rt u ?t) ty i v" if "happened d' ty i v" for ty i v
      using that by (cases ty) (auto simp: d' after_transfer_def tells_def newTransfer_def existsRow_iff)
    show ?thesis
      by (rule new_event [OF ok(2), of d' "transferEvent rt u ?t"]; (rule happens; assumption)?)
        (use can in \<open>simp_all add: d' after_transfer_def transfer_effect_def transfer_rows_def ledger_effect_def
          transfer_allowed_def transfer_writable_def transfer_fresh_def newTransfer_def\<close>)
  qed (use ok unchanged refused in blast)+
qed

lemma reversal_reports: "within reports (reversalsCreate rt abort observed u tid hdr reason)"
proof (rule within_reports [OF reversal_keeps])
  fix d r d' assume ok: "books_ok d" "announced d" and run: "reversalsCreate rt abort observed u tid hdr reason d = (r, d')"
  have led: "ledger_ok d" using ok(1) by (simp add: books_ok_def)
  from reversalsCreate_outcomes [OF ledger_ok_sound [OF led] run] show "announced d' \<and> said d d'"
  proof (elim disjE exE conjE)
    fix key v n assume can: "reversal_allowed rt u (normalizeReversalRequest tid reason) v n d"
      and d': "d' = after_reversal rt u key (normalizeReversalRequest tid reason) v n d"
    let ?r = "newReversal rt u (normalizeReversalRequest tid reason) v (rt_uuid rt 2)"
    have ev: "e_id (reversalEvent rt u v ?r) = rt_uuid rt 6" "e_type (reversalEvent rt u v ?r) = TRANSFER_REVERSED"
      "e_aggregateId (reversalEvent rt u v ?r) = rt_uuid rt 1" "e_actorUserId (reversalEvent rt u v ?r) = u"
      by (simp_all add: reversalEvent_def new_outboxEvent_def newReversal_def)
    have happens: "happened d ty i w \<or> tells (reversalEvent rt u v ?r) ty i w" if "happened d' ty i w" for ty i w
      using that by (cases ty) (auto simp: d' after_reversal_def tells_def ev newReversal_def existsRow_iff)
    show ?thesis
      by (rule new_event [OF ok(2), of d' "reversalEvent rt u v ?r"]; (rule happens; assumption)?)
        (use can in \<open>simp_all add: d' ev after_reversal_def reversal_effect_def reversal_rows_def ledger_effect_def
          reversal_allowed_def reversal_writable_def\<close>)
  qed (use ok unchanged refused in blast)+
qed

interpretation reports: transactions reports
  by unfold_locales (intro register_reports open_wallet_reports close_wallet_reports settlement_reports intent_reports; assumption |
    intro within_aside aside_tables webhook_calls_aside)+

section \<open>The workers\<close>

text \<open>\<open>relayed\<close>: only the delivery status of events.\<close>

definition relayed :: "db \<Rightarrow> db \<Rightarrow> bool" where
  "relayed d d' \<longleftrightarrow> untouched d d' \<and> list_all2 same_fact (outboxEvents d) (outboxEvents d') \<and> notifications d' = notifications d"

interpretation relayed: step_relation relayed
proof unfold_locales
  show "relayed d d" for d by (simp add: relayed_def list_all2_refl untouched.refl)
  show "relayed a b \<Longrightarrow> relayed b c \<Longrightarrow> relayed a c" for a b c
    unfolding relayed_def using untouched_trans list_all2_trans [of same_fact same_fact same_fact] same_fact_trans by metis
  show "relayed a b \<Longrightarrow> relayed a (b\<lparr>settings := s\<rparr>)" for a b s by (simp add: relayed_def untouched_def)
qed

lemma update_relays: "(\<And>e. same_fact e (f e)) \<Longrightarrow> list_all2 same_fact es (updateRows p f es)"
  by (simp add: updateRows_def list_all2_conv_all_nth)

lemma outbox_relayed:
  "within relayed (unlessError err (update_event i (publishedEvent now)))"
  "within relayed (unlessError err (update_event i (retriedEvent now delay m)))"
  "within relayed (unlessError err (claimEvents now skip))"
proof -
  have facts: "same_fact e (publishedEvent now e)" "same_fact e (retriedEvent now delay m e)" "same_fact e (lockEvent now e)" for e
    by (simp_all add: same_fact_def publishedEvent_def retriedEvent_def lockEvent_def)
  have rows: "relayed d (d\<lparr>outboxEvents := es\<rparr>)" if "list_all2 same_fact (outboxEvents d) es" for d es
    using that by (simp add: relayed_def untouched_def)
  show "within relayed (unlessError err (update_event i (publishedEvent now)))"
    "within relayed (unlessError err (update_event i (retriedEvent now delay m)))"
    "within relayed (unlessError err (claimEvents now skip))"
    unfolding unlessError_def update_event_def claimEvents_def event_pk.put_def
    by (intro relayed.steps relayed.within_modify rows update_relays facts)+
qed

lemma relayed_reports:
  assumes "relayed d d'"
  shows "reports d d'"
proof -
  have un: "untouched d d'" and ev: "list_all2 same_fact (outboxEvents d) (outboxEvents d')" "notifications d' = notifications d"
    using assms by (simp_all add: relayed_def)
  then have "announced d' \<and> said d d'" if "announced d"
    using that happened_same [of d' d] by (intro nothing_new) (simp_all add: untouched_def)
  moreover have "books_ok d \<Longrightarrow> books_ok d'" using untouched_steady [OF un] by (simp add: steady_def)
  ultimately show ?thesis by (simp add: reports_def)
qed

lemma dispatch_reports: "dispatchOnce wk claimError env beat now skip (d, q) = (r, (d', q')) \<Longrightarrow> reports d d'"
  by (rule relayed_reports [OF relayed.dispatch_within [OF outbox_relayed]])

lemma newNotification_notifies: "notifies (newNotification rt e) e"
  by (simp add: notifies_def newNotification_def Let_def)

lemma persist_cases:
  assumes "persistForEvent rt i d = (r, d')"
  shows "d' = d \<or> (\<exists>e. event_pk.lookup i (outboxEvents d) = Some e \<and>
    (\<forall>m \<in> set (notifications d). n_outboxEventId m \<noteq> e_id e) \<and>
    d' = d\<lparr>notifications := notifications d @ [newNotification rt e]\<rparr>)"
  using assms
  by (auto simp: persistForEvent_def findUniqueOrThrow_def create_notification_def op_simps findRow_None
      split: option.splits if_splits)

lemma notify_reports: "persistForEvent rt i d = (r, d') \<Longrightarrow> reports d d'"
proof -
  assume run: "persistForEvent rt i d = (r, d')"
  from persist_cases [OF run] have "announced d' \<and> said d d'" if "announced d"
  proof (elim disjE exE conjE)
    fix e assume e: "event_pk.lookup i (outboxEvents d) = Some e" and fresh: "\<forall>m \<in> set (notifications d). n_outboxEventId m \<noteq> e_id e"
      and d': "d' = d\<lparr>notifications := notifications d @ [newNotification rt e]\<rparr>"
    from event_pk.lookup_Some [OF e] newNotification_notifies [of rt e] fresh d' show ?thesis
      by (intro new_notification [OF that, of e]) (auto simp: notifies_def)
  qed (use that said_refl in simp)
  moreover have "books_ok d \<Longrightarrow> books_ok d'"
    using untouched_steady [OF withinD [OF notify_untouched run]] by (simp add: steady_def)
  ultimately show ?thesis by (simp add: reports_def)
qed

text \<open>Every run keeps the announcements.\<close>

lemma system_run_reports: "system_run d d' \<Longrightarrow> reports d d'"
proof (induction rule: system_run.induct)
  case (request ap route d r d')
  have "within reports (handle ap route)"
    using request by (intro reports.handle_within transfer_reports reversal_reports) blast+
  then show ?case using \<open>handle ap route d = (r, d')\<close> by (rule withinD)
qed (blast intro: reports.refl reports.trans webhook_reports dispatch_reports notify_reports)+

section \<open>Properties\<close>

lemma filter_one:
  "distinct (map f xs) \<Longrightarrow> x \<in> set xs \<Longrightarrow> filter (\<lambda>y. f y = f x) xs = [x]"
proof (induction xs)
  case (Cons y ys)
  show ?case
  proof (cases "y = x")
    case True
    with Cons.prems(1) have "\<forall>z \<in> set ys. f z \<noteq> f x" by (metis imageI distinct.simps(2) list.set_map list.simps(9))
    with True show ?thesis by (simp add: filter_empty_conv)
  next
    case False
    with Cons.prems have "x \<in> set ys" "f y \<noteq> f x" by (auto simp: image_iff)
    with Cons show ?thesis by simp
  qed
qed simp

lemma findRow_filter: "filter p rs = [r] \<Longrightarrow> findRow p rs = Some r"
  by (induction rs) (auto split: if_splits)

text \<open>Once notified, always notified, and a job that is run again changes nothing.\<close>

lemma notified_forever:
  assumes ok: "books_ok d" "announced d" and e: "e \<in> set (outboxEvents d)" and n: "n \<in> set (notifications d)" "n_outboxEventId n = e_id e"
    and run: "system_run d d'"
  shows "filter (\<lambda>m. n_outboxEventId m = e_id e) (notifications d') = [n] \<and> persistForEvent rt (e_id e) d' = (Inr n, d')"
proof -
  have later: "announced d'" "said d d'" using system_run_reports [OF run] ok by (simp_all add: reports_def)
  then obtain e' where e': "e' \<in> set (outboxEvents d')" "same_fact e e'" using e by (auto simp: said_def)
  have "n \<in> set (notifications d')" using later(2) n(1) by (auto simp: said_def dest: set_mono_prefix)
  moreover have dist: "distinct (map n_outboxEventId (notifications d'))" using later(1) by (simp add: announced_def)
  ultimately have one: "filter (\<lambda>m. n_outboxEventId m = e_id e) (notifications d') = [n]"
    using filter_one [of n_outboxEventId _ n] n(2) by simp
  then have "findRow (\<lambda>m. n_outboxEventId m = e_id e) (notifications d') = Some n"
    by (rule findRow_filter)
  moreover have "event_pk.lookup (e_id e) (outboxEvents d') = Some e'"
    using later(1) e' event_pk.lookup_unique [of "outboxEvents d'" "e_id e" e'] by (simp add: announced_def same_fact_def)
  moreover have "e_id e' = e_id e" using e'(2) by (simp add: same_fact_def)
  ultimately show ?thesis using one by (simp add: persistForEvent_def findUniqueOrThrow_def op_simps)
qed

lemma told_once:
  assumes "announced d" "happened d ty i u"
  shows "\<exists>e. filter (\<lambda>e. e_type e = ty \<and> e_aggregateId e = i) (outboxEvents d) = [e] \<and> tells e ty i u"
proof -
  from assms obtain e where e: "e \<in> set (outboxEvents d)" "tells e ty i u" unfolding announced_def by blast
  have "filter (\<lambda>f. subjectOf f = subjectOf e) (outboxEvents d) = [e]"
    using assms(1) e(1) by (intro filter_one) (simp_all add: announced_def)
  with e(2) show ?thesis by (auto simp: subjectOf_def tells_def)
qed

lemma job_notifies:
  assumes ok: "announced d" and e: "e \<in> set (outboxEvents d)" "length (e_aggregateId e) \<le> 36"
    and fresh: "rt_uuid rt 0 \<notin> n_id ` set (notifications d)"
  shows "\<exists>n d'. persistForEvent rt (e_id e) d = (Inr n, d') \<and> e \<in> set (outboxEvents d') \<and>
    n \<in> set (notifications d') \<and> notifies n e"
proof -
  have look: "event_pk.lookup (e_id e) (outboxEvents d) = Some e"
    using ok e(1) event_pk.lookup_unique [of "outboxEvents d" "e_id e" e] by (simp add: announced_def)
  have user: "e_actorUserId e \<in> u_id ` set (users d)" and dist: "distinct (map n_outboxEventId (notifications d))"
    using ok e(1) by (simp_all add: announced_def)
  from notification_once [OF dist look user e(2) fresh] obtain n d' where
    run: "persistForEvent rt (e_id e) d = (Inr n, d')" "filter (\<lambda>n. n_outboxEventId n = e_id e) (notifications d') = [n]" by blast
  have "n \<in> set (filter (\<lambda>n. n_outboxEventId n = e_id e) (notifications d'))" by (simp add: run(2))
  then have n: "n \<in> set (notifications d')" "n_outboxEventId n = e_id e" by simp_all
  have ev: "outboxEvents d' = outboxEvents d" and new: "d' = d \<or> n = newNotification rt e \<or> n \<in> set (notifications d)"
    using persist_cases [OF run(1)] look n by auto
  have "notifies n e"
    using new
  proof (elim disjE)
    assume "n = newNotification rt e" then show ?thesis using newNotification_notifies by simp
  next
    assume "n \<in> set (notifications d)"
    then obtain f where f: "f \<in> set (outboxEvents d)" "notifies n f" using ok by (auto simp: announced_def)
    then have "f = e" using n(2) e(1) ok same_event [of "outboxEvents d" f e] by (simp add: announced_def notifies_def)
    with f show ?thesis by simp
  next
    assume "d' = d"
    with n(1) obtain f where f: "f \<in> set (outboxEvents d)" "notifies n f" using ok by (auto simp: announced_def)
    then have "f = e" using n(2) e(1) ok same_event [of "outboxEvents d" f e] by (simp add: announced_def notifies_def)
    with f show ?thesis by simp
  qed
  with run(1) ev e(1) n(1) show ?thesis by auto
qed

text \<open>C6. Nobody is left uninformed, and nobody is told twice. Whatever happened to money in a state the program
  reaches (a transfer, a reversal, a payment that succeeded or failed) has exactly one outbox event. Whenever its
  job is run, there is a notification with the text of what happened to the user it concerns, and in every later state, after any
  requests, polls and repeated jobs, it is the only one for that event.\<close>

theorem announced_once:
  assumes ok: "books_ok d" "announced d" and run: "system_run d d'" and h: "happened d' ty i u" and len: "length i \<le> 36"
  shows "\<exists>e. filter (\<lambda>e. e_type e = ty \<and> e_aggregateId e = i) (outboxEvents d') = [e] \<and>
    (\<forall>rt. rt_uuid rt 0 \<notin> n_id ` set (notifications d') \<longrightarrow>
      (\<exists>n d''. persistForEvent rt (e_id e) d' = (Inr n, d'') \<and> n_userId n = u \<and> n_type n = nc_type (notificationContent ty i) \<and>
        n_body n = nc_body (notificationContent ty i) \<and>
        (\<forall>d3. system_run d'' d3 \<longrightarrow> filter (\<lambda>m. n_outboxEventId m = e_id e) (notifications d3) = [n])))"
proof -
  have ok': "books_ok d'" "announced d'" using system_run_reports [OF run] ok by (simp_all add: reports_def)
  from told_once [OF ok'(2) h] obtain e where e: "filter (\<lambda>e. e_type e = ty \<and> e_aggregateId e = i) (outboxEvents d') = [e]"
    "tells e ty i u" by blast
  have "e \<in> set (filter (\<lambda>e. e_type e = ty \<and> e_aggregateId e = i) (outboxEvents d'))" by (simp add: e(1))
  then have mem: "e \<in> set (outboxEvents d')" "length (e_aggregateId e) \<le> 36" using len by auto
  have "\<exists>n d''. persistForEvent rt (e_id e) d' = (Inr n, d'') \<and> n_userId n = u \<and> n_type n = nc_type (notificationContent ty i) \<and>
        n_body n = nc_body (notificationContent ty i) \<and>
        (\<forall>d3. system_run d'' d3 \<longrightarrow> filter (\<lambda>m. n_outboxEventId m = e_id e) (notifications d3) = [n])"
    if fresh: "rt_uuid rt 0 \<notin> n_id ` set (notifications d')" for rt
  proof -
    from job_notifies [OF ok'(2) mem fresh] obtain n d'' where
      job: "persistForEvent rt (e_id e) d' = (Inr n, d'')" "e \<in> set (outboxEvents d'')" "n \<in> set (notifications d'')" "notifies n e" by blast
    have "books_ok d''" "announced d''" using notify_reports [OF job(1)] ok' by (simp_all add: reports_def)
    from notified_forever [OF this job(2,3)] job(4)
    have "\<forall>d3. system_run d'' d3 \<longrightarrow> filter (\<lambda>m. n_outboxEventId m = e_id e) (notifications d3) = [n]"
      by (simp add: notifies_def)
    with job(1,4) e(2) show ?thesis by (auto simp: notifies_def tells_def Let_def)
  qed
  with e(1) show ?thesis by blast
qed

theorem announced_once_witness:
  "\<exists>e n d''. outboxEvents (after_transfer rt0 ''u1'' ''k-1'' request0 route0 ledger0 db0) = [e] \<and>
    persistForEvent rt0 (e_id e) (after_transfer rt0 ''u1'' ''k-1'' request0 route0 ledger0 db0) = (Inr n, d'') \<and> n_userId n = ''u1''"
proof -
  let ?d = "after_transfer rt0 ''u1'' ''k-1'' request0 route0 ledger0 db0"
  have none: "outboxEvents db0 = []" "notifications db0 = []" "transfers db0 = []" "reversals db0 = []" "payments db0 = []"
    by (simp_all add: db0_def)
  have "\<not> happened db0 ty i u" for ty i u by (cases ty) (simp_all add: none existsRow_iff)
  then have ann: "announced db0" by (simp add: announced_def none event_pk.unique_def)
  have facts: "happened ?d TRANSFER_COMPLETED (rt_uuid rt0 1) ''u1''" "length (rt_uuid rt0 1) \<le> 36"
    "rt_uuid rt0 0 \<notin> n_id ` set (notifications ?d)" by code_simp+
  have all: "filter (\<lambda>e. e_type e = TRANSFER_COMPLETED \<and> e_aggregateId e = rt_uuid rt0 1) (outboxEvents ?d) = outboxEvents ?d"
    by code_simp
  from announced_once [OF db0_books ann run0 facts(1,2)] obtain e where e: "outboxEvents ?d = [e]"
    and job: "\<forall>rt. rt_uuid rt 0 \<notin> n_id ` set (notifications ?d) \<longrightarrow>
      (\<exists>n d''. persistForEvent rt (e_id e) ?d = (Inr n, d'') \<and> n_userId n = ''u1'' \<and>
        n_type n = nc_type (notificationContent TRANSFER_COMPLETED (rt_uuid rt0 1)) \<and>
        n_body n = nc_body (notificationContent TRANSFER_COMPLETED (rt_uuid rt0 1)) \<and>
        (\<forall>d3. system_run d'' d3 \<longrightarrow> filter (\<lambda>m. n_outboxEventId m = e_id e) (notifications d3) = [n]))"
    unfolding all by (elim exE conjE)
  from e job [rule_format, OF facts(3)] show ?thesis by blast
qed

end
