(* ===== verification/SmokeTest.thy ===== *)
theory SmokeTest
  imports ApiSamples "HOL-Library.Code_Target_Numeral"
begin

text \<open>
  The local smoke test, \<open>scripts/smoke-local.mjs\<close>: two registrations, a payment, its callback sent twice, a transfer,
  its reversal, and a look at the wallet, as one sequence of requests. The services together make its assertion true.
\<close>

section \<open>The script\<close>

text \<open>What the script runs against: the surroundings of its requests, in order, its own random ids and clock,
  the HMAC, and its environment.\<close>

record smoke_env =
  sm_api :: "nat \<Rightarrow> api"
  sm_uuid :: "nat \<Rightarrow> uuid"
  sm_now :: time
  sm_hmac256 :: "string \<Rightarrow> string \<Rightarrow> string"
  sm_hostname :: string
  sm_mockSecret :: "string option"
  sm_provider :: "string option"

text \<open>\<open>api\<close>: the request with the token and the extra headers; a reply that is not ok throws. Reading a property
  of a reply of another shape throws, too.\<close>

definition callApi :: "smoke_env \<Rightarrow> nat \<Rightarrow> route_of \<Rightarrow> string option \<Rightarrow> string option \<Rightarrow> (db, api_response) op" where
  "callApi env k route token key =
     handle ((sm_api env k)\<lparr>ap_authorization := map_option (\<lambda>t. ''Bearer '' @ t) token, ap_idempotencyKey := key\<rparr>) route"

definition pick :: "(api_response \<Rightarrow> 'a option) \<Rightarrow> (db, api_response) op \<Rightarrow> (db, 'a) op" where
  "pick select m = andThen m (\<lambda>r. case select r of None \<Rightarrow> raise (OtherError ''TypeError'') | Some x \<Rightarrow> return x)"

fun asRegistered :: "api_response \<Rightarrow> register_response option" where
  "asRegistered (RegisterR x) = Some x" | "asRegistered _ = None"

fun asCheckout :: "api_response \<Rightarrow> checkout_response option" where
  "asCheckout (CheckoutR x) = Some x" | "asCheckout _ = None"

fun asTransfer :: "api_response \<Rightarrow> transfer_response option" where
  "asTransfer (TransferR x) = Some x" | "asTransfer _ = None"

fun asWallet :: "api_response \<Rightarrow> wallet_response option" where
  "asWallet (WalletR x) = Some x" | "asWallet _ = None"

definition smokeAccount :: "smoke_env \<Rightarrow> nat \<Rightarrow> register_input" where
  "smokeAccount env k =
     \<lparr>ri_email = ''smoke-'' @ sm_uuid env (2 * k) @ ''@example.com'', ri_password = ''local-'' @ sm_uuid env (2 * k + 1),
      ri_firstName = ''Local'', ri_lastName = ''Smoke'', ri_currency = Some NGN\<rparr>"

definition smokeRegister :: "smoke_env \<Rightarrow> nat \<Rightarrow> (db, register_response) op" where
  "smokeRegister env k = pick asRegistered (callApi env k (AuthRoute (Register (smokeAccount env k))) None None)"

definition smokeEvent :: "smoke_env \<Rightarrow> string \<Rightarrow> json" where
  "smokeEvent env reference =
     JObj [(''eventId'', JStr (sm_uuid env 5)), (''reference'', JStr reference), (''amountMinor'', JStr ''10000''),
       (''currency'', JStr ''NGN''), (''status'', JStr ''SUCCEEDED'')]"

definition smokeCallback :: "smoke_env \<Rightarrow> nat \<Rightarrow> json \<Rightarrow> (db, api_response) op" where
  "smokeCallback env k body =
     (let raw = js_stringify body;
          timestamp = js_showInt (sm_now env div 1000);
          signature = ''v1='' @ sm_hmac256 env (the (sm_mockSecret env)) (timestamp @ ''.'' @ raw)
      in callApi env k (CallbackRoute (MockCallback (Some raw) (Some timestamp) (Some signature))) None None)"

text \<open>The balance that the script asserts to be \<open>'10000'\<close>.\<close>

definition smoke :: "smoke_env \<Rightarrow> (db, string) op" where
  "smoke env =
     andThen (require (sm_hostname env \<in> {''127.0.0.1'', ''localhost'', ''[::1]''})
       (OtherError ''Smoke test is restricted to loopback'')) (\<lambda>_.
     andThen (require (truthy (sm_mockSecret env) \<and> sm_provider env = Some ''mock'')
       (OtherError ''Enable mock payments locally before running this smoke test'')) (\<lambda>_.
     andThen (smokeRegister env 0) (\<lambda>sender.
     andThen (smokeRegister env 1) (\<lambda>recipient.
     let token = Some (tr_accessToken (ar_token sender)); walletId = wr_id (rr_initialWallet sender) in
     andThen (pick asCheckout (callApi env 2 (PaymentsRoute (CreatePayment
       \<lparr>cp_walletId = walletId, cp_amountMinor = ''10000''\<rparr>)) token (Some (sm_uuid env 4)))) (\<lambda>payment.
     let body = smokeEvent env (py_reference (fst payment)) in
     andThen (smokeCallback env 3 body) (\<lambda>_.
     andThen (smokeCallback env 4 body) (\<lambda>_.
     andThen (pick asTransfer (callApi env 5 (TransfersRoute (CreateTransfer
       \<lparr>ct_sourceWalletId = walletId, ct_destinationWalletId = Some (wr_id (rr_initialWallet recipient)),
        ct_beneficiaryId = None, ct_amountMinor = ''2500''\<rparr>)) token (Some (sm_uuid env 6)))) (\<lambda>transfer.
     andThen (callApi env 6 (ReversalsRoute (CreateReversal (xr_id transfer) (Some ''Local smoke verification''))) token
       (Some (sm_uuid env 7))) (\<lambda>_.
     andThen (pick asWallet (callApi env 7 (WalletsRoute (GetWallet walletId)) token None)) (\<lambda>wallet.
     return (wr_currentBalanceMinor wallet)))))))))))"

section \<open>What the script relies on\<close>

text \<open>A user nobody has heard of: no claim and no payment is theirs.\<close>

definition unknownUser :: "uuid \<Rightarrow> db \<Rightarrow> bool" where
  "unknownUser u d \<longleftrightarrow> (\<forall>i \<in> set (idempotencyRecords d). i_userId i \<noteq> u) \<and> (\<forall>p \<in> set (payments d). p_userId p \<noteq> u)"

text \<open>The script has the program to itself, ids are in lower case, and one token service serves all requests: a token it
  signed has no white space and, when it verifies, carries the subject that it was signed for. \<open>JSON.parse\<close> makes nothing
  else of the text of an event.\<close>

definition undisturbed :: "smoke_env \<Rightarrow> bool" where
  "undisturbed env \<longleftrightarrow>
     (\<forall>k. uuid_source (ap_runtime (sm_api env k)) \<and> ap_jwt (sm_api env k) = ap_jwt (sm_api env 0) \<and>
        (\<forall>j. js_toLowerCase (rt_uuid (ap_runtime (sm_api env k)) j) = rt_uuid (ap_runtime (sm_api env k)) j) \<and>
        (\<forall>j. ap_others (sm_api env k) j = (\<lambda>d. d)) \<and> (\<forall>j. sa_others (ap_settlement (sm_api env k) j) = (\<lambda>d. d)) \<and>
        (\<forall>j. unknownUser (rt_uuid (ap_runtime (sm_api env 0)) 0) (ap_observed (sm_api env k) j)))"

definition tokens_hold :: "jwt \<Rightarrow> bool" where
  "tokens_hold jwt \<longleftrightarrow> (\<forall>p alg ttl iss aud at tok. jwt_sign jwt p (jwt_secret jwt) alg ttl iss aud at = Inr tok \<longrightarrow>
     tok \<noteq> [] \<and> (\<forall>c \<in> set tok. \<not> js_whitespace c) \<and>
     (\<forall>algs iss' aud' t q. jwt_verify jwt tok (jwt_secret jwt) algs iss' aud' t = Inr q \<longrightarrow> vp_sub q = Some (at_sub p)))"

definition parses :: "smoke_env \<Rightarrow> bool" where
  "parses env \<longleftrightarrow> (\<forall>k reference j. pv_parseBody (ap_provider (sm_api env k)) (js_stringify (smokeEvent env reference)) = Some j \<longrightarrow>
     j = smokeEvent env reference)"

section \<open>Replies\<close>

lemma pick_Inr: "pick select m d = (Inr x, d') \<longleftrightarrow> (\<exists>r. m d = (Inr r, d') \<and> select r = Some x)"
  by (auto simp: pick_def op_simps split: option.splits)

lemma selections:
  "asRegistered r = Some a \<longleftrightarrow> r = RegisterR a" "asCheckout r = Some b \<longleftrightarrow> r = CheckoutR b"
  "asTransfer r = Some c \<longleftrightarrow> r = TransferR c" "asWallet r = Some e \<longleftrightarrow> r = WalletR e"
  by (cases r; simp)+

lemma mapResponse_Inr: "mapResponse f m d = (Inr y, d') \<longleftrightarrow> (\<exists>x. m d = (Inr x, d') \<and> y = f x)"
  by (auto simp: mapResponse_def op_simps)

lemma withUuid_Inr: "withUuid ap s m d = (Inr y, d') \<Longrightarrow> m d = (Inr y, d')"
  by (simp add: withUuid_def op_simps split: if_splits)

lemma call_run:
  assumes "undisturbed env" "callApi env k route token key d = (r, d')"
  shows "system_run d d'"
proof (rule system_run.request [OF _ _ _ assms(2) [unfolded callApi_def]])
  show "\<forall>j e. system_run e (ap_others ((sm_api env k)\<lparr>ap_authorization := map_option (\<lambda>t. ''Bearer '' @ t) token,
      ap_idempotencyKey := key\<rparr>) j e)"
    "\<forall>j e. system_run e (sa_others (ap_settlement ((sm_api env k)\<lparr>ap_authorization := map_option (\<lambda>t. ''Bearer '' @ t) token,
      ap_idempotencyKey := key\<rparr>) j) e)"
    using assms(1) by (simp_all add: undisturbed_def system_run.idle)
qed (use assms(1) in \<open>simp add: undisturbed_def\<close>)

lemma call_books:
  assumes "undisturbed env" "books_ok d" "callApi env k route token key d = (r, d')"
  shows "books_ok d'"
  using system_run_keeps [OF call_run [OF assms(1,3)]] assms(2) by (simp add: keeps_def)

text \<open>A request with the token of a user acts as that user.\<close>

definition holds_token :: "jwt \<Rightarrow> uuid \<Rightarrow> string \<Rightarrow> bool" where
  "holds_token jwt u token \<longleftrightarrow> (\<exists>p alg ttl iss aud at. jwt_sign jwt p (jwt_secret jwt) alg ttl iss aud at = Inr token \<and> at_sub p = u) \<and> pgUuid u = u"

lemma call_acts_as:
  assumes und: "undisturbed env" and tok: "tokens_hold (ap_jwt (sm_api env 0))" "holds_token (ap_jwt (sm_api env 0)) u token"
    and run: "callApi env k route (Some token) key d = (Inr r, d')"
    and route: "\<And>ap. handle ap route = guarded ap (f ap)"
  shows "f ((sm_api env k)\<lparr>ap_authorization := Some (''Bearer '' @ token), ap_idempotencyKey := key\<rparr>) u d = (Inr r, d')"
proof -
  let ?ap = "(sm_api env k)\<lparr>ap_authorization := Some (''Bearer '' @ token), ap_idempotencyKey := key\<rparr>"
  obtain p alg ttl iss aud at where sign: "jwt_sign (ap_jwt (sm_api env 0)) p (jwt_secret (ap_jwt (sm_api env 0))) alg ttl iss aud at = Inr token"
    and sub: "at_sub p = u" "pgUuid u = u" using tok(2) by (auto simp: holds_token_def)
  have shape: "token \<noteq> []" "\<forall>c \<in> set token. \<not> js_whitespace c"
    and law: "\<And>algs iss' aud' t q. jwt_verify (ap_jwt (sm_api env 0)) token (jwt_secret (ap_jwt (sm_api env 0))) algs iss' aud' t = Inr q \<Longrightarrow>
      vp_sub q = Some u"
    using tok(1) sign sub(1) unfolding tokens_hold_def by blast+
  have "js_toLowerCase ''Bearer'' = ''bearer''" "\<forall>c \<in> set '' ''. js_whitespace c" by code_simp+
  then have header: "extractBearerToken (Some (''Bearer '' @ token)) = Inr token"
    using bearer_read [of "[]" "[]" "'' ''" "''Bearer''" token] shape by simp
  have jwt: "ap_jwt ?ap = ap_jwt (sm_api env 0)" and others: "ap_others ?ap 0 d = d"
    using und by (simp_all add: undisturbed_def)
  have "guarded ?ap (f ?ap) d = (Inr r, d')" using run route by (simp add: callApi_def)
  from guarded_run [OF this] others obtain v where v: "authenticatedAs ?ap d v" "f ?ap (u_id v) d = (Inr r, d')" by auto
  then have "u_id v = u" using law header jwt sub(2) by (auto simp: authenticatedAs_def)
  with v show ?thesis by simp
qed

section \<open>Work that is answered is recorded\<close>

context idempotent_work begin

lemma serve_recorded:
  assumes ok: "sound d" and none: "findClaim scope userId key d = None" "\<And>j. findClaim scope userId key (observed j) = None"
    and run: "serve toResponse abort observed userId key h claimId d = (Inr y, d')"
  shows "findClaim scope userId key d' \<noteq> None"
proof -
  let ?run = "run userId key h claimId"
  from run obtain x where out: "attemptOrReplay noun resource link scope abort observed userId key h claimId body d = (Inr (Success x), d')"
    by (auto simp: andThen_Inr unwrapOutcome_def op_simps split: outcome.splits) (metis outcome.exhaust)
  have lost: "replayOrRethrow noun resource scope observed userId key h e m \<noteq> (Inr z, m')" for e m z m'
    using none(2) replay_none [of "map observed [0..<5]" scope userId key noun resource h]
    by (auto simp: replayOrRethrow_def op_simps split: if_splits)
  obtain q m where t: "prisma_transaction abort ?run d = (q, m)" by fastforce
  with out lost have "q = Inr (Success x) \<and> m = d'"
    by (cases q) (auto simp: attemptOrReplay_def tryCatch_def)
  with t obtain m0 where "?run d = (Inr (Success x), m0)" and d': "d' = m0\<lparr>settings := []\<rparr>"
    by (auto simp: prisma_transaction_Inr)
  from run_new [OF none(1) ok this(1)] obtain i where
    "idempotencyRecords d' = idempotencyRecords d @ [completed link x i]" "i = newClaim claimId scope userId key h"
    by (auto simp: d')
  then have "findClaim scope userId key d' = Some (completed link x i)"
    using none(1) by (intro findClaim_append) (simp_all add: completed_def link_keeps)
  then show ?thesis by simp
qed

end

lemma unknown_claim: "unknownUser u d \<Longrightarrow> findClaim scope u key d = None"
  by (auto simp: findClaim_def unknownUser_def findRow_None)

lemma transfersCreate_recorded:
  assumes "ledger_sound d" "transfersCreate rt abort observed u hdr input d = (Inr x, d')"
    and "\<And>key. findClaim TRANSFER_SCOPE u key d = None" "\<And>j. unknownUser u (observed j)"
  shows "\<exists>key. normalizeIdempotencyKey hdr = Inr key \<and> findClaim TRANSFER_SCOPE u key d' \<noteq> None"
  using assms transfer_work.serve_recorded [OF assms(1) assms(3) unknown_claim [OF assms(4)]]
  by (auto simp: transfersCreate_serve split: sum.splits)

lemma reversalsCreate_recorded:
  assumes "ledger_sound d" "reversalsCreate rt abort observed u tid hdr reason d = (Inr x, d')"
    and "\<And>key. findClaim REVERSAL_SCOPE u key d = None" "\<And>j. unknownUser u (observed j)"
  shows "\<exists>key. normalizeIdempotencyKey hdr = Inr key \<and> findClaim REVERSAL_SCOPE u key d' \<noteq> None"
  using assms reversal_work.serve_recorded [OF assms(1) assms(3) unknown_claim [OF assms(4)]]
  by (auto simp: reversalsCreate_serve split: sum.splits)

section \<open>The steps\<close>

lemma issued_token:
  assumes "issueAccessToken jwt now u = Inr t" "pgUuid (su_id u) = su_id u"
  shows "holds_token jwt (su_id u) (tr_accessToken t)"
proof -
  from assms(1) have "jwt_sign jwt (tokenPayload u) (jwt_secret jwt) ''HS256'' (jwt_ttlSeconds jwt) JWT_ISSUER JWT_AUDIENCE now =
      Inr (tr_accessToken t)"
    by (auto simp: issueAccessToken_def ebind_eq_Inr)
  moreover have "at_sub (tokenPayload u) = su_id u" by (simp add: tokenPayload_def)
  ultimately show ?thesis using assms(2) unfolding holds_token_def by blast
qed

text \<open>A registration opens a wallet for a new user and hands out the user's token.\<close>

lemma smokeRegister_opens:
  assumes und: "undisturbed env" and ok: "books_ok d" and run: "smokeRegister env k d = (Inr r, d')"
  defines "rt \<equiv> ap_runtime (sm_api env k)"
  shows "books_ok d' \<and> holds_token (ap_jwt (sm_api env 0)) (rt_uuid rt 0) (tr_accessToken (ar_token r)) \<and>
    wr_id (rr_initialWallet r) = rt_uuid rt 2 \<and> rt_uuid rt 2 \<notin> w_id ` set (wallets d) \<and>
    (\<exists>aid c. wallets d' = wallets d @ [new_wallet (rt_uuid rt 2) (rt_uuid rt 0) aid c (rt_now rt)]) \<and>
    payments d' = payments d \<and> providerEvents d' = providerEvents d \<and> idempotencyRecords d' = idempotencyRecords d"
proof -
  let ?ap = "(sm_api env k)\<lparr>ap_authorization := None, ap_idempotencyKey := None\<rparr>"
  from run have call: "callApi env k (AuthRoute (Register (smokeAccount env k))) None None d = (Inr (RegisterR r), d')"
    by (auto simp: smokeRegister_def pick_Inr selections)
  then have "authRateGuard ?ap (mapResponse RegisterR (register (ap_scrypt ?ap) (ap_jwt ?ap) rt (ap_salt ?ap)
      (ap_others ?ap 0) (ap_abort ?ap) (smokeAccount env k))) d = (Inr (RegisterR r), d')"
    by (simp add: callApi_def rt_def)
  moreover have "ap_jwt ?ap = ap_jwt (sm_api env 0)" "ap_others ?ap 0 = (\<lambda>d. d)"
    using und by (simp_all add: undisturbed_def)
  ultimately have "register (ap_scrypt ?ap) (ap_jwt (sm_api env 0)) rt (ap_salt ?ap) (\<lambda>d. d) (ap_abort ?ap) (smokeAccount env k) d =
      (Inr r, d')"
    by (auto simp: authRateGuard_def mapResponse_Inr raise_def split: rate_reply.splits if_splits)
  from register_Inr_parts [OF this] obtain key w where
    create: "createWithInitialWallet rt (ap_abort ?ap) (newAccount (smokeAccount env k) (encodeHash (ap_salt ?ap) key)) d =
      (Inr (ar_user r, w), d')"
    and token: "issueAccessToken (ap_jwt (sm_api env 0)) (rt_now rt) (ar_user r) = Inr (ar_token r)"
    and wallet: "rr_initialWallet r = toWalletResponse w" by metis
  let ?in = "newAccount (smokeAccount env k) (encodeHash (ap_salt ?ap) key)"
  have led: "ledger_ok d" using ok by (simp add: books_ok_def)
  note reg = register_Inr [OF led create]
  then have "ar_user r = toSafeUser (registered_user rt ?in)" "w_id w = rt_uuid rt 2" by (simp_all add: new_wallet_def)
  then have "holds_token (ap_jwt (sm_api env 0)) (rt_uuid rt 0) (tr_accessToken (ar_token r))" "wr_id (rr_initialWallet r) = rt_uuid rt 2"
    using issued_token [OF token] wallet und by (simp_all add: toSafeUser_def registered_user_def toWalletResponse_def undisturbed_def pgUuid_def rt_def)
  moreover have "rt_uuid rt 2 \<notin> w_id ` set (wallets d)" using reg by (auto simp: can_open_def numeral_2_eq_2)
  moreover have "\<exists>aid c. wallets d' = wallets d @ [new_wallet (rt_uuid rt 2) (rt_uuid rt 0) aid c (rt_now rt)]"
    using reg by (auto simp: opened_wallet_def numeral_2_eq_2)
  moreover have "payments d' = payments d" "providerEvents d' = providerEvents d" "idempotencyRecords d' = idempotencyRecords d"
    using reg by (simp_all add: opened_wallet_def)
  ultimately show ?thesis using call_books [OF und ok call] by blast
qed

text \<open>A payment request of a new user creates one pending intent.\<close>

lemma initialize_reply: "initializePaystack rt env p d = (Inr x, d') \<Longrightarrow> fst x = toPaymentResponse p"
  by (auto simp: initializePaystack_def op_simps split: sum.splits option.splits if_splits)
    (metis fst_conv sum.exhaust)

lemma paymentsCreate_reply:
  assumes run: "paymentsCreate rt env abort others u hdr input d = (Inr pay, d')"
  shows "\<exists>key a m cs p. createIntent rt (usePaystack env) abort others u key
      (rt_sha256 rt (paymentDigestInput (js_toLowerCase (cp_walletId input)) (cp_amountMinor input)))
      (js_toLowerCase (cp_walletId input)) (cp_amountMinor input) a d = (Inr p, m) \<and>
    paymentAmount (cp_amountMinor input) = Inr a \<and> d' = m\<lparr>checkouts := cs\<rparr> \<and> fst pay = toPaymentResponse p"
proof -
  from run obtain key a where k: "paymentKey hdr = Inr key" "paymentAmount (cp_amountMinor input) = Inr a"
      "(if usePaystack env then paystackAssertEnabled env else mockAssertEnabled env) = Inr ()"
    by (auto simp: paymentsCreate_def op_simps split: sum.splits)
  let ?int = "createIntent rt (usePaystack env) abort others u key
      (rt_sha256 rt (paymentDigestInput (js_toLowerCase (cp_walletId input)) (cp_amountMinor input)))
      (js_toLowerCase (cp_walletId input)) (cp_amountMinor input) a"
  let ?rest = "\<lambda>p. if p_status p \<noteq> P_PENDING then return (toPaymentResponse p, None)
     else if p_provider p = PAYSTACK then initializePaystack rt env p
     else if usePaystack env then raise (Conflict ''Payment belongs to a different provider'')
     else
       (case mockInitialize env (p_reference p) of
          Inl _ \<Rightarrow> raise (ServiceUnavailable
            ''Payment initialization unavailable; retry with the same Idempotency-Key'')
        | Inr _ \<Rightarrow> return (toPaymentResponse p, None))"
  have "andThen ?int ?rest d = (Inr pay, d')"
    using run by (simp only: paymentsCreate_def Let_def andThen_steps k sum.case)
  then obtain p m where int: "?int d = (Inr p, m)" and rest: "?rest p m = (Inr pay, d')"
    unfolding andThen_Inr by blast
  have self: "m = m\<lparr>checkouts := checkouts m\<rparr>" by simp
  show ?thesis
  proof (cases "p_status p \<noteq> P_PENDING \<or> p_provider p \<noteq> PAYSTACK")
    case True
    then have "d' = m" "fst pay = toPaymentResponse p"
      using rest by (auto simp: return_def raise_def split: if_splits sum.splits)
    with int k(2) self show ?thesis by metis
  next
    case False
    with rest have init: "initializePaystack rt env p m = (Inr pay, d')" by simp
    with initializePaystack_state obtain cs where "d' = m\<lparr>checkouts := cs\<rparr>" by blast
    with initialize_reply [OF init] int k(2) show ?thesis by blast
  qed
qed

lemma smokePayment_intends:
  assumes und: "undisturbed env" and ok: "books_ok d" and unk: "unknownUser u d"
    and tok: "tokens_hold (ap_jwt (sm_api env 0))" "holds_token (ap_jwt (sm_api env 0)) u token"
    and run: "pick asCheckout (callApi env k (PaymentsRoute (CreatePayment
      \<lparr>cp_walletId = wid, cp_amountMinor = ''10000''\<rparr>)) (Some token) key) d = (Inr pay, d')"
    and low: "js_toLowerCase wid = wid"
  shows "books_ok d' \<and> wallets d' = wallets d \<and> idempotencyRecords d' = idempotencyRecords d \<and>
    (\<exists>p. p \<in> set (payments d') \<and> p_walletId p = wid \<and> p_amountMinor p = 10000 \<and> p_status p = P_PENDING \<and>
       p_reference p = py_reference (fst pay) \<and> (\<forall>e \<in> set (providerEvents d'). pe_paymentId e \<noteq> p_id p))"
proof -
  let ?in = "\<lparr>cp_walletId = wid, cp_amountMinor = ''10000''\<rparr>"
  from run have call: "callApi env k (PaymentsRoute (CreatePayment ?in)) (Some token) key d = (Inr (CheckoutR pay), d')"
    by (auto simp: pick_Inr selections)
  note books = call_books [OF und ok call]
  let ?ap = "(sm_api env k)\<lparr>ap_authorization := Some (''Bearer '' @ token), ap_idempotencyKey := key\<rparr>"
  have "mapResponse CheckoutR (paymentsCreate (ap_runtime ?ap) (ap_provider ?ap) (ap_abort ?ap) (ap_others ?ap 1) u
      (ap_idempotencyKey ?ap) ?in) d = (Inr (CheckoutR pay), d')"
    by (rule call_acts_as [OF und tok call]) simp
  then have "paymentsCreate (ap_runtime ?ap) (ap_provider ?ap) (ap_abort ?ap) (ap_others ?ap 1) u (ap_idempotencyKey ?ap) ?in d =
      (Inr pay, d')" by (auto simp: mapResponse_Inr)
  from paymentsCreate_reply [OF this] obtain key' a m cs p h where
    int: "createIntent (ap_runtime ?ap) (usePaystack (ap_provider ?ap)) (ap_abort ?ap) (ap_others ?ap 1) u key' h wid ''10000'' a d =
      (Inr p, m)"
    and a: "paymentAmount ''10000'' = Inr a" and d': "d' = m\<lparr>checkouts := cs\<rparr>" and pay: "fst pay = toPaymentResponse p"
    by (auto simp: low)
  have "js_BigInt ''10000'' = Some 10000" by code_simp
  with a have a: "a = 10000" by (simp add: paymentAmount_Inr)
  have none: "findPayment u key' d = None" "ap_others ?ap 1 d = d"
    using unk und by (auto simp: findPayment_def unknownUser_def findRow_None undisturbed_def)
  from createIntent_outcomes [OF ok int] none obtain w where w: "intent_ready (usePaystack (ap_provider ?ap)) u wid ''10000'' w d"
    and p: "p = newPayment (ap_runtime ?ap) (usePaystack (ap_provider ?ap)) u w key' h a" "intent_writable p d"
    and m: "m = d\<lparr>settings := [], payments := payments d @ [p]\<rparr>"
    by auto
  have "w_id w = wid" using w by (auto simp: intent_ready_def dest: findRow_SomeD)
  have "p_id p \<notin> p_id ` set (payments d)" using p(2) by (auto simp: intent_writable_def existsRow_iff notin_image)
  moreover have "\<exists>q \<in> set (payments d). p_id q = pe_paymentId e" if "e \<in> set (providerEvents d)" for e
    using ok that unfolding books_ok_def payments_ok_def validate_providerEvent_def existsRow_iff by blast
  ultimately have "pe_paymentId e \<noteq> p_id p" if "e \<in> set (providerEvents d)" for e
    using that by (metis image_eqI)
  with \<open>w_id w = wid\<close> show ?thesis
    using books by (intro conjI exI [of _ p]) (simp_all add: d' m p(1) a pay toPaymentResponse_def)
qed

text \<open>The callback settles the payment once.\<close>

lemma settleFrom_attempted:
  assumes "\<And>k e. sa_others (env k) e = e" "settleFrom k env ev pr d = (Inr r, d')"
  shows "\<exists>j. settle (env j) ev pr d = (Inr r, d')"
  using assms(2)
proof (induction "3 - k" arbitrary: k)
  case 0
  then show ?case by (simp add: settleFrom_step)
next
  case (Suc n)
  show ?case
  proof (cases "settle (env k) ev pr d")
    case (Pair q m)
    show ?thesis
    proof (cases q)
      case (Inl e)
      with Pair have "m = d" using settle_Inl [of "env k" ev pr d e m] assms(1) by simp
      with Suc.prems Pair Inl Suc.hyps(2) have "settleFrom (Suc k) env ev pr d = (Inr r, d')"
        by (auto simp: settleFrom_step [of k] split: if_splits)
      moreover have "n = 3 - Suc k" using Suc.hyps(2) by simp
      ultimately show ?thesis using Suc.hyps(1) by blast
    next
      case (Inr x)
      with Suc.prems Pair Suc.hyps(2) show ?thesis by (auto simp: settleFrom_step [of k] split: if_splits)
    qed
  qed
qed

lemma smokeCallback_settles:
  assumes und: "undisturbed env" and ok: "books_ok d" and js: "parses env"
    and run: "smokeCallback env k (smokeEvent env ref) d = (Inr r, d')"
  shows "books_ok d' \<and> (\<exists>ev rt x m. ve_reference ev = ref \<and> ve_status ev = P_SUCCEEDED \<and>
    settles rt ev MOCK d x m \<and> d' = m\<lparr>settings := []\<rparr>)"
proof -
  let ?ap = "(sm_api env k)\<lparr>ap_authorization := None, ap_idempotencyKey := None\<rparr>"
  let ?raw = "js_stringify (smokeEvent env ref)"
  obtain ts sig where call: "callApi env k (CallbackRoute (MockCallback (Some ?raw) ts sig)) None None d = (Inr r, d')"
    using run by (auto simp: smokeCallback_def Let_def)
  note books = call_books [OF und ok call]
  obtain x where "paymentsReceive (ap_settlement ?ap) (ap_provider ?ap) ?raw ts sig d = (Inr x, d')"
    using call by (auto simp: callApi_def mapResponse_Inr)
  then obtain ev where ev: "mockVerify (sa_runtime (ap_settlement ?ap 0)) (ap_provider ?ap) ?raw ts sig = Inr ev"
    and set: "settleVerified (ap_settlement ?ap) ev MOCK d = (Inr x, d')"
    by (auto simp: paymentsReceive_def andThen_steps split: sum.splits)
  from ev js have "parseMockEvent (pv_zodUuid (ap_provider ?ap)) (rt_sha256 (sa_runtime (ap_settlement ?ap 0)) ?raw) (smokeEvent env ref) = Some ev"
    by (auto simp: mockVerify_Inr parses_def)
  then have "ve_reference ev = ref" "ve_status ev = P_SUCCEEDED"
    by (auto simp: parseMockEvent_def smokeEvent_def jfield_def split: if_splits)
  moreover obtain j where "settle (ap_settlement ?ap j) ev MOCK d = (Inr x, d')"
    using settleFrom_attempted [of "ap_settlement ?ap" 0 ev MOCK d x d'] set und
    by (auto simp: settleVerified_def undisturbed_def)
  moreover have "sa_others (ap_settlement ?ap j) d = d" using und by (simp add: undisturbed_def)
  ultimately show ?thesis
    using settle_Inr [of d "ap_settlement ?ap j" d ev MOCK x d'] books_okD [OF ok] books by auto
qed

lemma smokeCallback_funds:
  assumes und: "undisturbed env" and ok: "books_ok d" and js: "parses env"
    and run: "smokeCallback env k (smokeEvent env ref) d = (Inr r, d')"
    and p: "p \<in> set (payments d)" "p_reference p = ref" "p_status p = P_PENDING"
      "\<forall>e \<in> set (providerEvents d). pe_paymentId e \<noteq> p_id p"
  shows "books_ok d' \<and> idempotencyRecords d' = idempotencyRecords d \<and>
    (\<forall>wid. balanceAt wid d' = map_option (\<lambda>y. y + (if wid = p_walletId p then p_amountMinor p else 0)) (balanceAt wid d)) \<and>
    (\<exists>q \<in> set (payments d'). p_reference q = ref \<and> p_status q = P_SUCCEEDED)"
proof -
  from smokeCallback_settles [OF und ok js run] obtain ev rt x m where books: "books_ok d'"
    and ev: "ve_reference ev = ref" "ve_status ev = P_SUCCEEDED"
    and set: "settles rt ev MOCK d x m" "d' = m\<lparr>settings := []\<rparr>" by blast
  have "distinct (map p_reference (payments d))" using ok by (simp add: books_ok_def payments_ok_def)
  then have one: "q = p" if "findIntent MOCK ev d = Some q" for q
    using that findIntent_in [OF that] p(1,2) ev(1) by (auto dest: distinct_map_inj)
  have seen: "e \<in> set (providerEvents d)" if "findEvidence MOCK ev d = Some e" for e
    using that by (auto simp: findEvidence_def dest: findRow_SomeD)
  from set(1) obtain w a n where int: "findIntent MOCK ev d = Some p" and f: "fundable rt p w a n d"
    and m: "m = funded rt MOCK p ev n d"
    unfolding settles_def using one seen p(3,4) ev(2) by (elim exE conjE disjE) auto
  have "wallets d' = map (credit_wallet (rt_now rt) (li_postings n)) (wallets d)" by (simp add: set(2) m)
  note funded_balance [OF ok int f this]
  moreover have "settledAs P_SUCCEEDED (rt_now rt) (Some (rt_uuid rt 1)) p \<in> set (payments d')"
    using p(1) by (auto simp: set(2) m payment_pk.put_def set_updateRows)
  then have "\<exists>q \<in> set (payments d'). p_reference q = ref \<and> p_status q = P_SUCCEEDED"
    by (rule rev_bexI) (simp add: p(2))
  moreover have "idempotencyRecords d' = idempotencyRecords d" by (simp add: set(2) m)
  ultimately show ?thesis using books by blast
qed

lemma smokeCallback_repeats:
  assumes und: "undisturbed env" and ok: "books_ok d" and js: "parses env"
    and run: "smokeCallback env k (smokeEvent env ref) d = (Inr r, d')"
    and p: "p \<in> set (payments d)" "p_reference p = ref" "p_status p \<noteq> P_PENDING"
  shows "books_ok d' \<and> idempotencyRecords d' = idempotencyRecords d \<and> wallets d' = wallets d"
proof -
  from smokeCallback_settles [OF und ok js run] obtain ev rt x m where books: "books_ok d'"
    and ev: "ve_reference ev = ref" and set: "settles rt ev MOCK d x m" "d' = m\<lparr>settings := []\<rparr>" by blast
  have "distinct (map p_reference (payments d))" using ok by (simp add: books_ok_def payments_ok_def)
  then have one: "q = p" if "findIntent MOCK ev d = Some q" for q
    using that findIntent_in [OF that] p(1,2) ev(1) by (auto dest: distinct_map_inj)
  have "idempotencyRecords m = idempotencyRecords d \<and> wallets m = wallets d"
    using set(1) one p(3) unfolding settles_def by (elim exE conjE disjE) auto
  with books show ?thesis by (simp add: set(2))
qed

text \<open>A transfer and its reversal leave every balance as it was.\<close>

lemma transfer_leaves_reversal:
  assumes ok: "ledger_sound d" and run: "transfersCreate rt abort observed u hdr input d = (Inr x, d')"
    and none: "findClaim REVERSAL_SCOPE u key d = None"
  shows "findClaim REVERSAL_SCOPE u key d' = None"
proof -
  have scopes: "TRANSFER_SCOPE \<noteq> REVERSAL_SCOPE" by (simp add: TRANSFER_SCOPE_def REVERSAL_SCOPE_def)
  from transfersCreate_outcomes [OF ok run] show ?thesis
    using none scopes
    by (elim disjE exE conjE) (simp_all add: findClaim_def findRow_None after_transfer_def transfer_claim_def)
qed

lemma smokeTransfer_undone:
  assumes und: "undisturbed env" and ok: "books_ok d"
    and unk: "u = rt_uuid (ap_runtime (sm_api env 0)) 0" "\<forall>i \<in> set (idempotencyRecords d). i_userId i \<noteq> u"
    and tok: "tokens_hold (ap_jwt (sm_api env 0))" "holds_token (ap_jwt (sm_api env 0)) u token"
    and transfer: "pick asTransfer (callApi env k (TransfersRoute (CreateTransfer input)) (Some token) hdr) d = (Inr x, d1)"
    and reversal: "callApi env l (ReversalsRoute (CreateReversal (xr_id x) reason)) (Some token) hdr' d1 = (Inr y, d2)"
  shows "balanceAt wid d2 = balanceAt wid d"
proof -
  have seen: "unknownUser u (ap_observed (sm_api env k) j)" for k j using und unk(1) by (simp add: undisturbed_def)
  from transfer have c1: "callApi env k (TransfersRoute (CreateTransfer input)) (Some token) hdr d = (Inr (TransferR x), d1)"
    by (auto simp: pick_Inr selections)
  let ?ap = "\<lambda>k hdr. (sm_api env k)\<lparr>ap_authorization := Some (''Bearer '' @ token), ap_idempotencyKey := hdr\<rparr>"
  have "mapResponse TransferR (transfersCreate (ap_runtime (?ap k hdr)) (ap_abort (?ap k hdr)) (ap_observed (?ap k hdr)) u
      (ap_idempotencyKey (?ap k hdr)) input) d = (Inr (TransferR x), d1)"
    by (rule call_acts_as [OF und tok c1]) simp
  then have t: "transfersCreate (ap_runtime (sm_api env k)) (ap_abort (sm_api env k)) (ap_observed (sm_api env k)) u hdr input d =
      (Inr x, d1)" by (auto simp: mapResponse_Inr)
  have "withUuid (?ap l hdr') (xr_id x) (mapResponse ReversalR (reversalsCreate (ap_runtime (?ap l hdr')) (ap_abort (?ap l hdr'))
      (ap_observed (?ap l hdr')) u (xr_id x) (ap_idempotencyKey (?ap l hdr')) reason)) d1 = (Inr y, d2)"
    by (rule call_acts_as [OF und tok reversal]) simp
  then obtain z where v: "reversalsCreate (ap_runtime (sm_api env l)) (ap_abort (sm_api env l)) (ap_observed (sm_api env l)) u
      (xr_id x) hdr' reason d1 = (Inr z, d2)"
    by (auto simp: mapResponse_Inr dest!: withUuid_Inr)
  have ok1: "books_ok d1" by (rule call_books [OF und ok c1])
  have none: "findClaim scope u key d = None" for scope key
    using unk(2) by (auto simp: findClaim_def findRow_None)
  note none1 = transfer_leaves_reversal [OF books_okD(1) [OF ok] t none]
  obtain key where key: "normalizeIdempotencyKey hdr = Inr key" "findClaim TRANSFER_SCOPE u key d1 \<noteq> None"
    using transfersCreate_recorded [OF books_okD(1) [OF ok] t none seen] by blast
  obtain key' where key': "normalizeIdempotencyKey hdr' = Inr key'" "findClaim REVERSAL_SCOPE u key' d2 \<noteq> None"
    using reversalsCreate_recorded [OF books_okD(1) [OF ok1] v none1 seen] by blast
  have led: "ledger_ok d" using ok by (simp add: books_ok_def)
  have low: "js_toLowerCase (xr_id x) = xr_id x"
    using transfersCreate_outcomes [OF books_okD(1) [OF ok] t] key none und
    by (auto simp: findClaim_def toTransferResponse_def undisturbed_def)
  show ?thesis
    by (rule transfer_then_reversal [OF led t key(1) none key(2) v key'(1) none1 key'(2) low])
qed

lemma smokeWallet_reads:
  assumes und: "undisturbed env" and ok: "books_ok d"
    and tok: "tokens_hold (ap_jwt (sm_api env 0))" "holds_token (ap_jwt (sm_api env 0)) u token"
    and run: "pick asWallet (callApi env k (WalletsRoute (GetWallet wid)) (Some token) None) d = (Inr w, d')"
    and low: "js_toLowerCase wid = wid"
  shows "d' = d \<and> (\<exists>x. balanceAt wid d = Some x \<and> wr_currentBalanceMinor w = js_showInt x)"
proof -
  from run have call: "callApi env k (WalletsRoute (GetWallet wid)) (Some token) None d = (Inr (WalletR w), d')"
    by (auto simp: pick_Inr selections)
  let ?ap = "(sm_api env k)\<lparr>ap_authorization := Some (''Bearer '' @ token), ap_idempotencyKey := None\<rparr>"
  have "withUuid ?ap wid (mapResponse WalletR (walletsFindOneForUser u wid)) d = (Inr (WalletR w), d')"
    by (rule call_acts_as [OF und tok call]) simp
  then have "walletsFindOneForUser u wid d = (Inr w, d')" by (auto simp: mapResponse_Inr dest!: withUuid_Inr)
  then obtain row where row: "findRow (\<lambda>w. w_id w = wid \<and> w_userId w = u) (wallets d) = Some row"
    "w = toWalletResponse row" "d' = d"
    by (auto simp: walletsFindOneForUser_def pgUuid_def low op_simps split: option.splits)
  have "row \<in> set (wallets d)" "w_id row = wid" using findRow_SomeD [OF row(1)] by simp_all
  moreover have "wallet_pk.unique (wallets d)" using ok by (simp add: books_ok_def ledger_ok_def pairing_ok_def)
  ultimately have "balanceAt wid d = Some (w_currentBalanceMinor row)"
    by (auto simp: balanceAt_def wallet_pk.lookup_unique)
  with row show ?thesis by (simp add: toWalletResponse_def)
qed

section \<open>The whole script\<close>

lemma opened_balance:
  assumes "wallets d' = wallets d @ [w]" "w_id w \<notin> w_id ` set (wallets d)"
  shows "balanceAt (w_id w) d' = Some (w_currentBalanceMinor w)"
    "balanceAt wid d = Some x \<Longrightarrow> balanceAt wid d' = Some x"
  using assms wallet_pk.lookup_append_new [of w "wallets d"]
  by (auto simp: balanceAt_def wallet_pk.lookup_def findRow_append findRow_None notin_image)

text \<open>
  C7. The smoke test is right: whenever its requests, with nobody interfering, are all
  answered, the wallet it reads holds exactly the 10000 that were paid in (the repeated callback paid nothing, the
  reversal gave back what the transfer took), no wallet that was there before has changed its
  balance, and the books are in order.
\<close>

theorem smoke_passes:
  assumes und: "undisturbed env" and ok: "books_ok d" and unk: "unknownUser (rt_uuid (ap_runtime (sm_api env 0)) 0) d"
    and tok: "tokens_hold (ap_jwt (sm_api env 0))" and js: "parses env" and run: "smoke env d = (Inr b, d')"
  shows "b = ''10000'' \<and> (\<forall>wid x. balanceAt wid d = Some x \<longrightarrow> balanceAt wid d' = Some x) \<and> books_ok d'"
proof -
  let ?u = "rt_uuid (ap_runtime (sm_api env 0)) 0" and ?wid = "rt_uuid (ap_runtime (sm_api env 0)) 2"
  from run obtain sender d1 recipient d2 pay d3 r1 d4 r2 d5 transfer d6 r3 d7 w d8 where
    steps: "smokeRegister env 0 d = (Inr sender, d1)" "smokeRegister env 1 d1 = (Inr recipient, d2)"
      "pick asCheckout (callApi env 2 (PaymentsRoute (CreatePayment \<lparr>cp_walletId = wr_id (rr_initialWallet sender),
         cp_amountMinor = ''10000''\<rparr>)) (Some (tr_accessToken (ar_token sender))) (Some (sm_uuid env 4))) d2 = (Inr pay, d3)"
      "smokeCallback env 3 (smokeEvent env (py_reference (fst pay))) d3 = (Inr r1, d4)"
      "smokeCallback env 4 (smokeEvent env (py_reference (fst pay))) d4 = (Inr r2, d5)"
      "pick asTransfer (callApi env 5 (TransfersRoute (CreateTransfer
         \<lparr>ct_sourceWalletId = wr_id (rr_initialWallet sender), ct_destinationWalletId = Some (wr_id (rr_initialWallet recipient)),
          ct_beneficiaryId = None, ct_amountMinor = ''2500''\<rparr>)) (Some (tr_accessToken (ar_token sender))) (Some (sm_uuid env 6))) d5 =
         (Inr transfer, d6)"
      "callApi env 6 (ReversalsRoute (CreateReversal (xr_id transfer) (Some ''Local smoke verification'')))
         (Some (tr_accessToken (ar_token sender))) (Some (sm_uuid env 7)) d6 = (Inr r3, d7)"
      "pick asWallet (callApi env 7 (WalletsRoute (GetWallet (wr_id (rr_initialWallet sender))))
         (Some (tr_accessToken (ar_token sender))) None) d7 = (Inr w, d8)"
      "b = wr_currentBalanceMinor w" "d' = d8"
    by (auto simp: smoke_def andThen_Inr andThen_steps(5) Let_def return_def split: if_splits)
  from smokeRegister_opens [OF und ok steps(1)] obtain aid c where one: "books_ok d1"
      "holds_token (ap_jwt (sm_api env 0)) ?u (tr_accessToken (ar_token sender))" "wr_id (rr_initialWallet sender) = ?wid"
      "wallets d1 = wallets d @ [new_wallet ?wid ?u aid c (rt_now (ap_runtime (sm_api env 0)))]" "?wid \<notin> w_id ` set (wallets d)"
      "payments d1 = payments d" "idempotencyRecords d1 = idempotencyRecords d" by blast
  let ?new = "new_wallet ?wid ?u aid c (rt_now (ap_runtime (sm_api env 0)))"
  have new: "w_id ?new = ?wid" "w_currentBalanceMinor ?new = 0" by (simp_all add: new_wallet_def)
  note bal1 = opened_balance [OF one(4), unfolded new, OF one(5)]
  from smokeRegister_opens [OF und one(1) steps(2)] obtain w2 where two: "books_ok d2" "wallets d2 = wallets d1 @ [w2]"
      "w_id w2 \<notin> w_id ` set (wallets d1)" "payments d2 = payments d1" "idempotencyRecords d2 = idempotencyRecords d1"
    by (auto simp: new_wallet_def)
  note bal2 = opened_balance(2) [OF two(2,3)]
  have unk2: "unknownUser ?u d2" using unk one two by (simp add: unknownUser_def)
  have low: "js_toLowerCase (wr_id (rr_initialWallet sender)) = wr_id (rr_initialWallet sender)"
    using und one(3) by (simp add: undisturbed_def)
  from smokePayment_intends [OF und two(1) unk2 tok one(2) steps(3) low] obtain p where three: "books_ok d3"
      "wallets d3 = wallets d2" "idempotencyRecords d3 = idempotencyRecords d2" "p \<in> set (payments d3)"
      "p_walletId p = ?wid" "p_amountMinor p = 10000" "p_status p = P_PENDING" "p_reference p = py_reference (fst pay)"
      "\<forall>e \<in> set (providerEvents d3). pe_paymentId e \<noteq> p_id p"
    unfolding one(3) by blast
  from smokeCallback_funds [OF und three(1) js steps(4) three(4,8,7,9)] obtain q where four: "books_ok d4"
      "idempotencyRecords d4 = idempotencyRecords d3"
      "\<And>wid. balanceAt wid d4 = map_option (\<lambda>y. y + (if wid = p_walletId p then p_amountMinor p else 0)) (balanceAt wid d3)"
      "q \<in> set (payments d4)" "p_reference q = py_reference (fst pay)" "p_status q \<noteq> P_PENDING" by auto
  note five = smokeCallback_repeats [OF und four(1) js steps(5) four(4-6)]
  have none: "\<forall>i \<in> set (idempotencyRecords d5). i_userId i \<noteq> ?u"
    using unk one(7) two(5) three(3) four(2) five by (simp add: unknownUser_def)
  have undone: "balanceAt wid d7 = balanceAt wid d5" for wid
    using five by (intro smokeTransfer_undone [OF und _ refl none tok one(2) steps(6,7)]) blast
  have later: "books_ok d7"
    using steps(6,7) five unfolding pick_Inr by (blast intro: call_books [OF und])
  have final: "d' = d7" "\<exists>x. balanceAt ?wid d7 = Some x \<and> b = js_showInt x"
    using smokeWallet_reads [OF und later tok one(2) steps(8) low] steps(9,10) one(3) by auto
  have end_balance: "balanceAt wid d' = map_option (\<lambda>y. y + (if wid = ?wid then 10000 else 0)) (balanceAt wid d2)" for wid
  proof -
    have "balanceAt wid d5 = balanceAt wid d4" "balanceAt wid d3 = balanceAt wid d2"
      using five three(2) by (simp_all add: balanceAt_def)
    then show ?thesis using undone [of wid] four(3) [of wid] by (simp only: final(1) three(5,6))
  qed
  have "balanceAt ?wid d2 = Some 0" using bal1(1) by (rule bal2)
  with end_balance [of ?wid] have "balanceAt ?wid d' = Some 10000" by simp
  with final have "b = js_showInt 10000" by (metis option.inject)
  moreover have "js_showInt 10000 = ''10000''" by code_simp
  moreover have "balanceAt wid d' = Some x" if "balanceAt wid d = Some x" for wid x
  proof -
    from that have "wid \<in> w_id ` set (wallets d)"
      unfolding balanceAt_def using wallet_pk.lookup_Some by fastforce
    with one(5) have "wid \<noteq> ?wid" by blast
    with bal2 [OF bal1(2) [OF that]] end_balance [of wid] show ?thesis by simp
  qed
  ultimately show ?thesis using later final(1) by blast
qed

section \<open>A run of the script\<close>

text \<open>Ids of hexadecimal letters (36 of them in the reference of the payment), the clearing account of an empty database, and the services of the samples.\<close>

definition hexLetter :: "nat \<Rightarrow> char" where
  "hexLetter n = char_of (97 + n mod 6)"

definition smoke_runtime :: "nat \<Rightarrow> runtime" where
  "smoke_runtime k = \<lparr>rt_uuid = (\<lambda>j. replicate (if k = 2 then 32 else 0) CHR ''a'' @ [hexLetter (k div 6), hexLetter k, hexLetter (j div 6), hexLetter j]),
     rt_now = 1600000000000 + int k, rt_isUUID = (\<lambda>s. s \<noteq> []), rt_sha256 = (\<lambda>s. replicate 64 CHR ''a'')\<rparr>"

definition fresh_db :: db where
  "fresh_db = \<lparr>users = [], wallets = [],
     accounts = [\<lparr>la_id = replicate 36 CHR ''f'', la_kind = SYSTEM, la_currency = NGN, la_allowNegative = True,
       la_balanceMinor = 0, la_systemKey = Some ''external-clearing:NGN''\<rparr>],
     ledgerTransactions = [], postings = [], transfers = [], reversals = [], beneficiaries = [],
     idempotencyRecords = [], auditLogs = [], outboxEvents = [], notifications = [],
     subscriptions = [], deliveries = [], attempts = [], payments = [], providerEvents = [],
     checkouts = [], settings = []\<rparr>"

definition script_uuid :: "nat \<Rightarrow> uuid" where
  "script_uuid k = [CHR ''b'', hexLetter (k div 6), hexLetter k]"

definition sample_event :: json where
  "sample_event = JObj [(''eventId'', JStr (script_uuid 5)),
     (''reference'', JStr (''payment:'' @ rt_uuid (smoke_runtime 2) 0)), (''amountMinor'', JStr ''10000''),
     (''currency'', JStr ''NGN''), (''status'', JStr ''SUCCEEDED'')]"

definition smoke_api :: "nat \<Rightarrow> api" where
  "smoke_api k = api0\<lparr>ap_runtime := smoke_runtime k, ap_observed := (\<lambda>_. fresh_db),
     ap_provider := mock_env\<lparr>pv_parseBody := \<lambda>raw. if raw = js_stringify sample_event then Some sample_event else None\<rparr>,
     ap_settlement := \<lambda>_. alone (smoke_runtime k)\<rparr>"

definition smoke0 :: smoke_env where
  "smoke0 = \<lparr>sm_api = smoke_api, sm_uuid = script_uuid, sm_now = 1600000000000, sm_hmac256 = (\<lambda>_ _. replicate 64 CHR ''c''),
     sm_hostname = ''localhost'', sm_mockSecret = Some (replicate 32 CHR ''s''), sm_provider = Some ''mock''\<rparr>"

lemma hexLetter_plain: "keyChar (hexLetter n) \<and> js_lower (hexLetter n) = hexLetter n"
proof -
  have "list_all (\<lambda>i. keyChar (char_of (97 + i)) \<and> js_lower (char_of (97 + i)) = char_of (97 + i)) [0, 1, 2, 3, 4, 5 :: nat]"
    by code_simp
  moreover have "n mod 6 \<in> set [0, 1, 2, 3, 4, 5]" using mod_less_divisor [of 6 n] by force
  ultimately show ?thesis unfolding hexLetter_def list_all_iff by blast
qed

lemma smoke_ids:
  "uuid_source (smoke_runtime k)" "js_toLowerCase (rt_uuid (smoke_runtime k) j) = rt_uuid (smoke_runtime k) j"
proof -
  have "keyChar CHR ''a''" "js_lower CHR ''a'' = CHR ''a''" by code_simp+
  then show "uuid_source (smoke_runtime k)" "js_toLowerCase (rt_uuid (smoke_runtime k) j) = rt_uuid (smoke_runtime k) j"
    by (simp_all add: uuid_source_def smoke_runtime_def hexLetter_plain js_toLowerCase_def list_all_iff map_replicate)
qed

lemma smoke0_undisturbed: "undisturbed smoke0"
  by (simp add: undisturbed_def smoke0_def smoke_api_def smoke_ids api0_def alone_def) (simp add: unknownUser_def fresh_db_def)

lemma jwt0_holds: "tokens_hold jwt0"
  unfolding tokens_hold_def
proof (intro allI impI)
  fix p alg ttl iss aud at tok
  assume sign: "jwt_sign jwt0 p (jwt_secret jwt0) alg ttl iss aud at = Inr tok"
  have any: "jwt_verify jwt0 tok secret algs iss' aud' t = jwt_verify jwt0 tok (jwt_secret jwt0) algs iss aud t"
    for secret algs iss' aud' t by (simp add: jwt0_def)
  have "jwt_verify jwt0 tok (jwt_secret jwt0) algs iss aud t = Inr q \<Longrightarrow> vp_sub q = Some (at_sub p)" for algs t q
    using jwt0_laws(2) [OF sign, of algs t] by auto
  then show "tok \<noteq> [] \<and> (\<forall>c \<in> set tok. \<not> js_whitespace c) \<and>
      (\<forall>algs iss' aud' t q. jwt_verify jwt0 tok (jwt_secret jwt0) algs iss' aud' t = Inr q \<longrightarrow> vp_sub q = Some (at_sub p))"
    using jwt0_laws(1) [OF sign] any by metis
qed

lemma smoke0_parses: "parses smoke0"
proof -
  let ?f = "\<lambda>k v r. js_quote k @ '':'' @ js_stringify (JStr v) @ r"
  have eq: "js_stringify (smokeEvent smoke0 reference) =
      ''{'' @ ?f ''eventId'' (script_uuid 5) ('','' @ ?f ''reference'' reference ('','' @ ?f ''amountMinor'' ''10000''
        ('','' @ ?f ''currency'' ''NGN'' ('','' @ ?f ''status'' ''SUCCEEDED'' ''}''))))" for reference
    unfolding smokeEvent_def smoke0_def js_stringify.simps(7) by (simp del: js_stringify.simps)
  have sample: "sample_event = smokeEvent smoke0 (''payment:'' @ rt_uuid (smoke_runtime 2) 0)"
    by (simp add: sample_event_def smokeEvent_def smoke0_def)
  have drop: "x @ y = x @ z \<Longrightarrow> y = z" for x y z :: string by simp
  have inj: "a = b" if same: "js_stringify (smokeEvent smoke0 a) = js_stringify (smokeEvent smoke0 b)" for a b
  proof -
    note e = same [unfolded eq, THEN drop]
    note e1 = stringify_field(1) [OF e]
    show ?thesis using stringify_field(1) [OF e1 [THEN conjunct2, THEN drop]] by blast
  qed
  have "pv_parseBody (ap_provider (sm_api smoke0 k)) raw = (if raw = js_stringify sample_event then Some sample_event else None)"
    for k raw by (simp add: smoke0_def smoke_api_def)
  with inj sample show ?thesis unfolding parses_def by (metis option.distinct(1) option.inject)
qed

lemma fresh_books: "books_ok fresh_db"
  by (simp add: books_ok_def payments_ok_def payments_linked_def payment_pk.unique_def fresh_db_def ledger_ok_def pairing_ok_def
      double_entry_def identity_ok_def account_pk.unique_def wallet_pk.unique_def wallet_account.unique_def ltx_pk.unique_def
      user_pk.unique_def account_ok_def kind_policy_def balance_policy_def bigint_ok_def)

lemma smoke_passes_witness:
  "fst (smoke smoke0 fresh_db) = Inr ''10000'' \<and> books_ok (snd (smoke smoke0 fresh_db))"
proof -
  have run: "fst (smoke smoke0 fresh_db) = Inr ''10000''" by code_simp
  then have "smoke smoke0 fresh_db = (Inr ''10000'', snd (smoke smoke0 fresh_db))" by (metis prod.collapse)
  moreover have "unknownUser (rt_uuid (ap_runtime (sm_api smoke0 0)) 0) fresh_db" by (simp add: unknownUser_def fresh_db_def)
  moreover have "ap_jwt (sm_api smoke0 0) = jwt0" by (simp add: smoke0_def smoke_api_def api0_def)
  ultimately have "books_ok (snd (smoke smoke0 fresh_db))"
    using smoke_passes [OF smoke0_undisturbed fresh_books, of "''10000''" "snd (smoke smoke0 fresh_db)"] jwt0_holds smoke0_parses
    by simp
  with run show ?thesis by blast
qed

end
