(* ===== verification/BeneficiaryClaims.thy ===== *)
theory BeneficiaryClaims
  imports Beneficiaries Samples
begin

text \<open>
  Properties of the beneficiaries: the soft-deleting table refines the abstract map of active
  beneficiaries, the invariant holds under interference of other requests, and a removed
  beneficiary comes back under its old id.
\<close>

section \<open>The table as a map\<close>

definition pairOf :: "beneficiary \<Rightarrow> uuid \<times> uuid" where
  "pairOf b = (b_ownerUserId b, b_walletId b)"

lemma pair_unique:
  assumes "beneficiaries_ok d" "b \<in> set (beneficiaries d)" "c \<in> set (beneficiaries d)"
    "b_ownerUserId b = b_ownerUserId c" "b_walletId b = b_walletId c"
  shows "b = c"
proof -
  have "distinct (map (\<lambda>b. (b_ownerUserId b, b_walletId b)) (beneficiaries d))"
    using assms(1) by (simp add: beneficiaries_ok_def)
  from distinct_map_inj [OF this assms(2,3)] assms(4,5) show ?thesis by simp
qed

lemma id_unique:
  "beneficiaries_ok d \<Longrightarrow> b \<in> set (beneficiaries d) \<Longrightarrow> c \<in> set (beneficiaries d) \<Longrightarrow> b_id b = b_id c \<Longrightarrow> b = c"
  unfolding beneficiaries_ok_def by (metis distinct_map_inj)

lemma findRow_pair:
  assumes ok: "beneficiaries_ok d" and b: "b \<in> set (beneficiaries d)" "b_ownerUserId b = u" "b_walletId b = wid" "p b"
  shows "findRow (\<lambda>c. b_ownerUserId c = u \<and> b_walletId c = wid \<and> p c) (beneficiaries d) = Some b"
proof -
  have "findRow (\<lambda>c. b_ownerUserId c = u \<and> b_walletId c = wid \<and> p c) (beneficiaries d) \<noteq> None"
    using b by (auto simp: findRow_None)
  then obtain c where c: "findRow (\<lambda>c. b_ownerUserId c = u \<and> b_walletId c = wid \<and> p c) (beneficiaries d) = Some c"
    by blast
  from findRow_SomeD [OF this] have "c = b" using ok b by (intro pair_unique [OF ok]) auto
  with c show ?thesis by simp
qed

lemma active_iff:
  assumes "beneficiaries_ok d"
  shows "activeBeneficiaries u d wid = Some l \<longleftrightarrow>
    (\<exists>b \<in> set (beneficiaries d). b_ownerUserId b = u \<and> b_walletId b = wid \<and> b_deletedAt b = None \<and> b_label b = l)"
proof
  assume "activeBeneficiaries u d wid = Some l"
  then show "\<exists>b \<in> set (beneficiaries d). b_ownerUserId b = u \<and> b_walletId b = wid \<and> b_deletedAt b = None \<and> b_label b = l"
    by (auto simp: activeBeneficiaries_def dest!: findRow_SomeD)
next
  assume "\<exists>b \<in> set (beneficiaries d). b_ownerUserId b = u \<and> b_walletId b = wid \<and> b_deletedAt b = None \<and> b_label b = l"
  then obtain b where "b \<in> set (beneficiaries d)" "b_ownerUserId b = u" "b_walletId b = wid" "b_deletedAt b = None" "b_label b = l"
    by blast
  with findRow_pair [OF assms, of b u wid "\<lambda>c. b_deletedAt c = None"] show "activeBeneficiaries u d wid = Some l"
    by (simp add: activeBeneficiaries_def)
qed

lemma active_None_iff:
  "activeBeneficiaries u d wid = None \<longleftrightarrow>
    (\<forall>b \<in> set (beneficiaries d). b_ownerUserId b = u \<and> b_walletId b = wid \<longrightarrow> b_deletedAt b \<noteq> None)"
  by (auto simp: activeBeneficiaries_def findRow_None)

text \<open>Appending a row, or changing label and deletion mark of one row.\<close>

lemma active_append:
  "activeBeneficiaries v (d\<lparr>beneficiaries := beneficiaries d @ [b]\<rparr>) wid =
    (case activeBeneficiaries v d wid of
       Some l \<Rightarrow> Some l
     | None \<Rightarrow> if b_ownerUserId b = v \<and> b_walletId b = wid \<and> b_deletedAt b = None then Some (b_label b) else None)"
  by (auto simp: activeBeneficiaries_def findRow_append split: option.splits)

lemma active_update:
  assumes ok: "beneficiaries_ok d" and b: "b \<in> set (beneficiaries d)"
    and f: "b_ownerUserId (f b) = b_ownerUserId b" "b_walletId (f b) = b_walletId b"
  shows "activeBeneficiaries v (d\<lparr>beneficiaries := updateRows (\<lambda>c. b_id c = b_id b) f (beneficiaries d)\<rparr>) wid =
    (if v = b_ownerUserId b \<and> wid = b_walletId b
     then (if b_deletedAt (f b) = None then Some (b_label (f b)) else None)
     else activeBeneficiaries v d wid)"
proof -
  have one: "\<forall>c \<in> set (beneficiaries d). b_id c = b_id b \<longrightarrow> c = b" using id_unique [OF ok] b by blast
  have two: "\<forall>c \<in> set (beneficiaries d). b_ownerUserId c = b_ownerUserId b \<and> b_walletId c = b_walletId b \<longrightarrow> c = b"
    using pair_unique [OF ok] b by blast
  have "findRow (\<lambda>c. b_ownerUserId c = v \<and> b_walletId c = wid \<and> b_deletedAt c = None)
      (updateRows (\<lambda>c. b_id c = b_id b) f rs) =
    (if v = b_ownerUserId b \<and> wid = b_walletId b
     then (if b \<in> set rs \<and> b_deletedAt (f b) = None then Some (f b) else None)
     else findRow (\<lambda>c. b_ownerUserId c = v \<and> b_walletId c = wid \<and> b_deletedAt c = None) rs)"
    if "set rs \<subseteq> set (beneficiaries d)" for rs
    using that
  proof (induction rs)
    case (Cons c rs)
    then have c: "b_id c = b_id b \<longleftrightarrow> c = b" "b_ownerUserId c = b_ownerUserId b \<and> b_walletId c = b_walletId b \<longleftrightarrow> c = b"
      using one two by auto
    show ?case
    proof (cases "c = b")
      case True
      with Cons f show ?thesis by auto
    next
      case False
      with Cons c show ?thesis by auto
    qed
  qed auto
  from this [of "beneficiaries d"] b show ?thesis by (simp add: activeBeneficiaries_def)
qed

section \<open>Preservation of the invariant\<close>

lemma keep_append:
  assumes ok: "beneficiaries_ok d" and b: "create_beneficiary b d = (Inr c, d')"
    and w: "\<exists>w. wallet_pk.lookup (b_walletId b) (wallets d) = Some w \<and> w_userId w \<noteq> b_ownerUserId b"
  shows "beneficiaries_ok d'"
  using ok b w unfolding create_beneficiary_Inr
  by (auto simp: beneficiaries_ok_def varchar_ok_def existsRow_iff notin_image)

lemma keep_update:
  assumes ok: "beneficiaries_ok d" and u: "update_beneficiary bid f d = (Inr c, d')"
    and f: "\<And>b. b_id (f b) = b_id b" "\<And>b. b_ownerUserId (f b) = b_ownerUserId b" "\<And>b. b_walletId (f b) = b_walletId b"
  shows "beneficiaries_ok d'"
proof -
  from u obtain b where b: "findRow (\<lambda>b. b_id b = bid) (beneficiaries d) = Some b" "label_ok (b_label (f b))" "no_nul (b_label (f b))"
    and d': "d' = d\<lparr>beneficiaries := updateRows (\<lambda>b. b_id b = bid) f (beneficiaries d)\<rparr>"
    by (auto simp: update_beneficiary_Inr varchar_ok_def)
  have rows: "c \<in> set (beneficiaries d) \<or> c = f b" if "c \<in> set (updateRows (\<lambda>b. b_id b = bid) f (beneficiaries d))" for c
    using that b(1) id_unique [OF ok] by (auto simp: set_updateRows dest!: findRow_SomeD split: if_splits)
  have "b \<in> set (beneficiaries d)" using findRow_SomeD [OF b(1)] by simp
  then have "label_ok (b_label c) \<and> no_nul (b_label c) \<and> (\<exists>w. wallet_pk.lookup (b_walletId c) (wallets d) = Some w \<and> w_userId w \<noteq> b_ownerUserId c)"
    if "c \<in> set (updateRows (\<lambda>b. b_id b = bid) f (beneficiaries d))" for c
    using rows [OF that] ok b(2,3) f by (auto simp: beneficiaries_ok_def)
  moreover have "map b_id (updateRows (\<lambda>b. b_id b = bid) f (beneficiaries d)) = map b_id (beneficiaries d)"
    "map (\<lambda>b. (b_ownerUserId b, b_walletId b)) (updateRows (\<lambda>b. b_id b = bid) f (beneficiaries d)) =
     map (\<lambda>b. (b_ownerUserId b, b_walletId b)) (beneficiaries d)"
    using f by (simp_all add: map_updateRows)
  ultimately show ?thesis using ok by (simp add: beneficiaries_ok_def d')
qed

section \<open>What a call does when it runs alone\<close>

lemma label_varchar: "label_ok s \<Longrightarrow> varchar_ok 80 s \<longleftrightarrow> no_nul s"
  by (metis label_ok_def varchar_ok_def varchar_fits_def)

lemma insertBeneficiary_alone:
  assumes "label_ok label" "no_nul label" "u \<in> u_id ` set (users d)" "rt_uuid rt 0 \<notin> b_id ` set (beneficiaries d)"
    "wallet_pk.lookup wid (wallets d) = Some w"
    "findRow (\<lambda>b. b_ownerUserId b = u \<and> b_walletId b = wid) (beneficiaries d) = None"
  shows "insertBeneficiary rt u wid label d =
    (Inr (toBeneficiaryResponse (newBeneficiary rt u wid label) w),
     d\<lparr>beneficiaries := beneficiaries d @ [newBeneficiary rt u wid label]\<rparr>)"
proof -
  let ?b = "newBeneficiary rt u wid label"
  have "wid \<in> w_id ` set (wallets d)"
    using assms(5) by (metis image_eqI wallet_pk.lookup_Some)
  moreover have "varchar_ok 80 label" using assms(1,2) label_varchar by blast
  ultimately have "create_beneficiary ?b d = (Inr ?b, d\<lparr>beneficiaries := beneficiaries d @ [?b]\<rparr>)"
    using assms by (simp add: create_beneficiary_Inr newBeneficiary_def existsRow_iff findRow_None notin_image)
  moreover have "withWallet ?b (d\<lparr>beneficiaries := beneficiaries d @ [?b]\<rparr>) =
      (Inr (toBeneficiaryResponse ?b w), d\<lparr>beneficiaries := beneficiaries d @ [?b]\<rparr>)"
    using assms(5) by (simp add: withWallet_Inr) (simp add: newBeneficiary_def)
  ultimately show ?thesis
    by (simp add: insertBeneficiary_def tryCatch_def andThen_def)
qed

lemma update_alone:
  assumes ok: "beneficiaries_ok d" and b: "b \<in> set (beneficiaries d)" and l: "label_ok (b_label (f b))" "no_nul (b_label (f b))"
  shows "update_beneficiary (b_id b) f d =
    (Inr (f b), d\<lparr>beneficiaries := updateRows (\<lambda>c. b_id c = b_id b) f (beneficiaries d)\<rparr>)"
proof -
  have "findRow (\<lambda>c. b_id c = b_id b) (beneficiaries d) \<noteq> None" using b by (auto simp: findRow_None)
  then obtain c where c: "findRow (\<lambda>c. b_id c = b_id b) (beneficiaries d) = Some c" by blast
  with id_unique [OF ok _ b] have "c = b" by (auto dest!: findRow_SomeD)
  moreover have "varchar_ok 80 (b_label (f b))" using l label_varchar by blast
  ultimately show ?thesis using c l by (simp add: update_beneficiary_Inr)
qed

lemma restore_alone:
  assumes ok: "beneficiaries_ok d" and b: "b \<in> set (beneficiaries d)" and l: "label_ok label" "no_nul label"
    and w: "wallet_pk.lookup (b_walletId b) (wallets d) = Some w"
  shows "andThen (update_beneficiary (b_id b) (restoreBeneficiary label)) withWallet d =
    (Inr (toBeneficiaryResponse (restoreBeneficiary label b) w),
     d\<lparr>beneficiaries := updateRows (\<lambda>c. b_id c = b_id b) (restoreBeneficiary label) (beneficiaries d)\<rparr>)"
  using update_alone [OF ok b, of "restoreBeneficiary label"] l w
  by (simp add: andThen_InrI restoreBeneficiary_def withWallet_Inr)

text \<open>The abstract operation: the map of one owner, and which wallets exist; a label with U+0000 cannot be stored.\<close>

definition specCreate ::
  "(uuid \<rightharpoonup> wallet) \<Rightarrow> uuid \<Rightarrow> (uuid \<rightharpoonup> string) \<Rightarrow> uuid \<Rightarrow> string \<Rightarrow> exn + (uuid \<rightharpoonup> string)" where
  "specCreate ws u m wid label =
     (case ws wid of
        None \<Rightarrow> Inl (NotFound ''Beneficiary wallet is unavailable'')
      | Some w \<Rightarrow>
          if w_userId w = u then Inl (BadRequest ''A beneficiary must reference another user wallet'')
          else if w_status w \<noteq> ACTIVE then Inl (Conflict ''Beneficiary wallet must be active'')
          else if m wid \<noteq> None then Inl (Conflict ''Beneficiary already exists'')
          else if \<not> no_nul label then Inl OutOfRange
          else Inr (m(wid \<mapsto> label)))"

lemma keep_restored:
  assumes ok: "beneficiaries_ok d" and b: "b \<in> set (beneficiaries d)" and l: "label_ok label" "no_nul label"
  shows "beneficiaries_ok (d\<lparr>beneficiaries := updateRows (\<lambda>c. b_id c = b_id b) (restoreBeneficiary label) (beneficiaries d)\<rparr>)"
  using update_alone [OF ok b, of "restoreBeneficiary label"] l
  by (intro keep_update [OF ok, of "b_id b" "restoreBeneficiary label" "restoreBeneficiary label b"])
    (simp_all add: restoreBeneficiary_def)

lemma keep_inserted:
  assumes ok: "beneficiaries_ok d" and l: "label_ok label" "no_nul label" and u: "u \<in> u_id ` set (users d)"
    and w: "wallet_pk.lookup wid (wallets d) = Some w" "w_userId w \<noteq> u"
    and fresh: "rt_uuid rt 0 \<notin> b_id ` set (beneficiaries d)"
      "findRow (\<lambda>b. b_ownerUserId b = u \<and> b_walletId b = wid) (beneficiaries d) = None"
  shows "beneficiaries_ok (d\<lparr>beneficiaries := beneficiaries d @ [newBeneficiary rt u wid label]\<rparr>)"
  using ok l w fresh
  by (auto simp: beneficiaries_ok_def newBeneficiary_def findRow_None)

lemma create_new:
  assumes ok: "beneficiaries_ok d" and label: "label_ok label" "no_nul label"
    and user: "u \<in> u_id ` set (users d)" and fresh: "rt_uuid rt 0 \<notin> b_id ` set (beneficiaries d)"
    and w: "wallet_pk.lookup (pgUuid wid) (wallets d) = Some w" "w_userId w \<noteq> u" "w_status w = ACTIVE"
    and no: "findRow (\<lambda>b. b_ownerUserId b = u \<and> b_walletId b = pgUuid wid) (beneficiaries d) = None"
  shows "\<exists>x d'. beneficiariesCreate rt (\<lambda>_ e. e) u wid label d = (Inr x, d') \<and> br_walletId x = pgUuid wid \<and>
    br_label x = label \<and> activeBeneficiaries u d (pgUuid wid) = None \<and>
    (\<forall>v. activeBeneficiaries v d' = (if v = u then (activeBeneficiaries u d)(pgUuid wid \<mapsto> label) else activeBeneficiaries v d)) \<and>
    beneficiaries_ok d'"
proof (intro exI conjI allI)
  let ?b = "newBeneficiary rt u (pgUuid wid) label"
  show "beneficiariesCreate rt (\<lambda>_ e. e) u wid label d = (Inr (toBeneficiaryResponse ?b w), d\<lparr>beneficiaries := beneficiaries d @ [?b]\<rparr>)"
    using w no insertBeneficiary_alone [OF label user fresh w(1) no]
    by (simp add: beneficiariesCreate_def op_simps)
  show "activeBeneficiaries u d (pgUuid wid) = None" using no by (auto simp: active_None_iff findRow_None)
  then show "activeBeneficiaries v (d\<lparr>beneficiaries := beneficiaries d @ [?b]\<rparr>) =
      (if v = u then (activeBeneficiaries u d)(pgUuid wid \<mapsto> label) else activeBeneficiaries v d)" for v
    by (auto simp: fun_eq_iff active_append newBeneficiary_def split: option.splits)
  show "beneficiaries_ok (d\<lparr>beneficiaries := beneficiaries d @ [?b]\<rparr>)"
    by (rule keep_inserted [OF ok label user w(1,2) fresh no])
qed (simp_all add: toBeneficiaryResponse_def newBeneficiary_def)

lemma create_restored:
  assumes ok: "beneficiaries_ok d" and label: "label_ok label" "no_nul label"
    and w: "wallet_pk.lookup (pgUuid wid) (wallets d) = Some w" "w_userId w \<noteq> u" "w_status w = ACTIVE"
    and b: "b \<in> set (beneficiaries d)" "b_ownerUserId b = u" "b_walletId b = pgUuid wid" "b_deletedAt b \<noteq> None"
  shows "\<exists>x d'. beneficiariesCreate rt (\<lambda>_ e. e) u wid label d = (Inr x, d') \<and> br_walletId x = pgUuid wid \<and>
    br_label x = label \<and> br_id x = b_id b \<and> br_createdAt x = b_createdAt b \<and> activeBeneficiaries u d (pgUuid wid) = None \<and>
    (\<forall>v. activeBeneficiaries v d' = (if v = u then (activeBeneficiaries u d)(pgUuid wid \<mapsto> label) else activeBeneficiaries v d)) \<and>
    beneficiaries_ok d'"
proof (intro exI conjI allI)
  let ?d = "d\<lparr>beneficiaries := updateRows (\<lambda>c. b_id c = b_id b) (restoreBeneficiary label) (beneficiaries d)\<rparr>"
  show "beneficiariesCreate rt (\<lambda>_ e. e) u wid label d = (Inr (toBeneficiaryResponse (restoreBeneficiary label b) w), ?d)"
    using w b findRow_pair [OF ok b(1-3), of "\<lambda>_. True"] restore_alone [OF ok b(1) label, of w]
    by (auto simp: beneficiariesCreate_def op_simps)
  show "activeBeneficiaries u d (pgUuid wid) = None"
    unfolding active_None_iff using pair_unique [OF ok _ b(1)] b by metis
  show "activeBeneficiaries v ?d = (if v = u then (activeBeneficiaries u d)(pgUuid wid \<mapsto> label) else activeBeneficiaries v d)" for v
    using active_update [OF ok b(1), of "restoreBeneficiary label"] b
    by (auto simp: fun_eq_iff restoreBeneficiary_def)
  show "beneficiaries_ok ?d" by (rule keep_restored [OF ok b(1) label])
qed (use b in \<open>simp_all add: toBeneficiaryResponse_def restoreBeneficiary_def\<close>)

text \<open>A label with U+0000 passes the pipe; the database refuses it, after all other checks.\<close>

lemma create_unstorable:
  assumes ok: "beneficiaries_ok d" and label: "\<not> no_nul label"
    and w: "wallet_pk.lookup (pgUuid wid) (wallets d) = Some w" "w_userId w \<noteq> u" "w_status w = ACTIVE"
    and none: "\<forall>b \<in> set (beneficiaries d). b_ownerUserId b = u \<and> b_walletId b = pgUuid wid \<longrightarrow> b_deletedAt b \<noteq> None"
  shows "beneficiariesCreate rt (\<lambda>_ e. e) u wid label d = (Inl OutOfRange, d)"
proof (cases "findRow (\<lambda>b. b_ownerUserId b = u \<and> b_walletId b = pgUuid wid) (beneficiaries d)")
  case None
  have "create_beneficiary (newBeneficiary rt u (pgUuid wid) label) d = (Inl OutOfRange, d)"
    using label by (simp add: create_beneficiary_def newBeneficiary_def varchar_ok_def op_simps)
  with None w show ?thesis
    by (simp add: beneficiariesCreate_def insertBeneficiary_def tryCatch_def andThen_def op_simps isUniqueViolation_def)
next
  case (Some b)
  then have b: "b \<in> set (beneficiaries d)" "b_ownerUserId b = u" "b_walletId b = pgUuid wid" by (auto dest!: findRow_SomeD)
  have "findRow (\<lambda>c. b_id c = b_id b) (beneficiaries d) \<noteq> None" using b(1) by (auto simp: findRow_None)
  with label have "update_beneficiary (b_id b) (restoreBeneficiary label) d = (Inl OutOfRange, d)"
    by (auto simp: update_beneficiary_def restoreBeneficiary_def varchar_ok_def op_simps)
  with Some w none b show ?thesis
    by (auto simp: beneficiariesCreate_def op_simps andThen_InlI)
qed

lemma remove_active:
  assumes ok: "beneficiaries_ok d" and b: "b \<in> set (beneficiaries d)" "b_ownerUserId b = u" "b_deletedAt b = None"
    and bid: "pgUuid bid = b_id b"
  shows "\<exists>d'. beneficiariesRemove rt (\<lambda>_ e. e) u bid d = (Inr (), d') \<and>
    d' = d\<lparr>beneficiaries := updateRows (\<lambda>c. b_id c = b_id b) (\<lambda>b. b\<lparr>b_deletedAt := Some (rt_now rt)\<rparr>) (beneficiaries d)\<rparr> \<and>
    (\<forall>v. activeBeneficiaries v d' =
      (if v = u then (activeBeneficiaries u d)(b_walletId b := None) else activeBeneficiaries v d)) \<and>
    beneficiaries_ok d'"
proof (intro exI conjI allI)
  let ?f = "\<lambda>b. b\<lparr>b_deletedAt := Some (rt_now rt)\<rparr>"
  let ?d = "d\<lparr>beneficiaries := updateRows (\<lambda>c. b_id c = b_id b) ?f (beneficiaries d)\<rparr>"
  have l: "label_ok (b_label (?f b))" "no_nul (b_label (?f b))" using ok b by (simp_all add: beneficiaries_ok_def)
  have up: "update_beneficiary (b_id b) ?f d = (Inr (?f b), ?d)" using update_alone [OF ok b(1), of ?f] l by simp
  have "findRow (\<lambda>c. b_id c = b_id b \<and> b_ownerUserId c = u \<and> b_deletedAt c = None) (beneficiaries d) \<noteq> None"
    using b by (auto simp: findRow_None)
  then obtain c where c: "findRow (\<lambda>c. b_id c = b_id b \<and> b_ownerUserId c = u \<and> b_deletedAt c = None) (beneficiaries d) = Some c"
    by blast
  have "c = b" using findRow_SomeD [OF c] id_unique [OF ok _ b(1)] by blast
  with c up bid show "beneficiariesRemove rt (\<lambda>_ e. e) u bid d = (Inr (), ?d)"
    by (simp add: beneficiariesRemove_def op_simps andThen_InrI)
  show "activeBeneficiaries v ?d =
      (if v = u then (activeBeneficiaries u d)(b_walletId b := None) else activeBeneficiaries v d)" for v
    using active_update [OF ok b(1), of ?f] b by (auto simp: fun_eq_iff)
  show "beneficiaries_ok ?d" by (rule keep_update [OF ok up]) simp_all
qed simp

text \<open>The listing: every active beneficiary once.\<close>

lemma map_filter_total:
  "\<forall>b \<in> set rs. h b \<noteq> None \<Longrightarrow> List.map_filter (\<lambda>b. map_option (g b) (h b)) rs = map (\<lambda>b. g b (the (h b))) rs"
  by (induction rs) (auto simp: List.map_filter_simps)

lemma list_map:
  assumes ok: "beneficiaries_ok d"
  shows "\<exists>rs. beneficiariesFindAll u d = (Inr rs, d) \<and> distinct (map br_walletId rs) \<and>
      map_of (map (\<lambda>x. (br_walletId x, br_label x)) rs) = activeBeneficiaries u d"
proof -
  define rows where "rows = rev (sort_key (\<lambda>b. (b_createdAt b, b_id b)) (filter (\<lambda>b. b_ownerUserId b = u \<and> b_deletedAt b = None) (beneficiaries d)))"
  define out where "out = (\<lambda>b. toBeneficiaryResponse b (the (wallet_pk.lookup (b_walletId b) (wallets d))))"
  have set_rows: "set rows = {b \<in> set (beneficiaries d). b_ownerUserId b = u \<and> b_deletedAt b = None}"
    unfolding rows_def by auto
  have "distinct (beneficiaries d)" using ok by (simp add: beneficiaries_ok_def distinct_map)
  then have "distinct rows" by (simp add: rows_def)
  moreover have "inj_on b_walletId (set rows)"
    using pair_unique [OF ok] by (auto simp: inj_on_def set_rows)
  ultimately have dist: "distinct (map b_walletId rows)" by (simp add: distinct_map)
  have "\<forall>b \<in> set rows. wallet_pk.lookup (b_walletId b) (wallets d) \<noteq> None"
    using ok by (auto simp: beneficiaries_ok_def set_rows)
  from map_filter_total [OF this]
  have "beneficiariesFindAll u d = (Inr (map out rows), d)"
    by (simp add: beneficiariesFindAll_def op_simps rows_def out_def)
  moreover have "map br_walletId (map out rows) = map b_walletId rows"
    "map (\<lambda>x. (br_walletId x, br_label x)) (map out rows) = map (\<lambda>b. (b_walletId b, b_label b)) rows"
    by (simp_all add: out_def toBeneficiaryResponse_def)
  moreover have "map_of (map (\<lambda>b. (b_walletId b, b_label b)) rows) = activeBeneficiaries u d"
  proof
    fix wid
    have "map_of (map (\<lambda>b. (b_walletId b, b_label b)) rows) wid = Some l \<longleftrightarrow> activeBeneficiaries u d wid = Some l" for l
      using dist by (subst map_of_eq_Some_iff) (auto simp: active_iff [OF ok] comp_def set_rows)
    then show "map_of (map (\<lambda>b. (b_walletId b, b_label b)) rows) wid = activeBeneficiaries u d wid"
      by (metis not_None_eq)
  qed
  ultimately show ?thesis using dist by metis
qed

text \<open>C39. Adding a beneficiary, when no other request interferes, implements the abstract operation on
  the map from wallet to label of the caller's active beneficiaries: the same error and an unchanged
  database where the specification refuses, and otherwise the caller's map updated at the wallet, the
  maps of all other users as they were, and the answer naming the wallet and label. It does so both for
  a wallet the caller never had and for one removed before, whatever the case the id of the wallet is
  written in, and for every label that passes the pipe: one with U+0000 is refused by the database.\<close>

theorem beneficiaries_create_refines:
  assumes ok: "beneficiaries_ok d" and label: "label_ok label"
    and user: "u \<in> u_id ` set (users d)" and fresh: "rt_uuid rt 0 \<notin> b_id ` set (beneficiaries d)"
  shows "case specCreate (\<lambda>w. wallet_pk.lookup w (wallets d)) u (activeBeneficiaries u d) (pgUuid wid) label of
      Inl e \<Rightarrow> beneficiariesCreate rt (\<lambda>_ e. e) u wid label d = (Inl e, d)
    | Inr m \<Rightarrow> \<exists>x d'. beneficiariesCreate rt (\<lambda>_ e. e) u wid label d = (Inr x, d') \<and>
        br_walletId x = pgUuid wid \<and> br_label x = label \<and>
        (\<forall>v. activeBeneficiaries v d' = (if v = u then m else activeBeneficiaries v d)) \<and> beneficiaries_ok d'"
proof (cases "\<exists>w. wallet_pk.lookup (pgUuid wid) (wallets d) = Some w \<and> w_userId w \<noteq> u \<and> w_status w = ACTIVE")
  case False
  then show ?thesis
    by (auto simp: specCreate_def beneficiariesCreate_def op_simps split: option.splits)
next
  case True
  then obtain w where w: "wallet_pk.lookup (pgUuid wid) (wallets d) = Some w" "w_userId w \<noteq> u" "w_status w = ACTIVE" by blast
  show ?thesis
  proof (cases "activeBeneficiaries u d (pgUuid wid)")
    case (Some l)
    then obtain b where b: "b \<in> set (beneficiaries d)" "b_ownerUserId b = u" "b_walletId b = pgUuid wid" "b_deletedAt b = None"
      using active_iff [OF ok] by blast
    with w Some findRow_pair [OF ok b(1-3), of "\<lambda>_. True"] show ?thesis
      by (simp add: specCreate_def beneficiariesCreate_def op_simps)
  next
    case None
    note gone = None [unfolded active_None_iff]
    show ?thesis
    proof (cases "no_nul label")
      case False
      with create_unstorable [OF ok False w gone] w None show ?thesis by (simp add: specCreate_def)
    next
      case True
      show ?thesis
      proof (cases "findRow (\<lambda>b. b_ownerUserId b = u \<and> b_walletId b = pgUuid wid) (beneficiaries d)")
        case no: None
        with create_new [OF ok label True user fresh w no] w True show ?thesis by (auto simp: specCreate_def)
      next
        case (Some b)
        then have b: "b \<in> set (beneficiaries d)" "b_ownerUserId b = u" "b_walletId b = pgUuid wid"
          by (auto dest!: findRow_SomeD)
        with gone have "b_deletedAt b \<noteq> None" by blast
        with create_restored [OF ok label True w b, of rt] w True show ?thesis by (auto simp: specCreate_def)
      qed
    qed
  qed
qed

lemma pgUuid_samples: "pgUuid ''B1'' = ''b1''" "pgUuid ''b1'' = ''b1''" "pgUuid ''W2'' = ''w2''" "pgUuid ''w2'' = ''w2''"
  by code_simp+

lemma db0_beneficiaries: "beneficiaries_ok db0"
  by (simp add: beneficiaries_ok_def db0_def)

lemma beneficiaries_create_refines_witness:
  "\<exists>x d'. beneficiariesCreate rt0 (\<lambda>_ e. e) ''u1'' ''W2'' ''Dan'' db0 = (Inr x, d') \<and> br_walletId x = ''w2'' \<and>
    activeBeneficiaries ''u1'' d' ''w2'' = Some ''Dan''"
proof -
  have "label_ok ''Dan''" "''u1'' \<in> u_id ` set (users db0)" "rt_uuid rt0 0 \<notin> b_id ` set (beneficiaries db0)"
    by (simp_all add: label_ok_def sql_btrim_def sample_defs)
  moreover have "specCreate (\<lambda>w. wallet_pk.lookup w (wallets db0)) ''u1'' (activeBeneficiaries ''u1'' db0) ''w2'' ''Dan'' =
      Inr ((activeBeneficiaries ''u1'' db0)(''w2'' \<mapsto> ''Dan''))"
    by (simp add: specCreate_def activeBeneficiaries_def no_nul_def wallet_pk.lookup_def sample_defs)
  moreover have "pgUuid ''W2'' = ''w2''" by code_simp
  ultimately show ?thesis
    using beneficiaries_create_refines [OF db0_beneficiaries, of "''Dan''" "''u1''" rt0 "''W2''"] by auto
qed

text \<open>Removing a beneficiary, when no other request interferes, succeeds exactly for an id of an active
  beneficiary of the caller, and then deletes its wallet from the caller's map and changes the map of
  nobody else; any other id is answered 404 and changes nothing. Listing afterwards gives exactly the
  entries of the map, each wallet once.\<close>

theorem beneficiaries_remove_refines:
  assumes ok: "beneficiaries_ok d" and run: "beneficiariesRemove rt (\<lambda>_ e. e) u bid d = (r, d')"
  shows "(case findRow (\<lambda>b. b_id b = pgUuid bid \<and> b_ownerUserId b = u \<and> b_deletedAt b = None) (beneficiaries d) of
      None \<Rightarrow> r = Inl (NotFound ''Beneficiary not found'') \<and> d' = d
    | Some b \<Rightarrow> r = Inr () \<and> (\<forall>v. activeBeneficiaries v d' =
        (if v = u then (activeBeneficiaries u d)(b_walletId b := None) else activeBeneficiaries v d))) \<and>
    beneficiaries_ok d' \<and>
    (\<exists>rs. beneficiariesFindAll u d' = (Inr rs, d') \<and> distinct (map br_walletId rs) \<and>
      map_of (map (\<lambda>x. (br_walletId x, br_label x)) rs) = activeBeneficiaries u d')"
proof -
  have part: "(case findRow (\<lambda>b. b_id b = pgUuid bid \<and> b_ownerUserId b = u \<and> b_deletedAt b = None) (beneficiaries d) of
      None \<Rightarrow> r = Inl (NotFound ''Beneficiary not found'') \<and> d' = d
    | Some b \<Rightarrow> r = Inr () \<and> (\<forall>v. activeBeneficiaries v d' =
        (if v = u then (activeBeneficiaries u d)(b_walletId b := None) else activeBeneficiaries v d))) \<and>
    beneficiaries_ok d'"
  proof (cases "findRow (\<lambda>b. b_id b = pgUuid bid \<and> b_ownerUserId b = u \<and> b_deletedAt b = None) (beneficiaries d)")
    case None
    with run ok show ?thesis by (auto simp: beneficiariesRemove_def op_simps)
  next
    case (Some b)
    then have b: "b \<in> set (beneficiaries d)" "b_id b = pgUuid bid" "b_ownerUserId b = u" "b_deletedAt b = None"
      by (auto dest!: findRow_SomeD)
    from remove_active [OF ok b(1,3,4) b(2) [symmetric], of rt] run Some show ?thesis by auto
  qed
  with list_map [of d' u] show ?thesis by blast
qed

definition dan :: beneficiary where
  "dan = \<lparr>b_id = ''b1'', b_ownerUserId = ''u1'', b_walletId = ''w2'', b_label = ''Dan'',
     b_createdAt = 5, b_deletedAt = None\<rparr>"

definition db0b :: db where
  "db0b = db0\<lparr>beneficiaries := [dan]\<rparr>"

lemma db0b_beneficiaries: "beneficiaries_ok db0b"
  by (simp add: beneficiaries_ok_def db0b_def dan_def no_nul_def label_ok_def sql_btrim_def wallet_pk.lookup_def sample_defs)

lemma beneficiaries_remove_refines_witness:
  "\<exists>d'. beneficiariesRemove rt0 (\<lambda>_ e. e) ''u1'' ''b1'' db0b = (Inr (), d') \<and> activeBeneficiaries ''u1'' d' ''w2'' = None"
proof -
  obtain r d' where run: "beneficiariesRemove rt0 (\<lambda>_ e. e) ''u1'' ''b1'' db0b = (r, d')" by fastforce
  from beneficiaries_remove_refines [OF db0b_beneficiaries run] run show ?thesis
    by (auto simp: db0b_def dan_def pgUuid_samples)
qed

text \<open>A beneficiary that was removed and is added again comes back as the same record: between the two
  calls anything may happen that keeps the rows of the table and the wallet, and still the answer has the old
  id and creation time with the new label.\<close>

theorem beneficiary_readd_same_record:
  assumes ok: "beneficiaries_ok d" and removed: "beneficiariesRemove rt (\<lambda>_ e. e) u bid d = (Inr (), d1)"
    and b: "b \<in> set (beneficiaries d)" "pgUuid bid = b_id b"
    and later: "beneficiaries_ok d2" "set (beneficiaries d1) \<subseteq> set (beneficiaries d2)"
    and w: "pgUuid wid = b_walletId b" "wallet_pk.lookup (b_walletId b) (wallets d2) = Some w" "w_status w = ACTIVE"
    and label: "label_ok label" "no_nul label"
  shows "\<exists>x d3. beneficiariesCreate rt' (\<lambda>_ e. e) u wid label d2 = (Inr x, d3) \<and>
    br_id x = b_id b \<and> br_createdAt x = b_createdAt b \<and> br_label x = label \<and>
    activeBeneficiaries u d3 (b_walletId b) = Some label"
proof -
  let ?c = "b\<lparr>b_deletedAt := Some (rt_now rt)\<rparr>"
  from removed b(2) obtain c where c: "c \<in> set (beneficiaries d)" "b_id c = b_id b" "b_ownerUserId c = u" "b_deletedAt c = None"
    by (cases "findRow (\<lambda>c. b_id c = b_id b \<and> b_ownerUserId c = u \<and> b_deletedAt c = None) (beneficiaries d)")
      (auto simp: beneficiariesRemove_def op_simps dest!: findRow_SomeD)
  with id_unique [OF ok _ b(1)] have u: "b_ownerUserId b = u" "b_deletedAt b = None" by blast+
  from remove_active [OF ok b(1) u b(2), of rt] removed have "?c \<in> set (beneficiaries d1)"
    using b by (auto simp: set_updateRows image_iff)
  with later have c2: "?c \<in> set (beneficiaries d2)" by blast
  with later(1) w have "w_userId w \<noteq> u" using u by (fastforce simp: beneficiaries_ok_def)
  from create_restored [OF later(1) label w(2) [folded w(1)] this w(3) c2, of rt'] u w(1) show ?thesis by auto
qed

lemma beneficiary_readd_same_record_witness:
  "\<exists>d1 x d3. beneficiariesRemove rt0 (\<lambda>_ e. e) ''u1'' ''B1'' db0b = (Inr (), d1) \<and>
    beneficiariesCreate rt0 (\<lambda>_ e. e) ''u1'' ''W2'' ''Dan M'' d1 = (Inr x, d3) \<and> br_id x = ''b1'' \<and> br_createdAt x = 5"
proof -
  have dan: "dan \<in> set (beneficiaries db0b)" "b_ownerUserId dan = ''u1''" "b_deletedAt dan = None" "pgUuid ''B1'' = b_id dan"
    by (simp_all add: db0b_def dan_def pgUuid_samples)
  from remove_active [OF db0b_beneficiaries this, of rt0] obtain d1 where
    run: "beneficiariesRemove rt0 (\<lambda>_ e. e) ''u1'' ''B1'' db0b = (Inr (), d1)" and ok: "beneficiaries_ok d1"
    and d1: "wallets d1 = wallets db0b" by auto
  have w: "pgUuid ''W2'' = b_walletId dan" "wallet_pk.lookup (b_walletId dan) (wallets d1) = Some wallet2"
    "w_status wallet2 = ACTIVE" and l: "label_ok ''Dan M''" "no_nul ''Dan M''"
    by (simp_all add: d1 wallet_pk.lookup_def db0b_def dan_def label_ok_def sql_btrim_def no_nul_def sample_defs
        pgUuid_samples)
  from beneficiary_readd_same_record [OF db0b_beneficiaries run dan(1,4) ok subset_refl w l, of rt0] run
  show ?thesis by (auto simp: dan_def)
qed

section \<open>Interference\<close>

lemma others_keep_ok: "others_keep f \<Longrightarrow> beneficiaries_ok d \<Longrightarrow> beneficiaries_ok (f d)"
  by (simp add: others_keep_def)

lemma others_keep_owner:
  assumes "others_keep f" "wallet_pk.lookup wid (wallets d) = Some w"
  shows "\<exists>w'. wallet_pk.lookup wid (wallets (f d)) = Some w' \<and> w_userId w' = w_userId w"
proof -
  from assms(2) have "map_option w_userId (wallet_pk.lookup wid (wallets d)) \<noteq> None" by simp
  with assms(1) have "map_option w_userId (wallet_pk.lookup wid (wallets (f d))) =
      map_option w_userId (wallet_pk.lookup wid (wallets d))" unfolding others_keep_def by blast
  with assms(2) show ?thesis by (cases "wallet_pk.lookup wid (wallets (f d))") auto
qed

lemma keep_insertBeneficiary:
  assumes ok: "beneficiaries_ok d" and w: "wallet_pk.lookup wid (wallets d) = Some w" "w_userId w \<noteq> u"
  shows "beneficiaries_ok (snd (insertBeneficiary rt u wid label d))"
proof (cases "create_beneficiary (newBeneficiary rt u wid label) d")
  case (Pair r d')
  show ?thesis
  proof (cases r)
    case (Inl e)
    with Pair create_beneficiary_Inl have "d' = d" by metis
    with Pair Inl ok show ?thesis
      by (simp add: insertBeneficiary_def tryCatch_def andThen_def op_simps)
  next
    case (Inr b)
    with Pair have "beneficiaries_ok d'"
      using keep_append [OF ok] w by (simp add: newBeneficiary_def)
    moreover have "snd (withWallet b d') = d'" by (metis withWallet_state prod.collapse)
    ultimately show ?thesis
      using Pair Inr by (auto simp: insertBeneficiary_def tryCatch_def andThen_def op_simps split: prod.splits sum.splits)
  qed
qed

lemma keep_update_any:
  assumes ok: "beneficiaries_ok d"
    and f: "\<And>b. b_id (f b) = b_id b" "\<And>b. b_ownerUserId (f b) = b_ownerUserId b" "\<And>b. b_walletId (f b) = b_walletId b"
  shows "beneficiaries_ok (snd (update_beneficiary bid f d))"
proof (cases "update_beneficiary bid f d")
  case (Pair r d')
  show ?thesis
  proof (cases r)
    case (Inl e) with Pair update_beneficiary_Inl ok show ?thesis by fastforce
  next
    case (Inr c) with Pair keep_update [OF ok _ f] show ?thesis by simp
  qed
qed

lemma snd_andThen_readonly: "(\<And>x. readonly (f x)) \<Longrightarrow> snd (andThen m f s) = snd (m s)"
  by (simp add: andThen_def readonly_def split: prod.splits sum.splits)

lemma readonly_withWallet: "readonly (withWallet b)"
  unfolding readonly_def by (metis withWallet_state prod.collapse)

lemma keep_remove:
  assumes ok: "beneficiaries_ok (others 0 d)" "beneficiaries_ok (others 1 (others 0 d))"
  shows "beneficiaries_ok (snd (beneficiariesRemove rt others u bid d))"
proof (cases "findRow (\<lambda>b. b_id b = pgUuid bid \<and> b_ownerUserId b = u \<and> b_deletedAt b = None) (beneficiaries (others 0 d))")
  case None
  with ok(1) show ?thesis by (simp add: beneficiariesRemove_def op_apply andThen_steps)
next
  case (Some b)
  then have "snd (beneficiariesRemove rt others u bid d) =
      snd (update_beneficiary (b_id b) (\<lambda>b. b\<lparr>b_deletedAt := Some (rt_now rt)\<rparr>) (others 1 (others 0 d)))"
    by (simp add: beneficiariesRemove_def op_apply andThen_steps snd_andThen_readonly)
  with keep_update_any [OF ok(2), of "\<lambda>b. b\<lparr>b_deletedAt := Some (rt_now rt)\<rparr>" "b_id b"] show ?thesis by simp
qed

text \<open>Whatever other requests do between the queries of a call, as long as they keep the invariant of
  the table and the owners of the wallets, adding and removing keep it: at most one row per owner and
  wallet, no beneficiary that is a wallet of its own owner, every label trimmed and between 1 and 80
  characters.\<close>

theorem beneficiaries_invariant:
  assumes ok: "beneficiaries_ok d" and others: "\<And>k. others_keep (others k)"
  shows "beneficiaries_ok (snd (beneficiariesCreate rt others u wid label d)) \<and>
    beneficiaries_ok (snd (beneficiariesRemove rt others u bid d))"
proof
  let ?d0 = "others 0 d" let ?d1 = "others 1 ?d0" let ?d2 = "others 2 ?d1"
  have ok': "beneficiaries_ok ?d0" "beneficiaries_ok ?d1" "beneficiaries_ok ?d2"
    using others_keep_ok [OF others] ok by blast+
  show "beneficiaries_ok (snd (beneficiariesCreate rt others u wid label d))"
  proof (cases "\<exists>w. wallet_pk.lookup (pgUuid wid) (wallets ?d0) = Some w \<and> w_userId w \<noteq> u \<and> w_status w = ACTIVE")
    case False
    with ok' show ?thesis by (auto simp: beneficiariesCreate_def op_simps split: option.splits)
  next
    case True
    then obtain w where w: "wallet_pk.lookup (pgUuid wid) (wallets ?d0) = Some w" "w_userId w \<noteq> u" "w_status w = ACTIVE" by blast
    then obtain w2 where w2: "wallet_pk.lookup (pgUuid wid) (wallets ?d2) = Some w2" "w_userId w2 \<noteq> u"
      using others_keep_owner [OF others] by metis
    have restore: "beneficiaries_ok (snd (andThen (update_beneficiary i (restoreBeneficiary label)) withWallet ?d2))" for i
      using keep_update_any [OF ok'(3), of "restoreBeneficiary label" i]
      by (simp add: snd_andThen_readonly [OF readonly_withWallet] restoreBeneficiary_def)
    show ?thesis
      using w ok' restore keep_insertBeneficiary [OF ok'(3) w2]
      by (auto simp: beneficiariesCreate_def op_simps split: option.splits)
  qed
  show "beneficiaries_ok (snd (beneficiariesRemove rt others u bid d))"
    by (rule keep_remove [OF ok'(1,2)])
qed

lemma beneficiaries_invariant_witness:
  "beneficiaries_ok (snd (beneficiariesCreate rt0 (\<lambda>_ e. e) ''u1'' ''w2'' ''Dan'' db0b)) \<and>
   beneficiaries_ok (snd (beneficiariesRemove rt0 (\<lambda>_ e. e) ''u1'' ''b1'' db0b))"
  by (rule beneficiaries_invariant [OF db0b_beneficiaries, of "\<lambda>_ e. e" rt0 "''u1''" "''w2''" "''Dan''" "''b1''"])
    (simp add: others_keep_def)

end
