(* ===== verification/WebhookClaims.thy ===== *)
theory WebhookClaims
  imports WebhookSteps Samples
begin

text \<open>
  Properties of the webhook deliveries over any run of the services: the state machine of a delivery,
  what is final, one request per lease, and that a due delivery is delivered.
\<close>

section \<open>The state machine of one delivery\<close>

lemma row_steps_terminal:
  assumes "row_steps T x y" "\<not> waiting (fst x)"
  shows "y = x"
proof -
  from assms(1) have "(\<lambda>x y. \<exists>e. row_step x e y \<and> (\<forall>t. e = Claimed t \<longrightarrow> t \<in> T))\<^sup>*\<^sup>* x y" by (simp add: row_steps_def)
  then show ?thesis by (cases rule: converse_rtranclpE) (use assms(2) row_step_waiting in blast)+
qed

text \<open>No attempt of lease \<open>t\<close> is waiting to be started.\<close>

definition spent :: "uuid \<Rightarrow> webhook_delivery \<times> webhook_attempt list \<Rightarrow> bool" where
  "spent t x \<longleftrightarrow> \<not> (wd_status (fst x) = D_PROCESSING \<and> wd_leaseToken (fst x) = Some t \<and>
     snd x \<noteq> [] \<and> wa_status (last (snd x)) = A_QUEUED)"

lemma row_step_spent: "row_step x e y \<Longrightarrow> spent t x \<Longrightarrow> e \<noteq> Claimed t \<Longrightarrow> spent t y"
  by (induction rule: row_step.induct) (auto simp: spent_def row_fields)

lemma row_step_starts: "row_step x (Started t) y \<Longrightarrow> \<not> spent t x \<and> spent t y"
  by (erule row_step_Started) (simp add: spent_def)

lemma row_steps_spent: "row_steps T x y \<Longrightarrow> t \<notin> T \<Longrightarrow> spent t x \<Longrightarrow> spent t y"
  unfolding row_steps_def by (induction rule: rtranclp_induct) (blast intro: row_step_spent)+

section \<open>A claimed delivery\<close>

text \<open>The row of a job whose attempt is queued or being sent.\<close>

definition job_row :: "WebhookAttemptStatus \<Rightarrow> webhook_job \<Rightarrow> time \<Rightarrow> db \<Rightarrow> webhook_delivery \<Rightarrow> bool" where
  "job_row st job until d v \<longleftrightarrow> v \<in> set (deliveries d) \<and> wd_id v = job_deliveryId job \<and>
     wd_status v = D_PROCESSING \<and> wd_leaseToken v = Some (job_leaseToken job) \<and> wd_leaseUntil v = Some until \<and>
     (\<exists>old a. attemptsOf d (wd_id v) = old @ [a] \<and> wa_status a = st)"

lemma job_row_settings [simp]: "job_row st job u (d\<lparr>settings := x\<rparr>) v = job_row st job u d v"
  by (simp add: job_row_def)

lemma claimRow_fresh:
  assumes ok: "webhooks_ok d" and v: "v \<in> set (deliveries d)" "enabledFor d v" "wd_attemptCount v < maxAttempts"
    and run: "claimRow rt clock k v d = (Inr r, d')"
  shows "\<exists>job. r = Some job \<and> job_deliveryId job = wd_id v \<and> job_leaseToken job \<in> range (rt_uuid rt) \<and>
    job_row A_QUEUED job (clock (k + 1) + 30000) d' (lease (rt_uuid rt (2 * k)) (clock (k + 1) + 30000) v)"
proof -
  obtain s where s: "subscription_pk.lookup (wd_subscriptionId v) (subscriptions d) = Some s" "ws_enabled s"
    using v(2) by (auto simp: enabledFor_def split: option.splits)
  note exact = claimRow_exact [OF ok v(1) s(1) run s(2) v(3)]
  have "lease t u v \<in> set (delivery_pk.put (wd_id v) (lease t u) (deliveries d))" for t u
    by (rule in_put(2) [OF v(1) refl])
  with exact show ?thesis
    by (simp add: job_row_def) (simp add: lease_def attemptsOf_def newAttempt_def)
qed

lemma fresh_kept:
  assumes "job_row A_QUEUED job u d v" "lifts d vid e d'" "vid \<noteq> wd_id v"
  shows "job_row A_QUEUED job u d' v"
proof -
  from assms(2,3) have "attemptsOf d' (wd_id v) = attemptsOf d (wd_id v)" by (elim liftsE) simp
  with assms(1,3) lifts_others [OF assms(2), of v] show ?thesis unfolding job_row_def by metis
qed

lemma claimRows_kept:
  "webhooks_ok d \<Longrightarrow> distinct (map wd_id rows) \<Longrightarrow> \<forall>v \<in> set rows. v \<in> set (deliveries d) \<and> waiting v \<Longrightarrow>
   claimRows rt clock k rows d = (Inr jobs, d') \<Longrightarrow> job_row A_QUEUED job u d v \<Longrightarrow> wd_id v \<notin> wd_id ` set rows \<Longrightarrow>
   job_row A_QUEUED job u d' v"
proof (induction rows arbitrary: k d jobs)
  case (Cons w rows)
  from Cons.prems(4) obtain j m js where m: "claimRow rt clock k w d = (Inr j, m)"
    and rest: "claimRows rt clock (k + 1) rows m = (Inr js, d')"
    by (auto simp: op_simps)
  have w: "w \<in> set (deliveries d)" "waiting w" using Cons.prems(3) by simp_all
  from claimRow_lifts [OF Cons.prems(1) w m] obtain e where e: "lifts d (wd_id w) e m" by blast
  have "\<forall>x \<in> set rows. x \<in> set (deliveries m) \<and> waiting x"
    using Cons.prems(2,3) lifts_others [OF e] by (auto simp: image_iff)
  moreover have "job_row A_QUEUED job u m v" using fresh_kept [OF Cons.prems(5) e] Cons.prems(6) by auto
  ultimately show ?case
    using Cons.IH [OF lifts_ok [OF e Cons.prems(1)] _ _ rest] Cons.prems(2,6) by simp
qed (simp add: op_simps)

lemma claimRows_fresh:
  "webhooks_ok d \<Longrightarrow> distinct (map wd_id rows) \<Longrightarrow> \<forall>v \<in> set rows. v \<in> set (deliveries d) \<and> waiting v \<Longrightarrow>
   claimRows rt clock k rows d = (Inr jobs, d') \<Longrightarrow> v \<in> set rows \<Longrightarrow> enabledFor d v \<Longrightarrow> wd_attemptCount v < maxAttempts \<Longrightarrow>
   \<exists>job \<in> set jobs. job_deliveryId job = wd_id v \<and> (\<exists>j v'. job_row A_QUEUED job (clock j + 30000) d' v' \<and>
     wd_subscriptionId v' = wd_subscriptionId v \<and> wd_outboxEventId v' = wd_outboxEventId v \<and>
     wd_attemptCount v' = wd_attemptCount v + 1)"
proof (induction rows arbitrary: k d jobs)
  case (Cons w rows)
  from Cons.prems(4) obtain j m js where m: "claimRow rt clock k w d = (Inr j, m)"
    and rest: "claimRows rt clock (k + 1) rows m = (Inr js, d')"
    and jobs: "jobs = (case j of None \<Rightarrow> js | Some x \<Rightarrow> x # js)"
    by (auto simp: op_simps)
  have w: "w \<in> set (deliveries d)" "waiting w" using Cons.prems(3) by simp_all
  from claimRow_lifts [OF Cons.prems(1) w m] obtain e where e: "lifts d (wd_id w) e m" by blast
  have rows: "\<forall>x \<in> set rows. x \<in> set (deliveries m) \<and> waiting x"
    using Cons.prems(2,3) lifts_others [OF e] by (auto simp: image_iff)
  note ok = lifts_ok [OF e Cons.prems(1)]
  have dist: "distinct (map wd_id rows)" "wd_id w \<notin> wd_id ` set rows" using Cons.prems(2) by simp_all
  show ?case
  proof (cases "v = w")
    case True
    let ?v = "lease (rt_uuid rt (2 * k)) (clock (k + 1) + 30000) w"
    from claimRow_fresh [OF Cons.prems(1) w(1) _ _ m] Cons.prems(6,7) True obtain job where
      job: "j = Some job" "job_deliveryId job = wd_id w" "job_row A_QUEUED job (clock (k + 1) + 30000) m ?v" by auto
    have "job_row A_QUEUED job (clock (k + 1) + 30000) d' ?v"
      by (rule claimRows_kept [OF ok dist(1) rows rest job(3)]) (use dist(2) in \<open>simp add: lease_def\<close>)
    with job jobs True show ?thesis
      by (intro bexI [of _ job] conjI exI [of _ "k + 1"] exI [of _ ?v]) (simp_all add: lease_def)
  next
    case False
    with Cons.prems(5) have v: "v \<in> set rows" by simp
    have "subscriptions m = subscriptions d" using e by (rule liftsE)
    with Cons.prems(6) have "enabledFor m v" by (simp add: enabledFor_def)
    from Cons.IH [OF ok dist(1) rows rest v this Cons.prems(7)] obtain job where "job \<in> set js"
      "job_deliveryId job = wd_id v \<and> (\<exists>j v'. job_row A_QUEUED job (clock j + 30000) d' v' \<and>
     wd_subscriptionId v' = wd_subscriptionId v \<and> wd_outboxEventId v' = wd_outboxEventId v \<and>
     wd_attemptCount v' = wd_attemptCount v + 1)" by blast
    moreover have "job \<in> set jobs" using jobs \<open>job \<in> set js\<close> by (auto split: option.splits)
    ultimately show ?thesis by blast
  qed
qed simp

lemma locked_row:
  assumes ok: "webhooks_ok d" and v: "job_row st job until d v" and alive: "clock 0 < until" "clock 1 < until"
  shows "locked clock job d = (Inr (Some v), d)"
proof -
  have "findRow (\<lambda>v. wd_id v = job_deliveryId job \<and> leased (clock 0) job v) (deliveries d) \<noteq> None"
    using v alive by (auto simp: findRow_None job_row_def leased_def)
  then obtain w where w: "findRow (\<lambda>v. wd_id v = job_deliveryId job \<and> leased (clock 0) job v) (deliveries d) = Some w" by blast
  have "w = v"
    by (rule same_row [OF ok]) (use findRow_SomeD [OF w] v in \<open>simp_all add: job_row_def\<close>)
  with w v alive show ?thesis by (simp add: locked_def op_simps job_row_def)
qed

lemma job_row_attempts:
  assumes ok: "webhooks_ok d" and v: "job_row st job until d v"
  shows "\<exists>old a. attemptsOf d (wd_id v) = old @ [a] \<and> wa_status a = st \<and> wa_number a = wd_attemptCount v \<and>
    (\<forall>b \<in> set old. wa_number b \<noteq> wd_attemptCount v)"
proof -
  have "v \<in> set (deliveries d)" "wd_status v = D_PROCESSING" using v by (simp_all add: job_row_def)
  with row_last [OF webhooks_okD(1) [OF ok]] obtain old a where
    "attemptsOf d (wd_id v) = old @ [a]" "wa_number a = wd_attemptCount v" "\<forall>b \<in> set old. wa_number b \<noteq> wd_attemptCount v"
    by blast
  with v show ?thesis by (auto simp: job_row_def)
qed

lemma start_row:
  assumes ok: "webhooks_ok d" and v: "job_row A_QUEUED job until d v" and alive: "clock 0 < until" "clock 1 < until"
    and e: "event_pk.lookup (wd_outboxEventId v) (outboxEvents d) = Some e"
  shows "\<exists>s d'. startBody rt clock job d = (Inr (Some (v, s, e)), d') \<and> job_row A_SENDING job until d' v \<and>
    webhooks_ok d' \<and> same_ledger d d'"
proof -
  from job_row_attempts [OF ok v] obtain old a where as: "attemptsOf d (wd_id v) = old @ [a]" "wa_status a = A_QUEUED"
    "wa_number a = wd_attemptCount v" "\<forall>b \<in> set old. wa_number b \<noteq> wd_attemptCount v" by blast
  have vd: "v \<in> set (deliveries d)" "wd_status v = D_PROCESSING" using v by (simp_all add: job_row_def)
  obtain s where s: "subscription_pk.lookup (wd_subscriptionId v) (subscriptions d) = Some s" "ws_enabled s"
    using webhooks_okD(2) [OF ok vd] by (auto simp: enabledFor_def split: option.splits)
  let ?d = "d\<lparr>attempts := updateRows (currentAttempt v A_QUEUED) (\<lambda>a. a\<lparr>wa_status := A_SENDING\<rparr>) (attempts d)\<rparr>"
  have count: "length (filter (currentAttempt v A_QUEUED) (attempts d)) = 1"
    using last_only(2) [OF as(3,4), of A_QUEUED] as(1,2) by (simp add: current_count attemptsOf_def)
  have run: "startBody rt clock job d = (Inr (Some (v, s, e)), ?d)"
    using locked_row [OF ok v alive] s e count
    by (simp add: startBody_def andThen_InrI op_simps findUniqueOrThrow_def)
  have "attemptsOf ?d (wd_id v) = old @ [a\<lparr>wa_status := A_SENDING\<rparr>]"
    using as last_only(1) [OF as(3,4), of A_QUEUED] by (simp add: attemptsOf_def current_update)
  with v have "job_row A_SENDING job until ?d v" by (simp add: job_row_def)
  moreover from startBody_cases [OF ok run] have "lifts d (wd_id v) (Started (job_leaseToken job)) ?d" by blast
  with lifts_ok ok have "webhooks_ok ?d" by blast
  ultimately show ?thesis using run by (intro exI [of _ s] exI [of _ ?d]) (simp add: same_ledger_def)
qed

lemma finish_row:
  assumes ok: "webhooks_ok d" and v: "job_row A_SENDING job until d v" and alive: "clock 0 < until" "clock 1 < until"
  shows "\<exists>d'. finishBody rt clock job out A_SENDING d = (Inr (), d') \<and> same_ledger d d' \<and>
    finishedDelivery (rt_now rt) False (do_retry out \<and> wd_attemptCount v < maxAttempts) out v \<in> set (deliveries d')"
proof -
  from job_row_attempts [OF ok v] obtain old a where as: "attemptsOf d (wd_id v) = old @ [a]" "wa_status a = A_SENDING"
    "wa_number a = wd_attemptCount v" "\<forall>b \<in> set old. wa_number b \<noteq> wd_attemptCount v" by blast
  have vd: "v \<in> set (deliveries d)" "wd_status v = D_PROCESSING" using v by (simp_all add: job_row_def)
  obtain s where s: "subscription_pk.lookup (wd_subscriptionId v) (subscriptions d) = Some s" "ws_enabled s"
    using webhooks_okD(2) [OF ok vd] by (auto simp: enabledFor_def split: option.splits)
  let ?f = "finishedDelivery (rt_now rt) False (do_retry out \<and> wd_attemptCount v < maxAttempts) out"
  let ?as = "updateRows (currentAttempt v A_SENDING) (completeAttempt (rt_now rt) False out) (attempts d)"
  let ?d = "d\<lparr>attempts := ?as, deliveries := delivery_pk.put (wd_id v) ?f (deliveries d)\<rparr>"
  have count: "length (filter (currentAttempt v A_SENDING) (attempts d)) = 1"
    using last_only(2) [OF as(3,4), of A_SENDING] as(1,2) by (simp add: current_count attemptsOf_def)
  have "delivery_row_ok (?f v)"
    using webhooks_okD(1) [OF ok vd(1)]
    by (simp add: row_ok_def delivery_row_ok_def finishedDelivery_def release_def Let_def)
  then have "update_delivery (wd_id v) ?f (d\<lparr>attempts := ?as\<rparr>) = (Inr (), ?d)"
    using update_delivery_run [of "wd_id v" "d\<lparr>attempts := ?as\<rparr>" v ?f] webhooks_okD(3) [OF ok vd(1)] by simp
  then have run: "finishBody rt clock job out A_SENDING d = (Inr (), ?d)"
    using locked_row [OF ok v alive] s count
    by (simp add: finishBody_def andThen_InrI op_simps findUniqueOrThrow_def)
  have "?f v \<in> set (delivery_pk.put (wd_id v) ?f (deliveries d))" by (rule in_put(2) [OF vd(1) refl])
  with run show ?thesis by (intro exI [of _ ?d]) (simp add: same_ledger_def)
qed

lemma open_count:
  assumes "row_ok v as"
  shows "length (filter openAttempt as) = (if wd_status v = D_PROCESSING then 1 else 0)"
proof -
  have closed: "filter openAttempt as = []" if "\<forall>b \<in> set as. lost b" for as
    using that by (auto simp: filter_empty_conv lost_def closed_def)
  show ?thesis
    using assms closed by (cases "wd_status v") (auto simp: row_ok_def closed_def)
qed

lemma success_count:
  assumes "row_ok v as"
  shows "length (filter (\<lambda>a. wa_status a = A_SUCCEEDED) as) = (if wd_status v = D_DELIVERED then 1 else 0)"
proof -
  have lost: "filter (\<lambda>a. wa_status a = A_SUCCEEDED) as = []" if "\<forall>b \<in> set as. lost b" for as
    using that by (auto simp: filter_empty_conv lost_def)
  have "wa_status a \<noteq> A_SUCCEEDED" if "openAttempt a" for a using that by (auto simp: openAttempt_def)
  then show ?thesis
    using assms lost by (cases "wd_status v") (auto simp: row_ok_def)
qed

section \<open>A sample\<close>

definition hook1 :: webhook_subscription where
  "hook1 = \<lparr>ws_id = ''s1'', ws_userId = ''u1'', ws_url = ''https://a.b/'', ws_encryptedSecret = ''x'', ws_enabled = True, ws_createdAt = 1\<rparr>"

definition event1 :: outbox_event where
  "event1 = new_outboxEvent ''e1'' 10 TRANSFER_COMPLETED ''Transfer'' ''t1'' ''u1'' JNull"

definition delivery1 :: webhook_delivery where
  "delivery1 = \<lparr>wd_id = ''d1'', wd_subscriptionId = ''s1'', wd_outboxEventId = ''e1'', wd_status = D_PENDING,
     wd_attemptCount = 0, wd_availableAt = 10, wd_leaseUntil = None, wd_leaseToken = None, wd_createdAt = 10\<rparr>"

definition dbw :: db where
  "dbw = db0\<lparr>outboxEvents := [event1], subscriptions := [hook1], deliveries := [delivery1]\<rparr>"

lemmas hook_defs = hook1_def event1_def delivery1_def dbw_def db0_def new_outboxEvent_def

lemma dbw_ok: "webhooks_ok dbw"
  by (simp add: webhooks_ok_def delivery_pk.unique_def subscription_pk.unique_def attemptsOf_def row_ok_def
      delivery_row_ok_def hook_defs)

definition job1 :: webhook_job where
  "job1 = \<lparr>job_deliveryId = ''d1'', job_leaseToken = ''ga''\<rparr>"

definition leased1 :: webhook_delivery where
  "leased1 = lease ''ga'' 31000 delivery1"

definition dbw1 :: db where
  "dbw1 = dbw\<lparr>deliveries := [leased1], attempts := [newAttempt ''gb'' 1000 delivery1]\<rparr>"

lemma rt0_now: "rt_now rt0 = 1000"
  by (simp add: rt0_def)

lemma claim_sample: "claimBatch None rt0 (\<lambda>_. 1000) (\<lambda>_. False) dbw = (Inr [job1], dbw1)"
proof -
  have "dueRows 1000 (\<lambda>_. False) dbw = [delivery1]"
    by (simp add: dueRows_def due_def hook_defs)
  moreover have "claimRow rt0 (\<lambda>_. 1000) 0 delivery1 dbw = (Inr (Some job1), dbw1)"
    by (simp add: claimRow_def op_simps findUniqueOrThrow_def update_delivery_def create_attempt_def subscription_pk.lookup_def
        delivery_pk.lookup_def delivery_pk.put_def dbw1_def job1_def leased1_def hook_defs newAttempt_def lease_def
        delivery_row_ok_def maxAttempts_def rt0_ids rt0_now)
  moreover have "commit_checks dbw dbw1"
    by (rule same_ledger_commit) (simp add: same_ledger_def dbw1_def dbw_def)
  moreover have "dbw1\<lparr>settings := []\<rparr> = dbw1" by (simp add: dbw1_def dbw_def db0_def)
  ultimately show ?thesis
    by (simp add: claimBatch_def prisma_transaction_def andThen_steps andThen_InrI op_apply)
qed

lemma dbw1_ok: "webhooks_ok dbw1"
  using claimBatch_progress [OF dbw_ok claim_sample] by blast

lemma run_one: "webhook_step rt d d' \<Longrightarrow> webhook_run UNIV d d'"
  unfolding webhook_run_def by (rule r_into_rtranclp) blast

lemma step_sample: "webhook_step rt0 dbw dbw1"
  using claim_sample by (rule webhook_step.claim)

lemma job_row_sample: "job_row A_QUEUED job1 31000 dbw1 leased1"
  by (simp add: job_row_def dbw1_def leased1_def lease_def job1_def delivery1_def attemptsOf_def newAttempt_def)

lemma event_sample: "event_pk.lookup ''e1'' (outboxEvents dbw) = Some event1" "event_pk.lookup ''e1'' (outboxEvents dbw1) = Some event1"
  by (simp_all add: event_pk.lookup_def dbw1_def hook_defs)

section \<open>Properties\<close>



text \<open>C20. The services implement the state machine of a delivery: one transaction moves each existing delivery
  and its attempts by steps of \<open>row_step\<close> only (claim, give up, start, finish, cancel), with leases drawn
  by that transaction, and removes none.\<close>

theorem webhook_refines_machine:
  assumes "webhooks_ok d" "webhook_step rt d d'" "v \<in> set (deliveries d)"
  shows "\<exists>v' \<in> set (deliveries d'). wd_id v' = wd_id v \<and>
    row_steps (range (rt_uuid rt)) (v, attemptsOf d (wd_id v)) (v', attemptsOf d' (wd_id v))"
  using webhook_step_progress [OF assms(2,1)] assms(3) by (auto simp: progress_def)

lemma webhook_refines_machine_witness:
  "row_steps (range (rt_uuid rt0)) (delivery1, []) (leased1, [newAttempt ''gb'' 1000 delivery1])"
proof -
  have d: "delivery1 \<in> set (deliveries dbw)" "attemptsOf dbw (wd_id delivery1) = []"
    "deliveries dbw1 = [leased1]" "attemptsOf dbw1 (wd_id delivery1) = [newAttempt ''gb'' 1000 delivery1]"
    by (simp_all add: dbw_def dbw1_def attemptsOf_def db0_def newAttempt_def)
  from webhook_refines_machine [OF dbw_ok step_sample d(1)] show ?thesis unfolding d by simp
qed

text \<open>A delivery that is delivered, failed or cancelled is final: no later step of any service changes it or
  its attempts.\<close>

theorem webhook_final:
  assumes "webhooks_ok d" "webhook_run UNIV d d'" "v \<in> set (deliveries d)"
    "wd_status v = D_DELIVERED \<or> wd_status v = D_FAILED \<or> wd_status v = D_CANCELLED"
  shows "v \<in> set (deliveries d') \<and> attemptsOf d' (wd_id v) = attemptsOf d (wd_id v)"
proof -
  have "progress UNIV d d'" using webhook_run_progress [OF assms(2,1)] by simp
  from progressD [OF this assms(3)] obtain v' where v': "v' \<in> set (deliveries d')" "wd_id v' = wd_id v"
    "row_steps UNIV (v, attemptsOf d (wd_id v)) (v', attemptsOf d' (wd_id v))" .
  have "\<not> waiting v" using assms(4) by (auto simp: waiting_def)
  with row_steps_terminal [OF v'(3)] v'(1) show ?thesis by simp
qed

definition failed1 :: webhook_delivery where
  "failed1 = delivery1\<lparr>wd_status := D_FAILED\<rparr>"

lemma webhook_final_witness:
  "failed1 \<in> set (deliveries (snd (claimBatch None rt0 (\<lambda>_. 1000) (\<lambda>_. False) (dbw\<lparr>deliveries := [failed1]\<rparr>))))"
proof -
  let ?d = "dbw\<lparr>deliveries := [failed1]\<rparr>"
  have ok: "webhooks_ok ?d"
    by (simp add: webhooks_ok_def delivery_pk.unique_def subscription_pk.unique_def attemptsOf_def row_ok_def
      delivery_row_ok_def hook_defs failed1_def)
  have "webhook_step rt0 ?d (snd (claimBatch None rt0 (\<lambda>_. 1000) (\<lambda>_. False) ?d))"
    by (rule webhook_step.claim [OF prod.collapse [symmetric]])
  from webhook_final [OF ok run_one [OF this], of failed1] show ?thesis by (simp add: failed1_def)
qed

text \<open>C22. A claimed job leads to at most one request: once it was started, starting it again, by whichever
  worker and after whatever other steps, hands out nothing and changes nothing, provided no later claim
  draws the same random lease token.\<close>

theorem webhook_sent_once:
  assumes ok: "webhooks_ok d" and first: "start abort rt clock job d = (Inr (Some s), d1)"
    and later: "webhook_run T d1 d2" "job_leaseToken job \<notin> T"
    and again: "start abort' rt' clock' job d2 = (r, d3)"
  shows "(r = Inr None \<or> (\<exists>e. r = Inl e)) \<and> deliveries d3 = deliveries d2 \<and> attempts d3 = attempts d2"
proof -
  let ?t = "job_leaseToken job"
  from first obtain m where m: "startBody rt clock job d = (Inr (Some s), m)" "d1 = m\<lparr>settings := []\<rparr>"
    by (auto simp: start_def prisma_transaction_Inr)
  from startBody_cases [OF ok m(1)] obtain v where v: "v \<in> set (deliveries d)" "wd_id v = job_deliveryId job"
    "lifts d (wd_id v) (Started ?t) m" by auto
  from lifts_row [OF v(3) ok v(1)] obtain v1 where v1: "v1 \<in> set (deliveries m)" "wd_id v1 = wd_id v"
    "row_step (v, attemptsOf d (wd_id v)) (Started ?t) (v1, attemptsOf m (wd_id v))" by blast
  have sent: "spent ?t (v1, attemptsOf d1 (wd_id v))" using row_step_starts [OF v1(3)] by (simp add: m(2))
  have ok1: "webhooks_ok d1" using lifts_ok [OF v(3) ok] by (simp add: m(2))
  have ok2: "webhooks_ok d2" and "progress T d1 d2" using webhook_run_progress [OF later(1) ok1] by simp_all
  from progressD [OF this(2), of v1] v1(1,2) obtain v2 where v2: "v2 \<in> set (deliveries d2)" "wd_id v2 = wd_id v"
    "row_steps T (v1, attemptsOf d1 (wd_id v)) (v2, attemptsOf d2 (wd_id v))" by (auto simp: m(2))
  have spent2: "spent ?t (v2, attemptsOf d2 (wd_id v))" by (rule row_steps_spent [OF v2(3) later(2) sent])
  show ?thesis
  proof (cases r)
    case (Inl e)
    with again prisma_transaction_Inl show ?thesis by (metis start_def)
  next
    case (Inr x)
    with again obtain n where n: "startBody rt' clock' job d2 = (Inr x, n)" "d3 = n\<lparr>settings := []\<rparr>"
      by (auto simp: start_def prisma_transaction_Inr)
    from startBody_cases [OF ok2 n(1)] show ?thesis
    proof (elim disjE exE conjE)
      assume "x = None" "n = d2"
      with Inr n(2) show ?thesis by simp
    next
      fix w s e assume w: "w \<in> set (deliveries d2)" "wd_id w = job_deliveryId job" "lifts d2 (wd_id w) (Started ?t) n"
      have "w = v2" by (rule same_row [OF ok2 w(1) v2(1)]) (simp add: w(2) v(2) v2(2))
      with lifts_row [OF w(3) ok2 w(1)] obtain y where "row_step (v2, attemptsOf d2 (wd_id v)) (Started ?t) y"
        using v2(2) by auto
      with row_step_starts spent2 show ?thesis by blast
    qed
  qed
qed

lemma webhook_sent_once_witness:
  "\<exists>s d1. start None rt0 (\<lambda>_. 1001) job1 dbw1 = (Inr (Some s), d1) \<and>
    \<not> (\<exists>s'. fst (start None rt0 (\<lambda>_. 1002) job1 d1) = Inr (Some s'))"
proof -
  have e: "event_pk.lookup (wd_outboxEventId leased1) (outboxEvents dbw1) = Some event1"
    using event_sample(2) by (simp add: leased1_def lease_def delivery1_def)
  from start_row [OF dbw1_ok job_row_sample _ _ this, of "\<lambda>_. 1001" rt0] obtain s m where
    m: "startBody rt0 (\<lambda>_. 1001) job1 dbw1 = (Inr (Some (leased1, s, event1)), m)" "same_ledger dbw1 m" by auto
  let ?d1 = "m\<lparr>settings := []\<rparr>"
  have first: "start None rt0 (\<lambda>_. 1001) job1 dbw1 = (Inr (Some (leased1, s, event1)), ?d1)"
    using m same_ledger_commit by (simp add: start_def prisma_transaction_def)
  have "webhook_run {} ?d1 ?d1" by (simp add: webhook_run_def)
  from webhook_sent_once [OF dbw1_ok first this _ prod.collapse [symmetric], of None rt0 "\<lambda>_. 1002"]
  have "\<not> (\<exists>s'. fst (start None rt0 (\<lambda>_. 1002) job1 ?d1) = Inr (Some s'))" by auto
  with first show ?thesis by blast
qed

definition nextStatus :: "delivery_outcome \<Rightarrow> nat \<Rightarrow> WebhookDeliveryStatus" where
  "nextStatus out n = (if do_success out then D_DELIVERED
     else if do_retry out \<and> n < maxAttempts then D_PENDING else D_FAILED)"

text \<open>An execution in time, with committed transactions and no other request on the way.\<close>

definition undisturbed :: "execution \<Rightarrow> time \<Rightarrow> bool" where
  "undisturbed ex until \<longleftrightarrow> ex_startAbort ex = None \<and> ex_finishAbort ex = None \<and> ex_others ex = (\<lambda>d. d) \<and>
     ex_startClock ex 0 < until \<and> ex_startClock ex 1 < until \<and> ex_finishClock ex 0 < until \<and> ex_finishClock ex 1 < until"

lemma execute_settles:
  assumes ok: "webhooks_ok d" and v: "job_row A_QUEUED job until d v"
    and e: "event_pk.lookup (wd_outboxEventId v) (outboxEvents d) = Some e" and ex: "undisturbed ex until"
  shows "\<exists>s d2 v2. execute ex rt cr net job d = (Inr (), d2) \<and> v2 \<in> set (deliveries d2) \<and> wd_id v2 = wd_id v \<and>
    wd_status v2 = nextStatus (attemptOutcome rt cr net (v, s, e)) (wd_attemptCount v)"
proof -
  from ex have clocks: "ex_startClock ex 0 < until" "ex_startClock ex 1 < until"
    "ex_finishClock ex 0 < until" "ex_finishClock ex 1 < until" by (simp_all add: undisturbed_def)
  from start_row [OF ok v clocks(1,2) e] obtain s m where m: "startBody rt (ex_startClock ex) job d = (Inr (Some (v, s, e)), m)"
    "job_row A_SENDING job until m v" "webhooks_ok m" "same_ledger d m" by blast
  let ?m = "m\<lparr>settings := []\<rparr>" and ?out = "attemptOutcome rt cr net (v, s, e)"
  have started: "start None rt (ex_startClock ex) job d = (Inr (Some (v, s, e)), ?m)"
    using m(1) same_ledger_commit [OF m(4)] by (simp add: start_def prisma_transaction_def)
  have "job_row A_SENDING job until ?m v" "webhooks_ok ?m" using m(2,3) by simp_all
  from finish_row [OF this(2,1) clocks(3,4)] obtain n where
    n: "finishBody rt (ex_finishClock ex) job ?out A_SENDING ?m = (Inr (), n)" "same_ledger ?m n"
      "finishedDelivery (rt_now rt) False (do_retry ?out \<and> wd_attemptCount v < maxAttempts) ?out v \<in> set (deliveries n)" by blast
  have "finish None rt (ex_finishClock ex) job ?out A_SENDING ?m = (Inr (), n\<lparr>settings := []\<rparr>)"
    using n(1) same_ledger_commit [OF n(2)] by (simp add: finish_def prisma_transaction_def)
  then have "execute ex rt cr net job d = (Inr (), n\<lparr>settings := []\<rparr>)"
    using started ex by (simp add: execute_def undisturbed_def andThen_InrI andThen_steps)
  moreover have "wd_id (finishedDelivery t False b out v) = wd_id v"
    "wd_status (finishedDelivery t False (do_retry out \<and> wd_attemptCount v < maxAttempts) out v) = nextStatus out (wd_attemptCount v)"
    for t b out by (simp_all add: finishedDelivery_def release_def Let_def nextStatus_def)
  ultimately show ?thesis
    using n(3) by (intro exI [of _ s] exI [of _ "n\<lparr>settings := []\<rparr>"]
      exI [of _ "finishedDelivery (rt_now rt) False (do_retry ?out \<and> wd_attemptCount v < maxAttempts) ?out v"] conjI) simp_all
qed

text \<open>C23. A due delivery of an enabled subscription with attempts left is claimed under a lease of 30 seconds, and
  executing its job within the lease settles it by the answer of the endpoint alone: delivered on 2xx,
  pending again on a retryable failure unless it was the fifth attempt, failed otherwise.\<close>

theorem webhook_settles:
  assumes ok: "webhooks_ok d" and due: "v \<in> set (dueRows (clock 0) skip d)"
    and v: "enabledFor d v" "wd_attemptCount v < maxAttempts"
    and event: "event_pk.lookup (wd_outboxEventId v) (outboxEvents d) = Some e"
    and claim: "claimBatch None rt clock skip d = (Inr jobs, d1)"
  shows "\<exists>job \<in> set jobs. job_deliveryId job = wd_id v \<and> (\<exists>k v1. wd_id v1 = wd_id v \<and>
    wd_attemptCount v1 = wd_attemptCount v + 1 \<and> (\<forall>ex rt' cr net.
    undisturbed ex (clock k + 30000) \<longrightarrow>
      (\<exists>s d2 v2. execute ex rt' cr net job d1 = (Inr (), d2) \<and> v2 \<in> set (deliveries d2) \<and> wd_id v2 = wd_id v \<and>
        wd_status v2 = nextStatus (attemptOutcome rt' cr net (v1, s, e)) (wd_attemptCount v + 1))))"
proof -
  from claim obtain m where m: "claimRows rt clock 0 (dueRows (clock 0) skip d) d = (Inr jobs, m)" "d1 = m\<lparr>settings := []\<rparr>"
    by (auto simp: claimBatch_def prisma_transaction_Inr andThen_steps)
  have rows: "\<forall>v \<in> set (dueRows (clock 0) skip d). v \<in> set (deliveries d) \<and> waiting v"
    using dueRows_sound(2) [OF ok] by blast
  from claimRows_progress [OF ok dueRows_sound(1) [OF ok] rows m(1)] have okm: "webhooks_ok m" "same_ledger d m" by simp_all
  from claimRows_fresh [OF ok dueRows_sound(1) [OF ok] rows m(1) due v] obtain job k v1 where
    job: "job \<in> set jobs" "job_deliveryId job = wd_id v" "job_row A_QUEUED job (clock k + 30000) m v1"
      "wd_outboxEventId v1 = wd_outboxEventId v" "wd_attemptCount v1 = wd_attemptCount v + 1" by blast
  have id: "wd_id v1 = wd_id v" using job(2,3) by (simp add: job_row_def)
  have row1: "job_row A_QUEUED job (clock k + 30000) d1 v1" and ok1: "webhooks_ok d1"
    using job(3) okm(1) by (simp_all add: m(2))
  have e1: "event_pk.lookup (wd_outboxEventId v1) (outboxEvents d1) = Some e"
    using event by (simp add: job(4) m(2) same_ledger_fields [OF okm(2)])
  have "\<exists>s d2 v2. execute ex rt' cr net job d1 = (Inr (), d2) \<and> v2 \<in> set (deliveries d2) \<and> wd_id v2 = wd_id v \<and>
      wd_status v2 = nextStatus (attemptOutcome rt' cr net (v1, s, e)) (wd_attemptCount v + 1)"
    if ex: "undisturbed ex (clock k + 30000)" for ex rt' cr net
    by (rule execute_settles [OF ok1 row1 e1 ex, of rt' cr net, unfolded id job(5)])
  with job(1,2,5) id show ?thesis by blast
qed

lemma webhook_settles_witness:
  "\<exists>job \<in> {job1}. job_deliveryId job = ''d1'' \<and> (\<exists>k v1. wd_id v1 = ''d1'' \<and> wd_attemptCount v1 = 1 \<and> (\<forall>ex rt' cr net.
    undisturbed ex ((\<lambda>_. 1000) (k :: nat) + 30000) \<longrightarrow>
      (\<exists>s d2 v2. execute ex rt' cr net job dbw1 = (Inr (), d2) \<and> v2 \<in> set (deliveries d2) \<and> wd_id v2 = ''d1'' \<and>
        wd_status v2 = nextStatus (attemptOutcome rt' cr net (v1, s, event1)) 1)))"
proof -
  have due: "delivery1 \<in> set (dueRows ((\<lambda>_. 1000) 0) (\<lambda>_. False) dbw)"
    by (simp add: dueRows_def due_def hook_defs)
  have en: "enabledFor dbw delivery1" "wd_attemptCount delivery1 < maxAttempts"
    "event_pk.lookup (wd_outboxEventId delivery1) (outboxEvents dbw) = Some event1"
    by (simp_all add: enabledFor_def subscription_pk.lookup_def event_pk.lookup_def maxAttempts_def hook_defs)
  have "wd_id delivery1 = ''d1''" "wd_attemptCount delivery1 + 1 = 1" "set [job1] = {job1}" by (simp_all add: delivery1_def)
  from webhook_settles [OF dbw_ok due en claim_sample, unfolded this] show ?thesis .
qed

end
