(* ===== verification/Spec2Isabelle.thy ===== *)
theory Spec2Isabelle
  imports RequestClaims Configuration Workers LedgerAudit Announcements SmokeTest PaymentClaims BeneficiaryClaims WebhookClaims
begin

text \<open>
  A verification development for the fintech transaction platform: wallets over a double-entry
  ledger, transfers, reversals, provider payments, webhooks and notifications, as a NestJS server and a
  worker over one PostgreSQL database.

  \<^bold>\<open>How the code is modelled.\<close> A service method is a state-passing function on the record \<open>db\<close> (one list
  of rows per table) that returns an exception of the datatype \<open>exn\<close> or a result (\<open>op\<close> in \<open>Prelude\<close>).
  Raises, early returns and the order of the reads and writes are those of the source. A write of Prisma
  is a function that applies the columns' widths, unique and foreign keys, checks and triggers of
  \<open>prisma/migrations\<close>; \<open>prisma_transaction\<close> runs a body, the deferred triggers on the rows it wrote, and
  either commits or rolls back. Serializable transactions are taken as atomic steps, one after the
  other. What happens around a step is an argument:
  \<^item> \<open>others\<close>: any change by other requests between the guard and a service and between two transactions;
  \<^item> \<open>abort\<close>: an error that the database raises at the commit of a transaction, serialization failures included;
  \<^item> \<open>observed\<close>: what the five reads after a lost race see; \<open>skip\<close>: the rows that other workers have locked;
  \<^item> the clock, and \<open>rt_uuid\<close>: the ids drawn by a call, numbered; \<open>uuid_source\<close> says what they look like, and
    whether an id is new is checked by the keys of its table.
  Rows in JSON columns keep the key order of the text that is signed.

  \<^bold>\<open>Parameters\<close> for code outside the repository: scrypt, JSON Web Tokens, SHA-256, HMAC, AES-GCM, the URL
  parser, DNS, HTTPS and \<open>fetch\<close>, \<open>JSON.parse\<close>, Redis and the queues of BullMQ, the UUID and address checks
  of the validators, and the texts of validators' messages. A property that relies on one of them names what it
  relies on as a hypothesis, and its witness has an instance.

  \<^bold>\<open>Parts.\<close>
  \<^item> Foundations: \<open>Prelude\<close> (exceptions, operations, keyed tables as the locale \<open>keyed\<close>), \<open>JsRuntime\<close> (trim,
    toLowerCase, \<open>BigInt\<close>, JSON text), \<open>JsNumber\<close> (\<open>Number\<close> of a string as a double), \<open>Base64\<close>, \<open>Schema\<close>
    (\<open>prisma/schema.prisma\<close>), \<open>Constraints\<close>, \<open>Records\<close> and \<open>Commit\<close> (the migrations).
  \<^item> \<open>src/ledger\<close>: \<open>LedgerInvariants\<close> and \<open>Ledger\<close>; \<open>LedgerEffect\<close>, \<open>LedgerCorrect\<close>, \<open>LedgerSafety\<close> and
    \<open>LedgerClaims\<close> characterise a post by its effect on every table and show that accounts, wallets and
    postings agree and that each currency sums to zero (\<open>ledger_ok\<close>).
  \<^item> \<open>src/wallets\<close>, \<open>src/users\<close>: \<open>Wallets\<close>, with \<open>identity_ok\<close>.
  \<^item> \<open>src/transfers\<close>, \<open>src/reversals\<close>: \<open>Transfers\<close> and \<open>Reversals\<close> with the shared protocol of
    \<open>Idempotency\<close>, whose contract is the locale \<open>idempotent_work\<close>, interpreted by both services; \<open>Messages\<close>,
    \<open>...Correct\<close> (which requests succeed, with what effect), \<open>...Commit\<close> (a success passes every deferred
    trigger) and \<open>...Claims\<close>.
  \<^item> \<open>src/payments\<close>: \<open>Providers\<close>, \<open>Payments\<close>, \<open>PaymentAmounts\<close>, \<open>PaymentCorrect\<close>, \<open>PaymentCommit\<close>,
    \<open>PaymentClaims\<close> (settlement) and \<open>IntentClaims\<close> (intents and checkouts). \<open>books_ok\<close> is the invariant of
    ledger, identities and payments together.
  \<^item> \<open>src/beneficiaries\<close>, \<open>src/audit\<close>: \<open>Beneficiaries\<close>, \<open>BeneficiaryClaims\<close> (refinement of an address book),
    \<open>AuditTrail\<close>; \<open>Pagination\<close> is shared by the four listings.
  \<^item> \<open>src/webhooks\<close>: \<open>WebhookTransport\<close>, \<open>Webhooks\<close>, \<open>WebhookDelivery\<close>; \<open>WebhookInvariant\<close>,
    \<open>WebhookSteps\<close> and \<open>WebhookClaims\<close> refine the services to the state machine \<open>row_step\<close> of a single delivery;
    \<open>EndpointClaims\<close>.
  \<^item> \<open>src/async\<close>: \<open>Outbox\<close>, \<open>OutboxClaims\<close>; the start, timer and shutdown of both polling services:
    \<open>Workers\<close>, whose contract is the locale \<open>single_flight\<close>.
  \<^item> \<open>src/auth\<close>: \<open>Auth\<close>, \<open>AuthClaims\<close>. \<open>src/config\<close>: \<open>Configuration\<close>.
  \<^item> \<open>src/health\<close>: \<open>Monitoring\<close> (the probes and the metrics). \<open>src/main.ts\<close>: \<open>bootstrap\<close> in \<open>Configuration\<close>.
  \<^item> \<open>scripts\<close>: \<open>LedgerAudit\<close> (\<open>audit-ledger.mjs\<close>: its exit code is 0 exactly on sound ledgers, and in every reachable
    state) and \<open>SmokeTest\<close> (\<open>smoke-local.mjs\<close>: one run through registration, payment, transfer and reversal).
  \<^item> The controllers, the rate guard and the validated inputs: \<open>Api\<close>, \<open>Requests\<close>, \<open>RequestClaims\<close>.
  \<^item> The whole: \<open>System\<close> defines \<open>system_run\<close>, every interleaving of API requests, callbacks, webhook steps,
    outbox polls and notification jobs, with the locales \<open>step_relation\<close>, \<open>transactions\<close> and \<open>calls\<close> for what all
    steps, transactions and calls keep; the properties of this theory are about those runs, which requests in
    their raw form are part of (\<open>request_run\<close>). \<open>Announcements\<close> shows on them that the movements of money and the outbox
    events correspond. \<open>Samples\<close> and \<open>ApiSamples\<close> hold the data of the witnesses.

  \<^bold>\<open>Bounds.\<close> No definition runs out of fuel: the five reads after a lost race and the three attempts of a settlement
  are those of the code, batches are cut at 25 events and 10 deliveries, a lease lasts 30 seconds and a
  delivery has 5 attempts, as in the source. Amounts are \<open>int\<close> with the checks of \<open>BIGINT\<close> written out; characters are
  those of Latin-1, so \<open>toLowerCase\<close> and \<open>trim\<close> are defined on these.

  \<^bold>\<open>Not modelled\<close>: the module wiring and start of Nest, connection handling of Prisma and ioredis, the set-up of
  the queues, the layout of the metrics as text and the uptime in it, the headers that helmet sets, the counter that
  the rate guard keeps in Redis (only its answers), the other scripts under \<open>scripts\<close>, logging, bodies that are not JSON objects, and the wall-clock limits of transactions, which appear only as
  \<open>abort\<close>.
\<close>

section \<open>The books in every reachable state\<close>

lemma request_run:
  assumes "uuid_source (ap_runtime ap)" "\<forall>k e. system_run e (ap_others ap k e)"
    "\<forall>k e. system_run e (sa_others (ap_settlement ap k) e)" and run: "handleRequest ap pp e d = (r, d')"
  shows "system_run d d'"
proof (cases "parseRequest pp e")
  case (Inl err)
  from handleRequest_refused [OF this run] assms(2) show ?thesis using system_run.idle by metis
next
  case (Inr route)
  with run have "handle ap route d = (r, d')" by (simp add: handleRequest_def)
  then show ?thesis by (rule system_run.request [OF assms(1-3)])
qed

text \<open>C1. In every state the program can reach from sound books, by any requests, callbacks, worker polls and
  jobs in any order and with any interleaving of their transactions, the books are sound again: ledger,
  identities and payments. The balances of each currency sum to zero, and every wallet shows the sum of
  its postings and is never negative.\<close>

theorem system_invariant:
  assumes "books_ok d" "system_run d d'"
  shows "books_ok d' \<and> balanceOf c d' = 0 \<and>
    (\<forall>w. w \<in> set (wallets d') \<longrightarrow> 0 \<le> w_currentBalanceMinor w \<and> w_currentBalanceMinor w = postedTo d' (w_ledgerAccountId w))"
proof -
  have ok: "books_ok d'" using system_run_keeps [OF assms(2)] assms(1) by (simp add: keeps_def)
  moreover from this have "balanceOf c d' = 0" by (intro books_balance) (simp_all add: books_ok_def ledger_ok_def)
  ultimately show ?thesis using books_wallet [OF ok] by blast
qed

text \<open>C2. The record is append-only: in every run the users, the identities, owners and currencies of wallets,
  the ledger transactions and postings, the transfers, reversals, audit entries, idempotency records and
  provider events of a state are an initial part of those of every later state, and a payment that has
  succeeded or failed stays as it is.\<close>

theorem system_append_only:
  assumes "books_ok d" "system_run d d'"
  shows "prefix (users d) (users d') \<and>
     prefix (map walletIdentity (wallets d)) (map walletIdentity (wallets d')) \<and>
     prefix (ledgerTransactions d) (ledgerTransactions d') \<and> prefix (postings d) (postings d') \<and>
     prefix (transfers d) (transfers d') \<and> prefix (reversals d) (reversals d') \<and>
     prefix (auditLogs d) (auditLogs d') \<and> prefix (idempotencyRecords d) (idempotencyRecords d') \<and>
     prefix (providerEvents d) (providerEvents d') \<and>
     (\<forall>p. p \<in> set (payments d) \<longrightarrow> p_status p \<noteq> P_PENDING \<longrightarrow> p \<in> set (payments d'))"
  using system_run_keeps [OF assms(2)] assms(1) by (simp add: keeps_def history_def)

section \<open>Who may do what\<close>

text \<open>C3. Every route but registration, login and the provider callbacks is closed: the request is refused with
  401 and nothing changes, or it carried a bearer token that verifies as an access token of a user in the
  database.\<close>

theorem api_authenticated:
  assumes "handle ap route d = (r, d')" "\<not> open_route route"
  shows "(\<exists>m. r = Inl (Unauthorized m) \<and> d' = d) \<or> (\<exists>u. authenticatedAs ap d u)"
proof -
  obtain f where "handle ap route = guarded ap f" using protected_guarded [OF assms(2)] by blast
  with assms(1) have "guarded ap f d = (r, d')" by simp
  from guarded_run [OF this] show ?thesis by blast
qed

text \<open>C4. Money leaves a wallet in two ways only. If a request (alone on the database) leaves a wallet with
  less than before, it is a transfer out of a wallet of the authenticated user, or a reversal that undoes,
  by exactly its amount, a completed transfer that the authenticated user sent. No other route,
  whatever its input, takes money from anyone.\<close>

theorem api_debits:
  assumes rt: "uuid_source (ap_runtime ap)" and alone: "\<And>k e. ap_others ap k e = e" "\<And>k e. sa_others (ap_settlement ap k) e = e"
    and ok: "books_ok d" and run: "handle ap route d = (r, d')"
    and debit: "balanceAt wid d = Some x" "balanceAt wid d' = Some y" "y < x"
  shows "\<exists>u. authenticatedAs ap d u \<and>
     ((\<exists>input req w. route = TransfersRoute (CreateTransfer input) \<and> normalizeTransferRequest input = Inr req \<and>
         w \<in> set (wallets d) \<and> w_id w = wid \<and> w_userId w = u_id u \<and> y = x - tr_amountMinor req) \<or>
      (\<exists>tid reason t. route = ReversalsRoute (CreateReversal tid reason) \<and> t \<in> set (transfers d) \<and>
         t_id t = js_toLowerCase tid \<and> t_senderUserId t = u_id u \<and> t_status t = T_COMPLETED \<and>
         wid = t_destinationWalletId t \<and> y = x - t_amountMinor t))"
proof -
  have led: "ledger_ok d" using ok by (simp add: books_ok_def)
  from debit_routes [OF rt alone ok run debit] show ?thesis
  proof (elim disjE exE)
    fix input assume route: "route = TransfersRoute (CreateTransfer input)"
    from transfer_debit [OF led alone(1) run [unfolded route] debit] route show ?thesis by blast
  next
    fix tid reason assume route: "route = ReversalsRoute (CreateReversal tid reason)"
    from reversal_debit [OF led alone(1) run [unfolded route] debit] route show ?thesis by blast
  qed
qed

section \<open>Witnesses\<close>

theorem system_invariant_witness:
  "books_ok (after_transfer rt0 ''u1'' ''k-1'' request0 route0 ledger0 db0)"
  using system_invariant [OF db0_books run0] by blast

theorem system_append_only_witness:
  "prefix (postings db0) (postings (after_transfer rt0 ''u1'' ''k-1'' request0 route0 ledger0 db0))"
  using system_append_only [OF db0_books run0] by blast

theorem api_authenticated_witness:
  "\<exists>u. authenticatedAs api0 db0 u"
  using api_authenticated [OF request0_runs] by auto

theorem api_debits_witness:
  "\<exists>u. authenticatedAs api0 db0 u \<and> (\<exists>w \<in> set (wallets db0). w_id w = ''w1'' \<and> w_userId w = u_id u)"
proof -
  have b: "balanceAt ''w1'' db0 = Some 1000"
    "balanceAt ''w1'' (after_transfer rt0 ''u1'' ''k-1'' request0 route0 ledger0 db0) = Some 750" by code_simp+
  have rt: "uuid_source (ap_runtime api0)" using uuid_source_rt0 by (simp add: api0_def)
  have alone: "ap_others api0 k e = e" "sa_others (ap_settlement api0 k) e = e" for k e by (simp_all add: api0_def)
  from api_debits [OF rt alone db0_books request0_runs b] show ?thesis by auto
qed

end
